(* ===== verification/Magi_Prelude.thy ===== *)
theory Magi_Prelude
  imports Main "HOL-Library.Word"
begin

text \<open>
  Shared vocabulary of the development.

  \<^item> Machine integers: Rust's \<open>u8\<close> to \<open>u128\<close> and the 256-bit integers of the Ethereum
    libraries are words of that width. The released binary is built by
    \<^verbatim>\<open>cargo build --release\<close> (see the repository's Dockerfile) and \<^verbatim>\<open>Cargo.toml\<close> does not
    turn overflow checks on, so \<open>+\<close>, \<open>-\<close> and \<open>*\<close> wrap around, as they do on words.
    Lengths and indices (\<open>usize\<close>) are \<open>nat\<close>.
  \<^item> Outcomes: a Rust call returns a value, returns an error (\<open>Err\<close>, propagated by the
    question mark operator) or panics. \<open>Diverge\<close> is the outcome of a loop that never ends.
  \<^item> Slices: \<open>slice\<close>, \<open>slice_from\<close> and \<open>index\<close> panic out of range as Rust's indexing
    does; \<open>slice_get\<close> is the non-panicking \<open>get\<close>.
  \<^item> Big-endian byte conversions and their round trips.
\<close>

unbundle bit_operations_syntax

type_synonym u8 = "8 word"
type_synonym u16 = "16 word"
type_synonym u32 = "32 word"
type_synonym u64 = "64 word"
type_synonym u128 = "128 word"
type_synonym u256 = "256 word"
type_synonym h256 = "256 word"
type_synonym address = "160 word"
type_synonym bytes = "u8 list"

named_theorems outcome_simps \<open>rules that take a sequence of fallible calls apart\<close>
named_theorems bytes_simps \<open>lengths and round trips of byte encodings\<close>

section \<open>Outcomes of a Rust call\<close>

datatype error = Eyre string | External string

datatype panic =
    IndexOutOfBounds
  | UnwrapFailed string
  | DivideByZero
  | Explicit string

datatype 'a outcome = Ok 'a | Err error | Panic panic | Diverge

fun and_then :: "'a outcome \<Rightarrow> ('a \<Rightarrow> 'b outcome) \<Rightarrow> 'b outcome" where
  "and_then (Ok x) f = f x"
| "and_then (Err e) f = Err e"
| "and_then (Panic p) f = Panic p"
| "and_then Diverge f = Diverge"

fun ok_or :: "'a option \<Rightarrow> string \<Rightarrow> 'a outcome" where
  "ok_or (Some x) msg = Ok x"
| "ok_or None msg = Err (Eyre msg)"

fun unwrap_opt :: "'a option \<Rightarrow> string \<Rightarrow> 'a outcome" where
  "unwrap_opt (Some x) msg = Ok x"
| "unwrap_opt None msg = Panic (UnwrapFailed msg)"

text \<open>\<open>unwrap\<close> on a \<open>Result\<close>: the error becomes a panic.\<close>

fun unwrap_res :: "'a outcome \<Rightarrow> string \<Rightarrow> 'a outcome" where
  "unwrap_res (Ok x) msg = Ok x"
| "unwrap_res (Err e) msg = Panic (UnwrapFailed msg)"
| "unwrap_res (Panic p) msg = Panic p"
| "unwrap_res Diverge msg = Diverge"

fun is_ok :: "'a outcome \<Rightarrow> bool" where
  "is_ok (Ok x) = True"
| "is_ok _ = False"

fun is_panic :: "'a outcome \<Rightarrow> bool" where
  "is_panic (Panic p) = True"
| "is_panic _ = False"

lemma and_then_eq_Ok [outcome_simps]:
  "and_then m f = Ok y \<longleftrightarrow> (\<exists>x. m = Ok x \<and> f x = Ok y)"
  by (cases m) auto

lemma and_then_eq_Err [outcome_simps]:
  "and_then m f = Err e \<longleftrightarrow> m = Err e \<or> (\<exists>x. m = Ok x \<and> f x = Err e)"
  by (cases m) auto

lemma and_then_eq_Panic [outcome_simps]:
  "and_then m f = Panic p \<longleftrightarrow> m = Panic p \<or> (\<exists>x. m = Ok x \<and> f x = Panic p)"
  by (cases m) auto

lemma and_then_eq_Diverge [outcome_simps]:
  "and_then m f = Diverge \<longleftrightarrow> m = Diverge \<or> (\<exists>x. m = Ok x \<and> f x = Diverge)"
  by (cases m) auto

lemma and_then_cong [fundef_cong]:
  "m = m' \<Longrightarrow> (\<And>x. m' = Ok x \<Longrightarrow> f x = g x) \<Longrightarrow> and_then m f = and_then m' g"
  by (cases m') auto

lemma ok_or_eq_Ok [outcome_simps]: "ok_or m msg = Ok x \<longleftrightarrow> m = Some x"
  by (cases m) auto

lemma ok_or_no_panic [simp]: "ok_or m msg \<noteq> Panic p" "ok_or m msg \<noteq> Diverge"
  by (cases m; simp)+

lemma unwrap_opt_eq_Ok [outcome_simps]: "unwrap_opt m msg = Ok x \<longleftrightarrow> m = Some x"
  by (cases m) auto

lemma unwrap_opt_no_err [simp]: "unwrap_opt m msg \<noteq> Err e" "unwrap_opt m msg \<noteq> Diverge"
  by (cases m; simp)+

lemma unwrap_res_eq_Ok [outcome_simps]: "unwrap_res m msg = Ok x \<longleftrightarrow> m = Ok x"
  by (cases m) auto

text \<open>Running a fallible function over a list, stopping at the first failure.\<close>

fun map_outcome :: "('a \<Rightarrow> 'b outcome) \<Rightarrow> 'a list \<Rightarrow> 'b list outcome" where
  "map_outcome f [] = Ok []"
| "map_outcome f (x # xs) = and_then (f x) (\<lambda>y. and_then (map_outcome f xs) (\<lambda>ys. Ok (y # ys)))"

lemma map_outcome_eq_Ok:
  "map_outcome f xs = Ok ys \<longleftrightarrow> list_all2 (\<lambda>x y. f x = Ok y) xs ys"
  by (induction xs arbitrary: ys) (auto simp: outcome_simps list_all2_Cons1)

lemma map_outcome_cong [fundef_cong]:
  "xs = ys \<Longrightarrow> (\<And>x. x \<in> set ys \<Longrightarrow> f x = g x) \<Longrightarrow> map_outcome f xs = map_outcome g ys"
  by (induction ys arbitrary: xs) auto

section \<open>Slices and indexing\<close>

definition slice_get :: "'a list \<Rightarrow> nat \<Rightarrow> nat \<Rightarrow> 'a list option" where
  "slice_get xs a b = (if a \<le> b \<and> b \<le> length xs then Some (take (b - a) (drop a xs)) else None)"

definition slice :: "'a list \<Rightarrow> nat \<Rightarrow> nat \<Rightarrow> 'a list outcome" where
  "slice xs a b = (if a \<le> b \<and> b \<le> length xs then Ok (take (b - a) (drop a xs))
                   else Panic IndexOutOfBounds)"

definition slice_from :: "'a list \<Rightarrow> nat \<Rightarrow> 'a list outcome" where
  "slice_from xs a = (if a \<le> length xs then Ok (drop a xs) else Panic IndexOutOfBounds)"

definition index :: "'a list \<Rightarrow> nat \<Rightarrow> 'a outcome" where
  "index xs i = (if i < length xs then Ok (xs ! i) else Panic IndexOutOfBounds)"

lemma slice_eq_Ok [outcome_simps]:
  "slice xs a b = Ok ys \<longleftrightarrow> a \<le> b \<and> b \<le> length xs \<and> ys = take (b - a) (drop a xs)"
  by (auto simp: slice_def)

lemma slice_eq_Panic [outcome_simps]:
  "slice xs a b = Panic p \<longleftrightarrow> \<not> (a \<le> b \<and> b \<le> length xs) \<and> p = IndexOutOfBounds"
  by (auto simp: slice_def)

lemma slice_no_err [simp]: "slice xs a b \<noteq> Err e" "slice xs a b \<noteq> Diverge"
  by (auto simp: slice_def)

lemma slice_from_eq_Ok [outcome_simps]:
  "slice_from xs a = Ok ys \<longleftrightarrow> a \<le> length xs \<and> ys = drop a xs"
  by (auto simp: slice_from_def)

lemma slice_from_no_err [simp]: "slice_from xs a \<noteq> Err e" "slice_from xs a \<noteq> Diverge"
  by (auto simp: slice_from_def)

lemma index_eq_Ok [outcome_simps]: "index xs i = Ok x \<longleftrightarrow> i < length xs \<and> x = xs ! i"
  by (auto simp: index_def)

lemma index_eq_Panic [outcome_simps]:
  "index xs i = Panic p \<longleftrightarrow> length xs \<le> i \<and> p = IndexOutOfBounds"
  by (auto simp: index_def)

lemma index_no_err [simp]: "index xs i \<noteq> Err e" "index xs i \<noteq> Diverge"
  by (auto simp: index_def)

lemma slice_length: "slice xs a b = Ok ys \<Longrightarrow> length ys = b - a"
  by (auto simp: outcome_simps)

lemma slice_append_mid:
  "length xs = a \<Longrightarrow> length ys = b - a \<Longrightarrow> a \<le> b \<Longrightarrow> slice (xs @ ys @ zs) a b = Ok ys"
  by (auto simp: slice_def)

section \<open>Big-endian byte encodings\<close>

definition to_be_bytes :: "nat \<Rightarrow> 'a::len word \<Rightarrow> bytes" where
  "to_be_bytes n w = map (\<lambda>i. ucast (drop_bit (8 * i) w)) (rev [0..<n])"

definition from_be_bytes :: "bytes \<Rightarrow> 'a::len word" where
  "from_be_bytes bs = word_rcat bs"

lemma length_to_be_bytes [simp, bytes_simps]: "length (to_be_bytes n w) = n"
  by (simp add: to_be_bytes_def)

lemma bit_from_be_bytes:
  "bit (from_be_bytes bs :: 'a::len word) k \<longleftrightarrow>
     k < LENGTH('a) \<and> k div 8 < length bs \<and> bit (rev bs ! (k div 8)) (k mod 8)"
  using bit_horner_sum_uint_exp_iff [of "rev bs" k]
  by (auto simp: from_be_bytes_def word_rcat_def bit_word_of_int_iff)

lemma from_to_be_bytes [simp, bytes_simps]:
  assumes "LENGTH('a) \<le> 8 * n"
  shows "from_be_bytes (to_be_bytes n w) = (w :: 'a::len word)"
proof (rule bit_word_eqI)
  fix k assume k: "k < LENGTH('a)"
  with assms have "k div 8 < n" by (simp add: less_mult_imp_div_less mult.commute)
  moreover have "8 * (k div 8) + k mod 8 = k" by simp
  ultimately show "bit (from_be_bytes (to_be_bytes n w) :: 'a word) k = bit w k"
    using k by (simp add: bit_from_be_bytes to_be_bytes_def rev_map bit_ucast_iff
        bit_drop_bit_eq)
qed

lemma to_from_be_bytes [bytes_simps]:
  assumes "length bs = n" and "8 * n \<le> LENGTH('a)"
  shows "to_be_bytes n (from_be_bytes bs :: 'a::len word) = bs"
proof (rule nth_equalityI)
  show "length (to_be_bytes n (from_be_bytes bs :: 'a word)) = length bs"
    using assms by simp
next
  fix i assume "i < length (to_be_bytes n (from_be_bytes bs :: 'a word))"
  then have i: "i < n" by simp
  define j where "j = n - 1 - i"
  have j: "j < n" and ij: "i = n - 1 - j" using i by (auto simp: j_def)
  have "to_be_bytes n (from_be_bytes bs :: 'a word) ! i
      = ucast (drop_bit (8 * j) (from_be_bytes bs :: 'a word))"
    using i by (simp add: to_be_bytes_def rev_nth j_def)
  also have "\<dots> = bs ! i"
  proof (rule bit_word_eqI)
    fix m assume "m < LENGTH(8)"
    then have m: "m < 8" by simp
    have d: "(8 * j + m) div 8 = j" and r: "(8 * j + m) mod 8 = m" using m by auto
    have lt: "8 * j + m < LENGTH('a)" using j m assms by simp
    show "bit (ucast (drop_bit (8 * j) (from_be_bytes bs :: 'a word)) :: u8) m = bit (bs ! i) m"
      using m j lt assms ij by (simp add: bit_ucast_iff bit_drop_bit_eq bit_from_be_bytes d r rev_nth)
  qed
  finally show "to_be_bytes n (from_be_bytes bs :: 'a word) ! i = bs ! i" .
qed

section \<open>Arithmetic of machine integers\<close>

definition saturating_sub :: "'a::len word \<Rightarrow> 'a word \<Rightarrow> 'a word" where
  "saturating_sub a b = (if a < b then 0 else a - b)"

lemma unat_saturating_sub: "unat (saturating_sub a b) = unat a - unat b"
  by (auto simp: saturating_sub_def word_less_nat_alt unat_sub_if_size)

text \<open>Division of unsigned integers panics on a zero divisor.\<close>

definition checked_div :: "'a::len word \<Rightarrow> 'a word \<Rightarrow> 'a word outcome" where
  "checked_div a b = (if b = 0 then Panic DivideByZero else Ok (a div b))"

lemma checked_div_eq_Ok [outcome_simps]: "checked_div a b = Ok c \<longleftrightarrow> b \<noteq> 0 \<and> c = a div b"
  by (auto simp: checked_div_def)

lemma unat_add_no_wrap:
  "unat a + unat b < 2 ^ LENGTH('a) \<Longrightarrow> unat (a + b :: 'a::len word) = unat a + unat b"
  by (simp add: unat_word_ariths)

lemma unat_mult_no_wrap:
  "unat a * unat b < 2 ^ LENGTH('a) \<Longrightarrow> unat (a * b :: 'a::len word) = unat a * unat b"
  by (simp add: unat_word_ariths)

lemma unat_sub_no_wrap: "b \<le> a \<Longrightarrow> unat (a - b :: 'a::len word) = unat a - unat b"
  by (rule unat_sub)

lemma unat_sum_list_le: "unat (sum_list ws :: 'a::len word) \<le> sum_list (map unat ws)"
proof (induction ws)
  case (Cons w ws)
  have "unat (w + sum_list ws) \<le> unat w + unat (sum_list ws)"
    by (simp add: unat_word_ariths)
  with Cons show ?case by simp
qed simp

lemma unat_sum_list_no_wrap:
  "sum_list (map unat ws) < 2 ^ LENGTH('a) \<Longrightarrow>
     unat (sum_list ws :: 'a::len word) = sum_list (map unat ws)"
  by (induction ws) (auto simp: unat_add_no_wrap)

section \<open>Lists\<close>

fun list_position :: "('a \<Rightarrow> bool) \<Rightarrow> 'a list \<Rightarrow> nat option" where
  "list_position P [] = None"
| "list_position P (x # xs) = (if P x then Some 0 else map_option Suc (list_position P xs))"

definition list_remove :: "nat \<Rightarrow> 'a list \<Rightarrow> 'a list" where
  "list_remove i xs = take i xs @ drop (Suc i) xs"

lemma list_position_Some:
  "list_position P xs = Some i \<longleftrightarrow> i < length xs \<and> P (xs ! i) \<and> (\<forall>j < i. \<not> P (xs ! j))"
proof (induction xs arbitrary: i)
  case (Cons x xs)
  then show ?case
    by (cases i) (auto simp: less_Suc_eq_0_disj)
qed simp

lemma list_position_None: "list_position P xs = None \<longleftrightarrow> (\<forall>x \<in> set xs. \<not> P x)"
  by (induction xs) auto

lemma set_list_remove_subset: "set (list_remove i xs) \<subseteq> set xs"
  by (auto simp: list_remove_def dest: in_set_takeD in_set_dropD)

lemma list_remove_simps [simp]:
  "list_remove 0 (x # xs) = xs"
  "list_remove (Suc i) (x # xs) = x # list_remove i xs"
  "list_remove i [] = []"
  by (simp_all add: list_remove_def)

lemma distinct_list_remove: "distinct (map f xs) \<Longrightarrow> distinct (map f (list_remove i xs))"
proof (induction xs arbitrary: i)
  case (Cons x xs)
  then show ?case
    using set_list_remove_subset by (cases i) fastforce+
qed simp

end
