(* ===== verification/Text_Format.thy ===== *)
theory Text_Format
  imports Magi_Prelude
begin

text \<open>
  The parts of the formatting of text by the standard library that the program uses: unsigned numbers in
  decimal (\<open>{}\<close>) and in hexadecimal (\<open>{:x}\<close>), and \<open>str::split\<close> at a character. Shown: the printed
  numbers determine the number, and joining the parts of a split gives the text back.
\<close>

section \<open>Numbers in a base\<close>

definition digit_char :: "nat \<Rightarrow> char" where
  "digit_char d = (if d < 10 then char_of (48 + d) else char_of (87 + d))"

definition char_digit :: "char \<Rightarrow> nat" where
  "char_digit c = (if of_char c < (58 :: nat) then of_char c - 48 else of_char c - 87)"

fun show_base :: "nat \<Rightarrow> nat \<Rightarrow> string" where
  "show_base b n = (if n < b \<or> b < 2 then [digit_char n] else show_base b (n div b) @ [digit_char (n mod b)])"

declare show_base.simps [simp del]

definition read_base :: "nat \<Rightarrow> string \<Rightarrow> nat" where
  "read_base b cs = foldl (\<lambda>n c. n * b + char_digit c) 0 cs"

abbreviation show_nat :: "nat \<Rightarrow> string" where
  "show_nat \<equiv> show_base 10"

abbreviation show_hex :: "nat \<Rightarrow> string" where
  "show_hex \<equiv> show_base 16"

lemma char_digit_digit_char [simp]: "d < 16 \<Longrightarrow> char_digit (digit_char d) = d"
  by (simp add: char_digit_def digit_char_def)

lemma read_show_base [simp]: "2 \<le> b \<Longrightarrow> b \<le> 16 \<Longrightarrow> read_base b (show_base b n) = n"
proof (induction b n rule: show_base.induct)
  case (1 b n)
  show ?case
  proof (cases "n < b")
    case True
    then show ?thesis using 1 by (simp add: show_base.simps [of b n] read_base_def)
  next
    case False
    have "n mod b < 16" using 1(2,3) by (meson le_trans mod_less_divisor not_less not_numeral_le_zero)
    then show ?thesis using 1 False by (simp add: show_base.simps [of b n] read_base_def)
  qed
qed

lemma show_base_inject: "2 \<le> b \<Longrightarrow> b \<le> 16 \<Longrightarrow> show_base b m = show_base b n \<longleftrightarrow> m = n"
  by (metis read_show_base)

lemma digit_char_range: "d < 16 \<Longrightarrow> of_char (digit_char d) \<in> {48..<58 :: nat} \<union> {97..<103}"
  by (auto simp: digit_char_def)

lemma set_show_base: "2 \<le> b \<Longrightarrow> c \<in> set (show_base b n) \<Longrightarrow> \<exists>d < b. c = digit_char d"
proof (induction b n rule: show_base.induct)
  case (1 b n)
  show ?case
  proof (cases "n < b \<or> c \<notin> set (show_base b (n div b))")
    case True
    then show ?thesis using 1(2,3)
      by (auto simp: show_base.simps [of b n] split: if_splits intro!: exI [of _ "n mod b"])
  next
    case False
    then show ?thesis using 1 by simp
  qed
qed

lemma no_separator_in_number:
  assumes "of_char c \<notin> {48..<58 :: nat} \<union> {97..<103}" "2 \<le> b" "b \<le> 16"
  shows "c \<notin> set (show_base b n)"
proof
  assume "c \<in> set (show_base b n)"
  then obtain d where "d < b" "c = digit_char d" using set_show_base assms(2) by blast
  then show False using assms digit_char_range [of d] by auto
qed

section \<open>Splitting at a character\<close>

fun split_at :: "char \<Rightarrow> string \<Rightarrow> string list" where
  "split_at c [] = [[]]"
| "split_at c (x # xs) = (if x = c then [] # split_at c xs
     else case split_at c xs of [] \<Rightarrow> [[x]] | w # ws \<Rightarrow> (x # w) # ws)"

lemma split_at_ne [simp]: "split_at c xs \<noteq> []"
  by (induction xs) (auto split: list.splits)

lemma split_at_no_sep: "c \<notin> set xs \<Longrightarrow> split_at c xs = [xs]"
  by (induction xs) auto

lemma split_at_append: "c \<notin> set xs \<Longrightarrow> split_at c (xs @ c # ys) = xs # split_at c ys"
  by (induction xs) auto

lemma length_split_at: "length (split_at c xs) = Suc (count_list xs c)"
proof (induction xs)
  case (Cons x xs)
  then show ?case by (cases "split_at c xs") auto
qed simp

end
