(* ===== verification/Effects.thy ===== *)
theory Effects
  imports Magi_Prelude
begin

text \<open>
  Fallible operations on mutable state, the Rust methods on \<open>&mut self\<close> that return a \<open>Result\<close>.
  An action maps a state to its outcome and the state it leaves; the updates made before an
  early return stay in force, so the state is returned on every branch. \<open>keeps R\<close> states that
  every exit of an action, success or failure, is related by \<open>R\<close> to the state it started from.
\<close>

type_synonym ('s, 'a) action = "'s \<Rightarrow> 'a outcome \<times> 's"

named_theorems action_simps \<open>rules that take a sequence of actions apart\<close>
named_theorems keeps_intros \<open>invariants of actions, by their structure\<close>

definition lift_outcome :: "'a outcome \<Rightarrow> ('s, 'a) action" where
  "lift_outcome m = (\<lambda>s. (m, s))"

abbreviation return_action :: "'a \<Rightarrow> ('s, 'a) action" where
  "return_action x \<equiv> lift_outcome (Ok x)"

abbreviation bail :: "string \<Rightarrow> ('s, 'a) action" where
  "bail msg \<equiv> lift_outcome (Err (Eyre msg))"

definition bind_action :: "('s, 'a) action \<Rightarrow> ('a \<Rightarrow> ('s, 'b) action) \<Rightarrow> ('s, 'b) action" where
  "bind_action m f = (\<lambda>s. case m s of
       (Ok x, s') \<Rightarrow> f x s'
     | (Err e, s') \<Rightarrow> (Err e, s')
     | (Panic p, s') \<Rightarrow> (Panic p, s')
     | (Diverge, s') \<Rightarrow> (Diverge, s'))"

definition modify :: "('s \<Rightarrow> 's) \<Rightarrow> ('s, unit) action" where
  "modify f = (\<lambda>s. (Ok (), f s))"

definition with_state :: "('s \<Rightarrow> ('s, 'a) action) \<Rightarrow> ('s, 'a) action" where
  "with_state f = (\<lambda>s. f s s)"

text \<open>A call on a component of the state: \<open>get\<close> reads it, \<open>put\<close> writes it back.\<close>

definition zoom :: "('s \<Rightarrow> 'c) \<Rightarrow> ('c \<Rightarrow> 's \<Rightarrow> 's) \<Rightarrow> ('c, 'a) action \<Rightarrow> ('s, 'a) action" where
  "zoom get put m = (\<lambda>s. case m (get s) of (r, c) \<Rightarrow> (r, put c s))"

lemma bind_action_Ok [action_simps]:
  "bind_action m f s = (Ok y, t) \<longleftrightarrow> (\<exists>x s1. m s = (Ok x, s1) \<and> f x s1 = (Ok y, t))"
  by (auto simp: bind_action_def split: outcome.splits prod.splits)

lemma bind_action_exit:
  assumes "bind_action m f s = (r, t)"
  obtains (continues) x s1 where "m s = (Ok x, s1)" and "f x s1 = (r, t)"
  | (stops) r0 where "m s = (r0, t)" and "\<not> is_ok r" and "\<not> is_ok r0"
  using assms by (auto simp: bind_action_def split: outcome.splits prod.splits)

lemma lift_outcome_eq [action_simps]: "lift_outcome m s = (r, t) \<longleftrightarrow> m = r \<and> t = s"
  by (auto simp: lift_outcome_def)

lemma modify_eq [action_simps]: "modify f s = (r, t) \<longleftrightarrow> r = Ok () \<and> t = f s"
  by (auto simp: modify_def)

lemma with_state_eq [action_simps]: "with_state f s = (r, t) \<longleftrightarrow> f s s = (r, t)"
  by (simp add: with_state_def)

lemma zoom_eq [action_simps]:
  "zoom get put m s = (r, t) \<longleftrightarrow> (\<exists>c. m (get s) = (r, c) \<and> t = put c s)"
  by (auto simp: zoom_def split: prod.splits)

lemma bind_action_run:
  "m s = (Ok x, s1) \<Longrightarrow> bind_action m f s = f x s1"
  "m s = (Err e, s1) \<Longrightarrow> bind_action m f s = (Err e, s1)"
  "m s = (Panic p, s1) \<Longrightarrow> bind_action m f s = (Panic p, s1)"
  by (simp_all add: bind_action_def)

lemma bind_lift_Ok [simp]: "bind_action (return_action x) f = f x"
  by (simp add: bind_action_def lift_outcome_def)

lemma bind_modify [simp]: "bind_action (modify g) f s = f () (g s)"
  by (simp add: bind_action_def modify_def)

lemma bind_action_assoc:
  "bind_action (bind_action m f) g = bind_action m (\<lambda>x. bind_action (f x) g)"
  by (auto simp: bind_action_def fun_eq_iff split: outcome.splits prod.splits)

section \<open>Invariants of every exit\<close>

definition keeps :: "('s \<Rightarrow> 's \<Rightarrow> bool) \<Rightarrow> ('s, 'a) action \<Rightarrow> bool" where
  "keeps R m \<longleftrightarrow> (\<forall>s. R s (snd (m s)))"

definition preorder_rel :: "('s \<Rightarrow> 's \<Rightarrow> bool) \<Rightarrow> bool" where
  "preorder_rel R \<longleftrightarrow> (\<forall>s. R s s) \<and> (\<forall>s t u. R s t \<longrightarrow> R t u \<longrightarrow> R s u)"

lemma keepsD: "keeps R m \<Longrightarrow> m s = (r, t) \<Longrightarrow> R s t"
  by (metis keeps_def snd_conv)

lemma keeps_lift [keeps_intros]: "preorder_rel R \<Longrightarrow> keeps R (lift_outcome m)"
  by (simp add: keeps_def preorder_rel_def lift_outcome_def)

lemma keeps_modify [keeps_intros]: "(\<And>s. R s (f s)) \<Longrightarrow> keeps R (modify f)"
  by (simp add: keeps_def modify_def)

lemma keeps_with_state [keeps_intros]: "(\<And>x. keeps R (f x)) \<Longrightarrow> keeps R (with_state f)"
  by (simp add: keeps_def with_state_def)

lemma keeps_if [keeps_intros]: "keeps R m \<Longrightarrow> keeps R n \<Longrightarrow> keeps R (if b then m else n)"
  by simp

lemma keeps_bind [keeps_intros]:
  assumes "preorder_rel R" and "keeps R m" and "\<And>x. keeps R (f x)"
  shows "keeps R (bind_action m f)"
proof -
  have "R s (snd (bind_action m f s))" for s
  proof (cases "m s")
    case (Pair r s1)
    then have "R s s1" using assms(2) by (metis keeps_def snd_conv)
    moreover have "R s1 (snd (f x s1))" for x using assms(3) by (simp add: keeps_def)
    moreover have "R s u" if "R s1 u" for u
      using assms(1) that \<open>R s s1\<close> unfolding preorder_rel_def by blast
    ultimately show ?thesis using Pair by (cases r) (simp_all add: bind_action_def)
  qed
  then show ?thesis by (simp add: keeps_def)
qed

text \<open>The \<open>Result\<close> of an action as a value: errors are handed on as such, panics are not caught.\<close>

definition attempt :: "('s, 'a) action \<Rightarrow> ('s, 'a option) action" where
  "attempt m = (\<lambda>s. case m s of
       (Ok x, s') \<Rightarrow> (Ok (Some x), s')
     | (Err e, s') \<Rightarrow> (Ok None, s')
     | (Panic p, s') \<Rightarrow> (Panic p, s')
     | (Diverge, s') \<Rightarrow> (Diverge, s'))"

lemma keeps_attempt [keeps_intros]: "keeps R m \<Longrightarrow> keeps R (attempt m)"
  by (auto simp: keeps_def attempt_def split: prod.splits outcome.splits) (metis snd_conv)+

end
