(* ===== verification/Common_Types.thy ===== *)
theory Common_Types
  imports Magi_Prelude
begin

text \<open>
  The types every component shares: \<^verbatim>\<open>src/src/common/mod.rs\<close> (block and epoch
  references, raw transactions) and \<^verbatim>\<open>src/src/common/attributes_deposited.rs\<close> (the decoder
  of the L1 attributes calldata in both of its formats).

  Blocks come from the \<^verbatim>\<open>ethers\<close> crate; \<open>eth_block\<close> and \<open>eth_transaction\<close> carry the fields the
  program reads. The crate's fixed-size integers and hashes are words; \<open>as_u64\<close> is their
  documented checked conversion, which panics on a value that needs more than 64 bits.
  The hash function \<open>keccak256\<close> is a parameter wherever the code calls it.
\<close>

section \<open>Blocks, epochs and transactions\<close>

record block_info =
  bi_hash :: h256
  bi_number :: u64
  bi_parent_hash :: h256
  bi_timestamp :: u64

datatype raw_transaction = RawTransaction (raw_bytes: bytes)

record epoch =
  ep_number :: u64
  ep_hash :: h256
  ep_timestamp :: u64

record eth_transaction =
  tx_hash :: h256
  tx_from :: address
  tx_to :: "address option"
  tx_type :: "u64 option"
  tx_input :: bytes
  tx_blob_hashes :: "string list"
  tx_raw :: bytes

record eth_block =
  blk_number :: "u64 option"
  blk_hash :: "h256 option"
  blk_parent_hash :: h256
  blk_timestamp :: u256
  blk_mix_hash :: "h256 option"
  blk_author :: "address option"
  blk_gas_limit :: u256
  blk_gas_used :: u256
  blk_base_fee_per_gas :: "u256 option"
  blk_state_root :: h256
  blk_receipts_root :: h256
  blk_logs_bloom :: "bytes option"
  blk_extra_data :: bytes
  blk_parent_beacon_block_root :: "h256 option"
  blk_blob_gas_used :: "u256 option"
  blk_excess_blob_gas :: "u256 option"
  blk_transactions :: "eth_transaction list"

definition as_u64 :: "u256 \<Rightarrow> u64 outcome" where
  "as_u64 w = (if uint w < 2 ^ 64 then Ok (ucast w) else Panic (Explicit ''Integer overflow when casting to u64''))"

lemma as_u64_ucast [simp]: "as_u64 (ucast (w :: u64)) = Ok w"
proof -
  have "uint (ucast w :: u256) = uint w"
    by (simp add: uint_up_ucast is_up)
  moreover have "uint w < 2 ^ 64" using uint_lt2p [of w] by simp
  moreover have "ucast (ucast w :: u256) = w"
    by (rule bit_word_eqI) (simp add: bit_ucast_iff)
  ultimately show ?thesis by (simp add: as_u64_def)
qed

lemma as_u64_eq_Ok [outcome_simps]: "as_u64 w = Ok x \<longleftrightarrow> uint w < 2 ^ 64 \<and> x = ucast w"
  by (auto simp: as_u64_def)

lemma as_u64_no_err [simp]: "as_u64 w \<noteq> Err e" "as_u64 w \<noteq> Diverge"
  by (auto simp: as_u64_def)

definition block_info_try_from :: "eth_block \<Rightarrow> block_info outcome" where
  "block_info_try_from block =
     and_then (ok_or (blk_number block) ''block not included'') (\<lambda>number.
     and_then (ok_or (blk_hash block) ''block not included'') (\<lambda>hash.
     and_then (as_u64 (blk_timestamp block)) (\<lambda>timestamp.
     Ok \<lparr>bi_hash = hash, bi_number = number, bi_parent_hash = blk_parent_hash block,
         bi_timestamp = timestamp\<rparr>)))"

lemma block_info_try_from_Ok:
  "block_info_try_from block = Ok bi \<longleftrightarrow>
     blk_number block = Some (bi_number bi) \<and> blk_hash block = Some (bi_hash bi) \<and>
     bi_parent_hash bi = blk_parent_hash block \<and> as_u64 (blk_timestamp block) = Ok (bi_timestamp bi)"
  by (auto simp: block_info_try_from_def outcome_simps)

section \<open>The L1 attributes deposited call\<close>

record attributes_deposited_call =
  adc_number :: u64
  adc_timestamp :: u64
  adc_basefee :: u256
  adc_hash :: h256
  adc_sequence_number :: u64
  adc_batcher_hash :: h256
  adc_fee_overhead :: u256
  adc_fee_scalar :: u256
  adc_blob_base_fee_scalar :: "u32 option"
  adc_blob_base_fee :: "u256 option"

definition string_bytes :: "string \<Rightarrow> bytes" where
  "string_bytes s = map of_char s"

definition L1_INFO_BEDROCK_LEN :: nat where
  "L1_INFO_BEDROCK_LEN = 4 + 32 * 8"

definition L1_INFO_BEDROCK_SIGNATURE :: string where
  "L1_INFO_BEDROCK_SIGNATURE =
     ''setL1BlockValues(uint64,uint64,uint256,bytes32,uint64,bytes32,uint256,uint256)''"

definition L1_INFO_ECOTONE_LEN :: nat where
  "L1_INFO_ECOTONE_LEN = 4 + 32 * 5"

definition L1_INFO_ECOTONE_SIGNATURE :: string where
  "L1_INFO_ECOTONE_SIGNATURE = ''setL1BlockValuesEcotone()''"

definition SET_L1_BLOCK_VALUES_BEDROCK_SELECTOR :: "(bytes \<Rightarrow> h256) \<Rightarrow> bytes" where
  "SET_L1_BLOCK_VALUES_BEDROCK_SELECTOR keccak256 =
     take 4 (to_be_bytes 32 (keccak256 (string_bytes L1_INFO_BEDROCK_SIGNATURE)))"

definition SET_L1_BLOCK_VALUES_ECOTONE_SELECTOR :: "(bytes \<Rightarrow> h256) \<Rightarrow> bytes" where
  "SET_L1_BLOCK_VALUES_ECOTONE_SELECTOR keccak256 =
     take 4 (to_be_bytes 32 (keccak256 (string_bytes L1_INFO_ECOTONE_SIGNATURE)))"

definition try_from_bedrock ::
  "(bytes \<Rightarrow> h256) \<Rightarrow> bytes \<Rightarrow> attributes_deposited_call outcome" where
  "try_from_bedrock keccak256 calldata =
     (if length calldata \<noteq> L1_INFO_BEDROCK_LEN then Err (Eyre ''invalid calldata length'') else
      and_then (slice calldata 0 4) (\<lambda>selector.
      if selector \<noteq> SET_L1_BLOCK_VALUES_BEDROCK_SELECTOR keccak256
      then Err (Eyre ''invalid selector'') else
      and_then (slice calldata 4 36) (\<lambda>b_number.
      and_then (as_u64 (from_be_bytes b_number)) (\<lambda>number.
      and_then (slice calldata 36 68) (\<lambda>b_timestamp.
      and_then (as_u64 (from_be_bytes b_timestamp)) (\<lambda>timestamp.
      and_then (slice calldata 68 100) (\<lambda>b_basefee.
      and_then (slice calldata 100 132) (\<lambda>b_hash.
      and_then (slice calldata 132 164) (\<lambda>b_seq.
      and_then (as_u64 (from_be_bytes b_seq)) (\<lambda>sequence_number.
      and_then (slice calldata 164 196) (\<lambda>b_batcher.
      and_then (slice calldata 196 228) (\<lambda>b_overhead.
      and_then (slice calldata 228 260) (\<lambda>b_scalar.
      Ok \<lparr>adc_number = number, adc_timestamp = timestamp,
          adc_basefee = from_be_bytes b_basefee, adc_hash = from_be_bytes b_hash,
          adc_sequence_number = sequence_number, adc_batcher_hash = from_be_bytes b_batcher,
          adc_fee_overhead = from_be_bytes b_overhead, adc_fee_scalar = from_be_bytes b_scalar,
          adc_blob_base_fee_scalar = None, adc_blob_base_fee = None\<rparr>)))))))))))))"

definition try_from_ecotone ::
  "(bytes \<Rightarrow> h256) \<Rightarrow> bytes \<Rightarrow> attributes_deposited_call outcome" where
  "try_from_ecotone keccak256 calldata =
     (if length calldata \<noteq> L1_INFO_ECOTONE_LEN then Err (Eyre ''invalid calldata length'') else
      and_then (slice calldata 0 4) (\<lambda>selector.
      if selector \<noteq> SET_L1_BLOCK_VALUES_ECOTONE_SELECTOR keccak256
      then Err (Eyre ''invalid selector'') else
      and_then (slice calldata 4 8) (\<lambda>b_scalar.
      and_then (slice calldata 8 12) (\<lambda>b_blob_scalar.
      and_then (slice calldata 12 20) (\<lambda>b_seq.
      and_then (slice calldata 20 28) (\<lambda>b_timestamp.
      and_then (slice calldata 28 36) (\<lambda>b_number.
      and_then (slice calldata 36 68) (\<lambda>b_basefee.
      and_then (slice calldata 68 100) (\<lambda>b_blob_basefee.
      and_then (slice calldata 100 132) (\<lambda>b_hash.
      and_then (slice calldata 132 164) (\<lambda>b_batcher.
      Ok \<lparr>adc_number = from_be_bytes b_number, adc_timestamp = from_be_bytes b_timestamp,
          adc_basefee = from_be_bytes b_basefee, adc_hash = from_be_bytes b_hash,
          adc_sequence_number = from_be_bytes b_seq, adc_batcher_hash = from_be_bytes b_batcher,
          adc_fee_overhead = 0, adc_fee_scalar = ucast (from_be_bytes b_scalar :: u32),
          adc_blob_base_fee_scalar = Some (from_be_bytes b_blob_scalar),
          adc_blob_base_fee = Some (from_be_bytes b_blob_basefee)\<rparr>)))))))))))"

definition epoch_from_call :: "attributes_deposited_call \<Rightarrow> epoch" where
  "epoch_from_call call =
     \<lparr>ep_number = adc_number call, ep_hash = adc_hash call, ep_timestamp = adc_timestamp call\<rparr>"

section \<open>What the decoders compute\<close>

text \<open>The calldata of the two formats, field by field, as the format tables of the source give it.\<close>

definition bedrock_calldata :: "bytes \<Rightarrow> u256 \<Rightarrow> u256 \<Rightarrow> u256 \<Rightarrow> h256 \<Rightarrow> u256 \<Rightarrow> h256 \<Rightarrow> u256 \<Rightarrow> u256 \<Rightarrow> bytes" where
  "bedrock_calldata selector number time basefee hash seq batcher overhead scalar =
     selector @ to_be_bytes 32 number @ to_be_bytes 32 time @ to_be_bytes 32 basefee @
     to_be_bytes 32 hash @ to_be_bytes 32 seq @ to_be_bytes 32 batcher @
     to_be_bytes 32 overhead @ to_be_bytes 32 scalar"

definition ecotone_calldata :: "bytes \<Rightarrow> u32 \<Rightarrow> u32 \<Rightarrow> u64 \<Rightarrow> u64 \<Rightarrow> u64 \<Rightarrow> u256 \<Rightarrow> u256 \<Rightarrow> h256 \<Rightarrow> h256 \<Rightarrow> bytes" where
  "ecotone_calldata selector scalar blob_scalar seq time number basefee blob_basefee hash batcher =
     selector @ to_be_bytes 4 scalar @ to_be_bytes 4 blob_scalar @ to_be_bytes 8 seq @
     to_be_bytes 8 time @ to_be_bytes 8 number @ to_be_bytes 32 basefee @
     to_be_bytes 32 blob_basefee @ to_be_bytes 32 hash @ to_be_bytes 32 batcher"

lemma length_selectors [simp]:
  "length (SET_L1_BLOCK_VALUES_BEDROCK_SELECTOR k) = 4"
  "length (SET_L1_BLOCK_VALUES_ECOTONE_SELECTOR k) = 4"
  by (simp_all add: SET_L1_BLOCK_VALUES_BEDROCK_SELECTOR_def SET_L1_BLOCK_VALUES_ECOTONE_SELECTOR_def)

lemma length_bedrock_calldata [simp]:
  "length sel = 4 \<Longrightarrow> length (bedrock_calldata sel n t b h s ba ov sc) = L1_INFO_BEDROCK_LEN"
  by (simp add: bedrock_calldata_def L1_INFO_BEDROCK_LEN_def)

lemma length_ecotone_calldata [simp]:
  "length sel = 4 \<Longrightarrow> length (ecotone_calldata sel sc bs s t n b bb h ba) = L1_INFO_ECOTONE_LEN"
  by (simp add: ecotone_calldata_def L1_INFO_ECOTONE_LEN_def)

text \<open>Cutting a concatenation of fixed-width fields: drop past the fields in front, take this one.\<close>

lemma slice_field:
  "length pre = a \<Longrightarrow> length fld = b - a \<Longrightarrow> a \<le> b \<Longrightarrow> slice (pre @ fld @ post) a b = Ok fld"
  by (rule slice_append_mid)

lemma bedrock_slices:
  assumes "length sel = 4"
  shows "slice (bedrock_calldata sel n t b h s ba ov sc) 0 4 = Ok sel"
    and "slice (bedrock_calldata sel n t b h s ba ov sc) 4 36 = Ok (to_be_bytes 32 n)"
    and "slice (bedrock_calldata sel n t b h s ba ov sc) 36 68 = Ok (to_be_bytes 32 t)"
    and "slice (bedrock_calldata sel n t b h s ba ov sc) 68 100 = Ok (to_be_bytes 32 b)"
    and "slice (bedrock_calldata sel n t b h s ba ov sc) 100 132 = Ok (to_be_bytes 32 h)"
    and "slice (bedrock_calldata sel n t b h s ba ov sc) 132 164 = Ok (to_be_bytes 32 s)"
    and "slice (bedrock_calldata sel n t b h s ba ov sc) 164 196 = Ok (to_be_bytes 32 ba)"
    and "slice (bedrock_calldata sel n t b h s ba ov sc) 196 228 = Ok (to_be_bytes 32 ov)"
    and "slice (bedrock_calldata sel n t b h s ba ov sc) 228 260 = Ok (to_be_bytes 32 sc)"
  using assms by (simp_all add: slice_def bedrock_calldata_def)

lemma ecotone_slices:
  assumes "length sel = 4"
  shows "slice (ecotone_calldata sel sc bs s t n b bb h ba) 0 4 = Ok sel"
    and "slice (ecotone_calldata sel sc bs s t n b bb h ba) 4 8 = Ok (to_be_bytes 4 sc)"
    and "slice (ecotone_calldata sel sc bs s t n b bb h ba) 8 12 = Ok (to_be_bytes 4 bs)"
    and "slice (ecotone_calldata sel sc bs s t n b bb h ba) 12 20 = Ok (to_be_bytes 8 s)"
    and "slice (ecotone_calldata sel sc bs s t n b bb h ba) 20 28 = Ok (to_be_bytes 8 t)"
    and "slice (ecotone_calldata sel sc bs s t n b bb h ba) 28 36 = Ok (to_be_bytes 8 n)"
    and "slice (ecotone_calldata sel sc bs s t n b bb h ba) 36 68 = Ok (to_be_bytes 32 b)"
    and "slice (ecotone_calldata sel sc bs s t n b bb h ba) 68 100 = Ok (to_be_bytes 32 bb)"
    and "slice (ecotone_calldata sel sc bs s t n b bb h ba) 100 132 = Ok (to_be_bytes 32 h)"
    and "slice (ecotone_calldata sel sc bs s t n b bb h ba) 132 164 = Ok (to_be_bytes 32 ba)"
  using assms by (simp_all add: slice_def ecotone_calldata_def)

text \<open>
  The Bedrock decoder on well-formed calldata: the three 32-byte words it narrows to 64 bits
  decide between the call and a panic.
\<close>

lemma try_from_bedrock_calldata:
  "try_from_bedrock k (bedrock_calldata (SET_L1_BLOCK_VALUES_BEDROCK_SELECTOR k) n t b h s ba ov sc) =
     and_then (as_u64 n) (\<lambda>number. and_then (as_u64 t) (\<lambda>timestamp. and_then (as_u64 s) (\<lambda>seq.
     Ok \<lparr>adc_number = number, adc_timestamp = timestamp, adc_basefee = b, adc_hash = h,
         adc_sequence_number = seq, adc_batcher_hash = ba, adc_fee_overhead = ov,
         adc_fee_scalar = sc, adc_blob_base_fee_scalar = None, adc_blob_base_fee = None\<rparr>)))"
  by (simp add: try_from_bedrock_def bedrock_slices)

lemma try_from_ecotone_calldata:
  "try_from_ecotone k (ecotone_calldata (SET_L1_BLOCK_VALUES_ECOTONE_SELECTOR k) sc bs s t n b bb h ba) =
     Ok \<lparr>adc_number = n, adc_timestamp = t, adc_basefee = b, adc_hash = h,
         adc_sequence_number = s, adc_batcher_hash = ba, adc_fee_overhead = 0,
         adc_fee_scalar = ucast sc, adc_blob_base_fee_scalar = Some bs, adc_blob_base_fee = Some bb\<rparr>"
  by (simp add: try_from_ecotone_def ecotone_slices)

text \<open>Calldata of one format is refused by the decoder of the other: the lengths differ.\<close>

lemma formats_disjoint:
  "length calldata = L1_INFO_BEDROCK_LEN \<Longrightarrow>
     try_from_ecotone k calldata = Err (Eyre ''invalid calldata length'')"
  "length calldata = L1_INFO_ECOTONE_LEN \<Longrightarrow>
     try_from_bedrock k calldata = Err (Eyre ''invalid calldata length'')"
  by (simp_all add: try_from_ecotone_def try_from_bedrock_def
      L1_INFO_BEDROCK_LEN_def L1_INFO_ECOTONE_LEN_def)


section \<open>Conversions for the libraries\<close>

text \<open>
  Block and epoch references as settings. The values of the crate \<open>figment\<close> are a type of its own: its conversions of byte strings,
  numbers and dictionaries are the fields of \<open>figment_values\<close>.
\<close>

record 'v figment_values =
  fv_from_bytes :: "bytes \<Rightarrow> 'v"
  fv_from_u64 :: "u64 \<Rightarrow> 'v"
  fv_dict :: "(string \<rightharpoonup> 'v) \<Rightarrow> 'v"

definition value_from_block_info :: "'v figment_values \<Rightarrow> block_info \<Rightarrow> 'v" where
  "value_from_block_info fv b =
     fv_dict fv (Map.empty
       (''hash'' \<mapsto> fv_from_bytes fv (to_be_bytes 32 (bi_hash b)),
        ''number'' \<mapsto> fv_from_u64 fv (bi_number b),
        ''timestamp'' \<mapsto> fv_from_u64 fv (bi_timestamp b),
        ''parent_hash'' \<mapsto> fv_from_bytes fv (to_be_bytes 32 (bi_parent_hash b))))"

definition value_from_epoch :: "'v figment_values \<Rightarrow> epoch \<Rightarrow> 'v" where
  "value_from_epoch fv e =
     fv_dict fv (Map.empty
       (''hash'' \<mapsto> fv_from_bytes fv (to_be_bytes 32 (ep_hash e)),
        ''number'' \<mapsto> fv_from_u64 fv (ep_number e),
        ''timestamp'' \<mapsto> fv_from_u64 fv (ep_timestamp e)))"

text \<open>A transaction in RLP is the string of its bytes; \<open>as_val\<close> is the accessor of the crate \<open>rlp\<close>.\<close>

definition raw_transaction_decode :: "('rlp \<Rightarrow> bytes outcome) \<Rightarrow> 'rlp \<Rightarrow> raw_transaction outcome" where
  "raw_transaction_decode as_val rlp = and_then (as_val rlp) (\<lambda>tx_bytes. Ok (RawTransaction tx_bytes))"

definition values_faithful :: "'v figment_values \<Rightarrow> bool" where
  "values_faithful fv \<longleftrightarrow> inj (fv_from_bytes fv) \<and> inj (fv_from_u64 fv) \<and> inj (fv_dict fv)"

lemma to_be_bytes_32_inject: "to_be_bytes 32 (a :: h256) = to_be_bytes 32 b \<longleftrightarrow> a = b"
proof
  assume "to_be_bytes 32 a = to_be_bytes 32 b"
  then have "(from_be_bytes (to_be_bytes 32 a) :: h256) = from_be_bytes (to_be_bytes 32 b)" by simp
  then show "a = b" by simp
qed simp

text \<open>No field is lost: equal settings come from equal references.\<close>

lemma dict_entries: "values_faithful fv \<Longrightarrow> fv_dict fv m = fv_dict fv m' \<Longrightarrow> m k = m' k"
  by (simp add: values_faithful_def inj_eq)

lemma value_from_block_info_inject:
  assumes "values_faithful fv" "value_from_block_info fv a = value_from_block_info fv b"
  shows "a = b"
proof -
  note same = dict_entries [OF assms(1) assms(2) [unfolded value_from_block_info_def]]
  from same [of "''hash''"] same [of "''number''"] same [of "''timestamp''"] same [of "''parent_hash''"] assms(1)
  show ?thesis by (cases a; cases b) (simp add: values_faithful_def inj_eq to_be_bytes_32_inject)
qed

lemma value_from_epoch_inject:
  assumes "values_faithful fv" "value_from_epoch fv a = value_from_epoch fv b"
  shows "a = b"
proof -
  note same = dict_entries [OF assms(1) assms(2) [unfolded value_from_epoch_def]]
  from same [of "''hash''"] same [of "''number''"] same [of "''timestamp''"] assms(1)
  show ?thesis by (cases a; cases b) (simp add: values_faithful_def inj_eq to_be_bytes_32_inject)
qed

end
