(* ===== verification/Config.thy ===== *)
theory Config
  imports Common_Types
begin

text \<open>
  \<^verbatim>\<open>src/src/config/mod.rs\<close>: sync modes, the chain configuration with its four built-in
  networks, the hardfork predicates, the system accounts and the conversions from and to
  the \<^verbatim>\<open>rollup.json\<close> format of op-node.

  Hash and address literals of the source, parsed there by \<^verbatim>\<open>B256::from_str\<close> and
  \<^verbatim>\<open>Address::from_str\<close>, are numerals here. Reading and parsing a configuration file is the
  parameter \<open>from_json\<close> of \<open>from_network_name\<close>. The layering of defaults, file and command line
  in \<^verbatim>\<open>Config::new\<close> is the subject of \<^verbatim>\<open>Command_Line\<close>.
\<close>

section \<open>Sync modes\<close>

datatype sync_mode = Fast | Checkpoint | Challenge | Full

definition sync_mode_from_str :: "string \<Rightarrow> sync_mode outcome" where
  "sync_mode_from_str s =
     (if s = ''fast'' then Ok Fast
      else if s = ''checkpoint'' then Ok Checkpoint
      else if s = ''challenge'' then Ok Challenge
      else if s = ''full'' then Ok Full
      else Err (Eyre ''invalid sync mode''))"

fun sync_mode_fmt :: "sync_mode \<Rightarrow> string" where
  "sync_mode_fmt Fast = ''fast''"
| "sync_mode_fmt Checkpoint = ''checkpoint''"
| "sync_mode_fmt Challenge = ''challenge''"
| "sync_mode_fmt Full = ''full''"

section \<open>Chain configuration\<close>

record system_config =
  sc_batch_sender :: address
  sc_gas_limit :: u256
  sc_l1_fee_overhead :: u256
  sc_l1_fee_scalar :: u256
  sc_unsafe_block_signer :: address

definition batcher_hash :: "system_config \<Rightarrow> h256" where
  "batcher_hash sc = from_be_bytes (replicate 12 0 @ to_be_bytes 20 (sc_batch_sender sc))"

record system_accounts =
  attributes_depositor :: address
  attributes_predeploy :: address
  fee_vault :: address

definition system_accounts_default :: system_accounts where
  "system_accounts_default =
     \<lparr>attributes_depositor = 0xdeaddeaddeaddeaddeaddeaddeaddeaddead0001,
      attributes_predeploy = 0x4200000000000000000000000000000000000015,
      fee_vault = 0x4200000000000000000000000000000000000011\<rparr>"

record chain_config =
  cc_network :: string
  cc_l1_chain_id :: u64
  cc_l2_chain_id :: u64
  cc_l1_start_epoch :: epoch
  cc_l2_genesis :: block_info
  cc_system_config :: system_config
  cc_batch_inbox :: address
  cc_deposit_contract :: address
  cc_system_config_contract :: address
  cc_max_channel_size :: u64
  cc_channel_timeout :: u64
  cc_seq_window_size :: u64
  cc_max_seq_drift :: u64
  cc_regolith_time :: u64
  cc_canyon_time :: u64
  cc_delta_time :: u64
  cc_ecotone_time :: u64
  cc_blocktime :: u64
  cc_l2_to_l1_message_passer :: address

record config =
  cfg_l1_rpc_url :: string
  cfg_l1_beacon_url :: string
  cfg_l2_rpc_url :: string
  cfg_l2_engine_url :: string
  cfg_chain :: chain_config
  cfg_jwt_secret :: string
  cfg_checkpoint_sync_url :: "string option"
  cfg_rpc_port :: u16
  cfg_rpc_addr :: string
  cfg_devnet :: bool

definition is_ecotone_activation_block :: "chain_config \<Rightarrow> u64 \<Rightarrow> bool" where
  "is_ecotone_activation_block c l2_block_timestamp \<longleftrightarrow> l2_block_timestamp = cc_ecotone_time c"

definition is_ecotone_but_not_first_block :: "chain_config \<Rightarrow> u64 \<Rightarrow> bool" where
  "is_ecotone_but_not_first_block c l2_block_timestamp \<longleftrightarrow>
     (let is_ecotone = cc_ecotone_time c \<le> l2_block_timestamp
      in is_ecotone \<and> \<not> is_ecotone_activation_block c l2_block_timestamp)"

definition optimism :: chain_config where
  "optimism =
     \<lparr>cc_network = ''optimism'',
      cc_l1_chain_id = 1,
      cc_l2_chain_id = 10,
      cc_l1_start_epoch =
        \<lparr>ep_number = 17422590,
         ep_hash = 0x438335a20d98863a4c0c97999eb2481921ccd28553eac6f913af7c12aec04108,
         ep_timestamp = 1686068903\<rparr>,
      cc_l2_genesis =
        \<lparr>bi_hash = 0xdbf6a80fef073de06add9b0d14026d6e5a86c85f6d102c36d3d8e9cf89c2afd3,
         bi_number = 105235063,
         bi_parent_hash = 0x21a168dfa5e727926063a28ba16fd5ee84c814e847c81a699c7a0ea551e4ca50,
         bi_timestamp = 1686068903\<rparr>,
      cc_system_config =
        \<lparr>sc_batch_sender = 0x6887246668a3b87f54deb3b94ba47a6f63f32985,
         sc_gas_limit = 30000000,
         sc_l1_fee_overhead = 188,
         sc_l1_fee_scalar = 684000,
         sc_unsafe_block_signer = 0xAAAA45d9549EDA09E70937013520214382Ffc4A2\<rparr>,
      cc_batch_inbox = 0xff00000000000000000000000000000000000010,
      cc_deposit_contract = 0xbEb5Fc579115071764c7423A4f12eDde41f106Ed,
      cc_system_config_contract = 0x229047fed2591dbec1eF1118d64F7aF3dB9EB290,
      cc_max_channel_size = 100000000,
      cc_channel_timeout = 300,
      cc_seq_window_size = 3600,
      cc_max_seq_drift = 600,
      cc_regolith_time = 0,
      cc_canyon_time = 170499240,
      cc_delta_time = 1708560000,
      cc_ecotone_time = 1710781201,
      cc_blocktime = 2,
      cc_l2_to_l1_message_passer = 0x4200000000000000000000000000000000000016\<rparr>"

definition optimism_sepolia :: chain_config where
  "optimism_sepolia =
     \<lparr>cc_network = ''optimism-sepolia'',
      cc_l1_chain_id = 11155111,
      cc_l2_chain_id = 11155420,
      cc_l1_start_epoch =
        \<lparr>ep_number = 4071408,
         ep_hash = 0x48f520cf4ddaf34c8336e6e490632ea3cf1e5e93b0b2bc6e917557e31845371b,
         ep_timestamp = 1691802540\<rparr>,
      cc_l2_genesis =
        \<lparr>bi_hash = 0x102de6ffb001480cc9b8b548fd05c34cd4f46ae4aa91759393db90ea0409887d,
         bi_number = 0,
         bi_parent_hash = 0x0000000000000000000000000000000000000000000000000000000000000000,
         bi_timestamp = 1691802540\<rparr>,
      cc_system_config =
        \<lparr>sc_batch_sender = 0x8F23BB38F531600e5d8FDDaAEC41F13FaB46E98c,
         sc_gas_limit = 30000000,
         sc_l1_fee_overhead = 188,
         sc_l1_fee_scalar = 684000,
         sc_unsafe_block_signer = 0x57CACBB0d30b01eb2462e5dC940c161aff3230D3\<rparr>,
      cc_batch_inbox = 0xff00000000000000000000000000000011155420,
      cc_deposit_contract = 0x16fc5058f25648194471939df75cf27a2fdc48bc,
      cc_system_config_contract = 0x034edd2a225f7f429a63e0f1d2084b9e0a93b538,
      cc_max_channel_size = 100000000,
      cc_channel_timeout = 300,
      cc_seq_window_size = 3600,
      cc_max_seq_drift = 600,
      cc_regolith_time = 0,
      cc_canyon_time = 1699981200,
      cc_delta_time = 1703203200,
      cc_ecotone_time = 1708534800,
      cc_blocktime = 2,
      cc_l2_to_l1_message_passer = 0x4200000000000000000000000000000000000016\<rparr>"

definition base :: chain_config where
  "base =
     \<lparr>cc_network = ''base'',
      cc_l1_chain_id = 1,
      cc_l2_chain_id = 8453,
      cc_l1_start_epoch =
        \<lparr>ep_number = 17481768,
         ep_hash = 0x5c13d307623a926cd31415036c8b7fa14572f9dac64528e857a470511fc30771,
         ep_timestamp = 1686789347\<rparr>,
      cc_l2_genesis =
        \<lparr>bi_hash = 0xf712aa9241cc24369b143cf6dce85f0902a9731e70d66818a3a5845b296c73dd,
         bi_number = 0,
         bi_parent_hash = 0,
         bi_timestamp = 1686789347\<rparr>,
      cc_system_config =
        \<lparr>sc_batch_sender = 0x5050f69a9786f081509234f1a7f4684b5e5b76c9,
         sc_gas_limit = 30000000,
         sc_l1_fee_overhead = 188,
         sc_l1_fee_scalar = 684000,
         sc_unsafe_block_signer = 0xAf6E19BE0F9cE7f8afd49a1824851023A8249e8a\<rparr>,
      cc_batch_inbox = 0xff00000000000000000000000000000000008453,
      cc_deposit_contract = 0x49048044d57e1c92a77f79988d21fa8faf74e97e,
      cc_system_config_contract = 0x73a79fab69143498ed3712e519a88a918e1f4072,
      cc_max_channel_size = 100000000,
      cc_channel_timeout = 300,
      cc_seq_window_size = 3600,
      cc_max_seq_drift = 600,
      cc_regolith_time = 0,
      cc_canyon_time = 1704992401,
      cc_delta_time = 1708560000,
      cc_ecotone_time = 1710781201,
      cc_blocktime = 2,
      cc_l2_to_l1_message_passer = 0x4200000000000000000000000000000000000016\<rparr>"

definition base_sepolia :: chain_config where
  "base_sepolia =
     \<lparr>cc_network = ''base-sepolia'',
      cc_l1_chain_id = 11155111,
      cc_l2_chain_id = 84532,
      cc_l1_start_epoch =
        \<lparr>ep_number = 4370868,
         ep_hash = 0xcac9a83291d4dec146d6f7f69ab2304f23f5be87b1789119a0c5b1e4482444ed,
         ep_timestamp = 1695768288\<rparr>,
      cc_l2_genesis =
        \<lparr>bi_hash = 0x0dcc9e089e30b90ddfc55be9a37dd15bc551aeee999d2e2b51414c54eaf934e4,
         bi_number = 0,
         bi_parent_hash = 0,
         bi_timestamp = 1695768288\<rparr>,
      cc_system_config =
        \<lparr>sc_batch_sender = 0x6cdebe940bc0f26850285caca097c11c33103e47,
         sc_gas_limit = 25000000,
         sc_l1_fee_overhead = 2100,
         sc_l1_fee_scalar = 1000000,
         sc_unsafe_block_signer = 0xb830b99c95Ea32300039624Cb567d324D4b1D83C\<rparr>,
      cc_batch_inbox = 0xff00000000000000000000000000000000084532,
      cc_deposit_contract = 0x49f53e41452C74589E85cA1677426Ba426459e85,
      cc_system_config_contract = 0xf272670eb55e895584501d564AfEB048bEd26194,
      cc_max_channel_size = 100000000,
      cc_channel_timeout = 300,
      cc_seq_window_size = 3600,
      cc_max_seq_drift = 600,
      cc_regolith_time = 0,
      cc_canyon_time = 1699981200,
      cc_delta_time = 1703203200,
      cc_ecotone_time = 1708534800,
      cc_blocktime = 2,
      cc_l2_to_l1_message_passer = 0x4200000000000000000000000000000000000016\<rparr>"

definition chain_config_default :: chain_config where
  "chain_config_default = optimism"

definition default_blocktime :: u64 where
  "default_blocktime = 2"

text \<open>\<open>to_lowercase\<close> on the ASCII range, the range of the network names and of plain file paths.\<close>

definition to_lowercase :: "string \<Rightarrow> string" where
  "to_lowercase s =
     map (\<lambda>c. let n = (of_char c :: nat) in if 65 \<le> n \<and> n \<le> 90 then char_of (n + 32) else c) s"

definition ends_with :: "string \<Rightarrow> string \<Rightarrow> bool" where
  "ends_with s suf \<longleftrightarrow> length suf \<le> length s \<and> drop (length s - length suf) s = suf"

definition from_network_name :: "(string \<Rightarrow> chain_config outcome) \<Rightarrow> string \<Rightarrow> chain_config outcome" where
  "from_network_name from_json network =
     (let name = to_lowercase network
      in if name = ''optimism'' then Ok optimism
         else if name = ''optimism-sepolia'' then Ok optimism_sepolia
         else if name = ''base'' then Ok base
         else if name = ''base-sepolia'' then Ok base_sepolia
         else if ends_with name ''.json'' then from_json name
         else Panic (Explicit ''Invalid network name''))"

section \<open>The rollup.json format\<close>

record chain_genesis_info =
  cgi_hash :: h256
  cgi_number :: u64

record system_config_info =
  sci_batcher_addr :: address
  sci_overhead :: h256
  sci_scalar :: h256
  sci_gas_limit :: u64

record external_genesis_info =
  egi_l1 :: chain_genesis_info
  egi_l2 :: chain_genesis_info
  egi_l2_time :: u64
  egi_system_config :: system_config_info

record external_chain_config =
  ext_genesis :: external_genesis_info
  ext_block_time :: u64
  ext_max_sequencer_drift :: u64
  ext_seq_window_size :: u64
  ext_channel_timeout :: u64
  ext_l1_chain_id :: u64
  ext_l2_chain_id :: u64
  ext_regolith_time :: u64
  ext_canyon_time :: u64
  ext_delta_time :: u64
  ext_ecotone_time :: u64
  ext_batch_inbox_address :: address
  ext_deposit_contract_address :: address
  ext_l1_system_config_address :: address

definition chain_config_from_external :: "external_chain_config \<Rightarrow> chain_config" where
  "chain_config_from_external external =
     \<lparr>cc_network = ''external'',
      cc_l1_chain_id = ext_l1_chain_id external,
      cc_l2_chain_id = ext_l2_chain_id external,
      cc_l1_start_epoch =
        \<lparr>ep_number = cgi_number (egi_l1 (ext_genesis external)),
         ep_hash = cgi_hash (egi_l1 (ext_genesis external)),
         ep_timestamp = 0\<rparr>,
      cc_l2_genesis =
        \<lparr>bi_hash = cgi_hash (egi_l2 (ext_genesis external)),
         bi_number = cgi_number (egi_l2 (ext_genesis external)),
         bi_parent_hash = 0,
         bi_timestamp = egi_l2_time (ext_genesis external)\<rparr>,
      cc_system_config =
        \<lparr>sc_batch_sender = sci_batcher_addr (egi_system_config (ext_genesis external)),
         sc_gas_limit = ucast (sci_gas_limit (egi_system_config (ext_genesis external))),
         sc_l1_fee_overhead = sci_overhead (egi_system_config (ext_genesis external)),
         sc_l1_fee_scalar = sci_scalar (egi_system_config (ext_genesis external)),
         sc_unsafe_block_signer = 0\<rparr>,
      cc_batch_inbox = ext_batch_inbox_address external,
      cc_deposit_contract = ext_deposit_contract_address external,
      cc_system_config_contract = ext_l1_system_config_address external,
      cc_max_channel_size = 100000000,
      cc_channel_timeout = ext_channel_timeout external,
      cc_seq_window_size = ext_seq_window_size external,
      cc_max_seq_drift = ext_max_sequencer_drift external,
      cc_regolith_time = ext_regolith_time external,
      cc_canyon_time = ext_canyon_time external,
      cc_delta_time = ext_delta_time external,
      cc_ecotone_time = ext_ecotone_time external,
      cc_blocktime = ext_block_time external,
      cc_l2_to_l1_message_passer = 0x4200000000000000000000000000000000000016\<rparr>"

text \<open>Reading a file of this format: opening it and parsing its JSON are the arguments, and both are unwrapped.\<close>

definition chain_config_from_json ::
  "(string \<Rightarrow> 'file outcome) \<Rightarrow> ('file \<Rightarrow> external_chain_config outcome) \<Rightarrow> string \<Rightarrow> chain_config outcome" where
  "chain_config_from_json file_open from_reader path =
     and_then (unwrap_res (file_open path) ''called unwrap on an Err value'') (\<lambda>file.
     and_then (unwrap_res (from_reader file) ''called unwrap on an Err value'') (\<lambda>external.
     Ok (chain_config_from_external external)))"

text \<open>The 64-bit gas limit: \<^verbatim>\<open>try_into().unwrap()\<close> panics on a larger value.\<close>

definition external_from_chain_config :: "chain_config \<Rightarrow> external_chain_config outcome" where
  "external_from_chain_config c =
     (if 2 ^ 64 \<le> uint (sc_gas_limit (cc_system_config c))
      then Panic (UnwrapFailed ''gas_limit'') else
      Ok \<lparr>ext_genesis =
           \<lparr>egi_l1 = \<lparr>cgi_hash = ep_hash (cc_l1_start_epoch c), cgi_number = ep_number (cc_l1_start_epoch c)\<rparr>,
            egi_l2 = \<lparr>cgi_hash = bi_hash (cc_l2_genesis c), cgi_number = bi_number (cc_l2_genesis c)\<rparr>,
            egi_l2_time = bi_timestamp (cc_l2_genesis c),
            egi_system_config =
              \<lparr>sci_batcher_addr = sc_batch_sender (cc_system_config c),
               sci_overhead = sc_l1_fee_overhead (cc_system_config c),
               sci_scalar = sc_l1_fee_scalar (cc_system_config c),
               sci_gas_limit = ucast (sc_gas_limit (cc_system_config c))\<rparr>\<rparr>,
          ext_block_time = cc_blocktime c,
          ext_max_sequencer_drift = cc_max_seq_drift c,
          ext_seq_window_size = cc_seq_window_size c,
          ext_channel_timeout = cc_channel_timeout c,
          ext_l1_chain_id = cc_l1_chain_id c,
          ext_l2_chain_id = cc_l2_chain_id c,
          ext_regolith_time = cc_regolith_time c,
          ext_canyon_time = cc_canyon_time c,
          ext_delta_time = cc_delta_time c,
          ext_ecotone_time = cc_ecotone_time c,
          ext_batch_inbox_address = cc_batch_inbox c,
          ext_deposit_contract_address = cc_deposit_contract c,
          ext_l1_system_config_address = cc_system_config_contract c\<rparr>)"

section \<open>Properties\<close>

lemma ucast_u64_u256_u64 [simp]: "ucast (ucast (w :: u64) :: u256) = w"
  by (rule bit_word_eqI) (simp add: bit_ucast_iff)

lemma uint_ucast_u64_u256 [simp]: "uint (ucast (w :: u64) :: u256) = uint w"
  by (simp add: uint_up_ucast is_up)

lemma ucast_u256_u64_u256: "uint (w :: u256) < 2 ^ 64 \<Longrightarrow> ucast (ucast w :: u64) = w"
proof -
  assume "uint w < 2 ^ 64"
  then have "uint (ucast w :: u64) = uint w"
    by (simp add: unsigned_ucast_eq unsigned_take_bit_eq take_bit_int_eq_self)
  then have "uint (ucast (ucast w :: u64) :: u256) = uint w" by simp
  then show ?thesis by (simp add: word_uint_eq_iff)
qed

lemma sync_mode_roundtrip: "sync_mode_from_str (sync_mode_fmt m) = Ok m"
  by (cases m) (simp_all add: sync_mode_from_str_def)

lemma batcher_hash_bytes: "to_be_bytes 32 (batcher_hash sc) = replicate 12 0 @ to_be_bytes 20 (sc_batch_sender sc)"
  unfolding batcher_hash_def by (rule to_from_be_bytes) simp_all

text \<open>
  A network given by a file is read from it if the path is in lower case and ends in \<open>.json\<close>; if the file cannot be read, the
  process panics, as for an unknown name.
\<close>

lemma network_from_file:
  assumes "to_lowercase path = path" "ends_with path ''.json''"
  shows "from_network_name (chain_config_from_json file_open from_reader) path = chain_config_from_json file_open from_reader path"
proof -
  have "\<not> ends_with ''optimism'' ''.json''" "\<not> ends_with ''optimism-sepolia'' ''.json''"
    "\<not> ends_with ''base'' ''.json''" "\<not> ends_with ''base-sepolia'' ''.json''" by code_simp+
  then have "path \<noteq> ''optimism''" "path \<noteq> ''optimism-sepolia''" "path \<noteq> ''base''" "path \<noteq> ''base-sepolia''"
    using assms(2) by metis+
  then show ?thesis unfolding from_network_name_def Let_def assms(1) using assms(2) by (simp only: if_False if_True)
qed

lemma network_file_unread:
  "file_open path = Err e \<Longrightarrow> is_panic (chain_config_from_json file_open from_reader path)"
  "file_open path = Ok file \<Longrightarrow> from_reader file = Err e \<Longrightarrow> is_panic (chain_config_from_json file_open from_reader path)"
  by (simp_all add: chain_config_from_json_def)

end
