(* ===== verification/Engine_Types.thy ===== *)
theory Engine_Types
  imports Config
begin

text \<open>
  The engine API as the node sees it: \<^verbatim>\<open>src/src/engine/payload.rs\<close> (payloads, payload
  attributes, their status), \<^verbatim>\<open>src/src/engine/fork.rs\<close> (fork choice), the trait of
  \<^verbatim>\<open>src/src/engine/traits.rs\<close> and its preset implementation \<^verbatim>\<open>src/src/engine/mock_engine.rs\<close>.

  An engine is a record of three calls on a state of its own, of any type: what a call answers
  and the state it leaves. The conversion of a block into a payload needs the transactions' RLP
  encoding, which the \<^verbatim>\<open>ethers\<close> crate computes and which \<open>tx_raw\<close> of a transaction carries.
\<close>

section \<open>Payloads\<close>

record execution_payload =
  pl_parent_hash :: h256
  pl_fee_recipient :: address
  pl_state_root :: h256
  pl_receipts_root :: h256
  pl_logs_bloom :: bytes
  pl_prev_randao :: h256
  pl_block_number :: u64
  pl_gas_limit :: u64
  pl_gas_used :: u64
  pl_timestamp :: u64
  pl_extra_data :: bytes
  pl_base_fee_per_gas :: u64
  pl_block_hash :: h256
  pl_transactions :: "raw_transaction list"
  pl_withdrawals :: "unit list option"
  pl_blob_gas_used :: "u64 option"
  pl_excess_blob_gas :: "u64 option"

fun as_u64_opt :: "u256 option \<Rightarrow> u64 option outcome" where
  "as_u64_opt None = Ok None"
| "as_u64_opt (Some v) = and_then (as_u64 v) (\<lambda>w. Ok (Some w))"

definition execution_payload_try_from :: "eth_block \<Rightarrow> execution_payload outcome" where
  "execution_payload_try_from value =
     (let encoded_txs = map (\<lambda>tx. RawTransaction (tx_raw tx)) (blk_transactions value)
      in and_then (unwrap_opt (blk_logs_bloom value) ''called unwrap on a None value'') (\<lambda>logs_bloom.
         and_then (unwrap_opt (blk_mix_hash value) ''called unwrap on a None value'') (\<lambda>prev_randao.
         and_then (unwrap_opt (blk_number value) ''called unwrap on a None value'') (\<lambda>block_number.
         and_then (as_u64 (blk_gas_limit value)) (\<lambda>gas_limit.
         and_then (as_u64 (blk_gas_used value)) (\<lambda>gas_used.
         and_then (as_u64 (blk_timestamp value)) (\<lambda>timestamp.
         and_then (as_u64 (case blk_base_fee_per_gas value of Some f \<Rightarrow> f | None \<Rightarrow> 0)) (\<lambda>base_fee.
         and_then (unwrap_opt (blk_hash value) ''called unwrap on a None value'') (\<lambda>block_hash.
         and_then (as_u64_opt (blk_blob_gas_used value)) (\<lambda>blob_gas_used.
         and_then (as_u64_opt (blk_excess_blob_gas value)) (\<lambda>excess_blob_gas.
         Ok \<lparr>pl_parent_hash = blk_parent_hash value,
             pl_fee_recipient = fee_vault system_accounts_default,
             pl_state_root = blk_state_root value, pl_receipts_root = blk_receipts_root value,
             pl_logs_bloom = logs_bloom, pl_prev_randao = prev_randao, pl_block_number = block_number,
             pl_gas_limit = gas_limit, pl_gas_used = gas_used, pl_timestamp = timestamp,
             pl_extra_data = blk_extra_data value, pl_base_fee_per_gas = base_fee,
             pl_block_hash = block_hash, pl_transactions = encoded_txs, pl_withdrawals = Some [],
             pl_blob_gas_used = blob_gas_used, pl_excess_blob_gas = excess_blob_gas\<rparr>)))))))))))"

definition block_info_from_payload :: "execution_payload \<Rightarrow> block_info" where
  "block_info_from_payload value =
     \<lparr>bi_hash = pl_block_hash value, bi_number = pl_block_number value,
      bi_parent_hash = pl_parent_hash value, bi_timestamp = pl_timestamp value\<rparr>"

record payload_attributes =
  pa_timestamp :: u64
  pa_prev_randao :: h256
  pa_suggested_fee_recipient :: address
  pa_transactions :: "raw_transaction list option"
  pa_no_tx_pool :: bool
  pa_gas_limit :: u64
  pa_withdrawals :: "unit list option"
  pa_epoch :: "epoch option"
  pa_l1_inclusion_block :: "u64 option"
  pa_seq_number :: "u64 option"

datatype payload_validity = Valid | Invalid | Syncing | Accepted | InvalidBlockHash

record payload_status =
  ps_status :: payload_validity
  ps_latest_valid_hash :: "h256 option"
  ps_validation_error :: "string option"

section \<open>Fork choice\<close>

record fork_choice_update =
  fcu_payload_status :: payload_status
  fcu_payload_id :: "u64 option"

record forkchoice_state =
  fcs_head_block_hash :: h256
  fcs_safe_block_hash :: h256
  fcs_finalized_block_hash :: h256

definition from_single_head :: "h256 \<Rightarrow> forkchoice_state" where
  "from_single_head head_block_hash =
     \<lparr>fcs_head_block_hash = head_block_hash, fcs_safe_block_hash = head_block_hash,
      fcs_finalized_block_hash = head_block_hash\<rparr>"

section \<open>Engines\<close>

record 'e engine =
  eng_forkchoice_updated ::
    "forkchoice_state \<Rightarrow> payload_attributes option \<Rightarrow> 'e \<Rightarrow> fork_choice_update outcome \<times> 'e"
  eng_new_payload :: "execution_payload \<Rightarrow> 'e \<Rightarrow> payload_status outcome \<times> 'e"
  eng_get_payload :: "u64 \<Rightarrow> 'e \<Rightarrow> execution_payload outcome \<times> 'e"

record mock_engine =
  forkchoice_updated_payloads_res :: fork_choice_update
  forkchoice_updated_res :: fork_choice_update
  new_payload_res :: payload_status
  get_payload_res :: execution_payload

definition mock_engine_calls :: "mock_engine engine" where
  "mock_engine_calls =
     \<lparr>eng_forkchoice_updated = (\<lambda>_ payload_attributes e.
        (Ok (if payload_attributes \<noteq> None then forkchoice_updated_payloads_res e
             else forkchoice_updated_res e), e)),
      eng_new_payload = (\<lambda>_ e. (Ok (new_payload_res e), e)),
      eng_get_payload = (\<lambda>_ e. (Ok (get_payload_res e), e))\<rparr>"

section \<open>Blocks and payloads agree\<close>

lemma block_info_of_payload_of_block:
  assumes "execution_payload_try_from block = Ok payload"
  shows "block_info_try_from block = Ok (block_info_from_payload payload)"
  using assms
  by (auto simp: execution_payload_try_from_def outcome_simps block_info_try_from_def
      block_info_from_payload_def Let_def)

end
