(* ===== verification/Block_Handler.thy ===== *)
theory Block_Handler
  imports Text_Format Effects Engine_Types
begin

text \<open>
  \<^verbatim>\<open>src/src/network/handlers/block_handler.rs\<close>: the handler of the blocks that the sequencer
  gossips ahead of their derivation.

  Snappy, SSZ deserialization, the parsing and the verification of a signature and Keccak are the fields of
  \<open>gossip_externals\<close>; the clock is the argument \<open>current_timestamp\<close>. The channel to the driver is the list
  of the payloads sent; \<open>bh_receiver_alive\<close> tells whether its other end exists, since \<open>handle\<close> ignores
  the failure to send. A gossip topic is its name: \<open>IdentTopic\<close> hashes by the identity.
  A \<open>Vector\<close> or \<open>List\<close> of bytes is its list of bytes, and \<open>well_formed_ssz\<close> states the lengths that their types
  enforce.

  Shown: what is forwarded was signed for this chain by the current signer and is at most a minute old;
  a block in that state is forwarded; which messages make the handler panic; topics of different chains differ.
\<close>

section \<open>Payloads on the wire\<close>

record withdrawal =
  wd_index :: u64
  wd_validator_index :: u64
  wd_address :: bytes
  wd_amount :: u64

record execution_payload_v1_ssz =
  ssz_parent_hash :: bytes
  ssz_fee_recipient :: bytes
  ssz_state_root :: bytes
  ssz_receipts_root :: bytes
  ssz_logs_bloom :: bytes
  ssz_prev_randao :: bytes
  ssz_block_number :: u64
  ssz_gas_limit :: u64
  ssz_gas_used :: u64
  ssz_timestamp :: u64
  ssz_extra_data :: bytes
  ssz_base_fee_per_gas :: u256
  ssz_block_hash :: bytes
  ssz_transactions :: "bytes list"

record execution_payload_v2_ssz = execution_payload_v1_ssz +
  ssz_withdrawals :: "withdrawal list"

record execution_payload_v3_ssz = execution_payload_v2_ssz +
  ssz_blob_gas_used :: u64
  ssz_excess_blob_gas :: u64

definition from_slice :: "nat \<Rightarrow> bytes \<Rightarrow> 'w::len word outcome" where
  "from_slice n bs = (if length bs = n then Ok (from_be_bytes bs) else Panic (Explicit ''assertion failed''))"

definition convert_hash :: "bytes \<Rightarrow> h256 outcome" where
  "convert_hash = from_slice 32"

definition convert_address :: "bytes \<Rightarrow> address outcome" where
  "convert_address = from_slice 20"

definition convert_byte_vector :: "bytes \<Rightarrow> bytes" where
  "convert_byte_vector vector = vector"

definition convert_byte_list :: "bytes \<Rightarrow> bytes" where
  "convert_byte_list list = list"

definition to_bytes_le :: "u256 \<Rightarrow> bytes" where
  "to_bytes_le w = rev (to_be_bytes 32 w)"

definition from_little_endian :: "bytes \<Rightarrow> u256" where
  "from_little_endian bs = from_be_bytes (rev bs)"

definition convert_uint :: "u256 \<Rightarrow> u64 outcome" where
  "convert_uint value = as_u64 (from_little_endian (to_bytes_le value))"

definition convert_tx_list :: "bytes list \<Rightarrow> raw_transaction list" where
  "convert_tx_list value = map RawTransaction value"

text \<open>
  The three conversions share the fields of the first version; the fields evaluated in turn are those
  whose conversion can panic.
\<close>

definition convert_payload ::
  "('a execution_payload_v1_ssz_scheme) \<Rightarrow> unit list option \<Rightarrow> u64 option \<Rightarrow> u64 option \<Rightarrow> execution_payload outcome" where
  "convert_payload value withdrawals blob_gas_used excess_blob_gas =
     and_then (convert_hash (ssz_parent_hash value)) (\<lambda>parent_hash.
     and_then (convert_address (ssz_fee_recipient value)) (\<lambda>fee_recipient.
     and_then (convert_hash (ssz_state_root value)) (\<lambda>state_root.
     and_then (convert_hash (ssz_receipts_root value)) (\<lambda>receipts_root.
     and_then (convert_hash (ssz_prev_randao value)) (\<lambda>prev_randao.
     and_then (convert_uint (ssz_base_fee_per_gas value)) (\<lambda>base_fee_per_gas.
     and_then (convert_hash (ssz_block_hash value)) (\<lambda>block_hash.
     Ok \<lparr>pl_parent_hash = parent_hash, pl_fee_recipient = fee_recipient, pl_state_root = state_root,
         pl_receipts_root = receipts_root, pl_logs_bloom = convert_byte_vector (ssz_logs_bloom value),
         pl_prev_randao = prev_randao, pl_block_number = ssz_block_number value,
         pl_gas_limit = ssz_gas_limit value, pl_gas_used = ssz_gas_used value,
         pl_timestamp = ssz_timestamp value, pl_extra_data = convert_byte_list (ssz_extra_data value),
         pl_base_fee_per_gas = base_fee_per_gas, pl_block_hash = block_hash,
         pl_transactions = convert_tx_list (ssz_transactions value), pl_withdrawals = withdrawals,
         pl_blob_gas_used = blob_gas_used, pl_excess_blob_gas = excess_blob_gas\<rparr>)))))))"

definition payload_from_v1 :: "execution_payload_v1_ssz \<Rightarrow> execution_payload outcome" where
  "payload_from_v1 value = convert_payload value None None None"

definition payload_from_v2 :: "execution_payload_v2_ssz \<Rightarrow> execution_payload outcome" where
  "payload_from_v2 value = convert_payload value (Some []) None None"

definition payload_from_v3 :: "execution_payload_v3_ssz \<Rightarrow> execution_payload outcome" where
  "payload_from_v3 value =
     convert_payload value (Some []) (Some (ssz_blob_gas_used value)) (Some (ssz_excess_blob_gas value))"

section \<open>Decoding and validating a message\<close>

record 'sig gossip_externals =
  ge_decompress_vec :: "bytes \<Rightarrow> bytes outcome"
  ge_keccak256 :: "bytes \<Rightarrow> h256"
  ge_signature_try_from :: "bytes \<Rightarrow> 'sig outcome"
  ge_verify :: "'sig \<Rightarrow> h256 \<Rightarrow> address \<Rightarrow> bool"
  ge_deserialize_v1 :: "bytes \<Rightarrow> execution_payload_v1_ssz outcome"
  ge_deserialize_v2 :: "bytes \<Rightarrow> execution_payload_v2_ssz outcome"
  ge_deserialize_v3 :: "bytes \<Rightarrow> execution_payload_v3_ssz outcome"

datatype payload_hash = PayloadHash (hash_of: h256)

definition payload_hash_from :: "(bytes \<Rightarrow> h256) \<Rightarrow> bytes \<Rightarrow> payload_hash" where
  "payload_hash_from keccak256 value = PayloadHash (keccak256 value)"

definition signature_message :: "(bytes \<Rightarrow> h256) \<Rightarrow> payload_hash \<Rightarrow> u64 \<Rightarrow> h256" where
  "signature_message keccak256 self chain_id =
     (let domain = (0 :: h256);
          chain_id = (ucast chain_id :: h256);
          payload_hash = hash_of self;
          data = to_be_bytes 32 domain @ to_be_bytes 32 chain_id @ to_be_bytes 32 payload_hash
      in keccak256 data)"

record 'sig execution_payload_envelope =
  env_payload :: execution_payload
  env_signature :: 'sig
  env_hash :: payload_hash
  env_parent_beacon_block_root :: "h256 option"

definition decode_pre_ecotone_block_msg ::
  "'sig gossip_externals \<Rightarrow> (bytes \<Rightarrow> 'p outcome) \<Rightarrow> ('p \<Rightarrow> execution_payload outcome) \<Rightarrow> bytes \<Rightarrow>
   'sig execution_payload_envelope outcome" where
  "decode_pre_ecotone_block_msg ge deserialize payload_from data =
     and_then (ge_decompress_vec ge data) (\<lambda>decompressed.
     and_then (slice decompressed 0 65) (\<lambda>sig_data.
     and_then (slice_from decompressed 65) (\<lambda>block_data.
     and_then (ge_signature_try_from ge sig_data) (\<lambda>signature.
     and_then (deserialize block_data) (\<lambda>payload.
     and_then (payload_from payload) (\<lambda>payload.
     let hash = payload_hash_from (ge_keccak256 ge) block_data
     in Ok \<lparr>env_payload = payload, env_signature = signature, env_hash = hash,
            env_parent_beacon_block_root = None\<rparr>))))))"

definition decode_post_ecotone_block_msg ::
  "'sig gossip_externals \<Rightarrow> bytes \<Rightarrow> 'sig execution_payload_envelope outcome" where
  "decode_post_ecotone_block_msg ge data =
     and_then (ge_decompress_vec ge data) (\<lambda>decompressed.
     and_then (slice decompressed 0 65) (\<lambda>sig_data.
     and_then (slice decompressed 65 97) (\<lambda>parent_beacon_block_root.
     and_then (slice_from decompressed 97) (\<lambda>block_data.
     and_then (ge_signature_try_from ge sig_data) (\<lambda>signature.
     and_then (from_slice 32 parent_beacon_block_root) (\<lambda>parent_beacon_block_root.
     and_then (ge_deserialize_v3 ge block_data) (\<lambda>payload.
     and_then (payload_from_v3 payload) (\<lambda>payload.
     let hash = payload_hash_from (ge_keccak256 ge) block_data
     in Ok \<lparr>env_payload = payload, env_signature = signature, env_hash = hash,
            env_parent_beacon_block_root = Some parent_beacon_block_root\<rparr>))))))))"

section \<open>The handler\<close>

record message =
  msg_topic :: string
  msg_data :: bytes

datatype message_acceptance = Accept | Reject | Ignore

record block_handler =
  bh_chain_id :: u64
  bh_block_sender :: "execution_payload list"
  bh_receiver_alive :: bool
  bh_unsafe_signer_recv :: address
  bh_blocks_v1_topic :: string
  bh_blocks_v2_topic :: string
  bh_blocks_v3_topic :: string

definition blocks_topic :: "u64 \<Rightarrow> string \<Rightarrow> string" where
  "blocks_topic chain_id version = ''/optimism/'' @ show_nat (unat chain_id) @ ''/'' @ version @ ''/blocks''"

definition block_handler_new :: "u64 \<Rightarrow> address \<Rightarrow> block_handler" where
  "block_handler_new chain_id unsafe_recv =
     \<lparr>bh_chain_id = chain_id, bh_block_sender = [], bh_receiver_alive = True,
      bh_unsafe_signer_recv = unsafe_recv, bh_blocks_v1_topic = blocks_topic chain_id ''0'',
      bh_blocks_v2_topic = blocks_topic chain_id ''1'', bh_blocks_v3_topic = blocks_topic chain_id ''2''\<rparr>"

definition handler_topics :: "block_handler \<Rightarrow> string list" where
  "handler_topics h = [bh_blocks_v1_topic h, bh_blocks_v2_topic h]"

definition block_valid ::
  "'sig gossip_externals \<Rightarrow> u64 \<Rightarrow> block_handler \<Rightarrow> 'sig execution_payload_envelope \<Rightarrow> bool" where
  "block_valid ge current_timestamp h envelope =
     (let is_future = pl_timestamp (env_payload envelope) > current_timestamp + 5;
          is_past = pl_timestamp (env_payload envelope) < current_timestamp - 60;
          time_valid = (\<not> (is_future \<or> is_past));
          msg = signature_message (ge_keccak256 ge) (env_hash envelope) (bh_chain_id h);
          block_signer = bh_unsafe_signer_recv h;
          sig_valid = ge_verify ge (env_signature envelope) msg block_signer
      in time_valid \<and> sig_valid)"

definition send_payload :: "execution_payload \<Rightarrow> block_handler \<Rightarrow> block_handler" where
  "send_payload payload h =
     (if bh_receiver_alive h then h\<lparr>bh_block_sender := bh_block_sender h @ [payload]\<rparr> else h)"

text \<open>\<open>None\<close> is a topic that is none of the three.\<close>

definition decode_message ::
  "'sig gossip_externals \<Rightarrow> block_handler \<Rightarrow> message \<Rightarrow> 'sig execution_payload_envelope outcome option" where
  "decode_message ge h msg =
     (if msg_topic msg = bh_blocks_v1_topic h
      then Some (decode_pre_ecotone_block_msg ge (ge_deserialize_v1 ge) payload_from_v1 (msg_data msg))
      else if msg_topic msg = bh_blocks_v2_topic h
      then Some (decode_pre_ecotone_block_msg ge (ge_deserialize_v2 ge) payload_from_v2 (msg_data msg))
      else if msg_topic msg = bh_blocks_v3_topic h
      then Some (decode_post_ecotone_block_msg ge (msg_data msg))
      else None)"

definition block_handle ::
  "'sig gossip_externals \<Rightarrow> u64 \<Rightarrow> message \<Rightarrow> (block_handler, message_acceptance) action" where
  "block_handle ge current_timestamp msg = with_state (\<lambda>h.
     case decode_message ge h msg of
       None \<Rightarrow> return_action Reject
     | Some (Ok envelope) \<Rightarrow>
         if block_valid ge current_timestamp h envelope
         then bind_action (modify (send_payload (env_payload envelope))) (\<lambda>_. return_action Accept)
         else return_action Reject
     | Some (Err e) \<Rightarrow> return_action Reject
     | Some (Panic p) \<Rightarrow> lift_outcome (Panic p)
     | Some Diverge \<Rightarrow> lift_outcome Diverge)"

section \<open>Conversions\<close>

lemma from_slice_eq_Ok [outcome_simps]: "from_slice n bs = Ok w \<longleftrightarrow> length bs = n \<and> w = from_be_bytes bs"
  by (auto simp: from_slice_def)

lemma from_slice_no_err [simp]: "from_slice n bs \<noteq> Err e" "from_slice n bs \<noteq> Diverge"
  by (simp_all add: from_slice_def)

lemma convert_uint_eq: "convert_uint v = as_u64 v"
  by (simp add: convert_uint_def from_little_endian_def to_bytes_le_def)

definition well_formed_ssz :: "('a execution_payload_v1_ssz_scheme) \<Rightarrow> bool" where
  "well_formed_ssz p \<longleftrightarrow>
     length (ssz_parent_hash p) = 32 \<and> length (ssz_fee_recipient p) = 20 \<and> length (ssz_state_root p) = 32 \<and>
     length (ssz_receipts_root p) = 32 \<and> length (ssz_prev_randao p) = 32 \<and> length (ssz_block_hash p) = 32"

text \<open>Of a well-formed payload the conversion depends on the base fee alone.\<close>

lemma convert_payload_well_formed:
  assumes "well_formed_ssz p"
  shows "\<exists>f. convert_payload p w b x = and_then (as_u64 (ssz_base_fee_per_gas p)) (\<lambda>fee. Ok (f fee))"
  using assms unfolding convert_payload_def well_formed_ssz_def convert_hash_def convert_address_def
    from_slice_def convert_uint_eq
  by simp (rule exI, rule refl)

lemma convert_payload_panics:
  assumes "well_formed_ssz p"
  shows "is_panic (convert_payload p w b x) \<longleftrightarrow> 2 ^ 64 \<le> uint (ssz_base_fee_per_gas p)"
proof -
  obtain f where "convert_payload p w b x = and_then (as_u64 (ssz_base_fee_per_gas p)) (\<lambda>fee. Ok (f fee))"
    using convert_payload_well_formed [OF assms] by blast
  then show ?thesis by (simp add: as_u64_def)
qed

lemma convert_payload_returns: "convert_payload p w b x \<noteq> Err e" "convert_payload p w b x \<noteq> Diverge"
  by (auto simp: convert_payload_def convert_hash_def convert_address_def convert_uint_eq outcome_simps)

section \<open>Topics\<close>

lemma blocks_topic_inject:
  assumes "length v = length v'"
  shows "blocks_topic c v = blocks_topic c' v' \<longleftrightarrow> c = c' \<and> v = v'"
proof -
  have "length (''/'' @ v @ ''/blocks'') = length (''/'' @ v' @ ''/blocks'')" using assms by simp
  then have "blocks_topic c v = blocks_topic c' v' \<longleftrightarrow> show_nat (unat c) = show_nat (unat c') \<and> v = v'"
    unfolding blocks_topic_def by (metis append_eq_append_conv append_same_eq)
  then show ?thesis by (simp add: show_base_inject word_unat_eq_iff)
qed

definition handler_inv :: "block_handler \<Rightarrow> bool" where
  "handler_inv h \<longleftrightarrow> bh_blocks_v1_topic h = blocks_topic (bh_chain_id h) ''0'' \<and>
     bh_blocks_v2_topic h = blocks_topic (bh_chain_id h) ''1'' \<and> bh_blocks_v3_topic h = blocks_topic (bh_chain_id h) ''2''"

lemma handler_inv_new: "handler_inv (block_handler_new c s)"
  by (simp add: handler_inv_def block_handler_new_def)

lemma handler_topics_distinct:
  assumes "handler_inv h"
  shows "bh_blocks_v1_topic h \<noteq> bh_blocks_v2_topic h" "bh_blocks_v1_topic h \<noteq> bh_blocks_v3_topic h"
    "bh_blocks_v2_topic h \<noteq> bh_blocks_v3_topic h"
  using assms by (simp_all add: handler_inv_def blocks_topic_inject)

lemma send_payload_fields [simp]:
  "bh_chain_id (send_payload p h) = bh_chain_id h" "bh_receiver_alive (send_payload p h) = bh_receiver_alive h"
  "bh_unsafe_signer_recv (send_payload p h) = bh_unsafe_signer_recv h" "handler_topics (send_payload p h) = handler_topics h"
  "handler_inv (send_payload p h) = handler_inv h"
  by (simp_all add: send_payload_def handler_topics_def handler_inv_def)

lemma block_handle_cases:
  assumes "block_handle ge now msg h = (r, h')"
  obtains "h' = h" "r \<noteq> Ok Accept" | payload where "h' = send_payload payload h" "r = Ok Accept"
  using assms by (auto simp: block_handle_def action_simps split: option.splits outcome.splits if_splits)

section \<open>What is forwarded\<close>

definition clock_in_range :: "u64 \<Rightarrow> bool" where
  "clock_in_range now \<longleftrightarrow> 60 \<le> unat now \<and> unat now + 5 < 2 ^ 64"

definition recent :: "u64 \<Rightarrow> u64 \<Rightarrow> bool" where
  "recent now timestamp \<longleftrightarrow> unat timestamp \<le> unat now + 5 \<and> unat now \<le> unat timestamp + 60"

definition sequencer_signed :: "'sig gossip_externals \<Rightarrow> u64 \<Rightarrow> address \<Rightarrow> bytes \<Rightarrow> bytes \<Rightarrow> bool" where
  "sequencer_signed ge chain_id signer sig block \<longleftrightarrow>
     (\<exists>s. ge_signature_try_from ge sig = Ok s \<and>
       ge_verify ge s (ge_keccak256 ge (replicate 32 0 @ to_be_bytes 32 (ucast chain_id :: h256) @
         to_be_bytes 32 (ge_keccak256 ge block))) signer)"

text \<open>The formats of the three topics: signature, from version 3 on the parent beacon block root, and the block.\<close>

definition carries :: "'sig gossip_externals \<Rightarrow> u64 \<Rightarrow> message \<Rightarrow> bytes \<Rightarrow> bytes \<Rightarrow> execution_payload \<Rightarrow> bool" where
  "carries ge chain_id msg sig block payload \<longleftrightarrow> length sig = 65 \<and>
     (msg_topic msg = blocks_topic chain_id ''0'' \<and> ge_decompress_vec ge (msg_data msg) = Ok (sig @ block) \<and>
        (\<exists>p. ge_deserialize_v1 ge block = Ok p \<and> payload_from_v1 p = Ok payload) \<or>
      msg_topic msg = blocks_topic chain_id ''1'' \<and> ge_decompress_vec ge (msg_data msg) = Ok (sig @ block) \<and>
        (\<exists>p. ge_deserialize_v2 ge block = Ok p \<and> payload_from_v2 p = Ok payload) \<or>
      msg_topic msg = blocks_topic chain_id ''2'' \<and>
        (\<exists>root p. length root = 32 \<and> ge_decompress_vec ge (msg_data msg) = Ok (sig @ root @ block) \<and>
           ge_deserialize_v3 ge block = Ok p \<and> payload_from_v3 p = Ok payload))"

lemma block_valid_iff:
  assumes "clock_in_range now"
  shows "block_valid ge now h env \<longleftrightarrow> recent now (pl_timestamp (env_payload env)) \<and>
     ge_verify ge (env_signature env) (signature_message (ge_keccak256 ge) (env_hash env) (bh_chain_id h)) (bh_unsafe_signer_recv h)"
proof -
  have "unat (now + 5) = unat now + 5" using assms
    by (simp add: clock_in_range_def unat_add_no_wrap)
  moreover have "unat (now - 60) = unat now - 60" using assms
    by (simp add: clock_in_range_def unat_sub_no_wrap word_le_nat_alt)
  ultimately show ?thesis
    by (auto simp: block_valid_def Let_def recent_def word_less_nat_alt)
qed

lemma zero_bytes: "to_be_bytes n (0 :: 'a::len word) = replicate n 0"
  by (rule nth_equalityI) (simp_all add: to_be_bytes_def)

lemma cut_signature:
  "slice wire 0 n = Ok sig \<and> slice_from wire n = Ok block \<longleftrightarrow> wire = sig @ block \<and> length sig = n"
  by (auto simp: outcome_simps)

lemma cut_signature_root:
  "slice wire 0 65 = Ok sig \<and> slice wire 65 97 = Ok root \<and> slice_from wire 97 = Ok block \<longleftrightarrow>
   wire = sig @ root @ block \<and> length sig = 65 \<and> length root = 32" (is "?L \<longleftrightarrow> ?R")
proof
  assume ?L
  then have "97 \<le> length wire" "sig = take 65 wire" "root = take 32 (drop 65 wire)" "block = drop 32 (drop 65 wire)"
    by (simp_all add: outcome_simps)
  moreover have "wire = take 65 wire @ take 32 (drop 65 wire) @ drop 32 (drop 65 wire)"
    by (metis append_take_drop_id)
  ultimately show ?R by simp
next
  assume ?R
  then show ?L by (simp add: outcome_simps)
qed

lemma decode_pre_ecotone_eq_Ok:
  "decode_pre_ecotone_block_msg ge deserialize payload_from data = Ok env \<longleftrightarrow>
     (\<exists>sig block s p payload. ge_decompress_vec ge data = Ok (sig @ block) \<and> length sig = 65 \<and>
        ge_signature_try_from ge sig = Ok s \<and> deserialize block = Ok p \<and> payload_from p = Ok payload \<and>
        env = \<lparr>env_payload = payload, env_signature = s, env_hash = PayloadHash (ge_keccak256 ge block),
               env_parent_beacon_block_root = None\<rparr>)"
proof -
  have "decode_pre_ecotone_block_msg ge deserialize payload_from data = Ok env \<longleftrightarrow>
     (\<exists>sig block s p payload. \<exists>wire. (ge_decompress_vec ge data = Ok wire \<and>
        (slice wire 0 65 = Ok sig \<and> slice_from wire 65 = Ok block)) \<and>
        ge_signature_try_from ge sig = Ok s \<and> deserialize block = Ok p \<and> payload_from p = Ok payload \<and>
        env = \<lparr>env_payload = payload, env_signature = s, env_hash = PayloadHash (ge_keccak256 ge block),
               env_parent_beacon_block_root = None\<rparr>)"
    by (simp add: decode_pre_ecotone_block_msg_def and_then_eq_Ok payload_hash_from_def eq_commute [of _ env]) blast
  then show ?thesis unfolding cut_signature by blast
qed

lemma decode_post_ecotone_eq_Ok:
  "decode_post_ecotone_block_msg ge data = Ok env \<longleftrightarrow>
     (\<exists>sig root block s p payload. ge_decompress_vec ge data = Ok (sig @ root @ block) \<and> length sig = 65 \<and>
        length root = 32 \<and>
        ge_signature_try_from ge sig = Ok s \<and> ge_deserialize_v3 ge block = Ok p \<and> payload_from_v3 p = Ok payload \<and>
        env = \<lparr>env_payload = payload, env_signature = s, env_hash = PayloadHash (ge_keccak256 ge block),
               env_parent_beacon_block_root = Some (from_be_bytes root)\<rparr>)"
proof -
  have "decode_post_ecotone_block_msg ge data = Ok env \<longleftrightarrow>
     (\<exists>sig root block s p payload. \<exists>wire. (ge_decompress_vec ge data = Ok wire \<and>
        (slice wire 0 65 = Ok sig \<and> slice wire 65 97 = Ok root \<and> slice_from wire 97 = Ok block)) \<and>
        ge_signature_try_from ge sig = Ok s \<and> length root = 32 \<and> ge_deserialize_v3 ge block = Ok p \<and>
        payload_from_v3 p = Ok payload \<and>
        env = \<lparr>env_payload = payload, env_signature = s, env_hash = PayloadHash (ge_keccak256 ge block),
               env_parent_beacon_block_root = Some (from_be_bytes root)\<rparr>)"
    by (simp add: decode_post_ecotone_block_msg_def and_then_eq_Ok payload_hash_from_def from_slice_eq_Ok
        eq_commute [of _ env]) blast
  then show ?thesis unfolding cut_signature_root by blast
qed

text \<open>
  The handler's specification of a message: on one of its topics, in that topic's format, holding a
  block signed for its chain by the signer it knows.
\<close>

lemma decode_message_valid_iff:
  assumes "handler_inv h" "clock_in_range now"
  shows "(\<exists>env. decode_message ge h msg = Some (Ok env) \<and> block_valid ge now h env \<and> env_payload env = payload) \<longleftrightarrow>
     (\<exists>sig block. carries ge (bh_chain_id h) msg sig block payload \<and>
        sequencer_signed ge (bh_chain_id h) (bh_unsafe_signer_recv h) sig block \<and> recent now (pl_timestamp payload))"
proof -
  note topics = handler_topics_distinct [OF assms(1)] and inv = assms(1) [unfolded handler_inv_def]
  note spec = carries_def sequencer_signed_def block_valid_iff [OF assms(2)] signature_message_def zero_bytes
  consider "msg_topic msg = bh_blocks_v1_topic h" | "msg_topic msg = bh_blocks_v2_topic h"
    | "msg_topic msg = bh_blocks_v3_topic h" | "decode_message ge h msg = None"
    unfolding decode_message_def by metis
  then show ?thesis
  proof cases
    case 1
    then show ?thesis using topics inv
      by (auto simp: decode_message_def decode_pre_ecotone_eq_Ok spec; fastforce)
  next
    case 2
    then show ?thesis using topics inv
      by (auto simp: decode_message_def decode_pre_ecotone_eq_Ok spec; fastforce)
  next
    case 3
    then show ?thesis using topics inv
      by (auto simp: decode_message_def decode_post_ecotone_eq_Ok spec; fastforce)
  next
    case 4
    then show ?thesis using inv by (auto simp: decode_message_def carries_def split: if_splits)
  qed
qed

lemma block_handle_Accept_iff:
  "block_handle ge now msg h = (Ok Accept, h') \<longleftrightarrow>
     (\<exists>env. decode_message ge h msg = Some (Ok env) \<and> block_valid ge now h env \<and> h' = send_payload (env_payload env) h)"
  by (auto simp: block_handle_def action_simps split: option.splits outcome.splits if_splits)

text \<open>What a message adds to the channel.\<close>

lemma block_handle_forwards:
  assumes "handler_inv h" "clock_in_range now" "block_handle ge now msg h = (r, h')" "payload \<in> set (bh_block_sender h')"
  shows "payload \<in> set (bh_block_sender h) \<or>
    (\<exists>sig block. carries ge (bh_chain_id h) msg sig block payload \<and>
       sequencer_signed ge (bh_chain_id h) (bh_unsafe_signer_recv h) sig block \<and> recent now (pl_timestamp payload))"
  using assms(3)
proof (cases rule: block_handle_cases)
  case (2 sent)
  then obtain env where env: "decode_message ge h msg = Some (Ok env)" "block_valid ge now h env"
    and h': "h' = send_payload (env_payload env) h"
    using assms(3) by (auto simp: block_handle_Accept_iff)
  show ?thesis
  proof (cases "payload = env_payload env")
    case True
    then show ?thesis using decode_message_valid_iff [OF assms(1,2), of ge msg payload] env by blast
  next
    case False
    then show ?thesis using assms(4) by (auto simp: h' send_payload_def split: if_splits)
  qed
qed (use assms(4) in simp)

text \<open>
  C18: The handler accepts a message exactly if it stands on one of the topics of its chain, in the format of that
  topic, and holds a block whose timestamp is at most a minute old and at most five seconds ahead
  and which the signer the handler knows has signed for this chain; it then
  forwards that block's payload, and nothing else.
\<close>

theorem gossip_accepted_iff:
  assumes "handler_inv h" "clock_in_range now"
  shows "block_handle ge now msg h = (Ok Accept, h') \<longleftrightarrow>
     (\<exists>sig block payload. carries ge (bh_chain_id h) msg sig block payload \<and>
        sequencer_signed ge (bh_chain_id h) (bh_unsafe_signer_recv h) sig block \<and>
        recent now (pl_timestamp payload) \<and> h' = send_payload payload h)"
  unfolding block_handle_Accept_iff using decode_message_valid_iff [OF assms] by metis

section \<open>Messages that stop the handler\<close>

definition externals_return :: "'sig gossip_externals \<Rightarrow> bool" where
  "externals_return ge \<longleftrightarrow>
     (\<forall>bs. \<not> is_panic (ge_decompress_vec ge bs) \<and> \<not> is_panic (ge_signature_try_from ge bs) \<and>
       \<not> is_panic (ge_deserialize_v1 ge bs) \<and> \<not> is_panic (ge_deserialize_v2 ge bs) \<and> \<not> is_panic (ge_deserialize_v3 ge bs)) \<and>
     (\<forall>bs p. ge_deserialize_v1 ge bs = Ok p \<longrightarrow> well_formed_ssz p) \<and>
     (\<forall>bs p. ge_deserialize_v2 ge bs = Ok p \<longrightarrow> well_formed_ssz p) \<and>
     (\<forall>bs p. ge_deserialize_v3 ge bs = Ok p \<longrightarrow> well_formed_ssz p)"

lemma is_panic_and_then:
  "is_panic (and_then m f) \<longleftrightarrow> is_panic m \<or> (\<exists>x. m = Ok x \<and> is_panic (f x))"
  by (cases m) simp_all

lemma is_panic_slice: "is_panic (slice xs a b) \<longleftrightarrow> \<not> (a \<le> b \<and> b \<le> length xs)"
  "is_panic (slice_from xs a) \<longleftrightarrow> length xs < a"
  by (simp_all add: slice_def slice_from_def)

lemma block_handle_panics:
  "is_panic (fst (block_handle ge now msg h)) \<longleftrightarrow> (\<exists>d. decode_message ge h msg = Some d \<and> is_panic d)"
  by (auto simp: block_handle_def with_state_def lift_outcome_def bind_action_def modify_def
      split: option.splits outcome.splits)

lemma is_ok_iff: "is_ok m \<longleftrightarrow> (\<exists>x. m = Ok x)"
  by (cases m) simp_all

text \<open>The two ways: no room for the header of \<open>n\<close> bytes, or a base fee that is no 64-bit number.\<close>

definition stops ::
  "'sig gossip_externals \<Rightarrow> nat \<Rightarrow> (bytes \<Rightarrow> ('a execution_payload_v1_ssz_scheme) outcome) \<Rightarrow> bytes \<Rightarrow> bool" where
  "stops ge n deserialize wire \<longleftrightarrow>
     length wire < n \<or> is_ok (ge_signature_try_from ge (take 65 wire)) \<and>
       (\<exists>p. deserialize (drop n wire) = Ok p \<and> 2 ^ 64 \<le> uint (ssz_base_fee_per_gas p))"

lemma decode_pre_ecotone_panics:
  assumes "\<not> is_panic (ge_decompress_vec ge data)" "\<And>bs. \<not> is_panic (ge_signature_try_from ge bs)"
    "\<And>bs. \<not> is_panic (deserialize bs)"
    "\<And>bs p. deserialize bs = Ok p \<Longrightarrow> is_panic (payload_from p) \<longleftrightarrow> 2 ^ 64 \<le> uint (ssz_base_fee_per_gas p)"
  shows "is_panic (decode_pre_ecotone_block_msg ge deserialize payload_from data) \<longleftrightarrow>
    (\<exists>wire. ge_decompress_vec ge data = Ok wire \<and> stops ge 65 deserialize wire)"
  using assms
  by (auto simp: decode_pre_ecotone_block_msg_def is_panic_and_then is_panic_slice outcome_simps Let_def not_less
      stops_def is_ok_iff)

lemma decode_post_ecotone_panics:
  assumes "externals_return ge"
  shows "is_panic (decode_post_ecotone_block_msg ge data) \<longleftrightarrow>
    (\<exists>wire. ge_decompress_vec ge data = Ok wire \<and> stops ge 97 (ge_deserialize_v3 ge) wire)"
proof -
  have "is_panic (payload_from_v3 p) \<longleftrightarrow> 2 ^ 64 \<le> uint (ssz_base_fee_per_gas p)"
    if "ge_deserialize_v3 ge bs = Ok p" for bs p
    using assms that by (auto simp: payload_from_v3_def externals_return_def convert_payload_panics)
  moreover have "\<not> is_panic (from_slice 32 (take 32 (drop 65 wire)) :: h256 outcome)" if "97 \<le> length wire"
    for wire :: bytes
    using that by (simp add: from_slice_def)
  ultimately show ?thesis using assms
    by (auto simp: decode_post_ecotone_block_msg_def is_panic_and_then is_panic_slice outcome_simps Let_def not_less
        stops_def is_ok_iff externals_return_def)
qed

text \<open>
  C37: As long as decompression, signature parsing and SSZ return, the handler panics exactly on a message of one of its
  topics that decompresses to fewer bytes than the header of its format, or that parses with a base fee of
  \<open>2 ^ 64\<close> or more. Both are read before the signature is verified.
\<close>

theorem gossip_panics_iff:
  assumes "handler_inv h" "externals_return ge"
  shows "is_panic (fst (block_handle ge now msg h)) \<longleftrightarrow>
     (\<exists>wire. ge_decompress_vec ge (msg_data msg) = Ok wire \<and>
       (msg_topic msg = blocks_topic (bh_chain_id h) ''0'' \<and> stops ge 65 (ge_deserialize_v1 ge) wire \<or>
        msg_topic msg = blocks_topic (bh_chain_id h) ''1'' \<and> stops ge 65 (ge_deserialize_v2 ge) wire \<or>
        msg_topic msg = blocks_topic (bh_chain_id h) ''2'' \<and> stops ge 97 (ge_deserialize_v3 ge) wire))"
proof -
  have "is_panic (decode_pre_ecotone_block_msg ge (ge_deserialize_v1 ge) payload_from_v1 data) \<longleftrightarrow>
    (\<exists>wire. ge_decompress_vec ge data = Ok wire \<and> stops ge 65 (ge_deserialize_v1 ge) wire)" for data
    using assms(2) by (intro decode_pre_ecotone_panics)
      (auto simp: externals_return_def payload_from_v1_def convert_payload_panics)
  moreover have "is_panic (decode_pre_ecotone_block_msg ge (ge_deserialize_v2 ge) payload_from_v2 data) \<longleftrightarrow>
    (\<exists>wire. ge_decompress_vec ge data = Ok wire \<and> stops ge 65 (ge_deserialize_v2 ge) wire)" for data
    using assms(2) by (intro decode_pre_ecotone_panics)
      (auto simp: externals_return_def payload_from_v2_def convert_payload_panics)
  moreover note decode_post_ecotone_panics [OF assms(2)]
  moreover note handler_topics_distinct [OF assms(1)]
  ultimately show ?thesis using assms(1)
    unfolding block_handle_panics decode_message_def handler_inv_def by auto
qed

section \<open>A sample\<close>

definition sample_ssz :: "u64 \<Rightarrow> u256 \<Rightarrow> execution_payload_v1_ssz" where
  "sample_ssz timestamp fee =
     \<lparr>ssz_parent_hash = replicate 32 1, ssz_fee_recipient = replicate 20 0, ssz_state_root = replicate 32 0,
      ssz_receipts_root = replicate 32 0, ssz_logs_bloom = replicate 256 0, ssz_prev_randao = replicate 32 0,
      ssz_block_number = 5, ssz_gas_limit = 30, ssz_gas_used = 7, ssz_timestamp = timestamp, ssz_extra_data = [],
      ssz_base_fee_per_gas = fee, ssz_block_hash = replicate 32 2, ssz_transactions = [[9]]\<rparr>"

definition sample_gossip :: "bytes gossip_externals" where
  "sample_gossip =
     \<lparr>ge_decompress_vec = Ok, ge_keccak256 = (\<lambda>bs. of_nat (length bs)), ge_signature_try_from = Ok,
      ge_verify = (\<lambda>sig msg signer. msg = 96 \<and> signer = 7),
      ge_deserialize_v1 = (\<lambda>bs. if bs = [] then Err (External ''ssz'') else Ok (sample_ssz 1000 (ucast (hd bs)))),
      ge_deserialize_v2 = (\<lambda>bs. Err (External ''ssz'')), ge_deserialize_v3 = (\<lambda>bs. Err (External ''ssz''))\<rparr>"

definition sample_handler :: block_handler where
  "sample_handler = block_handler_new 10 7"

lemma sample_handler_fields [simp]:
  "handler_inv sample_handler" "bh_chain_id sample_handler = 10" "bh_unsafe_signer_recv sample_handler = 7"
  "bh_block_sender sample_handler = []"
  by (simp_all add: sample_handler_def handler_inv_new) (simp_all add: block_handler_new_def)

lemma sample_payload: "\<exists>payload. payload_from_v1 (sample_ssz 1000 3) = Ok payload \<and> pl_timestamp payload = 1000"
  by (simp add: payload_from_v1_def convert_payload_def convert_hash_def convert_address_def from_slice_def
      sample_ssz_def convert_uint_eq as_u64_def)

definition sample_message :: message where
  "sample_message = \<lparr>msg_topic = blocks_topic 10 ''0'', msg_data = replicate 65 0 @ [3]\<rparr>"

lemma sample_message_carries:
  assumes "payload_from_v1 (sample_ssz 1000 3) = Ok payload"
  shows "carries sample_gossip 10 sample_message (replicate 65 0) [3] payload"
    "sequencer_signed sample_gossip 10 7 (replicate 65 0) [3]"
  using assms by (simp_all add: carries_def sequencer_signed_def sample_gossip_def sample_message_def)

lemma sample_message_accepted:
  "\<exists>payload. block_handle sample_gossip 1030 sample_message sample_handler = (Ok Accept, send_payload payload sample_handler)"
proof -
  obtain payload where "payload_from_v1 (sample_ssz 1000 3) = Ok payload" "pl_timestamp payload = 1000"
    using sample_payload by blast
  then have "\<exists>env. decode_message sample_gossip sample_handler sample_message = Some (Ok env) \<and>
      block_valid sample_gossip 1030 sample_handler env \<and> env_payload env = payload"
    using sample_message_carries
    by (subst decode_message_valid_iff) (auto simp: clock_in_range_def recent_def)
  then show ?thesis by (auto simp: block_handle_Accept_iff)
qed

theorem gossip_accepted_iff_witness:
  "\<exists>h'. block_handle sample_gossip 1030 sample_message sample_handler = (Ok Accept, h')"
proof -
  obtain payload where p: "payload_from_v1 (sample_ssz 1000 3) = Ok payload" "pl_timestamp payload = 1000"
    using sample_payload by blast
  then have "recent 1030 (pl_timestamp payload)" "clock_in_range 1030"
    by (simp_all add: recent_def clock_in_range_def)
  then show ?thesis
    using gossip_accepted_iff [of sample_handler 1030 sample_gossip sample_message] sample_message_carries [OF p(1)] by auto
qed

theorem gossip_panics_iff_witness:
  "is_panic (fst (block_handle sample_gossip 1030 \<lparr>msg_topic = blocks_topic 10 ''0'', msg_data = [1, 2, 3]\<rparr> sample_handler))"
proof -
  have "externals_return sample_gossip"
    by (simp add: externals_return_def sample_gossip_def well_formed_ssz_def sample_ssz_def)
  moreover have "stops sample_gossip 65 (ge_deserialize_v1 sample_gossip) [1, 2, 3]" by (simp add: stops_def)
  ultimately show ?thesis
    using gossip_panics_iff [of sample_handler sample_gossip 1030 "\<lparr>msg_topic = blocks_topic 10 ''0'', msg_data = [1, 2, 3]\<rparr>"]
    by (simp add: sample_gossip_def)
qed

end
