(* ===== verification/Network_Service.thy ===== *)
theory Network_Service
  imports Block_Handler
begin

text \<open>
  \<^verbatim>\<open>src/src/network/service/mod.rs\<close> and \<^verbatim>\<open>src/src/network/service/types.rs\<close>: the addresses of the peer-to-peer network
  and the service that dials the peers discovery finds and dispatches gossip to its handlers.

  The libp2p swarm is what the service does to it: the peers dialled, the topics subscribed to and the
  validation results reported. Its constructors are parameters. The loop of the spawned task
  runs over the list of what the channel of peers and the swarm produce; a panic in a handler ends the task.

  The interface between the service and its handlers, the trait \<open>Handler\<close>, is the locale
  \<open>gossip_handler\<close>; the block handler is its interpretation. Shown: messages on topics no
  handler lists are as if never sent, so blocks in the version 3 format do not arrive; all that arrives is signed.
\<close>

section \<open>Addresses\<close>

type_synonym ipv4_addr = u32

datatype ip_addr = V4 ipv4_addr | V6 u128

datatype socket_addr = SocketAddr (sock_ip: ip_addr) (sock_port: u16)

record network_address =
  na_ip :: ipv4_addr
  na_port :: u16

record peer =
  peer_addr :: network_address

datatype protocol = Ip4 ipv4_addr | Tcp u16

type_synonym multiaddr = "protocol list"

definition network_address_from_enr :: "('enr \<Rightarrow> ipv4_addr option) \<Rightarrow> ('enr \<Rightarrow> u16 option) \<Rightarrow> 'enr \<Rightarrow> network_address outcome" where
  "network_address_from_enr ip4 tcp4 value =
     and_then (ok_or (ip4 value) ''missing ip'') (\<lambda>ip.
     and_then (ok_or (tcp4 value) ''missing port'') (\<lambda>port.
     Ok \<lparr>na_ip = ip, na_port = port\<rparr>))"

definition multiaddr_from_address :: "network_address \<Rightarrow> multiaddr" where
  "multiaddr_from_address value = ([] @ [Ip4 (na_ip value)]) @ [Tcp (na_port value)]"

definition socket_addr_from_address :: "network_address \<Rightarrow> socket_addr" where
  "socket_addr_from_address value = SocketAddr (V4 (na_ip value)) (na_port value)"

definition network_address_from_socket :: "socket_addr \<Rightarrow> network_address outcome" where
  "network_address_from_socket value =
     and_then (case sock_ip value of V4 ip \<Rightarrow> Ok ip | V6 _ \<Rightarrow> Err (Eyre ''ipv6 not supported'')) (\<lambda>ip.
     Ok \<lparr>na_ip = ip, na_port = sock_port value\<rparr>)"

definition peer_from_enr :: "('enr \<Rightarrow> ipv4_addr option) \<Rightarrow> ('enr \<Rightarrow> u16 option) \<Rightarrow> 'enr \<Rightarrow> peer outcome" where
  "peer_from_enr ip4 tcp4 value = and_then (network_address_from_enr ip4 tcp4 value) (\<lambda>addr. Ok \<lparr>peer_addr = addr\<rparr>)"

definition multiaddr_from_peer :: "peer \<Rightarrow> multiaddr" where
  "multiaddr_from_peer value = multiaddr_from_address (peer_addr value)"

section \<open>The service\<close>

definition compute_message_id :: "(bytes \<Rightarrow> bytes outcome) \<Rightarrow> (bytes \<Rightarrow> h256) \<Rightarrow> message \<Rightarrow> bytes outcome" where
  "compute_message_id decompress_vec sha256 msg =
     (case decompress_vec (msg_data msg) of
        Ok data \<Rightarrow>
          let domain_valid_snappy = [1, 0, 0, 0]
          in Ok (take 20 (to_be_bytes 32 (sha256 (domain_valid_snappy @ data))))
      | Err _ \<Rightarrow>
          let domain_invalid_snappy = [0, 0, 0, 0]
          in Ok (take 20 (to_be_bytes 32 (sha256 (domain_invalid_snappy @ msg_data msg))))
      | Panic p \<Rightarrow> Panic p
      | Diverge \<Rightarrow> Diverge)"

datatype 'id gossip_event = GossipMessage 'id bytes message | GossipOther

datatype 'id event = Ping | Gossipsub "'id gossip_event"

record ('h, 'key) service =
  sv_handlers :: "'h list"
  sv_addr :: socket_addr
  sv_chain_id :: u64
  sv_keypair :: "'key option"

definition service_new :: "socket_addr \<Rightarrow> u64 \<Rightarrow> ('h, 'key) service" where
  "service_new addr chain_id = \<lparr>sv_handlers = [], sv_addr = addr, sv_chain_id = chain_id, sv_keypair = None\<rparr>"

definition add_handler :: "'h \<Rightarrow> ('h, 'key) service \<Rightarrow> ('h, 'key) service" where
  "add_handler handler self = self\<lparr>sv_handlers := sv_handlers self @ [handler]\<rparr>"

definition set_keypair :: "'key \<Rightarrow> ('h, 'key) service \<Rightarrow> ('h, 'key) service" where
  "set_keypair keypair self = self\<lparr>sv_keypair := Some keypair\<rparr>"

text \<open>The swarm and the handlers, as the spawned task owns them.\<close>

record ('h, 'id) network =
  nw_handlers :: "'h list"
  nw_subscribed :: "string list"
  nw_listening :: "multiaddr list"
  nw_dialled :: "multiaddr list"
  nw_reported :: "(bytes \<times> 'id \<times> message_acceptance) list"

text \<open>The parameters of gossipsub that the node chooses; times are in milliseconds.\<close>

datatype validation_mode = Strict | Permissive | Anonymous | NoValidation

record gossipsub_config =
  gs_mesh_n :: nat
  gs_mesh_n_low :: nat
  gs_mesh_n_high :: nat
  gs_gossip_lazy :: nat
  gs_heartbeat_interval :: nat
  gs_fanout_ttl :: nat
  gs_history_length :: nat
  gs_history_gossip :: nat
  gs_duplicate_cache_time :: nat
  gs_validation_mode :: validation_mode
  gs_validate_messages :: bool

definition gossipsub_parameters :: gossipsub_config where
  "gossipsub_parameters =
     \<lparr>gs_mesh_n = 8, gs_mesh_n_low = 6, gs_mesh_n_high = 12, gs_gossip_lazy = 6, gs_heartbeat_interval = 500,
      gs_fanout_ttl = 24000, gs_history_length = 12, gs_history_gossip = 3, gs_duplicate_cache_time = 65000,
      gs_validation_mode = NoValidation, gs_validate_messages = True\<rparr>"

text \<open>What the service asks of libp2p and of discovery when it starts.\<close>

record 'key swarm_calls =
  sw_generate_secp256k1 :: "'key"
  sw_noise_config :: "'key \<Rightarrow> unit outcome"
  sw_config_build :: "gossipsub_config \<Rightarrow> unit outcome"
  sw_gossipsub_new :: "gossipsub_config \<Rightarrow> unit outcome"
  sw_subscribe :: "string \<Rightarrow> bool outcome"
  sw_listen_on :: "multiaddr \<Rightarrow> unit outcome"
  sw_discovery_start :: "network_address \<Rightarrow> u64 \<Rightarrow> unit outcome"

fun name_failure :: "string \<Rightarrow> 'a outcome \<Rightarrow> 'a outcome" where
  "name_failure msg (Err e) = Err (Eyre msg)"
| "name_failure msg r = r"

definition behaviour_new :: "('h \<Rightarrow> string list) \<Rightarrow> 'key swarm_calls \<Rightarrow> 'h list \<Rightarrow> string list outcome" where
  "behaviour_new topics sw handlers =
     (let all_topics = concat (map topics handlers)
      in and_then (name_failure ''gossipsub config creation failed'' (sw_config_build sw gossipsub_parameters)) (\<lambda>_.
         and_then (name_failure ''gossipsub behaviour creation failed'' (sw_gossipsub_new sw gossipsub_parameters)) (\<lambda>_.
         and_then (map_outcome (\<lambda>topic. name_failure ''subscription failed'' (sw_subscribe sw topic)) all_topics) (\<lambda>_.
         Ok all_topics))))"

definition create_swarm :: "('h \<Rightarrow> string list) \<Rightarrow> 'key swarm_calls \<Rightarrow> 'key \<Rightarrow> 'h list \<Rightarrow> string list outcome" where
  "create_swarm topics sw keypair handlers = and_then (sw_noise_config sw keypair) (\<lambda>_. behaviour_new topics sw handlers)"

definition service_start ::
  "('h \<Rightarrow> string list) \<Rightarrow> 'key swarm_calls \<Rightarrow> ('h, 'key) service \<Rightarrow> ('h, 'id) network outcome" where
  "service_start topics sw self =
     and_then (network_address_from_socket (sv_addr self)) (\<lambda>addr.
     let keypair = (case sv_keypair self of Some k \<Rightarrow> k | None \<Rightarrow> sw_generate_secp256k1 sw)
     in and_then (create_swarm topics sw keypair (sv_handlers self)) (\<lambda>subscribed.
        and_then (sw_discovery_start sw addr (sv_chain_id self)) (\<lambda>_.
        let multiaddr = multiaddr_from_address addr
        in and_then (name_failure ''swarm listen failed'' (sw_listen_on sw multiaddr)) (\<lambda>_.
           Ok \<lparr>nw_handlers = sv_handlers self, nw_subscribed = subscribed, nw_listening = [multiaddr],
               nw_dialled = [], nw_reported = []\<rparr>))))"

definition event_handle ::
  "('h \<Rightarrow> string list) \<Rightarrow> (message \<Rightarrow> ('h, message_acceptance) action) \<Rightarrow> 'id event \<Rightarrow> (('h, 'id) network, unit) action" where
  "event_handle topics handle self = with_state (\<lambda>n.
     case self of
       Gossipsub (GossipMessage propagation_source message_id message) \<Rightarrow>
         (case list_position (\<lambda>h. msg_topic message \<in> set (topics h)) (nw_handlers n) of
            Some i \<Rightarrow>
              bind_action
                (zoom (\<lambda>n. nw_handlers n ! i) (\<lambda>h n. n\<lparr>nw_handlers := (nw_handlers n)[i := h]\<rparr>) (handle message)) (\<lambda>status.
              modify (\<lambda>n. n\<lparr>nw_reported := nw_reported n @ [(message_id, propagation_source, status)]\<rparr>))
          | None \<Rightarrow> return_action ())
     | _ \<Rightarrow> return_action ())"

text \<open>What the loop selects: a peer that discovery found, the end of its channel, or an event of the swarm at a time.\<close>

datatype 'id selected = PeerRecv "peer option" | Behaviour u64 "'id event" | OtherSwarmEvent

definition service_iteration ::
  "('h \<Rightarrow> string list) \<Rightarrow> (u64 \<Rightarrow> message \<Rightarrow> ('h, message_acceptance) action) \<Rightarrow> 'id selected \<Rightarrow> (('h, 'id) network, unit) action" where
  "service_iteration topics handle selected =
     (case selected of
        PeerRecv (Some peer) \<Rightarrow> modify (\<lambda>n. n\<lparr>nw_dialled := nw_dialled n @ [multiaddr_from_peer peer]\<rparr>)
      | PeerRecv None \<Rightarrow> return_action ()
      | Behaviour now event \<Rightarrow> event_handle topics (handle now) event
      | OtherSwarmEvent \<Rightarrow> return_action ())"

primrec service_loop ::
  "('h \<Rightarrow> string list) \<Rightarrow> (u64 \<Rightarrow> message \<Rightarrow> ('h, message_acceptance) action) \<Rightarrow> 'id selected list \<Rightarrow>
   (('h, 'id) network, unit) action" where
  "service_loop topics handle [] = return_action ()"
| "service_loop topics handle (x # xs) =
     bind_action (service_iteration topics handle x) (\<lambda>_. service_loop topics handle xs)"

section \<open>Round trips\<close>

lemma socket_roundtrip: "network_address_from_socket (socket_addr_from_address a) = Ok a"
  by (simp add: network_address_from_socket_def socket_addr_from_address_def)

lemma socket_refused_iff: "network_address_from_socket s = Err e \<longleftrightarrow> (\<exists>i. sock_ip s = V6 i) \<and> e = Eyre ''ipv6 not supported''"
  by (auto simp: network_address_from_socket_def split: ip_addr.splits)

lemma multiaddr_inject: "multiaddr_from_peer p = multiaddr_from_peer q \<longleftrightarrow> p = q"
  by (cases p; cases q) (auto simp: multiaddr_from_peer_def multiaddr_from_address_def intro: network_address.equality)

text \<open>The identifier of a message is that of its content: however it was compressed, it is recognised as a duplicate.\<close>

lemma message_id_of_content:
  "decompress_vec (msg_data m) = Ok data \<Longrightarrow> decompress_vec (msg_data m') = Ok data \<Longrightarrow>
   compute_message_id decompress_vec sha256 m = compute_message_id decompress_vec sha256 m'"
  by (simp add: compute_message_id_def)

section \<open>Dispatch\<close>

fun on_topics :: "string set \<Rightarrow> 'id selected \<Rightarrow> bool" where
  "on_topics T (Behaviour now (Gossipsub (GossipMessage source i msg))) = (msg_topic msg \<in> T)"
| "on_topics T x = True"

locale gossip_handler =
  fixes topics :: "'h \<Rightarrow> string list"
    and handle :: "u64 \<Rightarrow> message \<Rightarrow> ('h, message_acceptance) action"
  assumes handle_keeps_topics: "handle now msg h = (r, h') \<Longrightarrow> topics h' = topics h"
begin

lemma iteration_cases:
  assumes "service_iteration topics handle x n = (r, n')"
  obtains "nw_handlers n' = nw_handlers n"
  | now source i msg k r' h' where "x = Behaviour now (Gossipsub (GossipMessage source i msg))"
      "k < length (nw_handlers n)" "msg_topic msg \<in> set (topics (nw_handlers n ! k))"
      "handle now msg (nw_handlers n ! k) = (r', h')" "nw_handlers n' = (nw_handlers n)[k := h']"
proof (cases "\<exists>now source i msg k. x = Behaviour now (Gossipsub (GossipMessage source i msg)) \<and>
    list_position (\<lambda>h. msg_topic msg \<in> set (topics h)) (nw_handlers n) = Some k")
  case True
  then obtain now source i msg k where x: "x = Behaviour now (Gossipsub (GossipMessage source i msg))"
    and pos: "list_position (\<lambda>h. msg_topic msg \<in> set (topics h)) (nw_handlers n) = Some k" by blast
  obtain r' h' where run: "handle now msg (nw_handlers n ! k) = (r', h')" by (cases "handle now msg (nw_handlers n ! k)")
  moreover have "nw_handlers n' = (nw_handlers n)[k := h']"
    using assms by (auto simp: service_iteration_def event_handle_def x pos run with_state_def zoom_def bind_action_def
        modify_def split: outcome.splits)
  ultimately show ?thesis using that(2) x pos [unfolded list_position_Some] by blast
next
  case False
  then show ?thesis using assms that(1)
    by (auto simp: service_iteration_def event_handle_def action_simps split: selected.splits option.splits event.splits
        gossip_event.splits)
qed

lemma iteration_keeps_topics:
  assumes "service_iteration topics handle x n = (r, n')"
  shows "map topics (nw_handlers n') = map topics (nw_handlers n)"
  using assms
proof (cases rule: iteration_cases)
  case (2 now source i msg k r' h')
  then show ?thesis
    using handle_keeps_topics [of now msg "nw_handlers n ! k" r' h'] by (simp add: map_update list_update_same_conv)
qed simp

lemma iteration_unlisted:
  assumes "\<not> on_topics (\<Union>ts \<in> set (map topics (nw_handlers n)). set ts) x"
  shows "service_iteration topics handle x n = (Ok (), n)"
proof -
  obtain now source i msg where x: "x = Behaviour now (Gossipsub (GossipMessage source i msg))"
    "msg_topic msg \<notin> (\<Union>ts \<in> set (map topics (nw_handlers n)). set ts)"
    using assms by (cases rule: on_topics.cases [of "(\<Union>ts \<in> set (map topics (nw_handlers n)). set ts, x)"]) auto
  then have "list_position (\<lambda>h. msg_topic msg \<in> set (topics h)) (nw_handlers n) = None"
    by (simp add: list_position_None)
  then show ?thesis by (simp add: x service_iteration_def event_handle_def with_state_def lift_outcome_def)
qed

text \<open>Messages on topics that no handler lists make no difference.\<close>

lemma loop_ignores_unlisted:
  "service_loop topics handle xs n =
     service_loop topics handle (filter (on_topics (\<Union>ts \<in> set (map topics (nw_handlers n)). set ts)) xs) n"
proof (induction xs arbitrary: n)
  case (Cons x xs)
  show ?case
  proof (cases "on_topics (\<Union>ts \<in> set (map topics (nw_handlers n)). set ts) x")
    case True
    obtain r n' where run: "service_iteration topics handle x n = (r, n')" by fastforce
    have "service_loop topics handle xs n' =
        service_loop topics handle (filter (on_topics (\<Union>ts \<in> set (map topics (nw_handlers n)). set ts)) xs) n'"
      using Cons.IH [of n'] unfolding iteration_keeps_topics [OF run] .
    then show ?thesis using True run by (simp add: bind_action_def split: outcome.splits)
  next
    case False
    then show ?thesis using Cons.IH [of n] iteration_unlisted [OF False] by (simp add: bind_action_def)
  qed
qed simp

text \<open>An invariant of the handlers, kept by each message the loop meets.\<close>

lemma loop_keeps_handlers:
  assumes "service_loop topics handle xs n = (r, n')" "\<forall>h \<in> set (nw_handlers n). P h"
    and "\<And>now source i msg h r h'. Behaviour now (Gossipsub (GossipMessage source i msg)) \<in> set xs \<Longrightarrow> P h \<Longrightarrow>
      msg_topic msg \<in> set (topics h) \<Longrightarrow> handle now msg h = (r, h') \<Longrightarrow> P h'"
  shows "\<forall>h \<in> set (nw_handlers n'). P h"
  using assms
proof (induction xs arbitrary: n)
  case (Cons x xs)
  obtain q m where run: "service_iteration topics handle x n = (q, m)" by fastforce
  have m: "\<forall>h \<in> set (nw_handlers m). P h"
    using run
  proof (cases rule: iteration_cases)
    case (2 now source i msg k r' h')
    then have "P h'" using Cons.prems(2,3) by (metis list.set_intros(1) nth_mem)
    then show ?thesis using 2 Cons.prems(2) set_update_subset_insert [of "nw_handlers n" k h'] by auto
  qed (use Cons.prems in simp)
  show ?case
  proof (cases q)
    case (Ok u)
    then have "service_loop topics handle xs m = (r, n')" using Cons.prems(1) run by (simp add: bind_action_def)
    moreover have "P h'" if "Behaviour now (Gossipsub (GossipMessage source i msg)) \<in> set xs" "P h"
      "msg_topic msg \<in> set (topics h)" "handle now msg h = (r, h')" for now source i msg h r h'
      using Cons.prems(3) that by (metis list.set_intros(2))
    ultimately show ?thesis using Cons.IH [OF _ m] by blast
  qed (use Cons.prems run m in \<open>simp_all add: bind_action_def\<close>)
qed (simp add: action_simps)

end

interpretation block_gossip: gossip_handler handler_topics "block_handle ge" for ge :: "'sig gossip_externals"
  by unfold_locales (auto elim: block_handle_cases)

section \<open>The network of a node\<close>

text \<open>The service that \<open>Driver::from_config\<close> builds, started.\<close>

definition starts_with_blocks :: "u64 \<Rightarrow> address \<Rightarrow> (block_handler, 'id) network \<Rightarrow> bool" where
  "starts_with_blocks chain_id signer n \<longleftrightarrow>
     (\<exists>sw :: unit swarm_calls. service_start handler_topics sw
        (add_handler (block_handler_new chain_id signer) (service_new (SocketAddr (V4 0) 9876) chain_id)) = Ok n)"

lemma starts_with_blocks_network:
  assumes "starts_with_blocks chain_id signer n"
  shows "nw_handlers n = [block_handler_new chain_id signer]"
    "nw_subscribed n = [blocks_topic chain_id ''0'', blocks_topic chain_id ''1'']"
  using assms by (auto simp: starts_with_blocks_def service_start_def create_swarm_def behaviour_new_def service_new_def
      add_handler_def set_keypair_def outcome_simps Let_def handler_topics_def block_handler_new_def)

text \<open>
  C38: The network service of a node behaves as if blocks in the version 3 format, those after Ecotone, had never
  been gossiped: its block handler decodes them but does not list their topic.
\<close>

theorem version_3_blocks_ignored:
  assumes "starts_with_blocks chain_id signer n"
  shows "service_loop handler_topics (block_handle ge) xs n =
    service_loop handler_topics (block_handle ge) (filter (on_topics (- {blocks_topic chain_id ''2''})) xs) n"
proof -
  let ?T = "\<Union>ts \<in> set (map handler_topics (nw_handlers n)). set ts"
  have T: "?T = {blocks_topic chain_id ''0'', blocks_topic chain_id ''1''}"
    using starts_with_blocks_network [OF assms] by (simp add: handler_topics_def block_handler_new_def)
  have "on_topics (- {blocks_topic chain_id ''2''}) x" if "on_topics ?T x" for x :: "'a selected"
    using that unfolding T by (cases rule: on_topics.cases [of "(?T, x)"]) (auto simp: blocks_topic_inject)
  then have "filter (on_topics ?T) (filter (on_topics (- {blocks_topic chain_id ''2''})) xs) = filter (on_topics ?T) xs"
    by (auto intro!: filter_cong)
  then show ?thesis using block_gossip.loop_ignores_unlisted by metis
qed

definition received_by_then :: "'id selected list \<Rightarrow> 'sig gossip_externals \<Rightarrow> u64 \<Rightarrow> address \<Rightarrow> execution_payload \<Rightarrow> bool" where
  "received_by_then xs ge chain_id signer payload \<longleftrightarrow>
     (\<exists>now source i msg sig block. Behaviour now (Gossipsub (GossipMessage source i msg)) \<in> set xs \<and>
        carries ge chain_id msg sig block payload \<and> sequencer_signed ge chain_id signer sig block \<and>
        recent now (pl_timestamp payload))"

lemma block_handle_keeps_received:
  assumes "handler_inv h" "clock_in_range now" "Behaviour now (Gossipsub (GossipMessage source i msg)) \<in> set xs"
    "\<forall>p \<in> set (bh_block_sender h). received_by_then xs ge (bh_chain_id h) (bh_unsafe_signer_recv h) p"
    "block_handle ge now msg h = (r, h')"
  shows "\<forall>p \<in> set (bh_block_sender h'). received_by_then xs ge (bh_chain_id h) (bh_unsafe_signer_recv h) p"
  using block_handle_forwards [OF assms(1,2,5)] assms(3,4) unfolding received_by_then_def by blast

text \<open>
  Whatever a node receives from its peers, in whatever order, every payload that reaches the driver's channel
  was carried by a message of this chain that the sequencer's signer signed, and was recent when it arrived.
\<close>

lemma network_forwards_signed_blocks:
  assumes "starts_with_blocks chain_id signer n"
    and clock: "\<And>now e. Behaviour now e \<in> set xs \<Longrightarrow> clock_in_range now"
    and run: "service_loop handler_topics (block_handle ge) xs n = (r, n')"
    and "h \<in> set (nw_handlers n')" "payload \<in> set (bh_block_sender h)"
  shows "received_by_then xs ge chain_id signer payload"
proof -
  let ?P = "\<lambda>h. handler_inv h \<and> bh_chain_id h = chain_id \<and> bh_unsafe_signer_recv h = signer \<and>
    (\<forall>p \<in> set (bh_block_sender h). received_by_then xs ge chain_id signer p)"
  have "\<forall>h \<in> set (nw_handlers n). ?P h"
    using starts_with_blocks_network(1) [OF assms(1)] by (simp add: handler_inv_new) (simp add: block_handler_new_def)
  moreover have "?P h'" if "Behaviour now (Gossipsub (GossipMessage source i msg)) \<in> set xs" "?P h"
    "block_handle ge now msg h = (r, h')" for now source i msg h r h'
  proof -
    have "handler_inv h'" "bh_chain_id h' = chain_id" "bh_unsafe_signer_recv h' = signer"
      using that(2,3) by (auto elim: block_handle_cases)
    then show ?thesis using block_handle_keeps_received [OF _ clock [OF that(1)] that(1) _ that(3)] that(2) by auto
  qed
  ultimately have "\<forall>h \<in> set (nw_handlers n'). ?P h"
    by (rule block_gossip.loop_keeps_handlers [OF run])
  then show ?thesis using assms(4,5) by blast
qed

section \<open>A sample\<close>

definition sample_swarm :: "unit swarm_calls" where
  "sample_swarm = \<lparr>sw_generate_secp256k1 = (), sw_noise_config = Ok, sw_config_build = (\<lambda>c. Ok ()), sw_gossipsub_new = (\<lambda>c. Ok ()), sw_subscribe = (\<lambda>t. Ok True),
     sw_listen_on = (\<lambda>a. Ok ()), sw_discovery_start = (\<lambda>a c. Ok ())\<rparr>"

definition sample_network :: "(block_handler, nat) network" where
  "sample_network = \<lparr>nw_handlers = [sample_handler], nw_subscribed = handler_topics sample_handler,
     nw_listening = [[Ip4 0, Tcp 9876]], nw_dialled = [], nw_reported = []\<rparr>"

lemma sample_network_starts: "starts_with_blocks 10 7 sample_network"
  unfolding starts_with_blocks_def
  by (intro exI [of _ sample_swarm])
     (simp add: service_start_def create_swarm_def behaviour_new_def service_new_def add_handler_def set_keypair_def
       network_address_from_socket_def multiaddr_from_address_def sample_network_def sample_handler_def sample_swarm_def
       handler_topics_def)

definition sample_traffic :: "nat selected list" where
  "sample_traffic = [PeerRecv (Some \<lparr>peer_addr = \<lparr>na_ip = 1, na_port = 2\<rparr>\<rparr>),
     Behaviour 1030 (Gossipsub (GossipMessage 4 [1] \<lparr>msg_topic = blocks_topic 10 ''2'', msg_data = []\<rparr>)),
     Behaviour 1030 (Gossipsub (GossipMessage 4 [2] sample_message))]"

theorem version_3_blocks_ignored_witness:
  "service_loop handler_topics (block_handle sample_gossip) sample_traffic sample_network =
   service_loop handler_topics (block_handle sample_gossip) [hd sample_traffic, last sample_traffic] sample_network"
  using version_3_blocks_ignored [OF sample_network_starts, of sample_gossip sample_traffic]
  by (simp add: sample_traffic_def sample_message_def blocks_topic_inject)

lemma sample_traffic_run:
  "\<exists>r n' h payload. service_loop handler_topics (block_handle sample_gossip) sample_traffic sample_network = (r, n') \<and>
     h \<in> set (nw_handlers n') \<and> payload \<in> set (bh_block_sender h)"
proof -
  obtain payload where acc: "block_handle sample_gossip 1030 sample_message sample_handler = (Ok Accept, send_payload payload sample_handler)"
    using sample_message_accepted by blast
  have "bh_block_sender (send_payload payload sample_handler) = [payload]"
    by (simp add: send_payload_def) (simp add: sample_handler_def block_handler_new_def)
  moreover have "msg_topic sample_message \<in> set (handler_topics sample_handler)" "blocks_topic 10 ''2'' \<notin> set (handler_topics sample_handler)"
    by (simp_all add: sample_message_def handler_topics_def sample_handler_def block_handler_new_def blocks_topic_inject)
  ultimately show ?thesis
    by (simp add: sample_traffic_def sample_network_def service_iteration_def event_handle_def with_state_def
        lift_outcome_def bind_action_def modify_def zoom_def acc)
qed

lemma network_forwards_signed_blocks_witness:
  "\<exists>payload. received_by_then sample_traffic sample_gossip 10 7 payload"
proof -
  obtain r n' h payload where
    "service_loop handler_topics (block_handle sample_gossip) sample_traffic sample_network = (r, n')"
    "h \<in> set (nw_handlers n')" "payload \<in> set (bh_block_sender h)" using sample_traffic_run by blast
  moreover have "Behaviour now e \<in> set sample_traffic \<Longrightarrow> clock_in_range now" for now e
    by (auto simp: sample_traffic_def clock_in_range_def)
  ultimately show ?thesis using network_forwards_signed_blocks [OF sample_network_starts] by blast
qed

end
