(* ===== verification/Discovery.thy ===== *)
theory Discovery
  imports Network_Service
begin

text \<open>
  \<^verbatim>\<open>src/src/network/service/discovery.rs\<close>: which of the nodes that discv5 finds become peers, and the
  \<open>opstack\<close> entry by which nodes of one chain recognise each other.

  The node records of the \<open>enr\<close> crate, the codecs of \<open>rlp\<close> and \<open>unsigned-varint\<close> and the discv5 service
  are the fields of \<open>enr_externals\<close>; \<open>codecs_invert\<close> states that decoding undoes encoding. The loop of the spawned task is
  one round per answer of \<open>find_node\<close>; the channel of peers is the list sent so far.
\<close>

record 'enr enr_externals =
  ee_ip4 :: "'enr \<Rightarrow> ipv4_addr option"
  ee_tcp4 :: "'enr \<Rightarrow> u16 option"
  ee_get_raw_rlp :: "'enr \<Rightarrow> string \<Rightarrow> bytes option"
  ee_build :: "(string \<times> bytes) list \<Rightarrow> 'enr outcome"
  ee_discv5_new :: "'enr \<Rightarrow> unit outcome"
  ee_from_str :: "string \<Rightarrow> 'enr option"
  ee_rlp_encode :: "bytes \<Rightarrow> bytes"
  ee_rlp_decode :: "bytes \<Rightarrow> bytes outcome"
  ee_encode_u128 :: "u128 \<Rightarrow> bytes"
  ee_decode_u64 :: "bytes \<Rightarrow> (u64 \<times> bytes) outcome"

record op_stack_enr_data =
  os_chain_id :: u64
  os_version :: u64

definition op_stack_enr_data_try_from :: "'enr enr_externals \<Rightarrow> bytes \<Rightarrow> op_stack_enr_data outcome" where
  "op_stack_enr_data_try_from ee value =
     and_then (ee_rlp_decode ee value) (\<lambda>bytes.
     and_then (ee_decode_u64 ee bytes) (\<lambda>(chain_id, rest).
     and_then (ee_decode_u64 ee rest) (\<lambda>(version, _).
     Ok \<lparr>os_chain_id = chain_id, os_version = version\<rparr>)))"

definition bytes_from_op_stack_enr_data :: "'enr enr_externals \<Rightarrow> op_stack_enr_data \<Rightarrow> bytes" where
  "bytes_from_op_stack_enr_data ee value =
     (let chain_id_slice = ee_encode_u128 ee (ucast (os_chain_id value));
          version_slice = ee_encode_u128 ee (ucast (os_version value));
          opstack = chain_id_slice @ version_slice
      in ee_rlp_encode ee opstack)"

text \<open>A panic or divergence of the codecs would be one of \<open>is_valid_node\<close>; a decoding error is the default, \<open>false\<close>.\<close>

definition is_valid_node :: "'enr enr_externals \<Rightarrow> 'enr \<Rightarrow> u64 \<Rightarrow> bool outcome" where
  "is_valid_node ee node chain_id =
     (case ee_get_raw_rlp ee node ''opstack'' of
        Some opstack \<Rightarrow>
          (case op_stack_enr_data_try_from ee opstack of
             Ok opstack \<Rightarrow> Ok (os_chain_id opstack = chain_id \<and> os_version opstack = 0)
           | Err _ \<Rightarrow> Ok False
           | Panic p \<Rightarrow> Panic p
           | Diverge \<Rightarrow> Diverge)
      | None \<Rightarrow> Ok False)"

definition create_disc :: "'enr enr_externals \<Rightarrow> u64 \<Rightarrow> 'enr outcome" where
  "create_disc ee chain_id =
     (let opstack = \<lparr>os_chain_id = chain_id, os_version = 0\<rparr>;
          opstack_data = bytes_from_op_stack_enr_data ee opstack
      in and_then (ee_build ee [(''opstack'', opstack_data)]) (\<lambda>enr.
         and_then (name_failure ''could not create disc service'' (ee_discv5_new ee enr)) (\<lambda>_.
         Ok enr)))"

text \<open>The nodes are filtered and converted one after the other, and each peer is sent before the next node is looked at.\<close>

fun send_peers :: "'enr enr_externals \<Rightarrow> u64 \<Rightarrow> 'enr list \<Rightarrow> (peer list, unit) action" where
  "send_peers ee chain_id [] = return_action ()"
| "send_peers ee chain_id (node # nodes) =
     bind_action (lift_outcome (is_valid_node ee node chain_id)) (\<lambda>valid.
     bind_action
       (if valid
        then (case peer_from_enr (ee_ip4 ee) (ee_tcp4 ee) node of
                Ok peer \<Rightarrow> modify (\<lambda>sent. sent @ [peer])
              | _ \<Rightarrow> return_action ())
        else return_action ()) (\<lambda>_.
     send_peers ee chain_id nodes))"

definition discovery_round :: "'enr enr_externals \<Rightarrow> u64 \<Rightarrow> 'enr list option \<Rightarrow> (peer list, unit) action" where
  "discovery_round ee chain_id found =
     (case found of
        Some nodes \<Rightarrow> send_peers ee chain_id nodes
      | None \<Rightarrow> return_action ())"

text \<open>
  The spawned task, over the answers of \<open>find_node\<close> in the rounds looked at, each for a random target. It first adds the boot nodes to the service and
  starts it, which may panic. The service is the list of records added.
\<close>

fun discovery_loop :: "'enr enr_externals \<Rightarrow> u64 \<Rightarrow> 'enr list option list \<Rightarrow> (peer list, unit) action" where
  "discovery_loop ee chain_id [] = return_action ()"
| "discovery_loop ee chain_id (found # founds) =
     bind_action (discovery_round ee chain_id found) (\<lambda>_. discovery_loop ee chain_id founds)"

definition bootnodes :: "'enr enr_externals \<Rightarrow> 'enr list" where
  "bootnodes ee = List.map_filter (ee_from_str ee)
     [''enr:-J64QBbwPjPLZ6IOOToOLsSjtFUjjzN66qmBZdUexpO32Klrc458Q24kbty2PdRaLacHM5z-cZQr8mjeQu3pik6jPSOGAYYFIqBfgmlkgnY0gmlwhDaRWFWHb3BzdGFja4SzlAUAiXNlY3AyNTZrMaECmeSnJh7zjKrDSPoNMGXoopeDF4hhpj5I0OsQUUt4u8uDdGNwgiQGg3VkcIIkBg'',
      ''enr:-J64QAlTCDa188Hl1OGv5_2Kj2nWCsvxMVc_rEnLtw7RPFbOfqUOV6khXT_PH6cC603I2ynY31rSQ8sI9gLeJbfFGaWGAYYFIrpdgmlkgnY0gmlwhANWgzCHb3BzdGFja4SzlAUAiXNlY3AyNTZrMaECkySjcg-2v0uWAsFsZZu43qNHppGr2D5F913Qqs5jDCGDdGNwgiQGg3VkcIIkBg'',
      ''enr:-J24QGEzN4mJgLWNTUNwj7riVJ2ZjRLenOFccl2dbRFxHHOCCZx8SXWzgf-sLzrGs6QgqSFCvGXVgGPBkRkfOWlT1-iGAYe6Cu93gmlkgnY0gmlwhCJBEUSHb3BzdGFja4OkAwCJc2VjcDI1NmsxoQLuYIwaYOHg3CUQhCkS-RsSHmUd1b_x93-9yQ5ItS6udIN0Y3CCIyuDdWRwgiMr'',
      ''enr:-J24QNz9lbrKbN4iSmmjtnr7SjUMk4zB7f1krHZcTZx-JRKZd0kA2gjufUROD6T3sOWDVDnFJRvqBBo62zuF-hYCohOGAYiOoEyEgmlkgnY0gmlwhAPniryHb3BzdGFja4OFQgCJc2VjcDI1NmsxoQKNVFlCxh_B-716tTs-h1vMzZkSs1FTu_OYTNjgufplG4N0Y3CCJAaDdWRwgiQG'',
      ''enr:-J24QH-f1wt99sfpHy4c0QJM-NfmsIfmlLAMMcgZCUEgKG_BBYFc6FwYgaMJMQN5dsRBJApIok0jFn-9CS842lGpLmqGAYiOoDRAgmlkgnY0gmlwhLhIgb2Hb3BzdGFja4OFQgCJc2VjcDI1NmsxoQJ9FTIv8B9myn1MWaC_2lJ-sMoeCDkusCsk4BYHjjCq04N0Y3CCJAaDdWRwgiQG'',
      ''enr:-J24QDXyyxvQYsd0yfsN0cRr1lZ1N11zGTplMNlW4xNEc7LkPXh0NAJ9iSOVdRO95GPYAIc6xmyoCCG6_0JxdL3a0zaGAYiOoAjFgmlkgnY0gmlwhAPckbGHb3BzdGFja4OFQgCJc2VjcDI1NmsxoQJwoS7tzwxqXSyFL7g0JM-KWVbgvjfB8JA__T7yY_cYboN0Y3CCJAaDdWRwgiQG'',
      ''enr:-J24QHmGyBwUZXIcsGYMaUqGGSl4CFdx9Tozu-vQCn5bHIQbR7On7dZbU61vYvfrJr30t0iahSqhc64J46MnUO2JvQaGAYiOoCKKgmlkgnY0gmlwhAPnCzSHb3BzdGFja4OFQgCJc2VjcDI1NmsxoQINc4fSijfbNIiGhcgvwjsjxVFJHUstK9L1T8OTKUjgloN0Y3CCJAaDdWRwgiQG'',
      ''enr:-J24QG3ypT4xSu0gjb5PABCmVxZqBjVw9ca7pvsI8jl4KATYAnxBmfkaIuEqy9sKvDHKuNCsy57WwK9wTt2aQgcaDDyGAYiOoGAXgmlkgnY0gmlwhDbGmZaHb3BzdGFja4OFQgCJc2VjcDI1NmsxoQIeAK_--tcLEiu7HvoUlbV52MspE0uCocsx1f_rYvRenIN0Y3CCJAaDdWRwgiQG'']"

definition discovery_task ::
  "'enr enr_externals \<Rightarrow> (socket_addr \<Rightarrow> 'enr list \<Rightarrow> unit outcome) \<Rightarrow> network_address \<Rightarrow> u64 \<Rightarrow> 'enr list option list \<Rightarrow>
   (peer list, unit) action" where
  "discovery_task ee disc_start addr chain_id founds =
     bind_action (lift_outcome (unwrap_res (disc_start (socket_addr_from_address addr) (bootnodes ee))
       ''called unwrap on an Err value'')) (\<lambda>_.
     discovery_loop ee chain_id founds)"

text \<open>Starting returns at once, with an error if the service cannot be created; the task runs on its own from then on.\<close>

definition discovery_start ::
  "'enr enr_externals \<Rightarrow> (socket_addr \<Rightarrow> 'enr list \<Rightarrow> unit outcome) \<Rightarrow> network_address \<Rightarrow> u64 \<Rightarrow>
   ('enr list option list \<Rightarrow> (peer list, unit) action) outcome" where
  "discovery_start ee disc_start addr chain_id =
     and_then (create_disc ee chain_id) (\<lambda>disc. Ok (discovery_task ee disc_start addr chain_id))"

section \<open>Properties\<close>

definition codecs_invert :: "'enr enr_externals \<Rightarrow> bool" where
  "codecs_invert ee \<longleftrightarrow>
     (\<forall>bs. ee_rlp_decode ee (ee_rlp_encode ee bs) = Ok bs) \<and>
     (\<forall>(n :: u64) rest. ee_decode_u64 ee (ee_encode_u128 ee (ucast n) @ rest) = Ok (n, rest))"

definition records_keep_entries :: "'enr enr_externals \<Rightarrow> bool" where
  "records_keep_entries ee \<longleftrightarrow>
     (\<forall>entries enr k. ee_build ee entries = Ok enr \<longrightarrow> ee_get_raw_rlp ee enr k = map_of entries k)"

lemma op_stack_enr_data_roundtrip:
  assumes "codecs_invert ee"
  shows "op_stack_enr_data_try_from ee (bytes_from_op_stack_enr_data ee d) = Ok d"
proof -
  have "ee_decode_u64 ee (ee_encode_u128 ee (ucast (n :: u64))) = Ok (n, [])" for n
    using assms unfolding codecs_invert_def by (metis append_Nil2)
  then show ?thesis using assms
    by (simp add: op_stack_enr_data_try_from_def bytes_from_op_stack_enr_data_def codecs_invert_def Let_def)
qed

text \<open>
  Nodes recognise each other exactly if they are on one chain: the record that a node publishes for its chain is
  valid for another node if and only if that node looks for the same chain.
\<close>

lemma own_record_valid_iff_same_chain:
  assumes "codecs_invert ee" "records_keep_entries ee" "create_disc ee chain_id = Ok enr"
  shows "is_valid_node ee enr wanted = Ok (chain_id = wanted)"
proof -
  let ?d = "\<lparr>os_chain_id = chain_id, os_version = 0\<rparr>"
  have "ee_build ee [(''opstack'', bytes_from_op_stack_enr_data ee ?d)] = Ok enr"
    using assms(3) by (auto simp: create_disc_def outcome_simps Let_def)
  then have "ee_get_raw_rlp ee enr ''opstack'' = Some (bytes_from_op_stack_enr_data ee ?d)"
    using assms(2) unfolding records_keep_entries_def by (metis map_of_Cons_code(2))
  then show ?thesis by (simp add: is_valid_node_def op_stack_enr_data_roundtrip [OF assms(1)])
qed

text \<open>Of the nodes found, those that are valid and have an address are sent, in order.\<close>

definition peers_of :: "'enr enr_externals \<Rightarrow> u64 \<Rightarrow> 'enr list \<Rightarrow> peer list" where
  "peers_of ee chain_id nodes =
     [\<lparr>peer_addr = \<lparr>na_ip = ip, na_port = port\<rparr>\<rparr>.
        node \<leftarrow> nodes, is_valid_node ee node chain_id = Ok True,
        ip \<leftarrow> (case ee_ip4 ee node of Some ip \<Rightarrow> [ip] | None \<Rightarrow> []),
        port \<leftarrow> (case ee_tcp4 ee node of Some port \<Rightarrow> [port] | None \<Rightarrow> [])]"

lemma send_peers_sends:
  assumes "\<forall>node \<in> set nodes. is_ok (is_valid_node ee node chain_id)"
  shows "send_peers ee chain_id nodes sent = (Ok (), sent @ peers_of ee chain_id nodes)"
  using assms
proof (induction nodes arbitrary: sent)
  case (Cons node nodes)
  then obtain v where "is_valid_node ee node chain_id = Ok v" by (auto simp: is_ok_iff)
  then show ?case using Cons
    by (auto simp: peers_of_def bind_action_def lift_outcome_def modify_def peer_from_enr_def
        network_address_from_enr_def split: option.splits)
qed (simp add: peers_of_def lift_outcome_def)

text \<open>
  The task, once the service has started, sends the peers of all rounds in order, whatever rounds fail, and a service that does not start ends
  it before any peer is sent.
\<close>

lemma discovery_task_sends:
  assumes "\<forall>nodes \<in> set (List.map_filter id founds). \<forall>node \<in> set nodes. is_ok (is_valid_node ee node chain_id)"
    and "disc_start (socket_addr_from_address addr) (bootnodes ee) = Ok ()"
  shows "discovery_task ee disc_start addr chain_id founds [] =
    (Ok (), concat (map (peers_of ee chain_id) (List.map_filter id founds)))"
proof -
  have "discovery_loop ee chain_id founds sent = (Ok (), sent @ concat (map (peers_of ee chain_id) (List.map_filter id founds)))" for sent
    using assms(1)
  proof (induction founds arbitrary: sent)
    case (Cons found founds)
    then show ?case
      by (cases found) (simp_all add: discovery_round_def send_peers_sends bind_action_def lift_outcome_def List.map_filter_simps)
  qed (simp add: lift_outcome_def List.map_filter_simps)
  then show ?thesis using assms(2) by (simp add: discovery_task_def bind_action_def lift_outcome_def)
qed

lemma discovery_task_needs_service:
  "disc_start (socket_addr_from_address addr) (bootnodes ee) = Err e \<Longrightarrow>
   snd (discovery_task ee disc_start addr chain_id founds []) = [] \<and> is_panic (fst (discovery_task ee disc_start addr chain_id founds []))"
  by (simp add: discovery_task_def bind_action_def lift_outcome_def)

definition sample_enr :: "(string \<times> bytes) list enr_externals" where
  "sample_enr = \<lparr>ee_ip4 = (\<lambda>e. Some 1), ee_tcp4 = (\<lambda>e. Some 9222), ee_get_raw_rlp = map_of, ee_build = Ok,
     ee_discv5_new = (\<lambda>e. Ok ()), ee_from_str = (\<lambda>s. None), ee_rlp_encode = id, ee_rlp_decode = Ok,
     ee_encode_u128 = to_be_bytes 16,
     ee_decode_u64 = (\<lambda>bs. Ok (ucast (from_be_bytes (take 16 bs) :: u128), drop 16 bs))\<rparr>"

lemma sample_enr_laws: "codecs_invert sample_enr" "records_keep_entries sample_enr"
proof -
  have "from_be_bytes (to_be_bytes 16 w) = w" for w :: u128 by (rule from_to_be_bytes) simp
  moreover have "ucast (ucast n :: u128) = n" for n :: u64
    by (rule bit_word_eqI) (simp add: bit_simps)
  ultimately show "codecs_invert sample_enr" by (simp add: codecs_invert_def sample_enr_def)
qed (simp add: records_keep_entries_def sample_enr_def)

lemma own_record_valid_iff_same_chain_witness:
  "\<exists>enr. create_disc sample_enr 10 = Ok enr \<and> is_valid_node sample_enr enr 10 = Ok True \<and>
     is_valid_node sample_enr enr 8453 = Ok False"
proof -
  obtain enr where "create_disc sample_enr 10 = Ok enr" by (auto simp: create_disc_def sample_enr_def Let_def)
  then show ?thesis using own_record_valid_iff_same_chain [OF sample_enr_laws] by simp
qed

end
