(* ===== verification/Purgeable.thy ===== *)
theory Purgeable
  imports Magi_Prelude
begin

text \<open>
  \<^verbatim>\<open>src/src/derive/purgeable.rs\<close>: the trait \<open>PurgeableIterator\<close>, an iterator that can be
  reset, as the interface between the stages of the derivation pipeline. A stage is a state,
  a function \<open>step\<close> (the iterator's \<open>next\<close>, which may panic) and \<open>purge\<close>. Stages that read the shared
  derivation state get it as the environment of \<open>step\<close>.

  The locale states what a stage promises to the stage above it and to the driver: \<open>step\<close>
  and \<open>purge\<close> keep the stage's invariant, and a purged stage yields nothing until it gets new
  input, as long as the environment gives it no reason to (the predicate \<open>quiet\<close>).
\<close>

text \<open>The consumer's loop \<^verbatim>\<open>for x in iter.by_ref()\<close>, for at most \<open>n\<close> items.\<close>

fun pull :: "('env \<Rightarrow> 's \<Rightarrow> ('i option \<times> 's) outcome) \<Rightarrow> 'env \<Rightarrow> nat \<Rightarrow> 's \<Rightarrow> ('i list \<times> 's) outcome" where
  "pull step env 0 s = Ok ([], s)"
| "pull step env (Suc n) s =
     and_then (step env s) (\<lambda>(x, s').
       case x of
         None \<Rightarrow> Ok ([], s')
       | Some i \<Rightarrow> and_then (pull step env n s') (\<lambda>(is, s''). Ok (i # is, s'')))"

locale purgeable_iterator =
  fixes step :: "'env \<Rightarrow> 's \<Rightarrow> ('i option \<times> 's) outcome"
    and purge :: "'s \<Rightarrow> 's"
    and inv :: "'s \<Rightarrow> bool"
    and drained :: "'s \<Rightarrow> bool"
    and quiet :: "'env \<Rightarrow> bool"
  assumes inv_step: "inv s \<Longrightarrow> step env s = Ok (x, s') \<Longrightarrow> inv s'"
    and inv_purge: "inv s \<Longrightarrow> inv (purge s)"
    and purge_drained: "drained (purge s)"
    and step_drained: "drained s \<Longrightarrow> quiet env \<Longrightarrow> \<exists>s'. step env s = Ok (None, s') \<and> drained s'"
begin

lemma purged_yields_nothing:
  "quiet env \<Longrightarrow> \<exists>s'. step env (purge s) = Ok (None, s') \<and> drained s'"
  by (rule step_drained [OF purge_drained])

lemma pull_drained:
  assumes "drained s" and "quiet env"
  shows "\<exists>s'. pull step env n s = Ok ([], s') \<and> drained s'"
proof (cases n)
  case (Suc m)
  obtain s' where "step env s = Ok (None, s')" "drained s'"
    using step_drained [OF assms] by blast
  with Suc show ?thesis by simp
qed (use assms in simp)

lemma pull_purged: "quiet env \<Longrightarrow> \<exists>s'. pull step env n (purge s) = Ok ([], s')"
  using pull_drained [OF purge_drained] by blast

lemma inv_pull: "inv s \<Longrightarrow> pull step env n s = Ok (xs, s') \<Longrightarrow> inv s'"
proof (induction n arbitrary: s xs)
  case (Suc n)
  then show ?case
    by (auto simp: outcome_simps split: option.splits) (meson inv_step)+
qed simp

end

end
