(* ===== verification/Batcher_Transactions.thy ===== *)
theory Batcher_Transactions
  imports Purgeable
begin

text \<open>
  \<^verbatim>\<open>src/src/derive/stages/batcher_transactions.rs\<close>: the first stage. It receives the data
  of batcher transactions over a channel, decodes each into frames and hands the decoded
  transactions on in order. The channel is the list of messages sent and not yet received;
  the only sender is the driver's own thread, between two calls of the stage.

  Shown: a frame in the wire format decodes to itself; exactly when decoding errs or panics;
  a transaction yields its first frame only; the stage is a queue of the decodable
  transactions.
\<close>

section \<open>Frames\<close>

record frame =
  fr_channel_id :: u128
  fr_frame_number :: u16
  fr_frame_data_len :: u32
  fr_frame_data :: bytes
  fr_is_last :: bool
  fr_l1_inclusion_block :: u64

definition frame_from_data :: "bytes \<Rightarrow> nat \<Rightarrow> u64 \<Rightarrow> (frame \<times> nat) outcome" where
  "frame_from_data data0 offset l1_inclusion_block =
     and_then (slice_from data0 offset) (\<lambda>data.
     if length data < 23 then Err (Eyre ''invalid frame size'') else
     and_then (slice data 0 16) (\<lambda>b_id.
     and_then (slice data 16 18) (\<lambda>b_number.
     and_then (slice data 18 22) (\<lambda>b_len.
     let frame_data_len = (from_be_bytes b_len :: u32);
         frame_data_end = 22 + unat frame_data_len
     in if length data < frame_data_end then Err (Eyre ''invalid frame size'') else
     and_then (slice data 22 frame_data_end) (\<lambda>frame_data.
     and_then (index data frame_data_end) (\<lambda>flag.
     if 1 < flag then Err (Eyre ''invalid is_last flag'') else
     let is_last = (flag \<noteq> 0);
         frame = \<lparr>fr_channel_id = from_be_bytes b_id,
                  fr_frame_number = from_be_bytes b_number,
                  fr_frame_data_len = frame_data_len,
                  fr_frame_data = frame_data,
                  fr_is_last = is_last,
                  fr_l1_inclusion_block = l1_inclusion_block\<rparr>
     in Ok (frame, offset + length data)))))))"

section \<open>Batcher transactions\<close>

record batcher_transaction =
  btx_version :: u8
  btx_frames :: "frame list"

lemma frame_from_data_progress:
  "frame_from_data data offset l1 = Ok (f, next_offset) \<Longrightarrow>
     offset < next_offset \<and> next_offset = length data"
  by (auto simp: frame_from_data_def outcome_simps Let_def split: if_splits)

function parse_frames :: "bytes \<Rightarrow> nat \<Rightarrow> u64 \<Rightarrow> frame list \<Rightarrow> frame list outcome" where
  "parse_frames frame_data offset l1_origin frames =
     (if offset < length frame_data then
        and_then (frame_from_data frame_data offset l1_origin) (\<lambda>(frame, next_offset).
          parse_frames frame_data next_offset l1_origin (frames @ [frame]))
      else Ok frames)"
  by pat_completeness auto
termination
  by (relation "measure (\<lambda>(fd, off, l1, fs). length fd - off)")
    (auto dest: frame_from_data_progress)

declare parse_frames.simps [simp del]

definition batcher_transaction_new :: "bytes \<Rightarrow> u64 \<Rightarrow> batcher_transaction outcome" where
  "batcher_transaction_new data l1_origin =
     and_then (index data 0) (\<lambda>version.
     and_then (ok_or (slice_get data 1 (length data)) ''No frame data'') (\<lambda>frame_data.
     and_then (parse_frames frame_data 0 l1_origin []) (\<lambda>frames.
     Ok \<lparr>btx_version = version, btx_frames = frames\<rparr>)))"

section \<open>The stage\<close>

record batcher_transaction_message =
  btm_txs :: "bytes list"
  btm_l1_origin :: u64

record batcher_transactions =
  bts_txs :: "batcher_transaction list"
  bts_transaction_rx :: "batcher_transaction_message list"

definition batcher_transactions_new :: "batcher_transaction_message list \<Rightarrow> batcher_transactions" where
  "batcher_transactions_new transaction_rx = \<lparr>bts_txs = [], bts_transaction_rx = transaction_rx\<rparr>"

text \<open>The inner loop of \<open>process_incoming\<close>: a transaction that does not decode is dropped.\<close>

fun push_decoded :: "u64 \<Rightarrow> bytes list \<Rightarrow> batcher_transaction list \<Rightarrow> batcher_transaction list outcome" where
  "push_decoded l1_origin [] txs = Ok txs"
| "push_decoded l1_origin (data # datas) txs =
     (case batcher_transaction_new data l1_origin of
        Ok tx \<Rightarrow> push_decoded l1_origin datas (txs @ [tx])
      | Err e \<Rightarrow> push_decoded l1_origin datas txs
      | Panic p \<Rightarrow> Panic p
      | Diverge \<Rightarrow> Diverge)"

fun receive_all :: "batcher_transaction_message list \<Rightarrow> batcher_transaction list \<Rightarrow> batcher_transaction list outcome" where
  "receive_all [] txs = Ok txs"
| "receive_all (m # rx) txs =
     and_then (push_decoded (btm_l1_origin m) (btm_txs m) txs) (receive_all rx)"

definition process_incoming :: "batcher_transactions \<Rightarrow> batcher_transactions outcome" where
  "process_incoming s =
     and_then (receive_all (bts_transaction_rx s) (bts_txs s)) (\<lambda>txs.
     Ok (s\<lparr>bts_txs := txs, bts_transaction_rx := []\<rparr>))"

definition batcher_transactions_next ::
  "batcher_transactions \<Rightarrow> (batcher_transaction option \<times> batcher_transactions) outcome" where
  "batcher_transactions_next s =
     and_then (process_incoming s) (\<lambda>s'.
     case bts_txs s' of
       [] \<Rightarrow> Ok (None, s')
     | tx # txs \<Rightarrow> Ok (Some tx, s'\<lparr>bts_txs := txs\<rparr>))"

definition batcher_transactions_purge :: "batcher_transactions \<Rightarrow> batcher_transactions" where
  "batcher_transactions_purge s = s\<lparr>bts_txs := [], bts_transaction_rx := []\<rparr>"

section \<open>Decoding a frame\<close>

text \<open>
  The batch submission wire format of a frame: channel id, frame number, data length, data,
  last-frame flag.
\<close>

definition frame_bytes :: "frame \<Rightarrow> bytes" where
  "frame_bytes f =
     to_be_bytes 16 (fr_channel_id f) @ to_be_bytes 2 (fr_frame_number f) @
     to_be_bytes 4 (fr_frame_data_len f) @ fr_frame_data f @ [if fr_is_last f then 1 else 0]"

definition frame_wf :: "frame \<Rightarrow> bool" where
  "frame_wf f \<longleftrightarrow> unat (fr_frame_data_len f) = length (fr_frame_data f)"

definition declared_len :: "bytes \<Rightarrow> nat" where
  "declared_len data = unat (from_be_bytes (take 4 (drop 18 data)) :: u32)"

lemma frame_bytes_parts:
  fixes rest :: bytes
  assumes "frame_wf f"
  defines "d \<equiv> frame_bytes f @ rest"
  shows "take 16 d = to_be_bytes 16 (fr_channel_id f)"
    and "take 2 (drop 16 d) = to_be_bytes 2 (fr_frame_number f)"
    and "take 4 (drop 18 d) = to_be_bytes 4 (fr_frame_data_len f)"
    and "take (length (fr_frame_data f)) (drop 22 d) = fr_frame_data f"
    and "d ! (22 + length (fr_frame_data f)) = (if fr_is_last f then 1 else 0)"
    and "23 + length (fr_frame_data f) \<le> length d"
  using assms by (simp_all add: frame_bytes_def d_def nth_append)

lemma frame_from_data_frame_bytes:
  assumes "frame_wf f" and "fr_l1_inclusion_block f = l1"
  shows "frame_from_data (pre @ frame_bytes f @ rest) (length pre) l1 =
           Ok (f, length (pre @ frame_bytes f @ rest))"
  using assms frame_bytes_parts [of f rest]
  by (auto simp: frame_from_data_def slice_from_def slice_def index_def Let_def frame_wf_def
      frame_bytes_def simp flip: append_assoc)

text \<open>Every outcome of the decoder, by the shape of the bytes from the offset on.\<close>

lemma frame_from_data_outcome:
  assumes "offset \<le> length data0"
  defines "data \<equiv> drop offset data0"
  defines "flag \<equiv> data ! (22 + declared_len data)"
  shows "length data < 23 \<or> length data < 22 + declared_len data \<Longrightarrow>
           frame_from_data data0 offset l1 = Err (Eyre ''invalid frame size'')"
    and "23 \<le> length data \<Longrightarrow> length data = 22 + declared_len data \<Longrightarrow>
           frame_from_data data0 offset l1 = Panic IndexOutOfBounds"
    and "23 \<le> length data \<Longrightarrow> 22 + declared_len data < length data \<Longrightarrow> 1 < flag \<Longrightarrow>
           frame_from_data data0 offset l1 = Err (Eyre ''invalid is_last flag'')"
    and "23 \<le> length data \<Longrightarrow> 22 + declared_len data < length data \<Longrightarrow> flag \<le> 1 \<Longrightarrow>
           \<exists>f. frame_from_data data0 offset l1 = Ok (f, length data0) \<and> frame_wf f"
  using assms
  by (auto simp: frame_from_data_def slice_from_def slice_def index_def Let_def declared_len_def
      frame_wf_def word_less_nat_alt word_le_nat_alt)

lemma parse_frames_first:
  assumes "fd \<noteq> []"
  shows "parse_frames fd 0 l1 [] = and_then (frame_from_data fd 0 l1) (\<lambda>(f, _). Ok [f])"
proof (cases "frame_from_data fd 0 l1")
  case (Ok x)
  obtain f n where x: "x = (f, n)" by (cases x)
  with Ok have "n = length fd" by (auto dest: frame_from_data_progress)
  with Ok x assms show ?thesis by (simp add: parse_frames.simps)
qed (use assms in \<open>simp_all add: parse_frames.simps\<close>)

lemma batcher_transaction_new_Cons:
  "batcher_transaction_new (v # fd) l1 =
     (if fd = [] then Ok \<lparr>btx_version = v, btx_frames = []\<rparr>
      else and_then (frame_from_data fd 0 l1) (\<lambda>(f, _). Ok \<lparr>btx_version = v, btx_frames = [f]\<rparr>))"
proof (cases "fd = []")
  case True
  then show ?thesis
    by (simp add: batcher_transaction_new_def index_def slice_get_def parse_frames.simps)
next
  case False
  then show ?thesis
    by (cases "frame_from_data fd 0 l1")
      (auto simp: batcher_transaction_new_def index_def slice_get_def parse_frames_first)
qed

lemma batcher_transaction_new_Nil: "batcher_transaction_new [] l1 = Panic IndexOutOfBounds"
  by (simp add: batcher_transaction_new_def index_def)

lemma frame_from_data_not_Diverge: "frame_from_data d off l1 \<noteq> Diverge"
  by (auto simp: frame_from_data_def outcome_simps Let_def)

lemma batcher_transaction_new_not_Diverge: "batcher_transaction_new d l1 \<noteq> Diverge"
  by (cases d)
    (auto simp: batcher_transaction_new_Nil batcher_transaction_new_Cons outcome_simps
      frame_from_data_not_Diverge)

section \<open>The stage is a queue of the decodable transactions\<close>

definition decode_ok :: "batcher_transaction_message \<Rightarrow> batcher_transaction list" where
  "decode_ok m = List.map_filter
     (\<lambda>d. case batcher_transaction_new d (btm_l1_origin m) of Ok tx \<Rightarrow> Some tx | _ \<Rightarrow> None) (btm_txs m)"

definition message_safe :: "batcher_transaction_message \<Rightarrow> bool" where
  "message_safe m \<longleftrightarrow> (\<forall>d \<in> set (btm_txs m). \<not> is_panic (batcher_transaction_new d (btm_l1_origin m)))"

text \<open>What the stage still has to deliver: the decoded queue and what the channel holds.\<close>

definition bts_backlog :: "batcher_transactions \<Rightarrow> batcher_transaction list" where
  "bts_backlog s = bts_txs s @ concat (map decode_ok (bts_transaction_rx s))"

definition bts_safe :: "batcher_transactions \<Rightarrow> bool" where
  "bts_safe s \<longleftrightarrow> (\<forall>m \<in> set (bts_transaction_rx s). message_safe m)"

lemma push_decoded_safe:
  "\<forall>d \<in> set ds. \<not> is_panic (batcher_transaction_new d l1) \<Longrightarrow>
   push_decoded l1 ds txs =
     Ok (txs @ List.map_filter (\<lambda>d. case batcher_transaction_new d l1 of Ok tx \<Rightarrow> Some tx | _ \<Rightarrow> None) ds)"
proof (induction ds arbitrary: txs)
  case (Cons d ds)
  then show ?case
    using batcher_transaction_new_not_Diverge [of d l1]
    by (auto simp: List.map_filter_simps split: outcome.splits)
qed (simp add: List.map_filter_simps)

lemma receive_all_safe:
  "\<forall>m \<in> set rx. message_safe m \<Longrightarrow> receive_all rx txs = Ok (txs @ concat (map decode_ok rx))"
  by (induction rx arbitrary: txs) (auto simp: push_decoded_safe message_safe_def decode_ok_def)

lemma process_incoming_safe:
  "bts_safe s \<Longrightarrow> process_incoming s = Ok (s\<lparr>bts_txs := bts_backlog s, bts_transaction_rx := []\<rparr>)"
  by (simp add: process_incoming_def receive_all_safe bts_safe_def bts_backlog_def)

lemma batcher_transactions_next_safe:
  assumes "bts_safe s"
  shows "\<exists>s'. batcher_transactions_next s =
           Ok (case bts_backlog s of [] \<Rightarrow> None | tx # _ \<Rightarrow> Some tx, s') \<and>
         bts_backlog s' = tl (bts_backlog s) \<and> bts_safe s'"
  using process_incoming_safe [OF assms]
  by (cases "bts_backlog s")
    (auto simp: batcher_transactions_next_def bts_backlog_def [of "_\<lparr>bts_txs := _\<rparr>"]
      bts_backlog_def [of "_\<lparr>bts_txs := _, bts_transaction_rx := _\<rparr>"] bts_safe_def
      intro!: exI [of _ "s\<lparr>bts_txs := tl (bts_backlog s), bts_transaction_rx := []\<rparr>"])

interpretation bts: purgeable_iterator
  "\<lambda>_ :: unit. batcher_transactions_next" batcher_transactions_purge "\<lambda>_. True"
  "\<lambda>s. bts_txs s = [] \<and> bts_transaction_rx s = []" "\<lambda>_. True"
  by unfold_locales
    (auto simp: batcher_transactions_purge_def batcher_transactions_next_def process_incoming_def)

section \<open>Properties\<close>

text \<open>
  A well-formed frame in the wire format is decoded to exactly that frame, wherever it
  stands in the data and whatever follows it.
\<close>

lemma frame_roundtrip:
  assumes "frame_wf f"
  shows "\<exists>next_offset. frame_from_data (pre @ frame_bytes f @ rest) (length pre) (fr_l1_inclusion_block f) =
           Ok (f, next_offset)"
  using frame_from_data_frame_bytes [OF assms refl] by blast

definition sample_frame :: frame where
  "sample_frame = \<lparr>fr_channel_id = 5, fr_frame_number = 0, fr_frame_data_len = 2,
     fr_frame_data = [7, 8], fr_is_last = True, fr_l1_inclusion_block = 10\<rparr>"

lemma sample_frame_wf [simp]: "frame_wf sample_frame"
  by (simp add: frame_wf_def sample_frame_def)

lemma frame_roundtrip_witness:
  "\<exists>next_offset. frame_from_data ([0] @ frame_bytes sample_frame @ [9]) (length [0 :: u8]) 10 =
     Ok (sample_frame, next_offset)"
  using frame_roundtrip [of sample_frame "[0]" "[9]"] by (simp add: sample_frame_def frame_wf_def)

text \<open>
  C28: whatever follows the first frame of a batcher transaction is never decoded: the offset
  returned for the first frame is the end of the data, so a transaction that carries several
  frames yields the first one only.
\<close>

theorem only_first_frame_decoded:
  assumes "\<forall>f \<in> set (f0 # fs). frame_wf f \<and> fr_l1_inclusion_block f = l1"
  shows "batcher_transaction_new (v # concat (map frame_bytes (f0 # fs))) l1 =
           Ok \<lparr>btx_version = v, btx_frames = [f0]\<rparr>"
proof -
  have "frame_from_data (frame_bytes f0 @ concat (map frame_bytes fs)) 0 l1 =
      Ok (f0, length (frame_bytes f0 @ concat (map frame_bytes fs)))"
    using assms frame_from_data_frame_bytes [of f0 l1 "[]" "concat (map frame_bytes fs)"] by simp
  then show ?thesis
    by (simp add: batcher_transaction_new_Cons frame_bytes_def)
qed

theorem only_first_frame_decoded_witness:
  "batcher_transaction_new (0 # concat (map frame_bytes [sample_frame, sample_frame\<lparr>fr_frame_number := 1\<rparr>])) 10 =
     Ok \<lparr>btx_version = 0, btx_frames = [sample_frame]\<rparr>"
  using only_first_frame_decoded [of sample_frame "[sample_frame\<lparr>fr_frame_number := 1\<rparr>]" 10 0]
  by (simp add: sample_frame_def frame_wf_def)

text \<open>
  C29: decoding a batcher transaction panics in exactly two cases: on empty data, and on a frame
  whose declared length reaches the end of the data, so that the last-frame flag is missing.
  Every other malformed input is an error.
\<close>

theorem batcher_transaction_panics_iff:
  "is_panic (batcher_transaction_new data l1) \<longleftrightarrow>
     data = [] \<or> (24 \<le> length data \<and> length data = 23 + declared_len (tl data))"
proof (cases data)
  case Nil
  then show ?thesis by (simp add: batcher_transaction_new_Nil)
next
  case (Cons v fd)
  consider "length fd < 23 \<or> length fd < 22 + declared_len fd"
    | "23 \<le> length fd" "length fd = 22 + declared_len fd"
    | "23 \<le> length fd" "22 + declared_len fd < length fd" "1 < fd ! (22 + declared_len fd)"
    | "23 \<le> length fd" "22 + declared_len fd < length fd" "fd ! (22 + declared_len fd) \<le> 1"
    by (metis linorder_neqE_nat not_le)
  then show ?thesis
    using frame_from_data_outcome [of 0 fd l1]
    by cases (auto simp: Cons batcher_transaction_new_Cons)
qed

text \<open>
  The stage is a queue. As long as nothing received makes the decoder panic, asking it for
  \<open>n\<close> transactions gives the first \<open>n\<close> of the decodable transactions, in the order they were
  sent, and the rest stays queued.
\<close>

lemma batcher_stage_fifo:
  assumes "bts_safe s"
  shows "\<exists>s'. pull (\<lambda>_ :: unit. batcher_transactions_next) () n s = Ok (take n (bts_backlog s), s') \<and>
           bts_backlog s' = drop n (bts_backlog s)"
  using assms
proof (induction n arbitrary: s)
  case (Suc n)
  obtain s1 where s1: "batcher_transactions_next s =
      Ok (case bts_backlog s of [] \<Rightarrow> None | tx # _ \<Rightarrow> Some tx, s1)"
    "bts_backlog s1 = tl (bts_backlog s)" "bts_safe s1"
    using batcher_transactions_next_safe [OF Suc.prems] by blast
  then show ?case
    using Suc.IH [OF s1(3)] by (cases "bts_backlog s") auto
qed auto

lemma batcher_stage_fifo_witness:
  "\<exists>s'. pull (\<lambda>_ :: unit. batcher_transactions_next) () 3
       \<lparr>bts_txs = [], bts_transaction_rx = [\<lparr>btm_txs = [[4], [5]], btm_l1_origin = 1\<rparr>]\<rparr> =
     Ok ([\<lparr>btx_version = 4, btx_frames = []\<rparr>, \<lparr>btx_version = 5, btx_frames = []\<rparr>], s')"
proof -
  let ?s = "\<lparr>bts_txs = [], bts_transaction_rx = [\<lparr>btm_txs = [[4], [5]], btm_l1_origin = 1\<rparr>]\<rparr>"
  have safe: "bts_safe ?s"
    by (simp add: bts_safe_def message_safe_def batcher_transaction_new_Cons)
  have "bts_backlog ?s = [\<lparr>btx_version = 4, btx_frames = []\<rparr>, \<lparr>btx_version = 5, btx_frames = []\<rparr>]"
    by (simp add: bts_backlog_def decode_ok_def List.map_filter_simps batcher_transaction_new_Cons)
  then show ?thesis
    using batcher_stage_fifo [OF safe, of 3] by auto
qed

end
