(* ===== verification/Channels.thy ===== *)
theory Channels
  imports Batcher_Transactions Config
begin

text \<open>
  \<^verbatim>\<open>src/src/derive/stages/channels.rs\<close>: the channel bank. Frames of the batcher
  transactions are collected into pending channels; a channel whose frames are all there is
  handed on, one that spans too many L1 blocks is dropped, and the oldest channels are dropped
  while the bank holds too many bytes.

  The stage is generic in the iterator below it, a type variable here. Shown: the invariant of a
  pending channel and of the bank, that the stage never panics, that the frames of a channel
  reassemble to its data whatever order they arrive in, the bound on the bank's bytes, and that
  purging the stage composes with purging the one below.
\<close>

section \<open>Pending channels\<close>

record pending_channel =
  pc_channel_id :: u128
  pc_frames :: "frame list"
  pc_size :: "u16 option"
  pc_highest_l1_block :: u64
  pc_lowest_l1_block :: u64

record channel =
  ch_id :: u128
  ch_data :: bytes
  ch_l1_inclusion_block :: u64

definition pending_channel_new :: "frame \<Rightarrow> pending_channel" where
  "pending_channel_new frame =
     \<lparr>pc_channel_id = fr_channel_id frame,
      pc_frames = [frame],
      pc_size = (if fr_is_last frame then Some (fr_frame_number frame + 1) else None),
      pc_highest_l1_block = fr_l1_inclusion_block frame,
      pc_lowest_l1_block = fr_l1_inclusion_block frame\<rparr>"

definition is_complete :: "pending_channel \<Rightarrow> bool" where
  "is_complete pc \<longleftrightarrow> pc_size pc = Some (of_nat (length (pc_frames pc)))"

definition is_timed_out :: "pending_channel \<Rightarrow> u64 \<Rightarrow> bool" where
  "is_timed_out pc max_timeout \<longleftrightarrow> max_timeout < pc_highest_l1_block pc - pc_lowest_l1_block pc"

definition assemble :: "pending_channel \<Rightarrow> bytes" where
  "assemble pc =
     (let frames = sort_key fr_frame_number (pc_frames pc)
      in foldl (\<lambda>a b. a @ fr_frame_data b) [] frames)"

definition pending_l1_inclusion_block :: "pending_channel \<Rightarrow> u64 outcome" where
  "pending_l1_inclusion_block pc =
     (case map fr_l1_inclusion_block (pc_frames pc) of
        [] \<Rightarrow> Panic (UnwrapFailed ''empty frame not allowed'')
      | b # bs \<Rightarrow> Ok (fold max bs b))"

definition pending_push_frame :: "pending_channel \<Rightarrow> frame \<Rightarrow> pending_channel" where
  "pending_push_frame pc frame =
     (let has_seen = list_ex (\<lambda>n. n = fr_frame_number frame) (map fr_frame_number (pc_frames pc))
      in if has_seen then pc else
         let pc1 = (if pc_highest_l1_block pc < fr_l1_inclusion_block frame
                    then pc\<lparr>pc_highest_l1_block := fr_l1_inclusion_block frame\<rparr>
                    else if fr_l1_inclusion_block frame < pc_lowest_l1_block pc
                    then pc\<lparr>pc_lowest_l1_block := fr_l1_inclusion_block frame\<rparr>
                    else pc);
             pc2 = (if fr_is_last frame then pc1\<lparr>pc_size := Some (fr_frame_number frame + 1)\<rparr> else pc1)
         in pc2\<lparr>pc_frames := pc_frames pc2 @ [frame]\<rparr>)"

definition channel_from_pending :: "pending_channel \<Rightarrow> channel outcome" where
  "channel_from_pending pc =
     and_then (pending_l1_inclusion_block pc) (\<lambda>l1.
     Ok \<lparr>ch_id = pc_channel_id pc, ch_data = assemble pc, ch_l1_inclusion_block = l1\<rparr>)"

section \<open>The channel bank\<close>

record 'i channels =
  chs_batcher_tx_iter :: 'i
  chs_pending_channels :: "pending_channel list"
  chs_frame_bank :: "frame list"
  chs_max_channel_size :: u64
  chs_channel_timeout :: u64

definition channels_new :: "'i \<Rightarrow> config \<Rightarrow> 'i channels" where
  "channels_new batcher_tx_iter config =
     \<lparr>chs_batcher_tx_iter = batcher_tx_iter, chs_pending_channels = [], chs_frame_bank = [],
      chs_max_channel_size = cc_max_channel_size (cfg_chain config),
      chs_channel_timeout = cc_channel_timeout (cfg_chain config)\<rparr>"

definition channels_purge :: "('i \<Rightarrow> 'i) \<Rightarrow> 'i channels \<Rightarrow> 'i channels" where
  "channels_purge purge_iter s =
     s\<lparr>chs_batcher_tx_iter := purge_iter (chs_batcher_tx_iter s),
       chs_pending_channels := [], chs_frame_bank := []\<rparr>"

definition channels_push_frame :: "'i channels \<Rightarrow> frame \<Rightarrow> 'i channels" where
  "channels_push_frame s frame =
     (case list_position (\<lambda>c. pc_channel_id c = fr_channel_id frame) (chs_pending_channels s) of
        Some i \<Rightarrow>
          (let pc = pending_push_frame (chs_pending_channels s ! i) frame;
               pcs = (chs_pending_channels s)[i := pc]
           in if is_timed_out pc (chs_channel_timeout s)
              then s\<lparr>chs_pending_channels := list_remove i pcs\<rparr>
              else s\<lparr>chs_pending_channels := pcs\<rparr>)
      | None \<Rightarrow> s\<lparr>chs_pending_channels := chs_pending_channels s @ [pending_channel_new frame]\<rparr>)"

definition fill_bank ::
  "('i \<Rightarrow> (batcher_transaction option \<times> 'i) outcome) \<Rightarrow> 'i channels \<Rightarrow> 'i channels outcome" where
  "fill_bank next_tx s =
     and_then (next_tx (chs_batcher_tx_iter s)) (\<lambda>(next_batcher_tx, iter).
     let s1 = s\<lparr>chs_batcher_tx_iter := iter\<rparr>
     in case next_batcher_tx of
          Some tx \<Rightarrow> Ok (s1\<lparr>chs_frame_bank := chs_frame_bank s1 @ btx_frames tx\<rparr>)
        | None \<Rightarrow> Ok s1)"

definition fetch_ready_channel :: "'i channels \<Rightarrow> u128 \<Rightarrow> (channel option \<times> 'i channels) outcome" where
  "fetch_ready_channel s chan_id =
     (case list_position (\<lambda>c. pc_channel_id c = chan_id \<and> is_complete c) (chs_pending_channels s) of
        None \<Rightarrow> Ok (None, s)
      | Some i \<Rightarrow>
          and_then (channel_from_pending (chs_pending_channels s ! i)) (\<lambda>ch.
          Ok (Some ch, s\<lparr>chs_pending_channels := list_remove i (chs_pending_channels s)\<rparr>)))"

definition channels_remove :: "'i channels \<Rightarrow> pending_channel option \<times> 'i channels" where
  "channels_remove s =
     (case chs_pending_channels s of
        [] \<Rightarrow> (None, s)
      | p # ps \<Rightarrow> (Some p, s\<lparr>chs_pending_channels := ps\<rparr>))"

definition pending_total_size :: "pending_channel list \<Rightarrow> u64" where
  "pending_total_size pcs =
     ucast (sum_list (map (\<lambda>p. foldl (\<lambda>a f. a + fr_frame_data_len f) 0 (pc_frames p)) pcs) :: u32)"

definition channels_total_size :: "'i channels \<Rightarrow> u64" where
  "channels_total_size s = pending_total_size (chs_pending_channels s)"

lemma channels_remove_length:
  "channels_remove s = (Some p, s') \<Longrightarrow>
     length (chs_pending_channels s') < length (chs_pending_channels s)"
  by (auto simp: channels_remove_def split: list.splits)

function channels_prune :: "'i channels \<Rightarrow> 'i channels outcome" where
  "channels_prune s =
     (if chs_max_channel_size s < channels_total_size s then
        (case channels_remove s of
           (None, _) \<Rightarrow> Panic (UnwrapFailed ''should have removed a channel'')
         | (Some _, s') \<Rightarrow> channels_prune s')
      else Ok s)"
  by pat_completeness auto
termination
  by (relation "measure (\<lambda>s. length (chs_pending_channels s))")
    (auto dest: channels_remove_length [OF sym])

declare channels_prune.simps [simp del]

text \<open>The loop of \<open>process_frames\<close>; its first argument is the frame bank.\<close>

fun process_bank :: "frame list \<Rightarrow> 'i channels \<Rightarrow> (channel option \<times> 'i channels) outcome" where
  "process_bank [] s = Ok (None, s)"
| "process_bank (frame # bank) s =
     and_then (channels_prune (channels_push_frame (s\<lparr>chs_frame_bank := bank\<rparr>) frame)) (\<lambda>s1.
     and_then (fetch_ready_channel s1 (fr_channel_id frame)) (\<lambda>(ready, s2).
     case ready of
       Some channel \<Rightarrow> Ok (Some channel, s2)
     | None \<Rightarrow> process_bank bank s2))"

definition process_frames ::
  "('i \<Rightarrow> (batcher_transaction option \<times> 'i) outcome) \<Rightarrow> 'i channels \<Rightarrow>
   (channel option \<times> 'i channels) outcome" where
  "process_frames next_tx s =
     and_then (fill_bank next_tx s) (\<lambda>s1. process_bank (chs_frame_bank s1) s1)"

definition channels_next ::
  "('i \<Rightarrow> (batcher_transaction option \<times> 'i) outcome) \<Rightarrow> 'i channels \<Rightarrow>
   (channel option \<times> 'i channels) outcome" where
  "channels_next next_tx s = process_frames next_tx s"

section \<open>The invariant of a pending channel\<close>

definition pc_inv :: "pending_channel \<Rightarrow> bool" where
  "pc_inv pc \<longleftrightarrow>
     pc_frames pc \<noteq> [] \<and>
     distinct (map fr_frame_number (pc_frames pc)) \<and>
     (\<forall>f \<in> set (pc_frames pc). fr_channel_id f = pc_channel_id pc \<and>
        pc_lowest_l1_block pc \<le> fr_l1_inclusion_block f \<and>
        fr_l1_inclusion_block f \<le> pc_highest_l1_block pc) \<and>
     pc_lowest_l1_block pc \<in> fr_l1_inclusion_block ` set (pc_frames pc) \<and>
     pc_highest_l1_block pc \<in> fr_l1_inclusion_block ` set (pc_frames pc)"

lemma pc_inv_new: "pc_inv (pending_channel_new f)"
  by (simp add: pc_inv_def pending_channel_new_def)

lemma pc_channel_id_new [simp]: "pc_channel_id (pending_channel_new f) = fr_channel_id f"
  by (simp add: pending_channel_new_def)

lemma pc_channel_id_push [simp]: "pc_channel_id (pending_push_frame pc f) = pc_channel_id pc"
  by (simp add: pending_push_frame_def Let_def)

lemma pending_push_seen:
  "fr_frame_number f \<in> fr_frame_number ` set (pc_frames pc) \<Longrightarrow> pending_push_frame pc f = pc"
  by (auto simp: pending_push_frame_def list_ex_iff Let_def)

lemma pc_frames_push_new:
  "fr_frame_number f \<notin> fr_frame_number ` set (pc_frames pc) \<Longrightarrow>
     pc_frames (pending_push_frame pc f) = pc_frames pc @ [f]"
  by (auto simp: pending_push_frame_def list_ex_iff Let_def)

lemma pc_bounds_push_new:
  assumes "fr_frame_number f \<notin> fr_frame_number ` set (pc_frames pc)"
    and "pc_lowest_l1_block pc \<le> pc_highest_l1_block pc"
  shows "pc_highest_l1_block (pending_push_frame pc f) = max (pc_highest_l1_block pc) (fr_l1_inclusion_block f)"
    and "pc_lowest_l1_block (pending_push_frame pc f) = min (pc_lowest_l1_block pc) (fr_l1_inclusion_block f)"
    and "pc_size (pending_push_frame pc f) =
           (if fr_is_last f then Some (fr_frame_number f + 1) else pc_size pc)"
  using assms by (auto simp: pending_push_frame_def list_ex_iff Let_def max_def min_def)

lemma pc_inv_lowest_highest: "pc_inv pc \<Longrightarrow> pc_lowest_l1_block pc \<le> pc_highest_l1_block pc"
  by (auto simp: pc_inv_def)

lemma pc_inv_push:
  assumes inv: "pc_inv pc" and id: "fr_channel_id f = pc_channel_id pc"
  shows "pc_inv (pending_push_frame pc f)"
proof (cases "fr_frame_number f \<in> fr_frame_number ` set (pc_frames pc)")
  case True
  with inv show ?thesis by (simp add: pending_push_seen)
next
  case False
  note simps = pc_frames_push_new [OF False] pc_bounds_push_new [OF False pc_inv_lowest_highest [OF inv]]
  from False inv id show ?thesis
    unfolding pc_inv_def simps by (auto simp: max_def min_def)
qed

lemma pc_timed_out_iff:
  assumes "pc_inv pc"
  shows "is_timed_out pc t \<longleftrightarrow>
    (\<exists>f \<in> set (pc_frames pc). \<exists>g \<in> set (pc_frames pc).
       unat t < unat (fr_l1_inclusion_block f) - unat (fr_l1_inclusion_block g))"
proof -
  let ?h = "pc_highest_l1_block pc" and ?l = "pc_lowest_l1_block pc"
  have le: "?l \<le> ?h" using assms by (rule pc_inv_lowest_highest)
  have bounds: "unat ?l \<le> unat (fr_l1_inclusion_block f)" "unat (fr_l1_inclusion_block f) \<le> unat ?h"
    if "f \<in> set (pc_frames pc)" for f
    using assms that by (auto simp: pc_inv_def word_le_nat_alt)
  obtain f g where fg: "f \<in> set (pc_frames pc)" "g \<in> set (pc_frames pc)"
    "?h = fr_l1_inclusion_block f" "?l = fr_l1_inclusion_block g"
    using assms by (auto simp: pc_inv_def)
  have "is_timed_out pc t \<longleftrightarrow> unat t < unat ?h - unat ?l"
    using le by (simp add: is_timed_out_def word_less_nat_alt unat_sub)
  also have "\<dots> \<longleftrightarrow> (\<exists>f \<in> set (pc_frames pc). \<exists>g \<in> set (pc_frames pc).
       unat t < unat (fr_l1_inclusion_block f) - unat (fr_l1_inclusion_block g))"
  proof
    assume "unat t < unat ?h - unat ?l"
    with fg show "\<exists>f \<in> set (pc_frames pc). \<exists>g \<in> set (pc_frames pc).
       unat t < unat (fr_l1_inclusion_block f) - unat (fr_l1_inclusion_block g)" by auto
  next
    assume "\<exists>f \<in> set (pc_frames pc). \<exists>g \<in> set (pc_frames pc).
       unat t < unat (fr_l1_inclusion_block f) - unat (fr_l1_inclusion_block g)"
    then show "unat t < unat ?h - unat ?l"
      using bounds by (meson diff_le_mono diff_le_mono2 le_trans less_le_trans)
  qed
  finally show ?thesis .
qed

lemma fold_max_ge: "x \<le> fold max xs x" "y \<in> set xs \<Longrightarrow> y \<le> fold max xs (x :: 'a::linorder)"
  by (induction xs arbitrary: x) (auto intro: order_trans [OF max.cobounded1] order_trans [OF max.cobounded2])

lemma fold_max_in: "fold max xs (x :: 'a::linorder) \<in> insert x (set xs)"
  by (induction xs arbitrary: x) (auto simp: max_def)

lemma pending_l1_inclusion_block_inv:
  assumes "pc_inv pc"
  shows "pending_l1_inclusion_block pc = Ok (pc_highest_l1_block pc)"
proof -
  obtain b bs where bs: "map fr_l1_inclusion_block (pc_frames pc) = b # bs"
    using assms by (cases "pc_frames pc") (auto simp: pc_inv_def)
  then have set_bs: "insert b (set bs) = fr_l1_inclusion_block ` set (pc_frames pc)"
    by (metis list.simps(15) set_map)
  have "fold max bs b = pc_highest_l1_block pc"
  proof (rule antisym)
    have "fold max bs b \<in> fr_l1_inclusion_block ` set (pc_frames pc)"
      using fold_max_in [of bs b] set_bs by simp
    then show "fold max bs b \<le> pc_highest_l1_block pc"
      using assms by (auto simp: pc_inv_def)
    have "pc_highest_l1_block pc \<in> insert b (set bs)"
      using assms set_bs by (auto simp: pc_inv_def)
    then show "pc_highest_l1_block pc \<le> fold max bs b"
      using fold_max_ge by auto
  qed
  with bs show ?thesis by (simp add: pending_l1_inclusion_block_def)
qed

lemma foldl_append_concat: "foldl (\<lambda>a b. a @ g b) acc xs = acc @ concat (map g xs)"
  by (induction xs arbitrary: acc) auto

lemma assemble_concat:
  "assemble pc = concat (map fr_frame_data (sort_key fr_frame_number (pc_frames pc)))"
  by (simp add: assemble_def foldl_append_concat)

lemma channel_from_pending_inv:
  "pc_inv pc \<Longrightarrow> channel_from_pending pc =
     Ok \<lparr>ch_id = pc_channel_id pc, ch_data = assemble pc, ch_l1_inclusion_block = pc_highest_l1_block pc\<rparr>"
  by (simp add: channel_from_pending_def pending_l1_inclusion_block_inv)

section \<open>The invariant of the bank\<close>

definition channels_inv :: "'i channels \<Rightarrow> bool" where
  "channels_inv s \<longleftrightarrow>
     distinct (map pc_channel_id (chs_pending_channels s)) \<and>
     (\<forall>pc \<in> set (chs_pending_channels s). pc_inv pc)"

lemma channels_inv_new: "channels_inv (channels_new it cfg)"
  by (simp add: channels_inv_def channels_new_def)

lemma channels_inv_frame_bank [simp]:
  "channels_inv (s\<lparr>chs_frame_bank := b\<rparr>) = channels_inv s"
  "channels_inv (s\<lparr>chs_batcher_tx_iter := it\<rparr>) = channels_inv s"
  by (simp_all add: channels_inv_def)

lemma channels_inv_remove:
  "channels_inv s \<Longrightarrow> channels_inv (s\<lparr>chs_pending_channels := list_remove i (chs_pending_channels s)\<rparr>)"
  using set_list_remove_subset [of i "chs_pending_channels s"]
  by (auto simp: channels_inv_def distinct_list_remove)

lemma channels_inv_drop:
  "channels_inv s \<Longrightarrow> channels_inv (s\<lparr>chs_pending_channels := drop k (chs_pending_channels s)\<rparr>)"
  by (auto simp: channels_inv_def drop_map distinct_drop simp flip: drop_map dest: in_set_dropD)

lemma channels_inv_update:
  assumes inv: "channels_inv s" and i: "i < length (chs_pending_channels s)"
    and pc: "pc_inv pc" "pc_channel_id pc = pc_channel_id (chs_pending_channels s ! i)"
  shows "channels_inv (s\<lparr>chs_pending_channels := (chs_pending_channels s)[i := pc]\<rparr>)"
proof -
  have "map pc_channel_id ((chs_pending_channels s)[i := pc]) = map pc_channel_id (chs_pending_channels s)"
    using i pc by (simp add: map_update list_update_same_conv)
  then show ?thesis
    using inv pc set_update_subset_insert [of "chs_pending_channels s" i pc]
    by (auto simp: channels_inv_def)
qed

lemma channels_inv_push:
  assumes inv: "channels_inv s"
  shows "channels_inv (channels_push_frame s f)"
proof (cases "list_position (\<lambda>c. pc_channel_id c = fr_channel_id f) (chs_pending_channels s)")
  case None
  moreover from None have "fr_channel_id f \<notin> pc_channel_id ` set (chs_pending_channels s)"
    by (auto simp: list_position_None)
  ultimately show ?thesis
    using inv by (auto simp: channels_push_frame_def channels_inv_def pc_inv_new)
next
  case (Some i)
  let ?pc = "pending_push_frame (chs_pending_channels s ! i) f"
  let ?s = "s\<lparr>chs_pending_channels := (chs_pending_channels s)[i := ?pc]\<rparr>"
  from Some have i: "i < length (chs_pending_channels s)"
    "pc_channel_id (chs_pending_channels s ! i) = fr_channel_id f"
    by (simp_all add: list_position_Some)
  then have "pc_inv ?pc"
    using inv by (auto simp: channels_inv_def intro: pc_inv_push)
  then have upd: "channels_inv ?s"
    using inv i by (simp add: channels_inv_update)
  show ?thesis
    using Some upd channels_inv_remove [OF upd, of i]
    by (auto simp: channels_push_frame_def Let_def)
qed

text \<open>
  Pruning drops the fewest oldest channels that bring the bank to its size limit; the
  \<open>expect\<close> in its loop is never reached on an empty bank.
\<close>

lemma pending_total_size_Nil [simp]: "pending_total_size [] = 0"
  by (simp add: pending_total_size_def)

lemma channels_prune_spec:
  "\<exists>k \<le> length (chs_pending_channels s).
     channels_prune s = Ok (s\<lparr>chs_pending_channels := drop k (chs_pending_channels s)\<rparr>) \<and>
     pending_total_size (drop k (chs_pending_channels s)) \<le> chs_max_channel_size s \<and>
     (\<forall>j < k. chs_max_channel_size s < pending_total_size (drop j (chs_pending_channels s)))"
proof (induction s rule: channels_prune.induct)
  case (1 s)
  show ?case
  proof (cases "chs_max_channel_size s < channels_total_size s")
    case False
    then show ?thesis
      by (intro exI [of _ 0]) (simp add: channels_prune.simps [of s] channels_total_size_def)
  next
    case True
    then obtain p ps where ps: "chs_pending_channels s = p # ps"
      by (cases "chs_pending_channels s") (auto simp: channels_total_size_def)
    let ?s = "s\<lparr>chs_pending_channels := ps\<rparr>"
    have rem: "channels_remove s = (Some p, ?s)"
      by (simp add: channels_remove_def ps)
    obtain k where k: "k \<le> length ps" "channels_prune ?s = Ok (?s\<lparr>chs_pending_channels := drop k ps\<rparr>)"
      "pending_total_size (drop k ps) \<le> chs_max_channel_size s"
      "\<forall>j < k. chs_max_channel_size s < pending_total_size (drop j ps)"
      using "1" [OF True rem [symmetric] refl] by auto
    have "\<forall>j < Suc k. chs_max_channel_size s < pending_total_size (drop j (p # ps))"
      using k(4) True ps by (auto simp: channels_total_size_def less_Suc_eq_0_disj)
    moreover have "channels_prune s = Ok (s\<lparr>chs_pending_channels := drop (Suc k) (p # ps)\<rparr>)"
      using True rem k(2) by (simp add: channels_prune.simps [of s])
    ultimately show ?thesis
      using k by (intro exI [of _ "Suc k"]) (simp add: ps)
  qed
qed

lemma channels_prune_fits:
  "pending_total_size (chs_pending_channels s) \<le> chs_max_channel_size s \<Longrightarrow> channels_prune s = Ok s"
  by (subst channels_prune.simps) (auto simp: channels_total_size_def)

lemma channels_prune_Ok:
  assumes "channels_inv s"
  obtains s' where "channels_prune s = Ok s'" "channels_inv s'"
    "channels_total_size s' \<le> chs_max_channel_size s'" "chs_frame_bank s' = chs_frame_bank s"
    "chs_max_channel_size s' = chs_max_channel_size s" "chs_batcher_tx_iter s' = chs_batcher_tx_iter s"
    "chs_channel_timeout s' = chs_channel_timeout s"
proof -
  obtain k where
    "channels_prune s = Ok (s\<lparr>chs_pending_channels := drop k (chs_pending_channels s)\<rparr>)"
    "pending_total_size (drop k (chs_pending_channels s)) \<le> chs_max_channel_size s"
    using channels_prune_spec [of s] by blast
  then show thesis
    using channels_inv_drop [OF assms, of k]
    by (intro that [of "s\<lparr>chs_pending_channels := drop k (chs_pending_channels s)\<rparr>"])
      (simp_all add: channels_total_size_def)
qed

lemma fetch_ready_channel_Ok:
  assumes "channels_inv s"
  obtains r s' where "fetch_ready_channel s i = Ok (r, s')" "channels_inv s'"
    "set (chs_pending_channels s') \<subseteq> set (chs_pending_channels s)"
    "chs_frame_bank s' = chs_frame_bank s" "chs_batcher_tx_iter s' = chs_batcher_tx_iter s"
proof (cases "list_position (\<lambda>c. pc_channel_id c = i \<and> is_complete c) (chs_pending_channels s)")
  case None
  then show thesis
    using assms by (intro that [of None s]) (auto simp: fetch_ready_channel_def)
next
  case (Some k)
  then have "pc_inv (chs_pending_channels s ! k)"
    using assms by (auto simp: list_position_Some channels_inv_def)
  with Some show thesis
    using channels_inv_remove [OF assms, of k] set_list_remove_subset [of k "chs_pending_channels s"]
    by (intro that [OF _ channels_inv_remove [OF assms, of k]])
      (auto simp: fetch_ready_channel_def channel_from_pending_inv)
qed

lemma channels_push_frame_fields [simp]:
  "chs_batcher_tx_iter (channels_push_frame s f) = chs_batcher_tx_iter s"
  "chs_frame_bank (channels_push_frame s f) = chs_frame_bank s"
  "chs_max_channel_size (channels_push_frame s f) = chs_max_channel_size s"
  "chs_channel_timeout (channels_push_frame s f) = chs_channel_timeout s"
  by (auto simp: channels_push_frame_def Let_def split: option.splits)

lemma process_bank_Ok:
  "channels_inv s \<Longrightarrow>
   \<exists>r s'. process_bank bank s = Ok (r, s') \<and> channels_inv s' \<and>
     chs_batcher_tx_iter s' = chs_batcher_tx_iter s"
proof (induction bank arbitrary: s)
  case (Cons f bank)
  let ?s = "channels_push_frame (s\<lparr>chs_frame_bank := bank\<rparr>) f"
  have "channels_inv ?s"
    using Cons.prems by (simp add: channels_inv_push)
  then obtain s1 where s1: "channels_prune ?s = Ok s1" "channels_inv s1"
    "chs_batcher_tx_iter s1 = chs_batcher_tx_iter s"
    by (rule channels_prune_Ok) simp
  obtain r s2 where s2: "fetch_ready_channel s1 (fr_channel_id f) = Ok (r, s2)" "channels_inv s2"
    "chs_batcher_tx_iter s2 = chs_batcher_tx_iter s1"
    by (rule fetch_ready_channel_Ok [OF s1(2)])
  show ?case
  proof (cases r)
    case None
    with s1 s2 Cons.IH [OF s2(2)] show ?thesis by simp
  next
    case (Some c)
    with s1 s2 show ?thesis by simp
  qed
qed simp

lemma process_frames_Ok:
  assumes "channels_inv s" and "next_tx (chs_batcher_tx_iter s) = Ok (tx, it)"
  shows "\<exists>r s'. process_frames next_tx s = Ok (r, s') \<and> channels_inv s' \<and> chs_batcher_tx_iter s' = it"
proof -
  obtain s1 where s1: "fill_bank next_tx s = Ok s1" "channels_inv s1" "chs_batcher_tx_iter s1 = it"
    using assms by (cases tx) (auto simp: fill_bank_def Let_def)
  then show ?thesis
    using process_bank_Ok [OF s1(2), of "chs_frame_bank s1"] by (auto simp: process_frames_def)
qed

section \<open>The bytes held by the bank\<close>

definition pc_bytes :: "pending_channel \<Rightarrow> nat" where
  "pc_bytes pc = sum_list (map (unat \<circ> fr_frame_data_len) (pc_frames pc))"

definition bank_bytes :: "pending_channel list \<Rightarrow> nat" where
  "bank_bytes pcs = sum_list (map pc_bytes pcs)"

lemma foldl_plus_sum_list:
  "foldl (\<lambda>a f. a + g f) (a :: 'a::comm_monoid_add) xs = a + sum_list (map g xs)"
  by (induction xs arbitrary: a) (auto simp: ac_simps)

lemma sum_list_concat_map: "sum_list (map (\<lambda>x. sum_list (g x)) xs) = sum_list (concat (map g xs))"
  by (induction xs) auto

lemma pending_total_size_sum:
  "pending_total_size pcs =
     ucast (sum_list (concat (map (\<lambda>p. map fr_frame_data_len (pc_frames p)) pcs)))"
  by (simp add: pending_total_size_def foldl_plus_sum_list sum_list_concat_map)

lemma bank_bytes_sum:
  "bank_bytes pcs = sum_list (map unat (concat (map (\<lambda>p. map fr_frame_data_len (pc_frames p)) pcs)))"
  by (induction pcs) (auto simp: bank_bytes_def pc_bytes_def)

lemma unat_ucast_u32_u64 [simp]: "unat (ucast (w :: u32) :: u64) = unat w"
  using unsigned_less [of w, where ?'a = nat] by (simp add: unsigned_ucast_eq take_bit_nat_eq_self_iff)

lemma pending_total_size_le: "unat (pending_total_size pcs) \<le> bank_bytes pcs"
  using unat_sum_list_le by (simp add: pending_total_size_sum bank_bytes_sum)

lemma pending_total_size_no_wrap:
  "bank_bytes pcs < 2 ^ 32 \<Longrightarrow> unat (pending_total_size pcs) = bank_bytes pcs"
  by (simp add: pending_total_size_sum bank_bytes_sum unat_sum_list_no_wrap)

lemma bank_bytes_append [simp]: "bank_bytes (ps @ qs) = bank_bytes ps + bank_bytes qs"
  by (simp add: bank_bytes_def)

lemma bank_bytes_list_remove: "bank_bytes (list_remove i pcs) \<le> bank_bytes pcs"
proof -
  have "pcs = take i pcs @ drop i pcs" by simp
  then have "bank_bytes pcs = bank_bytes (take i pcs) + bank_bytes (drop i pcs)"
    by (metis bank_bytes_append)
  moreover have "bank_bytes (drop (Suc i) pcs) \<le> bank_bytes (drop i pcs)"
    by (cases "i < length pcs") (auto simp: bank_bytes_def Cons_nth_drop_Suc [symmetric])
  ultimately show ?thesis by (simp add: list_remove_def)
qed

lemma bank_bytes_drop: "bank_bytes (drop k pcs) \<le> bank_bytes pcs"
  by (metis append_take_drop_id bank_bytes_append le_add2)

lemma pc_bytes_push: "pc_bytes (pending_push_frame pc f) \<le> pc_bytes pc + unat (fr_frame_data_len f)"
  by (cases "fr_frame_number f \<in> fr_frame_number ` set (pc_frames pc)")
    (auto simp: pending_push_seen pc_frames_push_new pc_bytes_def)

lemma bank_bytes_update:
  "i < length pcs \<Longrightarrow> bank_bytes (pcs[i := pc]) + pc_bytes (pcs ! i) = bank_bytes pcs + pc_bytes pc"
  by (induction pcs arbitrary: i) (auto simp: bank_bytes_def split: nat.splits)

lemma bank_bytes_push_frame:
  "bank_bytes (chs_pending_channels (channels_push_frame s f)) \<le>
     bank_bytes (chs_pending_channels s) + unat (fr_frame_data_len f)"
proof (cases "list_position (\<lambda>c. pc_channel_id c = fr_channel_id f) (chs_pending_channels s)")
  case None
  then show ?thesis
    by (simp add: channels_push_frame_def bank_bytes_def pc_bytes_def pending_channel_new_def)
next
  case (Some i)
  then have "i < length (chs_pending_channels s)" by (simp add: list_position_Some)
  then have "bank_bytes ((chs_pending_channels s)[i := pending_push_frame (chs_pending_channels s ! i) f]) \<le>
      bank_bytes (chs_pending_channels s) + unat (fr_frame_data_len f)"
    using bank_bytes_update [of i "chs_pending_channels s"
        "pending_push_frame (chs_pending_channels s ! i) f"]
      pc_bytes_push [of "chs_pending_channels s ! i" f] by linarith
  then show ?thesis
    using Some bank_bytes_list_remove [THEN order_trans]
    by (simp add: channels_push_frame_def Let_def)
qed

lemma push_prune_bank_bytes:
  assumes "bank_bytes (chs_pending_channels s) \<le> unat (chs_max_channel_size s)"
    and "unat (chs_max_channel_size s) + unat (fr_frame_data_len f) < 2 ^ 32"
    and "channels_prune (channels_push_frame s f) = Ok s'"
  shows "bank_bytes (chs_pending_channels s') \<le> unat (chs_max_channel_size s') \<and>
         chs_max_channel_size s' = chs_max_channel_size s"
proof -
  let ?pcs = "chs_pending_channels (channels_push_frame s f)"
  obtain k where "s' = (channels_push_frame s f)\<lparr>chs_pending_channels := drop k ?pcs\<rparr>"
    and k: "pending_total_size (drop k ?pcs) \<le> chs_max_channel_size s"
    using channels_prune_spec [of "channels_push_frame s f"] assms(3) by auto
  moreover have "bank_bytes (drop k ?pcs) < 2 ^ 32"
    using assms(1,2) bank_bytes_push_frame [of s f] bank_bytes_drop [of k ?pcs] by linarith
  then have "bank_bytes (drop k ?pcs) \<le> unat (chs_max_channel_size s)"
    using k pending_total_size_no_wrap [of "drop k ?pcs"] by (simp add: word_le_nat_alt)
  ultimately show ?thesis by simp
qed

lemma process_bank_bytes:
  assumes "channels_inv s" and "bank_bytes (chs_pending_channels s) \<le> unat (chs_max_channel_size s)"
    and "\<forall>f \<in> set bank. unat (chs_max_channel_size s) + unat (fr_frame_data_len f) < 2 ^ 32"
    and "process_bank bank s = Ok (r, s')"
  shows "bank_bytes (chs_pending_channels s') \<le> unat (chs_max_channel_size s')"
  using assms
proof (induction bank arbitrary: s)
  case (Cons f bank)
  let ?s = "s\<lparr>chs_frame_bank := bank\<rparr>"
  have "channels_inv (channels_push_frame ?s f)"
    using Cons.prems by (simp add: channels_inv_push)
  then obtain s1 where s1: "channels_prune (channels_push_frame ?s f) = Ok s1" "channels_inv s1"
    by (rule channels_prune_Ok)
  then have b1: "bank_bytes (chs_pending_channels s1) \<le> unat (chs_max_channel_size s1)"
    "chs_max_channel_size s1 = chs_max_channel_size s"
    using push_prune_bank_bytes [of ?s f s1] Cons.prems by auto
  obtain r2 s2 where s2: "fetch_ready_channel s1 (fr_channel_id f) = Ok (r2, s2)" "channels_inv s2"
    by (rule fetch_ready_channel_Ok [OF s1(2)])
  then have b2: "bank_bytes (chs_pending_channels s2) \<le> unat (chs_max_channel_size s2)"
    "chs_max_channel_size s2 = chs_max_channel_size s"
    using b1 bank_bytes_list_remove [THEN order_trans]
    by (auto simp: fetch_ready_channel_def outcome_simps split: option.splits)
  show ?case
  proof (cases r2)
    case None
    then show ?thesis
      using Cons.IH [OF s2(2) b2(1)] Cons.prems b2 s1 s2 by simp
  next
    case (Some c)
    then show ?thesis
      using Cons.prems b2 s1 s2 by simp
  qed
qed simp

section \<open>Reassembly of a channel\<close>

text \<open>
  The frames of a channel \<open>cid\<close> whose data was cut into the pieces \<open>ds\<close>: the frame number is
  the piece's position and the last piece is flagged. The L1 block a frame came in is free.
\<close>

definition frame_of :: "u128 \<Rightarrow> bytes list \<Rightarrow> frame \<Rightarrow> bool" where
  "frame_of cid ds f \<longleftrightarrow>
     fr_channel_id f = cid \<and> unat (fr_frame_number f) < length ds \<and>
     fr_frame_data f = ds ! unat (fr_frame_number f) \<and> frame_wf f \<and>
     (fr_is_last f \<longleftrightarrow> Suc (unat (fr_frame_number f)) = length ds)"

definition frame_numbers :: "frame list \<Rightarrow> nat set" where
  "frame_numbers fs = (unat \<circ> fr_frame_number) ` set fs"

definition all_seen :: "bytes list \<Rightarrow> frame list \<Rightarrow> bool" where
  "all_seen ds fs \<longleftrightarrow> frame_numbers fs = {..<length ds}"

text \<open>A pending channel that has taken in the frames \<open>fs\<close>, in that order and with repeats.\<close>

definition pending_of :: "pending_channel \<Rightarrow> u128 \<Rightarrow> bytes list \<Rightarrow> frame list \<Rightarrow> bool" where
  "pending_of pc cid ds fs \<longleftrightarrow>
     pc_inv pc \<and> pc_channel_id pc = cid \<and> set (pc_frames pc) \<subseteq> set fs \<and>
     frame_numbers (pc_frames pc) = frame_numbers fs \<and>
     pc_size pc = (if length ds - 1 \<in> frame_numbers fs then Some (of_nat (length ds)) else None)"

lemma frame_of_succ:
  assumes "frame_of cid ds f" and "fr_is_last f"
  shows "fr_frame_number f + 1 = of_nat (length ds)"
proof -
  have "length ds = Suc (unat (fr_frame_number f))"
    using assms by (simp add: frame_of_def)
  then show ?thesis by simp
qed

lemma frame_of_last_iff:
  "frame_of cid ds f \<Longrightarrow> fr_is_last f \<longleftrightarrow> unat (fr_frame_number f) = length ds - 1"
  by (auto simp: frame_of_def)

lemma pending_of_new:
  assumes "frame_of cid ds f"
  shows "pending_of (pending_channel_new f) cid ds [f]"
proof -
  have "fr_channel_id f = cid" using assms by (simp add: frame_of_def)
  moreover have "pc_size (pending_channel_new f) =
      (if unat (fr_frame_number f) = length ds - 1 then Some (of_nat (length ds)) else None)"
    using frame_of_succ [OF assms] frame_of_last_iff [OF assms]
    by (auto simp: pending_channel_new_def)
  moreover have "pc_frames (pending_channel_new f) = [f]"
    by (simp add: pending_channel_new_def)
  ultimately show ?thesis
    by (auto simp: pending_of_def pc_inv_new frame_numbers_def)
qed

lemma in_frame_numbers_iff:
  "unat (fr_frame_number f) \<in> frame_numbers fs \<longleftrightarrow> fr_frame_number f \<in> fr_frame_number ` set fs"
  by (auto simp: frame_numbers_def image_iff word_unat_eq_iff)

lemma pending_of_push:
  assumes pc: "pending_of pc cid ds fs" and f: "frame_of cid ds f"
  shows "pending_of (pending_push_frame pc f) cid ds (fs @ [f])"
proof (cases "fr_frame_number f \<in> fr_frame_number ` set (pc_frames pc)")
  case True
  then have "unat (fr_frame_number f) \<in> frame_numbers fs"
    using pc in_frame_numbers_iff [of f "pc_frames pc"] by (simp add: pending_of_def)
  then have "frame_numbers (fs @ [f]) = frame_numbers fs"
    by (auto simp: frame_numbers_def)
  then show ?thesis
    using True pc by (auto simp: pending_push_seen pending_of_def)
next
  case False
  have inv: "pc_inv pc" and cid: "fr_channel_id f = pc_channel_id pc"
    using pc f by (auto simp: pending_of_def frame_of_def)
  note simps = pc_frames_push_new [OF False] pc_bounds_push_new(3) [OF False pc_inv_lowest_highest [OF inv]]
  have nums: "frame_numbers (fs @ [f]) = insert (unat (fr_frame_number f)) (frame_numbers fs)"
    "frame_numbers (pc_frames pc @ [f]) = insert (unat (fr_frame_number f)) (frame_numbers (pc_frames pc))"
    by (auto simp: frame_numbers_def)
  show ?thesis
    using pc_inv_push [OF inv cid] pc frame_of_succ [OF f] frame_of_last_iff [OF f]
    by (auto simp: pending_of_def simps nums)
qed

lemma pending_of_numbers:
  assumes "pending_of pc cid ds fs"
  shows "length (pc_frames pc) = card (frame_numbers fs)"
proof -
  have "distinct (map (unat \<circ> fr_frame_number) (pc_frames pc))"
    using assms by (auto simp: pending_of_def pc_inv_def distinct_map comp_def inj_on_def word_unat_eq_iff)
  then have "length (pc_frames pc) = card ((unat \<circ> fr_frame_number) ` set (pc_frames pc))"
    by (metis distinct_card length_map set_map)
  then show ?thesis
    using assms by (simp add: pending_of_def frame_numbers_def)
qed

lemma frame_numbers_subset:
  "\<forall>f \<in> set fs. frame_of cid ds f \<Longrightarrow> frame_numbers fs \<subseteq> {..<length ds}"
  by (auto simp: frame_numbers_def frame_of_def)

lemma is_complete_pending_of:
  assumes pc: "pending_of pc cid ds fs" and fs: "\<forall>f \<in> set fs. frame_of cid ds f"
    and ds: "ds \<noteq> []" "length ds < 2 ^ 16"
  shows "is_complete pc \<longleftrightarrow> all_seen ds fs"
proof -
  have sub: "frame_numbers fs \<subseteq> {..<length ds}"
    using fs by (rule frame_numbers_subset)
  then have card: "card (frame_numbers fs) \<le> length ds"
    by (metis card_lessThan card_mono finite_lessThan)
  have inj: "of_nat (card (frame_numbers fs)) = (of_nat (length ds) :: u16) \<longleftrightarrow>
      card (frame_numbers fs) = length ds"
    using card ds by (simp add: word_of_nat_eq_iff take_bit_nat_eq_self)
  have "is_complete pc \<longleftrightarrow> length ds - 1 \<in> frame_numbers fs \<and> card (frame_numbers fs) = length ds"
    using pc pending_of_numbers [OF pc] inj by (auto simp: is_complete_def pending_of_def)
  also have "\<dots> \<longleftrightarrow> frame_numbers fs = {..<length ds}"
  proof
    assume "length ds - 1 \<in> frame_numbers fs \<and> card (frame_numbers fs) = length ds"
    then show "frame_numbers fs = {..<length ds}"
      by (intro card_subset_eq [OF finite_lessThan sub]) simp
  qed (use ds in simp)
  finally show ?thesis by (simp add: all_seen_def)
qed

lemma assemble_pending_of:
  assumes pc: "pending_of pc cid ds fs" and fs: "\<forall>f \<in> set fs. frame_of cid ds f"
    and all: "all_seen ds fs"
  shows "assemble pc = concat ds"
proof -
  let ?num = "unat \<circ> fr_frame_number" and ?fs = "sort_key fr_frame_number (pc_frames pc)"
  have sub: "f \<in> set fs" if "f \<in> set ?fs" for f
    using pc that by (auto simp: pending_of_def)
  have "distinct (map ?num (pc_frames pc))"
    using pc by (auto simp: pending_of_def pc_inv_def distinct_map comp_def inj_on_def word_unat_eq_iff)
  then have "distinct (map ?num ?fs)"
    by (simp add: distinct_map)
  moreover have "sorted (map ?num ?fs)"
    using sorted_sort_key [of fr_frame_number "pc_frames pc"]
    by (simp add: sorted_map word_le_nat_alt)
  moreover have "set (map ?num ?fs) = set [0..<length ds]"
    using pc all by (auto simp: pending_of_def all_seen_def frame_numbers_def)
  ultimately have nums: "map ?num ?fs = [0..<length ds]"
    by (intro sorted_distinct_set_unique) auto
  have "map fr_frame_data ?fs = map (\<lambda>f. ds ! ?num f) ?fs"
    using fs sub by (auto simp: frame_of_def)
  also have "\<dots> = map ((!) ds) (map ?num ?fs)" by simp
  also have "\<dots> = ds" by (simp only: nums map_nth)
  finally show ?thesis by (simp add: assemble_concat)
qed

lemma pc_bytes_pending_of:
  assumes pc: "pending_of pc cid ds fs" and fs: "\<forall>f \<in> set fs. frame_of cid ds f"
  shows "pc_bytes pc \<le> length (concat ds)"
proof -
  let ?num = "unat \<circ> fr_frame_number"
  have "distinct (map ?num (pc_frames pc))"
    using pc by (auto simp: pending_of_def pc_inv_def distinct_map comp_def inj_on_def word_unat_eq_iff)
  have "pc_bytes pc = sum_list (map (\<lambda>i. length (ds ! i)) (map ?num (pc_frames pc)))"
    unfolding pc_bytes_def map_map
    using pc fs by (intro arg_cong [of _ _ sum_list]) (auto simp: pending_of_def frame_of_def frame_wf_def)
  also have "\<dots> = (\<Sum>i \<in> frame_numbers fs. length (ds ! i))"
    using pc \<open>distinct _\<close>
    by (simp only: sum_list_distinct_conv_sum_set) (simp add: pending_of_def frame_numbers_def)
  also have "\<dots> \<le> (\<Sum>i \<in> {..<length ds}. length (ds ! i))"
    using fs by (intro sum_mono2) (auto dest: frame_numbers_subset)
  also have "\<dots> = length (concat ds)"
    by (simp add: length_concat sum_list_sum_nth atLeast0LessThan)
  finally show ?thesis .
qed

text \<open>The frames came in close enough together for the channel not to time out.\<close>

definition within_timeout :: "u64 \<Rightarrow> frame list \<Rightarrow> bool" where
  "within_timeout t fs \<longleftrightarrow>
     (\<forall>f \<in> set fs. \<forall>g \<in> set fs. unat (fr_l1_inclusion_block f) - unat (fr_l1_inclusion_block g) \<le> unat t)"

lemma pending_of_not_timed_out:
  assumes "pending_of pc cid ds fs" and "within_timeout t fs"
  shows "\<not> is_timed_out pc t"
proof -
  have "pc_inv pc" "set (pc_frames pc) \<subseteq> set fs" using assms by (auto simp: pending_of_def)
  with assms(2) show ?thesis
    by (force simp: pc_timed_out_iff within_timeout_def)
qed

lemma fetch_single:
  assumes "chs_pending_channels s = [pc]" and "pc_inv pc"
  shows "fetch_ready_channel s (pc_channel_id pc) =
    (if is_complete pc
     then Ok (Some \<lparr>ch_id = pc_channel_id pc, ch_data = assemble pc,
                    ch_l1_inclusion_block = pc_highest_l1_block pc\<rparr>, s\<lparr>chs_pending_channels := []\<rparr>)
     else Ok (None, s))"
  using assms by (simp add: fetch_ready_channel_def channel_from_pending_inv list_remove_def)

lemma prune_single:
  assumes "chs_pending_channels s = [pc]" and "pc_bytes pc \<le> unat (chs_max_channel_size s)"
  shows "channels_prune s = Ok s"
  using assms pending_total_size_le [of "[pc]"]
  by (intro channels_prune_fits) (simp add: word_le_nat_alt bank_bytes_def)

text \<open>
  One round of the loop on the bank that holds at most the channel being collected.
\<close>

lemma collect_step:
  assumes pc: "pending_of pc cid ds fs" and fs: "\<forall>f \<in> set fs. frame_of cid ds f"
    and push: "channels_push_frame (s\<lparr>chs_frame_bank := bank\<rparr>) f = s1"
    and s1: "chs_pending_channels s1 = [pc]" and f: "fr_channel_id f = cid"
    and ds: "ds \<noteq> []" "length ds < 2 ^ 16" "length (concat ds) \<le> unat (chs_max_channel_size s)"
  shows "process_bank (f # bank) s =
    (if all_seen ds fs
     then Ok (Some \<lparr>ch_id = cid, ch_data = concat ds, ch_l1_inclusion_block = pc_highest_l1_block pc\<rparr>,
              s1\<lparr>chs_pending_channels := []\<rparr>)
     else process_bank bank s1)"
proof -
  have max: "chs_max_channel_size s1 = chs_max_channel_size s"
    using push by auto
  have inv: "pc_inv pc" and cid: "pc_channel_id pc = cid"
    using pc by (auto simp: pending_of_def)
  have "pc_bytes pc \<le> unat (chs_max_channel_size s1)"
    using pc_bytes_pending_of [OF pc fs] ds(3) max by simp
  then have prune: "channels_prune s1 = Ok s1"
    using s1 by (intro prune_single)
  show ?thesis
    using fetch_single [OF s1 inv] is_complete_pending_of [OF pc fs ds(1,2)]
      assemble_pending_of [OF pc fs]
    by (simp add: push prune f cid)
qed

lemma process_bank_collect:
  assumes "chs_pending_channels s = [pc]" and "pending_of pc cid ds gs"
    and "\<forall>f \<in> set (gs @ fs). frame_of cid ds f" and "within_timeout (chs_channel_timeout s) (gs @ fs)"
    and "\<not> all_seen ds gs" and "all_seen ds (gs @ fs)"
    and "ds \<noteq> []" "length ds < 2 ^ 16" "length (concat ds) \<le> unat (chs_max_channel_size s)"
  shows "\<exists>l1 s'. process_bank fs s =
    Ok (Some \<lparr>ch_id = cid, ch_data = concat ds, ch_l1_inclusion_block = l1\<rparr>, s') \<and>
    chs_pending_channels s' = []"
  using assms
proof (induction fs arbitrary: s pc gs)
  case (Cons f fs)
  let ?pc = "pending_push_frame pc f"
  let ?s1 = "s\<lparr>chs_frame_bank := fs, chs_pending_channels := [?pc]\<rparr>"
  have f: "frame_of cid ds f" using Cons.prems(3) by simp
  then have pc': "pending_of ?pc cid ds (gs @ [f])"
    by (rule pending_of_push [OF Cons.prems(2)])
  moreover have "within_timeout (chs_channel_timeout s) (gs @ [f])"
    using Cons.prems(4) by (auto simp: within_timeout_def)
  ultimately have "\<not> is_timed_out ?pc (chs_channel_timeout s)"
    by (rule pending_of_not_timed_out)
  then have push: "channels_push_frame (s\<lparr>chs_frame_bank := fs\<rparr>) f = ?s1"
    using Cons.prems(1,2) f
    by (simp add: channels_push_frame_def pending_of_def frame_of_def Let_def)
  note step = collect_step [OF pc' _ push, OF _ _ _ Cons.prems(7-9)]
  show ?case
  proof (cases "all_seen ds (gs @ [f])")
    case True
    then show ?thesis using step Cons.prems(3) f by (auto simp: frame_of_def)
  next
    case False
    then have "process_bank (f # fs) s = process_bank fs ?s1"
      using step Cons.prems(3) f by (auto simp: frame_of_def)
    moreover have "\<exists>l1 s'. process_bank fs ?s1 =
        Ok (Some \<lparr>ch_id = cid, ch_data = concat ds, ch_l1_inclusion_block = l1\<rparr>, s') \<and>
        chs_pending_channels s' = []"
      using Cons.prems by (intro Cons.IH [OF _ pc']) (simp_all add: False)
    ultimately show ?thesis by simp
  qed
qed simp

lemma process_bank_delivers:
  assumes empty: "chs_pending_channels s = []" and fs: "\<forall>f \<in> set fs. frame_of cid ds f"
    and timeout: "within_timeout (chs_channel_timeout s) fs" and all: "all_seen ds fs"
    and ds: "ds \<noteq> []" "length ds < 2 ^ 16" "length (concat ds) \<le> unat (chs_max_channel_size s)"
  shows "\<exists>l1 s'. process_bank fs s =
    Ok (Some \<lparr>ch_id = cid, ch_data = concat ds, ch_l1_inclusion_block = l1\<rparr>, s') \<and>
    chs_pending_channels s' = []"
proof -
  obtain f gs where f: "fs = f # gs"
    using all ds(1) by (cases fs) (auto simp: all_seen_def frame_numbers_def lessThan_empty_iff)
  let ?s1 = "s\<lparr>chs_frame_bank := gs, chs_pending_channels := [pending_channel_new f]\<rparr>"
  have pc: "pending_of (pending_channel_new f) cid ds [f]"
    using fs f by (intro pending_of_new) simp
  have push: "channels_push_frame (s\<lparr>chs_frame_bank := gs\<rparr>) f = ?s1"
    by (simp add: channels_push_frame_def empty)
  note step = collect_step [OF pc _ push, OF _ _ _ ds]
  show ?thesis
  proof (cases "all_seen ds [f]")
    case True
    then show ?thesis using step fs f by (auto simp: frame_of_def)
  next
    case False
    then have "process_bank fs s = process_bank gs ?s1"
      using step fs f by (auto simp: frame_of_def)
    moreover have "\<exists>l1 s'. process_bank gs ?s1 =
        Ok (Some \<lparr>ch_id = cid, ch_data = concat ds, ch_l1_inclusion_block = l1\<rparr>, s') \<and>
        chs_pending_channels s' = []"
      by (rule process_bank_collect [OF _ pc]) (use fs f timeout all ds False in simp_all)
    ultimately show ?thesis by simp
  qed
qed

section \<open>Frames of several channels, call by call\<close>

text \<open>The calls of the stage, and what each returns.\<close>

fun channels_run :: "nat \<Rightarrow> batcher_transactions channels \<Rightarrow> (channel option list \<times> batcher_transactions channels) outcome" where
  "channels_run 0 s = Ok ([], s)"
| "channels_run (Suc n) s =
     and_then (channels_next batcher_transactions_next s) (\<lambda>(x, s1).
     and_then (channels_run n s1) (\<lambda>(xs, s2). Ok (x # xs, s2)))"

lemma channels_run_snoc:
  "channels_run n s = Ok (xs, s1) \<Longrightarrow> channels_next batcher_transactions_next s1 = Ok (x, s2) \<Longrightarrow>
   channels_run (Suc n) s = Ok (xs @ [x], s2)"
  by (induction n arbitrary: s xs) (auto simp: outcome_simps)

abbreviation one_frame :: "frame \<Rightarrow> batcher_transaction" where
  "one_frame f \<equiv> \<lparr>btx_version = 0, btx_frames = [f]\<rparr>"

text \<open>What the bank has of a channel: nothing, or one pending channel that has taken in the frames so far.\<close>

definition own :: "u128 \<Rightarrow> frame list \<Rightarrow> frame list" where
  "own cid fs = filter (\<lambda>f. fr_channel_id f = cid) fs"

definition own_pending :: "u128 \<Rightarrow> 'i channels \<Rightarrow> pending_channel list" where
  "own_pending cid s = filter (\<lambda>pc. pc_channel_id pc = cid) (chs_pending_channels s)"

definition collects :: "u128 \<Rightarrow> bytes list \<Rightarrow> frame list \<Rightarrow> 'i channels \<Rightarrow> bool" where
  "collects cid ds gs s \<longleftrightarrow> channels_inv s \<and> chs_frame_bank s = [] \<and>
     (if gs = [] then own_pending cid s = [] else \<exists>pc. own_pending cid s = [pc] \<and> pending_of pc cid ds gs)"

lemma own_simps [simp]:
  "own cid [] = []" "own cid (fs @ gs) = own cid fs @ own cid gs"
  "own cid [f] = (if fr_channel_id f = cid then [f] else [])"
  by (simp_all add: own_def)

lemma own_pending_fields [simp]:
  "own_pending cid (s\<lparr>chs_batcher_tx_iter := it\<rparr>) = own_pending cid s"
  "own_pending cid (s\<lparr>chs_frame_bank := b\<rparr>) = own_pending cid s"
  by (simp_all add: own_pending_def)

lemma filter_update_other: "\<not> P (xs ! i) \<Longrightarrow> \<not> P y \<Longrightarrow> filter P (xs[i := y]) = filter P xs"
proof (induction xs arbitrary: i)
  case (Cons x xs)
  then show ?case by (cases i) auto
qed simp

lemma filter_remove_other: "\<not> P (xs ! i) \<Longrightarrow> filter P (list_remove i xs) = filter P xs"
proof (induction xs arbitrary: i)
  case (Cons x xs)
  then show ?case by (cases i) auto
qed simp

lemma filter_update_only: "filter P xs = [x] \<Longrightarrow> i < length xs \<Longrightarrow> P (xs ! i) \<Longrightarrow> P y \<Longrightarrow> filter P (xs[i := y]) = [y]"
proof (induction xs arbitrary: i)
  case (Cons z xs)
  then show ?case
  proof (cases i)
    case (Suc j)
    then have "P (xs ! j)" "j < length xs" using Cons.prems by auto
    then have "filter P xs \<noteq> []" by (auto simp: filter_empty_conv)
    then show ?thesis using Cons Suc by (auto split: if_splits)
  qed (auto split: if_splits)
qed simp

lemma filter_remove_only: "filter P xs = [x] \<Longrightarrow> i < length xs \<Longrightarrow> P (xs ! i) \<Longrightarrow> filter P (list_remove i xs) = []"
proof (induction xs arbitrary: i)
  case (Cons z xs)
  then show ?case
  proof (cases i)
    case (Suc j)
    then have "P (xs ! j)" "j < length xs" using Cons.prems by auto
    then have "filter P xs \<noteq> []" by (auto simp: filter_empty_conv)
    then show ?thesis using Cons Suc by (auto split: if_splits)
  qed (auto split: if_splits)
qed simp

lemma filter_only_nth:
  assumes "filter P xs = [x]" "i < length xs" "P (xs ! i)"
  shows "xs ! i = x"
proof -
  have "xs ! i \<in> set (filter P xs)" using assms(2,3) by simp
  then show ?thesis unfolding assms(1) by simp
qed

lemma filter_only_in:
  assumes "filter P xs = [x]"
  shows "x \<in> set xs \<and> P x"
proof -
  have "x \<in> set (filter P xs)" unfolding assms by simp
  then show ?thesis by simp
qed

text \<open>One frame.\<close>

lemma push_other:
  assumes "fr_channel_id f \<noteq> cid"
  shows "own_pending cid (channels_push_frame s f) = own_pending cid s"
proof (cases "list_position (\<lambda>c. pc_channel_id c = fr_channel_id f) (chs_pending_channels s)")
  case None
  then show ?thesis using assms by (simp add: channels_push_frame_def own_pending_def pending_channel_new_def)
next
  case (Some i)
  let ?pcs = "chs_pending_channels s" and ?P = "\<lambda>pc. pc_channel_id pc = cid"
  let ?pc = "pending_push_frame (?pcs ! i) f"
  have i: "i < length ?pcs" "\<not> ?P (?pcs ! i)" "\<not> ?P ?pc" using Some assms by (auto simp: list_position_Some)
  then have "filter ?P (list_remove i (?pcs[i := ?pc])) = filter ?P (?pcs[i := ?pc])" by (intro filter_remove_other) simp
  then show ?thesis using Some i filter_update_other [of ?P ?pcs i ?pc]
    by (simp add: channels_push_frame_def own_pending_def Let_def)
qed

lemma fetch_other:
  assumes "fetch_ready_channel s j = Ok (r, s')" "j \<noteq> cid"
  shows "own_pending cid s' = own_pending cid s" "r = Some ch \<Longrightarrow> ch_id ch \<noteq> cid"
proof -
  let ?pcs = "chs_pending_channels s" and ?P = "\<lambda>pc. pc_channel_id pc = cid"
  have "own_pending cid s' = own_pending cid s \<and> (r = Some ch \<longrightarrow> ch_id ch \<noteq> cid)"
  proof (cases "list_position (\<lambda>c. pc_channel_id c = j \<and> is_complete c) ?pcs")
    case (Some i)
    then have "i < length ?pcs" "pc_channel_id (?pcs ! i) = j" by (auto simp: list_position_Some)
    then show ?thesis using Some assms filter_remove_other [of ?P ?pcs i]
      by (auto simp: fetch_ready_channel_def outcome_simps own_pending_def channel_from_pending_def)
  qed (use assms in \<open>simp add: fetch_ready_channel_def\<close>)
  then show "own_pending cid s' = own_pending cid s" "r = Some ch \<Longrightarrow> ch_id ch \<noteq> cid" by auto
qed

lemma push_own:
  assumes "collects cid ds gs s" "\<forall>g \<in> set (gs @ [f]). frame_of cid ds g" "within_timeout (chs_channel_timeout s) (gs @ [f])"
  shows "\<exists>pc. own_pending cid (channels_push_frame s f) = [pc] \<and> pending_of pc cid ds (gs @ [f])"
proof (cases "gs = []")
  case True
  then have "list_position (\<lambda>c. pc_channel_id c = cid) (chs_pending_channels s) = None"
    using assms(1) by (auto simp: collects_def own_pending_def list_position_None filter_empty_conv)
  then show ?thesis using assms(1,2) True pending_of_new [of cid ds f]
    by (simp add: channels_push_frame_def frame_of_def own_pending_def collects_def)
next
  case False
  let ?pcs = "chs_pending_channels s" and ?P = "\<lambda>pc. pc_channel_id pc = cid"
  obtain pc where pc: "filter ?P ?pcs = [pc]" "pending_of pc cid ds gs"
    using assms(1) False by (auto simp: collects_def own_pending_def)
  have "list_position ?P ?pcs \<noteq> None" using filter_only_in [OF pc(1)] by (auto simp: list_position_None)
  then obtain i where pos: "list_position ?P ?pcs = Some i" by blast
  then have i: "i < length ?pcs" "?P (?pcs ! i)" by (auto simp: list_position_Some)
  then have nth: "?pcs ! i = pc" using filter_only_nth [OF pc(1)] by blast
  have new: "pending_of (pending_push_frame pc f) cid ds (gs @ [f])" using pending_of_push [OF pc(2)] assms(2) by simp
  then have "\<not> is_timed_out (pending_push_frame pc f) (chs_channel_timeout s)" using assms(3) by (rule pending_of_not_timed_out)
  moreover have "filter ?P (?pcs[i := pending_push_frame pc f]) = [pending_push_frame pc f]"
    using new by (intro filter_update_only [OF pc(1) i]) (simp add: pending_of_def)
  moreover have "fr_channel_id f = cid" using assms(2) by (simp add: frame_of_def)
  ultimately show ?thesis using new pos nth by (simp add: channels_push_frame_def own_pending_def Let_def)
qed

lemma fetch_own:
  assumes "own_pending cid s = [pc]" "pc_inv pc"
  shows "\<exists>s'. fetch_ready_channel s cid =
    Ok (if is_complete pc then Some \<lparr>ch_id = cid, ch_data = assemble pc, ch_l1_inclusion_block = pc_highest_l1_block pc\<rparr> else None, s') \<and>
    own_pending cid s' = (if is_complete pc then [] else [pc])"
proof -
  let ?pcs = "chs_pending_channels s" and ?P = "\<lambda>pc. pc_channel_id pc = cid"
  have only: "filter ?P ?pcs = [pc]" using assms(1) by (simp add: own_pending_def)
  show ?thesis
  proof (cases "list_position (\<lambda>c. pc_channel_id c = cid \<and> is_complete c) ?pcs")
    case None
    have "pc \<in> set ?pcs" "?P pc" using filter_only_in [OF only] by auto
    then have "\<not> is_complete pc" using None by (auto simp: list_position_None)
    then show ?thesis using None assms(1) by (simp add: fetch_ready_channel_def)
  next
    case (Some i)
    then have i: "i < length ?pcs" "?P (?pcs ! i)" "is_complete (?pcs ! i)" by (auto simp: list_position_Some)
    then have "?pcs ! i = pc" using filter_only_nth [OF only] by blast
    then show ?thesis using Some i assms(2) filter_remove_only [OF only i(1,2)]
      by (simp add: fetch_ready_channel_def channel_from_pending_inv own_pending_def)
  qed
qed


lemma process_one:
  assumes "bank_bytes (chs_pending_channels s) + unat (fr_frame_data_len f) \<le> unat (chs_max_channel_size s)"
  shows "process_bank [f] s = fetch_ready_channel (channels_push_frame (s\<lparr>chs_frame_bank := []\<rparr>) f) (fr_channel_id f)"
proof -
  let ?s = "channels_push_frame (s\<lparr>chs_frame_bank := []\<rparr>) f"
  have "bank_bytes (chs_pending_channels ?s) \<le> unat (chs_max_channel_size s)"
    using bank_bytes_push_frame [of "s\<lparr>chs_frame_bank := []\<rparr>" f] assms by simp
  then have "pending_total_size (chs_pending_channels ?s) \<le> chs_max_channel_size ?s"
    using pending_total_size_le [of "chs_pending_channels ?s"] by (simp add: word_le_nat_alt)
  then have "channels_prune ?s = Ok ?s" by (rule channels_prune_fits)
  then show ?thesis by (cases "fetch_ready_channel ?s (fr_channel_id f)") (auto split: option.splits)
qed

lemma fetch_bytes:
  "fetch_ready_channel s j = Ok (r, s') \<Longrightarrow> bank_bytes (chs_pending_channels s') \<le> bank_bytes (chs_pending_channels s) \<and>
     chs_max_channel_size s' = chs_max_channel_size s \<and> chs_channel_timeout s' = chs_channel_timeout s \<and>
     chs_batcher_tx_iter s' = chs_batcher_tx_iter s \<and> chs_frame_bank s' = chs_frame_bank s"
  using bank_bytes_list_remove by (auto simp: fetch_ready_channel_def outcome_simps split: option.splits)

text \<open>The room that the bank has for the frames \<open>fs\<close>, whatever channels they are of.\<close>

definition bank_room :: "frame list \<Rightarrow> 'i channels \<Rightarrow> bool" where
  "bank_room fs s \<longleftrightarrow> bank_bytes (chs_pending_channels s) + sum_list (map (unat \<circ> fr_frame_data_len) fs) \<le> unat (chs_max_channel_size s)"

text \<open>A frame of another channel changes nothing for this one.\<close>

lemma take_other:
  assumes "collects cid ds gs s" "fr_channel_id f \<noteq> cid" "bank_room (f # fs) s"
  shows "\<exists>r s'. process_bank [f] (s\<lparr>chs_batcher_tx_iter := it, chs_frame_bank := [f]\<rparr>) = Ok (r, s') \<and> collects cid ds gs s' \<and>
    (\<forall>ch. r = Some ch \<longrightarrow> ch_id ch \<noteq> cid) \<and> bank_room fs s' \<and> chs_batcher_tx_iter s' = it \<and> chs_channel_timeout s' = chs_channel_timeout s"
proof -
  let ?s = "s\<lparr>chs_batcher_tx_iter := it, chs_frame_bank := []\<rparr>"
  let ?s1 = "channels_push_frame ?s f"
  have "channels_inv ?s1" using assms(1) by (intro channels_inv_push) (simp add: collects_def)
  then obtain r s2 where s2: "fetch_ready_channel ?s1 (fr_channel_id f) = Ok (r, s2)" "channels_inv s2"
    by (rule fetch_ready_channel_Ok)
  have "process_bank [f] (s\<lparr>chs_batcher_tx_iter := it, chs_frame_bank := [f]\<rparr>) = Ok (r, s2)"
    using s2(1) assms(3) by (subst process_one) (simp_all add: bank_room_def del: process_bank.simps)
  moreover have "own_pending cid s2 = own_pending cid s"
    using fetch_other(1) [OF s2(1) assms(2)] push_other [OF assms(2), of ?s] by simp
  moreover have "bank_bytes (chs_pending_channels ?s1) \<le> bank_bytes (chs_pending_channels s) + unat (fr_frame_data_len f)"
    using bank_bytes_push_frame [of ?s f] by simp
  ultimately show ?thesis
    using fetch_bytes [OF s2(1)] s2(2) fetch_other(2) [OF s2(1) assms(2)] assms(1,3)
    by (intro exI [of _ r] exI [of _ s2]) (auto simp: collects_def bank_room_def)
qed

lemma take_own:
  assumes "collects cid ds gs s" "bank_room (f # fs) s" "\<forall>g \<in> set (gs @ [f]). frame_of cid ds g"
    and "within_timeout (chs_channel_timeout s) (gs @ [f])" "ds \<noteq> []" "length ds < 2 ^ 16"
  shows "\<exists>r s'. process_bank [f] (s\<lparr>chs_batcher_tx_iter := it, chs_frame_bank := [f]\<rparr>) = Ok (r, s') \<and>
    (if all_seen ds (gs @ [f])
     then \<exists>pc. pending_of pc cid ds (gs @ [f]) \<and> own_pending cid s' = [] \<and>
       r = Some \<lparr>ch_id = cid, ch_data = concat ds, ch_l1_inclusion_block = pc_highest_l1_block pc\<rparr>
     else r = None \<and> collects cid ds (gs @ [f]) s') \<and>
    bank_room fs s' \<and> chs_batcher_tx_iter s' = it \<and> chs_channel_timeout s' = chs_channel_timeout s"
proof -
  let ?s = "s\<lparr>chs_batcher_tx_iter := it, chs_frame_bank := []\<rparr>"
  let ?s1 = "channels_push_frame ?s f"
  have c: "collects cid ds gs ?s" using assms(1) by (simp add: collects_def)
  then have "channels_inv ?s1" by (intro channels_inv_push) (simp add: collects_def)
  then obtain r s2 where s2: "fetch_ready_channel ?s1 cid = Ok (r, s2)" "channels_inv s2" by (rule fetch_ready_channel_Ok)
  obtain pc where pc: "own_pending cid ?s1 = [pc]" "pending_of pc cid ds (gs @ [f])" using push_own [OF c assms(3)] assms(4) by auto
  then have "pc_inv pc" by (simp add: pending_of_def)
  then have fetched: "r = (if is_complete pc then Some \<lparr>ch_id = cid, ch_data = assemble pc, ch_l1_inclusion_block = pc_highest_l1_block pc\<rparr> else None)"
    "own_pending cid s2 = (if is_complete pc then [] else [pc])"
    using fetch_own [OF pc(1)] s2(1) by auto
  have "fr_channel_id f = cid" using assms(3) by (simp add: frame_of_def)
  then have "process_bank [f] (s\<lparr>chs_batcher_tx_iter := it, chs_frame_bank := [f]\<rparr>) = Ok (r, s2)"
    using s2(1) assms(2) by (subst process_one) (simp_all add: bank_room_def del: process_bank.simps)
  moreover have "bank_bytes (chs_pending_channels ?s1) \<le> bank_bytes (chs_pending_channels s) + unat (fr_frame_data_len f)"
    using bank_bytes_push_frame [of ?s f] by simp
  ultimately show ?thesis
    using fetch_bytes [OF s2(1)] s2(2) fetched pc(2) assms(2) is_complete_pending_of [OF pc(2) assms(3,5,6)] assemble_pending_of [OF pc(2) assms(3)]
    by (intro exI [of _ r] exI [of _ s2]) (auto simp: collects_def bank_room_def)
qed

text \<open>All frames.\<close>

lemma all_seen_more:
  assumes "all_seen ds gs" "\<forall>f \<in> set fs. frame_of cid ds f"
  shows "all_seen ds (gs @ fs)"
  using assms by (auto simp: all_seen_def frame_numbers_def frame_of_def)

lemma channels_next_one:
  assumes "chs_frame_bank s = []" "bts_safe (chs_batcher_tx_iter s)" "bts_backlog (chs_batcher_tx_iter s) = map one_frame (f # fs)"
  shows "\<exists>it. channels_next batcher_transactions_next s = process_bank [f] (s\<lparr>chs_batcher_tx_iter := it, chs_frame_bank := [f]\<rparr>) \<and>
    bts_safe it \<and> bts_backlog it = map one_frame fs"
proof -
  obtain it where "batcher_transactions_next (chs_batcher_tx_iter s) = Ok (Some (one_frame f), it)"
    "bts_backlog it = map one_frame fs" "bts_safe it"
    using batcher_transactions_next_safe [OF assms(2)] assms(3) by auto
  then show ?thesis using assms(1)
    by (intro exI [of _ it]) (simp add: channels_next_def process_frames_def fill_bank_def del: process_bank.simps)
qed

lemma run_collects:
  assumes "collects cid ds gs s" "bank_room (fs @ hs) s" "bts_safe (chs_batcher_tx_iter s)"
    and "bts_backlog (chs_batcher_tx_iter s) = map one_frame (fs @ hs)"
    and "\<forall>g \<in> set (gs @ own cid fs). frame_of cid ds g" "within_timeout (chs_channel_timeout s) (gs @ own cid fs)"
    and "\<not> all_seen ds (gs @ own cid fs)" "ds \<noteq> []" "length ds < 2 ^ 16"
  shows "\<exists>xs s'. channels_run (length fs) s = Ok (xs, s') \<and> collects cid ds (gs @ own cid fs) s' \<and> bank_room hs s' \<and>
    bts_safe (chs_batcher_tx_iter s') \<and> bts_backlog (chs_batcher_tx_iter s') = map one_frame hs \<and>
    chs_channel_timeout s' = chs_channel_timeout s \<and> (\<forall>ch. Some ch \<in> set xs \<longrightarrow> ch_id ch \<noteq> cid)"
  using assms
proof (induction fs arbitrary: gs s)
  case (Cons f fs)
  obtain it where it: "channels_next batcher_transactions_next s = process_bank [f] (s\<lparr>chs_batcher_tx_iter := it, chs_frame_bank := [f]\<rparr>)"
    "bts_safe it" "bts_backlog it = map one_frame (fs @ hs)"
    using channels_next_one [of s f "fs @ hs"] Cons.prems(1,3,4) by (auto simp: collects_def)
  let ?gs = "gs @ own cid [f]"
  have split: "gs @ own cid (f # fs) = ?gs @ own cid fs" by (simp add: own_def)
  have room: "bank_room (f # fs @ hs) s" using Cons.prems(2) by simp
  have "\<exists>r s'. process_bank [f] (s\<lparr>chs_batcher_tx_iter := it, chs_frame_bank := [f]\<rparr>) = Ok (r, s') \<and> collects cid ds ?gs s' \<and>
    (\<forall>ch. r = Some ch \<longrightarrow> ch_id ch \<noteq> cid) \<and> bank_room (fs @ hs) s' \<and> chs_batcher_tx_iter s' = it \<and> chs_channel_timeout s' = chs_channel_timeout s"
  proof (cases "fr_channel_id f = cid")
    case False
    then show ?thesis using take_other [OF Cons.prems(1) False room, of it] by simp
  next
    case True
    have "\<forall>g \<in> set (gs @ [f]). frame_of cid ds g" "within_timeout (chs_channel_timeout s) (gs @ [f])"
      using Cons.prems(5,6) True by (auto simp: split within_timeout_def)
    moreover have "\<not> all_seen ds (gs @ [f])"
      using Cons.prems(5,7) True all_seen_more [of ds "gs @ [f]" "own cid fs" cid] by (auto simp: split)
    ultimately show ?thesis using take_own [OF Cons.prems(1) room, of it] Cons.prems(8,9) True by fastforce
  qed
  then obtain r s1 where s1: "process_bank [f] (s\<lparr>chs_batcher_tx_iter := it, chs_frame_bank := [f]\<rparr>) = Ok (r, s1)" "collects cid ds ?gs s1"
    "\<forall>ch. r = Some ch \<longrightarrow> ch_id ch \<noteq> cid" "bank_room (fs @ hs) s1" "chs_batcher_tx_iter s1 = it" "chs_channel_timeout s1 = chs_channel_timeout s"
    by blast
  obtain xs s2 where s2: "channels_run (length fs) s1 = Ok (xs, s2)" "collects cid ds (?gs @ own cid fs) s2" "bank_room hs s2"
    "bts_safe (chs_batcher_tx_iter s2)" "bts_backlog (chs_batcher_tx_iter s2) = map one_frame hs"
    "chs_channel_timeout s2 = chs_channel_timeout s1" "\<forall>ch. Some ch \<in> set xs \<longrightarrow> ch_id ch \<noteq> cid"
    using Cons.IH [OF s1(2,4)] it(2,3) s1(5,6) Cons.prems(5-9) unfolding split by auto
  then show ?case using it(1) s1(1,3,6) by (auto simp: split simp del: process_bank.simps own_simps)
qed (auto)

text \<open>The channel's inclusion block is that of the frame that completes it, if the frames come in the order of L1.\<close>

lemma completed_highest_l1:
  assumes "pending_of pc cid ds (gs @ [f])" and "all_seen ds (gs @ [f])" "\<not> all_seen ds gs"
    and "\<forall>g \<in> set gs. fr_l1_inclusion_block g \<le> fr_l1_inclusion_block f"
  shows "pc_highest_l1_block pc = fr_l1_inclusion_block f"
proof -
  have inv: "pc_inv pc" and sub: "set (pc_frames pc) \<subseteq> set (gs @ [f])"
    and nums: "frame_numbers (pc_frames pc) = frame_numbers (gs @ [f])" using assms(1) by (auto simp: pending_of_def)
  have "f \<in> set (pc_frames pc)"
  proof (rule ccontr)
    assume "f \<notin> set (pc_frames pc)"
    then have "frame_numbers (pc_frames pc) \<subseteq> frame_numbers gs" using sub by (auto simp: frame_numbers_def)
    then have "frame_numbers gs = frame_numbers (gs @ [f])" using nums by (auto simp: frame_numbers_def)
    then show False using assms(2,3) by (simp add: all_seen_def)
  qed
  then have "fr_l1_inclusion_block f \<le> pc_highest_l1_block pc" using inv by (simp add: pc_inv_def)
  moreover have "pc_highest_l1_block pc \<le> fr_l1_inclusion_block f"
    using inv sub assms(4) by (fastforce simp: pc_inv_def)
  ultimately show ?thesis by simp
qed

section \<open>The stage over the stage below\<close>

text \<open>
  What the bank needs of the stage below is what every stage promises; it then promises the
  same to the stage above.
\<close>

locale channel_stage = purgeable_iterator step purge inv drained quiet
  for step :: "'env \<Rightarrow> 's \<Rightarrow> (batcher_transaction option \<times> 's) outcome"
    and purge inv drained quiet
begin

lemma channels_next_Ok:
  assumes "channels_inv s" and "step env (chs_batcher_tx_iter s) = Ok (tx, it)"
  shows "\<exists>r s'. channels_next (step env) s = Ok (r, s') \<and> channels_inv s' \<and> chs_batcher_tx_iter s' = it"
  using process_frames_Ok [of s "step env", OF assms] by (simp add: channels_next_def)

lemma channels_next_inv:
  assumes "inv (chs_batcher_tx_iter s)" and "channels_inv s" and "channels_next (step env) s = Ok (x, s')"
  shows "inv (chs_batcher_tx_iter s') \<and> channels_inv s'"
proof -
  obtain tx it where tx: "step env (chs_batcher_tx_iter s) = Ok (tx, it)"
    using assms(3) by (auto simp: channels_next_def process_frames_def fill_bank_def outcome_simps)
  then show ?thesis
    using channels_next_Ok [OF assms(2) tx] inv_step [OF assms(1) tx] assms(3) by auto
qed

lemma channels_next_drained:
  assumes "drained (chs_batcher_tx_iter s)" "chs_frame_bank s = []" "quiet env"
  shows "\<exists>it. channels_next (step env) s = Ok (None, s\<lparr>chs_batcher_tx_iter := it\<rparr>) \<and> drained it"
  using step_drained [OF assms(1,3)] assms(2)
  by (auto simp: channels_next_def process_frames_def fill_bank_def)

end

sublocale channel_stage \<subseteq> channels_out: purgeable_iterator
  "\<lambda>env. channels_next (step env)" "channels_purge purge"
  "\<lambda>s. inv (chs_batcher_tx_iter s) \<and> channels_inv s"
  "\<lambda>s. drained (chs_batcher_tx_iter s) \<and> chs_pending_channels s = [] \<and> chs_frame_bank s = []" quiet
proof
  fix s :: "'s channels" and env
  assume "drained (chs_batcher_tx_iter s) \<and> chs_pending_channels s = [] \<and> chs_frame_bank s = []" "quiet env"
  then show "\<exists>s'. channels_next (step env) s = Ok (None, s') \<and>
      drained (chs_batcher_tx_iter s') \<and> chs_pending_channels s' = [] \<and> chs_frame_bank s' = []"
    using channels_next_drained [of s env] by auto
next
  fix s s' :: "'s channels" and env x
  assume "inv (chs_batcher_tx_iter s) \<and> channels_inv s" "channels_next (step env) s = Ok (x, s')"
  then show "inv (chs_batcher_tx_iter s') \<and> channels_inv s'"
    using channels_next_inv by blast
qed (simp_all add: channels_purge_def inv_purge purge_drained channels_inv_def)

interpretation bank: channel_stage
  "\<lambda>_ :: unit. batcher_transactions_next" batcher_transactions_purge "\<lambda>_. True"
  "\<lambda>s. bts_txs s = [] \<and> bts_transaction_rx s = []" "\<lambda>_. True" ..

section \<open>Properties\<close>

text \<open>
  The frames of a channel that come in one transaction are delivered in one call.
\<close>

lemma channel_delivered_at_once:
  assumes "chs_pending_channels s = []" and "chs_frame_bank s = []"
    and "next_tx (chs_batcher_tx_iter s) = Ok (Some \<lparr>btx_version = v, btx_frames = fs\<rparr>, it)"
    and "\<forall>f \<in> set fs. frame_of cid ds f" and "all_seen ds fs"
    and "within_timeout (chs_channel_timeout s) fs"
    and "ds \<noteq> []" and "length ds < 2 ^ 16" and "length (concat ds) \<le> unat (chs_max_channel_size s)"
  shows "\<exists>l1 s'. channels_next next_tx s =
    Ok (Some \<lparr>ch_id = cid, ch_data = concat ds, ch_l1_inclusion_block = l1\<rparr>, s') \<and>
    chs_pending_channels s' = []"
  using assms process_bank_delivers [of "s\<lparr>chs_batcher_tx_iter := it, chs_frame_bank := fs\<rparr>" fs cid ds]
  by (simp add: channels_next_def process_frames_def fill_bank_def)

text \<open>
  C7: a channel whose frames arrive one by one, each in a transaction of its own and between any frames of other channels, is
  delivered by exactly the call that reads its last missing frame, with exactly its data, whatever the order of the frames and however
  often some of them are repeated. No call before returns it, and none of it stays in the bank; with its frames in the order of L1 its inclusion
  block is that of the frame which completed it. The bank may hold other channels at the start; the channel's frames lie within
  its timeout, and all bytes together fit the bank.
\<close>

theorem channel_delivered_any_order:
  fixes cid s fs f
  defines "before \<equiv> own cid fs"
  assumes "channels_inv s" "chs_frame_bank s = []" "own_pending cid s = []" "bts_safe (chs_batcher_tx_iter s)"
    and "bts_backlog (chs_batcher_tx_iter s) = map one_frame (fs @ [f])" "bank_room (fs @ [f]) s"
    and "\<forall>g \<in> set (before @ [f]). frame_of cid ds g" "within_timeout (chs_channel_timeout s) (before @ [f])"
    and "all_seen ds (before @ [f])" "\<not> all_seen ds before" "ds \<noteq> []" "length ds < 2 ^ 16"
  shows "\<exists>xs l1 s'. channels_run (length fs + 1) s =
      Ok (xs @ [Some \<lparr>ch_id = cid, ch_data = concat ds, ch_l1_inclusion_block = l1\<rparr>], s') \<and>
    (\<forall>ch. Some ch \<in> set xs \<longrightarrow> ch_id ch \<noteq> cid) \<and> own_pending cid s' = [] \<and>
    ((\<forall>g \<in> set before. fr_l1_inclusion_block g \<le> fr_l1_inclusion_block f) \<longrightarrow> l1 = fr_l1_inclusion_block f)"
proof -
  have "collects cid ds [] s" using assms(2-4) by (simp add: collects_def)
  then obtain xs s1 where s1: "channels_run (length fs) s = Ok (xs, s1)" "collects cid ds before s1" "bank_room [f] s1"
    "bts_safe (chs_batcher_tx_iter s1)" "bts_backlog (chs_batcher_tx_iter s1) = map one_frame [f]"
    "chs_channel_timeout s1 = chs_channel_timeout s" "\<forall>ch. Some ch \<in> set xs \<longrightarrow> ch_id ch \<noteq> cid"
    using run_collects [of cid ds "[]" s fs "[f]"] assms(5-9,11-13) by (auto simp: before_def within_timeout_def)
  obtain it where it: "channels_next batcher_transactions_next s1 = process_bank [f] (s1\<lparr>chs_batcher_tx_iter := it, chs_frame_bank := [f]\<rparr>)"
    using channels_next_one [of s1 f "[]"] s1(2,4,5) by (auto simp: collects_def)
  obtain s2 pc where "process_bank [f] (s1\<lparr>chs_batcher_tx_iter := it, chs_frame_bank := [f]\<rparr>) =
      Ok (Some \<lparr>ch_id = cid, ch_data = concat ds, ch_l1_inclusion_block = pc_highest_l1_block pc\<rparr>, s2)"
    "pending_of pc cid ds (before @ [f])" "own_pending cid s2 = []"
    using take_own [OF s1(2,3), of it] assms(8-10,12,13) s1(6) by (auto simp del: process_bank.simps)
  with channels_run_snoc [OF s1(1)] it s1(7) completed_highest_l1 [OF _ assms(10,11)] show ?thesis
    by (intro exI [of _ xs] exI [of _ "pc_highest_l1_block pc"] exI [of _ s2]) (auto simp del: process_bank.simps)
qed

definition two_pieces :: "bytes list" where
  "two_pieces = [[1, 2], [3]]"

definition sample_piece :: "nat \<Rightarrow> u64 \<Rightarrow> frame" where
  "sample_piece i l1 = \<lparr>fr_channel_id = 5, fr_frame_number = of_nat i,
     fr_frame_data_len = of_nat (length (two_pieces ! i)), fr_frame_data = two_pieces ! i,
     fr_is_last = (i = 1), fr_l1_inclusion_block = l1\<rparr>"

definition sample_bank :: "u64 \<Rightarrow> unit channels" where
  "sample_bank timeout = \<lparr>chs_batcher_tx_iter = (), chs_pending_channels = [], chs_frame_bank = [],
     chs_max_channel_size = 100, chs_channel_timeout = timeout\<rparr>"

definition sample_stage :: "frame list \<Rightarrow> batcher_transactions channels" where
  "sample_stage fs = \<lparr>chs_batcher_tx_iter = \<lparr>bts_txs = map one_frame fs, bts_transaction_rx = []\<rparr>, chs_pending_channels = [],
     chs_frame_bank = [], chs_max_channel_size = 100, chs_channel_timeout = 10\<rparr>"

theorem channel_delivered_any_order_witness:
  "\<exists>xs s'. channels_run 4
      (sample_stage [sample_piece 1 3, (sample_piece 0 3)\<lparr>fr_channel_id := 6\<rparr>, sample_piece 1 4, sample_piece 0 5]) =
    Ok (xs @ [Some \<lparr>ch_id = 5, ch_data = [1, 2, 3], ch_l1_inclusion_block = 5\<rparr>], s') \<and> own_pending 5 s' = []"
proof -
  let ?fs = "[sample_piece 1 3, (sample_piece 0 3)\<lparr>fr_channel_id := 6\<rparr>, sample_piece 1 4]" and ?f = "sample_piece 0 5"
  let ?s = "sample_stage (?fs @ [?f])"
  have own: "own 5 ?fs = [sample_piece 1 3, sample_piece 1 4]" by (simp add: own_def sample_piece_def)
  have "\<forall>g \<in> set (own 5 ?fs @ [?f]). frame_of 5 two_pieces g"
    unfolding own by (simp add: frame_of_def frame_wf_def sample_piece_def two_pieces_def)
  moreover have "all_seen two_pieces (own 5 ?fs @ [?f])" "\<not> all_seen two_pieces (own 5 ?fs)"
    unfolding own by (auto simp: all_seen_def frame_numbers_def sample_piece_def two_pieces_def)
  moreover have "within_timeout (chs_channel_timeout ?s) (own 5 ?fs @ [?f])"
    unfolding own by (simp add: within_timeout_def sample_piece_def sample_stage_def)
  moreover have "channels_inv ?s" "chs_frame_bank ?s = []" "own_pending 5 ?s = []" "bts_safe (chs_batcher_tx_iter ?s)"
    "bts_backlog (chs_batcher_tx_iter ?s) = map one_frame (?fs @ [?f])" "bank_room (?fs @ [?f]) ?s"
    by (simp_all add: sample_stage_def channels_inv_def own_pending_def bts_safe_def bts_backlog_def bank_room_def bank_bytes_def
        sample_piece_def two_pieces_def)
  moreover have "\<forall>g \<in> set (own 5 ?fs). fr_l1_inclusion_block g \<le> fr_l1_inclusion_block ?f"
    unfolding own by (simp add: sample_piece_def)
  moreover have "concat two_pieces = [1, 2, 3]" "fr_l1_inclusion_block ?f = 5" "two_pieces \<noteq> []" "length two_pieces < 2 ^ 16"
    by (simp_all add: two_pieces_def sample_piece_def)
  ultimately obtain xs s' where "channels_run (length ?fs + 1) ?s =
      Ok (xs @ [Some \<lparr>ch_id = 5, ch_data = [1, 2, 3], ch_l1_inclusion_block = 5\<rparr>], s')" "own_pending 5 s' = []"
    using channel_delivered_any_order [of ?s 5 ?fs ?f two_pieces] by metis
  moreover have "length ?fs + 1 = 4" "?fs @ [?f] = [sample_piece 1 3, (sample_piece 0 3)\<lparr>fr_channel_id := 6\<rparr>, sample_piece 1 4, sample_piece 0 5]"
    by simp_all
  ultimately show ?thesis by metis
qed

text \<open>
  C30: the channel bank keeps its invariant (one pending channel per channel id, no frame number
  twice in a channel, block bounds that are those of its frames) and never panics, whatever
  frames come in, as long as the stage below does not panic.
\<close>

theorem channels_next_keeps_inv:
  assumes "channels_inv s" and "next_tx (chs_batcher_tx_iter s) = Ok (tx, it)"
  shows "\<exists>r s'. channels_next next_tx s = Ok (r, s') \<and> channels_inv s' \<and> chs_batcher_tx_iter s' = it"
  using process_frames_Ok [of s next_tx, OF assms] by (simp add: channels_next_def)

theorem channels_next_keeps_inv_witness:
  "\<exists>r s'. channels_next (\<lambda>_. Ok (Some \<lparr>btx_version = 0, btx_frames = [sample_frame]\<rparr>, ())) (sample_bank 10) =
     Ok (r, s') \<and> channels_inv s' \<and> chs_batcher_tx_iter s' = ()"
  by (rule channels_next_keeps_inv) (simp_all add: channels_inv_def sample_bank_def)

text \<open>
  C31: the bank never holds more than \<open>max_channel_size\<close> bytes of frame data after a call, as
  long as the limit and one frame together stay below \<open>2 ^ 32\<close>, the width the total is
  computed in.
\<close>

theorem bank_size_bounded:
  assumes "channels_inv s" and "bank_bytes (chs_pending_channels s) \<le> unat (chs_max_channel_size s)"
    and "next_tx (chs_batcher_tx_iter s) = Ok (Some tx, it)"
    and "\<forall>f \<in> set (chs_frame_bank s @ btx_frames tx).
           unat (chs_max_channel_size s) + unat (fr_frame_data_len f) < 2 ^ 32"
    and "channels_next next_tx s = Ok (r, s')"
  shows "bank_bytes (chs_pending_channels s') \<le> unat (chs_max_channel_size s')"
  using assms process_bank_bytes [of "s\<lparr>chs_batcher_tx_iter := it, chs_frame_bank := chs_frame_bank s @ btx_frames tx\<rparr>"
      "chs_frame_bank s @ btx_frames tx" r s']
  by (simp add: channels_next_def process_frames_def fill_bank_def)

theorem bank_size_bounded_witness:
  "\<exists>r s'. channels_next (\<lambda>_. Ok (Some \<lparr>btx_version = 0, btx_frames = [sample_frame]\<rparr>, ())) (sample_bank 10) =
     Ok (r, s') \<and> bank_bytes (chs_pending_channels s') \<le> unat (chs_max_channel_size s')"
proof -
  let ?tx = "\<lparr>btx_version = 0, btx_frames = [sample_frame]\<rparr>"
  let ?next = "\<lambda>_ :: unit. Ok (Some ?tx, ())"
  have inv: "channels_inv (sample_bank 10)"
    by (simp add: channels_inv_def sample_bank_def)
  then obtain r s' where r: "channels_next ?next (sample_bank 10) = Ok (r, s')"
    using process_frames_Ok [of "sample_bank 10" ?next] by (auto simp: channels_next_def)
  with bank_size_bounded [OF inv _ _ _ r, of ?tx "()"] show ?thesis
    by (auto simp: sample_bank_def sample_frame_def bank_bytes_def)
qed

text \<open>
  Pushing a frame drops its channel exactly when two of the channel's frames, the new one
  included, lie more than the channel timeout apart on L1.
\<close>

lemma push_frame_timeout:
  assumes "pc_inv pc" and "fr_channel_id f = pc_channel_id pc"
    and "chs_pending_channels s = ps @ pc # qs" and "\<forall>p \<in> set ps. pc_channel_id p \<noteq> pc_channel_id pc"
  defines "pc' \<equiv> pending_push_frame pc f"
  shows "chs_pending_channels (channels_push_frame s f) =
    (if \<exists>g \<in> set (pc_frames pc'). \<exists>h \<in> set (pc_frames pc').
          unat (chs_channel_timeout s) < unat (fr_l1_inclusion_block g) - unat (fr_l1_inclusion_block h)
     then ps @ qs else ps @ pc' # qs)"
proof -
  have "list_position (\<lambda>c. pc_channel_id c = fr_channel_id f) (ps @ pc # qs) = Some (length ps)"
    using assms(2,4) by (auto simp: list_position_Some nth_append)
  then show ?thesis
    using assms(3) pc_timed_out_iff [OF pc_inv_push [OF assms(1,2)]]
    by (simp add: channels_push_frame_def Let_def pc'_def list_remove_def)
qed

lemma push_frame_timeout_witness:
  "chs_pending_channels (channels_push_frame
     ((sample_bank 10)\<lparr>chs_pending_channels := [pending_channel_new (sample_piece 0 5)]\<rparr>) (sample_piece 1 16)) = []"
proof -
  let ?pc = "pending_channel_new (sample_piece 0 5)"
  have frames: "pc_frames (pending_push_frame ?pc (sample_piece 1 16)) = [sample_piece 0 5, sample_piece 1 16]"
    by (simp add: pending_push_frame_def pending_channel_new_def sample_piece_def)
  have fields: "chs_channel_timeout (sample_bank 10) = 10" "fr_l1_inclusion_block (sample_piece i l1) = l1"
    "fr_channel_id (sample_piece i l1) = 5" for i l1
    by (simp_all add: sample_bank_def sample_piece_def)
  show ?thesis
    using push_frame_timeout [of ?pc "sample_piece 1 16"
        "(sample_bank 10)\<lparr>chs_pending_channels := [?pc]\<rparr>" "[]" "[]"]
    unfolding frames by (simp add: pc_inv_new fields)
qed

text \<open>
  A channel counts as complete as soon as it holds as many frames as its last frame's
  number announces, whichever frames they are: with a frame whose number lies beyond the last one,
  a channel that misses a piece is delivered, with the foreign frame's data at the end.
\<close>

lemma foreign_frame_completes_channel:
  assumes "fr_channel_id g = 5" and "1 < fr_frame_number g" and "\<not> fr_is_last g"
  defines "pc \<equiv> pending_push_frame (pending_channel_new (sample_piece 1 3)) g"
  shows "is_complete pc \<and> assemble pc = two_pieces ! 1 @ fr_frame_data g"
  using assms
  by (auto simp: is_complete_def pc_def pending_push_frame_def pending_channel_new_def sample_piece_def
      assemble_concat Let_def insort_key.simps)

lemma foreign_frame_completes_channel_witness:
  "is_complete (pending_push_frame (pending_channel_new (sample_piece 1 3))
     (sample_frame\<lparr>fr_frame_number := 7, fr_is_last := False\<rparr>))"
  using foreign_frame_completes_channel [of "sample_frame\<lparr>fr_frame_number := 7, fr_is_last := False\<rparr>"]
  by (simp add: sample_frame_def)

text \<open>
  After a purge, the two lower stages deliver nothing, however often they are asked,
  until the driver sends new batcher transactions.
\<close>

lemma purged_bank_yields_nothing:
  "\<exists>s'. pull (\<lambda>_ :: unit. channels_next batcher_transactions_next) () n
     (channels_purge batcher_transactions_purge s) = Ok ([], s')"
  by (rule bank.channels_out.pull_purged) simp

end
