(* ===== verification/BTree_Map.thy ===== *)
theory BTree_Map
  imports Magi_Prelude
begin

text \<open>
  \<^verbatim>\<open>std::collections::BTreeMap\<close>, as \<^verbatim>\<open>src/src/derive/state.rs\<close> and
  \<^verbatim>\<open>src/src/derive/stages/batches.rs\<close> use it: \<open>insert\<close>, \<open>get\<close>, \<open>remove\<close>, \<open>clear\<close>,
  \<open>first_key_value\<close> and \<open>pop_first\<close>. The model is the sorted list of its entries. The
  locale \<open>ordered_map\<close> states the interface the clients rely on, with the facts about
  its least key that the pruning loops and the batch queue need; the interpretation
  \<open>bt\<close> discharges the laws for the sorted list.
\<close>

section \<open>The interface of an ordered map\<close>

locale ordered_map =
  fixes empty :: "'m"
    and get :: "'m \<Rightarrow> 'k::linorder \<Rightarrow> 'v option"
    and insert :: "'k \<Rightarrow> 'v \<Rightarrow> 'm \<Rightarrow> 'm"
    and remove :: "'k \<Rightarrow> 'm \<Rightarrow> 'm"
    and first :: "'m \<Rightarrow> ('k \<times> 'v) option"
    and pop_first :: "'m \<Rightarrow> 'm"
    and len :: "'m \<Rightarrow> nat"
    and inv :: "'m \<Rightarrow> bool"
  assumes get_empty: "get empty k = None"
    and get_insert: "inv m \<Longrightarrow> get (insert k v m) = (get m)(k \<mapsto> v)"
    and get_remove: "inv m \<Longrightarrow> get (remove k m) = (get m)(k := None)"
    and first_None: "inv m \<Longrightarrow> first m = None \<longleftrightarrow> get m = Map.empty"
    and first_get: "inv m \<Longrightarrow> first m = Some (k, v) \<Longrightarrow> get m k = Some v"
    and first_least: "inv m \<Longrightarrow> first m = Some (k, v) \<Longrightarrow> get m k' = Some v' \<Longrightarrow> k \<le> k'"
    and get_pop_first: "inv m \<Longrightarrow> first m = Some (k, v) \<Longrightarrow> get (pop_first m) = (get m)(k := None)"
    and len_pop_first: "first m = Some (k, v) \<Longrightarrow> len (pop_first m) < len m"
    and len_remove: "inv m \<Longrightarrow> get m k = Some v \<Longrightarrow> len (remove k m) < len m"
    and inv_empty: "inv empty"
    and inv_insert: "inv m \<Longrightarrow> inv (insert k v m)"
    and inv_remove: "inv m \<Longrightarrow> inv (remove k m)"
    and inv_pop_first: "inv m \<Longrightarrow> inv (pop_first m)"
begin

lemmas get_specs = get_empty get_insert get_remove
lemmas inv_specs = inv_empty inv_insert inv_remove inv_pop_first

lemma first_in_dom: "inv m \<Longrightarrow> first m = Some (k, v) \<Longrightarrow> k \<in> dom (get m)"
  by (auto dest: first_get)

text \<open>Once the least key has reached a bound, every key has: where a pruning loop stops.\<close>

lemma all_keys_from:
  assumes "inv m" and "\<And>k v. first m = Some (k, v) \<Longrightarrow> b \<le> k" and "get m k' = Some v'"
  shows "b \<le> k'"
proof (cases "first m")
  case None
  with assms show ?thesis by (simp add: first_None)
next
  case (Some p)
  obtain k v where "p = (k, v)" by (cases p)
  with Some assms show ?thesis using first_least by (metis order_trans)
qed

text \<open>Popping a least key below a bound keeps every entry from the bound on.\<close>

lemma pop_keeps_from:
  assumes "inv m" and "first m = Some (k, v)" and "k < b" and "b \<le> k'"
  shows "get (pop_first m) k' = get m k'"
  using assms by (auto simp: get_pop_first)

lemma pop_only_removes:
  assumes "inv m" and "first m = Some (k, v)" and "get (pop_first m) k' = Some v'"
  shows "get m k' = Some v'"
  using assms by (auto simp: get_pop_first split: if_splits)

end

section \<open>Sorted association lists\<close>

type_synonym ('k, 'v) btree = "('k \<times> 'v) list"

definition bt_empty :: "('k, 'v) btree" where
  "bt_empty = []"

definition bt_get :: "('k, 'v) btree \<Rightarrow> 'k \<Rightarrow> 'v option" where
  "bt_get m k = map_of m k"

fun bt_insert :: "'k::linorder \<Rightarrow> 'v \<Rightarrow> ('k, 'v) btree \<Rightarrow> ('k, 'v) btree" where
  "bt_insert k v [] = [(k, v)]"
| "bt_insert k v ((k', v') # m) =
     (if k < k' then (k, v) # (k', v') # m
      else if k = k' then (k, v) # m
      else (k', v') # bt_insert k v m)"

definition bt_remove :: "'k \<Rightarrow> ('k, 'v) btree \<Rightarrow> ('k, 'v) btree" where
  "bt_remove k m = filter (\<lambda>p. fst p \<noteq> k) m"

fun bt_first :: "('k, 'v) btree \<Rightarrow> ('k \<times> 'v) option" where
  "bt_first [] = None"
| "bt_first (p # m) = Some p"

fun bt_pop_first :: "('k, 'v) btree \<Rightarrow> ('k, 'v) btree" where
  "bt_pop_first [] = []"
| "bt_pop_first (p # m) = m"

definition bt_inv :: "('k::linorder, 'v) btree \<Rightarrow> bool" where
  "bt_inv m \<longleftrightarrow> sorted_wrt (<) (map fst m)"

lemma bt_inv_simps [simp]:
  "bt_inv []"
  "bt_inv (p # m) \<longleftrightarrow> (\<forall>q \<in> set m. fst p < fst q) \<and> bt_inv m"
  by (auto simp: bt_inv_def)

lemma bt_get_simps [simp]:
  "bt_get [] k = None"
  "bt_get ((k', v) # m) k = (if k = k' then Some v else bt_get m k)"
  by (auto simp: bt_get_def)

lemma bt_get_in_set: "bt_get m k = Some v \<Longrightarrow> (k, v) \<in> set m"
  by (simp add: bt_get_def map_of_SomeD)

lemma bt_get_Some_iff: "bt_inv m \<Longrightarrow> bt_get m k = Some v \<longleftrightarrow> (k, v) \<in> set m"
  by (simp add: bt_get_def bt_inv_def strict_sorted_iff)

lemma bt_get_bt_insert: "bt_get (bt_insert k v m) = (bt_get m)(k \<mapsto> v)"
  by (induction k v m rule: bt_insert.induct) (auto simp: fun_eq_iff)

lemma set_bt_insert: "set (bt_insert k v m) \<subseteq> insert (k, v) (set m)"
  by (induction k v m rule: bt_insert.induct) auto

lemma bt_inv_bt_insert: "bt_inv m \<Longrightarrow> bt_inv (bt_insert k v m)"
proof (induction k v m rule: bt_insert.induct)
  case (2 k v k' v' m)
  then show ?case
    using set_bt_insert [of k v m] by (fastforce split: if_splits)
qed simp

lemma bt_get_bt_remove: "bt_get (bt_remove k m) = (bt_get m)(k := None)"
  by (induction m) (auto simp: bt_remove_def fun_eq_iff)

lemma bt_inv_bt_remove: "bt_inv m \<Longrightarrow> bt_inv (bt_remove k m)"
  by (induction m) (auto simp: bt_remove_def)

lemma length_bt_remove: "bt_get m k = Some v \<Longrightarrow> length (bt_remove k m) < length m"
  unfolding bt_remove_def by (drule bt_get_in_set) (metis (mono_tags, lifting) fst_conv length_filter_less)

lemma bt_first_least:
  "bt_inv m \<Longrightarrow> bt_first m = Some (k, v) \<Longrightarrow> bt_get m k' = Some v' \<Longrightarrow> k \<le> k'"
  by (cases m) (auto dest!: bt_get_in_set split: if_splits)

lemma bt_get_bt_pop_first:
  "bt_inv m \<Longrightarrow> bt_first m = Some (k, v) \<Longrightarrow> bt_get (bt_pop_first m) = (bt_get m)(k := None)"
proof (cases m)
  case (Cons p m')
  assume m: "bt_inv m" "bt_first m = Some (k, v)"
  with Cons have "bt_get m' k = None"
    by (cases "bt_get m' k") (force dest!: bt_get_in_set)+
  with m Cons show ?thesis by (auto simp: fun_eq_iff)
qed simp

interpretation bt: ordered_map bt_empty bt_get bt_insert bt_remove bt_first bt_pop_first length bt_inv
proof (unfold_locales, goal_cases)
  case (4 m)
  show ?case by (cases m) (auto simp: fun_eq_iff)
next
  case (5 m k v)
  then show ?case by (cases m) auto
next
  case (8 m k v)
  then show ?case by (cases m) auto
next
  case (13 m)
  then show ?case by (cases m) auto
qed (auto simp: bt_empty_def bt_get_bt_insert bt_get_bt_remove bt_inv_bt_insert bt_inv_bt_remove
       length_bt_remove bt_get_bt_pop_first dest: bt_first_least)

lemma bt_first_None [simp]: "bt_first m = None \<longleftrightarrow> m = []"
  by (cases m) auto

lemma bt_first_SomeD: "bt_first m = Some p \<Longrightarrow> \<exists>m'. m = p # m'"
  by (cases m) auto

lemma bt_empty_is_Nil [simp]: "bt_empty = []"
  by (simp add: bt_empty_def)

end
