(* ===== verification/Head_Info.thy ===== *)
theory Head_Info
  imports Config
begin

text \<open>
  \<^verbatim>\<open>src/src/driver/types.rs\<close> and \<^verbatim>\<open>src/src/driver/info.rs\<close>: the head of the L2 chain with its
  L1 epoch and sequence number, read from an L2 block, and the query the node starts from. The L2
  provider is the parameter \<open>get_block_with_txs\<close>, a fallible lookup.

  Shown: a block whose first transaction carries the L1 attributes in the format of its fork
  gives back the epoch and the sequence number that were encoded; anything else makes the query
  fall back to the genesis of the chain.
\<close>

record head_info =
  hi_l2_block_info :: block_info
  hi_l1_epoch :: epoch
  hi_sequence_number :: u64

definition try_from_bedrock_block :: "(bytes \<Rightarrow> h256) \<Rightarrow> eth_block \<Rightarrow> head_info outcome" where
  "try_from_bedrock_block keccak256 block =
     (case blk_transactions block of
        [] \<Rightarrow> Err (Eyre ''Could not find the L1 attributes deposited transaction'')
      | first_tx # _ \<Rightarrow>
          and_then (try_from_bedrock keccak256 (tx_input first_tx)) (\<lambda>call.
          and_then (block_info_try_from block) (\<lambda>l2_block_info.
          Ok \<lparr>hi_l2_block_info = l2_block_info, hi_l1_epoch = epoch_from_call call,
              hi_sequence_number = adc_sequence_number call\<rparr>)))"

definition try_from_ecotone_block :: "(bytes \<Rightarrow> h256) \<Rightarrow> eth_block \<Rightarrow> head_info outcome" where
  "try_from_ecotone_block keccak256 block =
     (case blk_transactions block of
        [] \<Rightarrow> Err (Eyre ''Could not find the L1 attributes deposited transaction'')
      | first_tx # _ \<Rightarrow>
          and_then (try_from_ecotone keccak256 (tx_input first_tx)) (\<lambda>call.
          and_then (block_info_try_from block) (\<lambda>l2_block_info.
          Ok \<lparr>hi_l2_block_info = l2_block_info, hi_l1_epoch = epoch_from_call call,
              hi_sequence_number = adc_sequence_number call\<rparr>)))"

definition try_from_l2_block :: "(bytes \<Rightarrow> h256) \<Rightarrow> config \<Rightarrow> eth_block \<Rightarrow> head_info outcome" where
  "try_from_l2_block keccak256 config l2_block =
     and_then (as_u64 (blk_timestamp l2_block)) (\<lambda>timestamp.
     if is_ecotone_but_not_first_block (cfg_chain config) timestamp
     then try_from_ecotone_block keccak256 l2_block
     else try_from_bedrock_block keccak256 l2_block)"

datatype block_id = BlockNumber u64 | BlockHash h256 | BlockFinalized | BlockLatest

definition genesis_head :: "config \<Rightarrow> head_info" where
  "genesis_head config =
     \<lparr>hi_l2_block_info = cc_l2_genesis (cfg_chain config),
      hi_l1_epoch = cc_l1_start_epoch (cfg_chain config), hi_sequence_number = 0\<rparr>"

definition get_head_info ::
  "(bytes \<Rightarrow> h256) \<Rightarrow> (block_id \<Rightarrow> eth_block option outcome) \<Rightarrow> config \<Rightarrow> head_info outcome" where
  "get_head_info keccak256 get_block_with_txs config =
     and_then
       (case get_block_with_txs BlockFinalized of
          Ok (Some block) \<Rightarrow>
            (case try_from_l2_block keccak256 config block of
               Ok head_info \<Rightarrow> Ok (Some head_info)
             | Err e \<Rightarrow> Ok None
             | Panic p \<Rightarrow> Panic p
             | Diverge \<Rightarrow> Diverge)
        | Ok None \<Rightarrow> Ok None
        | Err e \<Rightarrow> Ok None
        | Panic p \<Rightarrow> Panic p
        | Diverge \<Rightarrow> Diverge)
       (\<lambda>parsed_head_info.
        case parsed_head_info of
          Some head_info \<Rightarrow> Ok head_info
        | None \<Rightarrow> Ok (genesis_head config))"

section \<open>Reading back the L1 attributes\<close>

lemma try_from_bedrock_block_Ok:
  assumes "blk_transactions block = tx # txs" and "try_from_bedrock keccak256 (tx_input tx) = Ok call"
    and "block_info_try_from block = Ok bi"
  shows "try_from_bedrock_block keccak256 block =
    Ok \<lparr>hi_l2_block_info = bi, hi_l1_epoch = epoch_from_call call, hi_sequence_number = adc_sequence_number call\<rparr>"
  using assms by (simp add: try_from_bedrock_block_def)

lemma try_from_ecotone_block_Ok:
  assumes "blk_transactions block = tx # txs" and "try_from_ecotone keccak256 (tx_input tx) = Ok call"
    and "block_info_try_from block = Ok bi"
  shows "try_from_ecotone_block keccak256 block =
    Ok \<lparr>hi_l2_block_info = bi, hi_l1_epoch = epoch_from_call call, hi_sequence_number = adc_sequence_number call\<rparr>"
  using assms by (simp add: try_from_ecotone_block_def)

lemma get_head_info_fallback:
  assumes "\<And>block. get_block BlockFinalized = Ok (Some block) \<Longrightarrow> \<exists>e. try_from_l2_block k config block = Err e"
    and "\<not> is_panic (get_block BlockFinalized)" and "get_block BlockFinalized \<noteq> Diverge"
  shows "get_head_info k get_block config = Ok (genesis_head config)"
proof (cases "get_block BlockFinalized")
  case (Ok b)
  then show ?thesis using assms by (cases b) (auto simp: get_head_info_def)
qed (use assms in \<open>auto simp: get_head_info_def\<close>)

section \<open>Properties\<close>

text \<open>
  An L2 block whose first transaction carries the L1 attributes in the format of the block's
  fork (Ecotone after the activation block, Bedrock up to it) gives the head info with exactly
  the epoch and the sequence number that were encoded.
\<close>

lemma head_info_reads_attributes:
  assumes "block_info_try_from block = Ok bi" and "blk_transactions block = tx # txs"
    and "tx_input tx =
      (if is_ecotone_but_not_first_block (cfg_chain config) (bi_timestamp bi)
       then ecotone_calldata (SET_L1_BLOCK_VALUES_ECOTONE_SELECTOR k) sc bs seq time num bf bbf hash batcher
       else bedrock_calldata (SET_L1_BLOCK_VALUES_BEDROCK_SELECTOR k)
              (ucast num) (ucast time) bf hash (ucast seq) batcher ov scal)"
  shows "try_from_l2_block k config block =
    Ok \<lparr>hi_l2_block_info = bi, hi_l1_epoch = \<lparr>ep_number = num, ep_hash = hash, ep_timestamp = time\<rparr>,
        hi_sequence_number = seq\<rparr>"
proof -
  have ts: "as_u64 (blk_timestamp block) = Ok (bi_timestamp bi)"
    using assms(1) by (simp add: block_info_try_from_Ok)
  show ?thesis
    using assms
    by (simp add: try_from_l2_block_def ts try_from_bedrock_block_Ok try_from_ecotone_block_Ok
        try_from_bedrock_calldata try_from_ecotone_calldata epoch_from_call_def)
qed

definition sample_l2_block :: "u64 \<Rightarrow> bytes \<Rightarrow> eth_block" where
  "sample_l2_block time input =
     \<lparr>blk_number = Some 7, blk_hash = Some 70, blk_parent_hash = 60, blk_timestamp = ucast time,
      blk_mix_hash = Some 1, blk_author = None, blk_gas_limit = 30000000, blk_gas_used = 0,
      blk_base_fee_per_gas = Some 1, blk_state_root = 0, blk_receipts_root = 0, blk_logs_bloom = None,
      blk_extra_data = [], blk_parent_beacon_block_root = None, blk_blob_gas_used = None,
      blk_excess_blob_gas = None,
      blk_transactions = [\<lparr>tx_hash = 0, tx_from = 0, tx_to = None, tx_type = None, tx_input = input,
        tx_blob_hashes = [], tx_raw = []\<rparr>]\<rparr>"

definition sample_config :: "chain_config \<Rightarrow> config" where
  "sample_config chain =
     \<lparr>cfg_l1_rpc_url = [], cfg_l1_beacon_url = [], cfg_l2_rpc_url = [], cfg_l2_engine_url = [],
      cfg_chain = chain, cfg_jwt_secret = [], cfg_checkpoint_sync_url = None, cfg_rpc_port = 9545,
      cfg_rpc_addr = [], cfg_devnet = False\<rparr>"

lemma cfg_chain_sample_config [simp]: "cfg_chain (sample_config c) = c"
  by (simp add: sample_config_def)

lemma block_info_sample_l2_block:
  "block_info_try_from (sample_l2_block time input) =
     Ok \<lparr>bi_hash = 70, bi_number = 7, bi_parent_hash = 60, bi_timestamp = time\<rparr>"
  by (simp add: block_info_try_from_Ok sample_l2_block_def)

lemma head_info_reads_attributes_witness:
  "try_from_l2_block (\<lambda>_. 0) (sample_config optimism)
     (sample_l2_block 1720000000
        (ecotone_calldata (SET_L1_BLOCK_VALUES_ECOTONE_SELECTOR (\<lambda>_. 0)) 1 2 3 4 5 6 7 8 9)) =
   Ok \<lparr>hi_l2_block_info = \<lparr>bi_hash = 70, bi_number = 7, bi_parent_hash = 60, bi_timestamp = 1720000000\<rparr>,
       hi_l1_epoch = \<lparr>ep_number = 5, ep_hash = 8, ep_timestamp = 4\<rparr>, hi_sequence_number = 3\<rparr>"
proof (rule head_info_reads_attributes [OF block_info_sample_l2_block])
  have "is_ecotone_but_not_first_block (cfg_chain (sample_config optimism)) 1720000000"
    by (simp add: is_ecotone_but_not_first_block_def is_ecotone_activation_block_def optimism_def)
  then show "tx_input (hd (blk_transactions (sample_l2_block 1720000000
      (ecotone_calldata (SET_L1_BLOCK_VALUES_ECOTONE_SELECTOR (\<lambda>_. 0)) 1 2 3 4 5 6 7 8 9)))) =
    (if is_ecotone_but_not_first_block (cfg_chain (sample_config optimism))
          (bi_timestamp \<lparr>bi_hash = 70, bi_number = 7, bi_parent_hash = 60, bi_timestamp = 1720000000\<rparr>)
     then ecotone_calldata (SET_L1_BLOCK_VALUES_ECOTONE_SELECTOR (\<lambda>_. 0)) 1 2 3 4 5 6 7 8 9
     else bedrock_calldata (SET_L1_BLOCK_VALUES_BEDROCK_SELECTOR (\<lambda>_. 0)) (ucast (5 :: u64)) (ucast (4 :: u64)) 6 8
       (ucast (3 :: u64)) 9 0 0)"
    by (simp add: sample_l2_block_def)
qed (simp add: sample_l2_block_def)

end
