(* ===== verification/L1_Info.thy ===== *)
theory L1_Info
  imports Config
begin

text \<open>
  Data read from L1: \<^verbatim>\<open>src/src/l1/l1_info.rs\<close> (the information kept per L1 block),
  \<^verbatim>\<open>src/src/l1/config_updates.rs\<close> (the log of a system configuration update) and the
  user deposit of \<^verbatim>\<open>src/src/derive/stages/attributes.rs\<close>, read from the deposit contract's log.

  Logs come from the \<^verbatim>\<open>ethers\<close> crate; \<open>eth_log\<close> has the fields the program reads. The
  crate's ABI decoder of one dynamic byte string is the parameter \<open>abi_decode_bytes\<close>.

  Shown: a system configuration log in the contract's format decodes to the update it encodes,
  the decoder never panics, and a deposit log decodes to the deposit it encodes.
\<close>

record eth_log =
  log_topics :: "h256 list"
  log_data :: bytes
  log_block_number :: "u64 option"
  log_block_hash :: "h256 option"
  log_index :: "u256 option"

section \<open>User deposits\<close>

record user_deposited =
  ud_from :: address
  ud_to :: address
  ud_mint :: u256
  ud_value :: u256
  ud_gas :: u64
  ud_is_creation :: bool
  ud_data :: bytes
  ud_l1_block_num :: u64
  ud_l1_block_hash :: h256
  ud_log_index :: u256

definition user_deposited_try_from :: "(bytes \<Rightarrow> bytes outcome) \<Rightarrow> eth_log \<Rightarrow> user_deposited outcome" where
  "user_deposited_try_from abi_decode_bytes log =
     and_then (abi_decode_bytes (log_data log)) (\<lambda>opaque_data.
     and_then (index (log_topics log) 1) (\<lambda>topic1.
     and_then (index (log_topics log) 2) (\<lambda>topic2.
     and_then (slice opaque_data 0 32) (\<lambda>b_mint.
     and_then (slice opaque_data 32 64) (\<lambda>b_value.
     and_then (slice opaque_data 64 72) (\<lambda>b_gas.
     and_then (index opaque_data 72) (\<lambda>creation.
     and_then (slice_from opaque_data 73) (\<lambda>data.
     and_then (ok_or (log_block_number log) ''block num not found'') (\<lambda>l1_block_num.
     and_then (ok_or (log_block_hash log) ''block hash not found'') (\<lambda>l1_block_hash.
     and_then (unwrap_opt (log_index log) ''called unwrap on a None value'') (\<lambda>idx.
     Ok \<lparr>ud_from = ucast topic1, ud_to = ucast topic2,
         ud_mint = from_be_bytes b_mint, ud_value = from_be_bytes b_value,
         ud_gas = from_be_bytes b_gas, ud_is_creation = (creation \<noteq> 0), ud_data = data,
         ud_l1_block_num = l1_block_num, ud_l1_block_hash = l1_block_hash, ud_log_index = idx\<rparr>)))))))))))"

section \<open>System configuration updates\<close>

datatype system_config_update =
    BatchSender address
  | Fees u256 u256
  | Gas u256
  | UnsafeBlockSigner address

definition system_config_update_try_from :: "eth_log \<Rightarrow> system_config_update outcome" where
  "system_config_update_try_from log =
     and_then (ok_or (if 1 < length (log_topics log) then Some (log_topics log ! 1) else None)
       ''invalid system config update'') (\<lambda>topic1.
     let version = (ucast topic1 :: u64)
     in if version \<noteq> 0 then Err (Eyre ''invalid system config update'') else
     and_then (ok_or (if 2 < length (log_topics log) then Some (log_topics log ! 2) else None)
       ''invalid system config update'') (\<lambda>topic2.
     let update_type = (ucast topic2 :: u64)
     in if update_type = 0 then
          and_then (ok_or (slice_get (log_data log) 76 96) ''invalid system config update'') (\<lambda>addr_bytes.
          Ok (BatchSender (from_be_bytes addr_bytes)))
        else if update_type = 1 then
          and_then (ok_or (slice_get (log_data log) 64 96) ''invalid system config update'') (\<lambda>fee_overhead.
          and_then (ok_or (slice_get (log_data log) 96 128) ''invalid system config update'') (\<lambda>fee_scalar.
          Ok (Fees (from_be_bytes fee_overhead) (from_be_bytes fee_scalar))))
        else if update_type = 2 then
          and_then (ok_or (slice_get (log_data log) 64 96) ''invalid system config update'') (\<lambda>gas_bytes.
          Ok (Gas (from_be_bytes gas_bytes)))
        else if update_type = 3 then
          and_then (ok_or (slice_get (log_data log) 76 96) ''invalid system config update'') (\<lambda>addr_bytes.
          Ok (UnsafeBlockSigner (from_be_bytes addr_bytes)))
        else Err (Eyre ''invalid system config update'')))"

section \<open>L1 blocks\<close>

record l1_block_info =
  l1b_number :: u64
  l1b_hash :: h256
  l1b_timestamp :: u64
  l1b_base_fee :: u256
  l1b_mix_hash :: h256
  l1b_parent_beacon_block_root :: "h256 option"

definition l1_block_info_try_from :: "eth_block \<Rightarrow> l1_block_info outcome" where
  "l1_block_info_try_from value =
     and_then (ok_or (blk_number value) ''block not included'') (\<lambda>number.
     and_then (ok_or (blk_hash value) ''block not included'') (\<lambda>hash.
     and_then (as_u64 (blk_timestamp value)) (\<lambda>timestamp.
     and_then (ok_or (blk_base_fee_per_gas value) ''block is pre london'') (\<lambda>base_fee.
     and_then (ok_or (blk_mix_hash value) ''block not included'') (\<lambda>mix_hash.
     Ok \<lparr>l1b_number = number, l1b_hash = hash, l1b_timestamp = timestamp, l1b_base_fee = base_fee,
         l1b_mix_hash = mix_hash,
         l1b_parent_beacon_block_root = blk_parent_beacon_block_root value\<rparr>)))))"

record l1_info =
  l1i_block_info :: l1_block_info
  l1i_system_config :: system_config
  l1i_user_deposits :: "user_deposited list"
  l1i_batcher_transactions :: "bytes list"
  l1i_finalized :: bool

section \<open>What the decoders compute\<close>

text \<open>
  The data of a \<open>ConfigUpdate\<close> event: an ABI-encoded byte string, that is its offset, its
  length and the payload, one or two 32-byte words.
\<close>

definition update_payload :: "system_config_update \<Rightarrow> bytes" where
  "update_payload u =
     (case u of
        BatchSender a \<Rightarrow> to_be_bytes 32 (ucast a :: u256)
      | Fees ov sc \<Rightarrow> to_be_bytes 32 ov @ to_be_bytes 32 sc
      | Gas g \<Rightarrow> to_be_bytes 32 g
      | UnsafeBlockSigner a \<Rightarrow> to_be_bytes 32 (ucast a :: u256))"

definition update_type_of :: "system_config_update \<Rightarrow> h256" where
  "update_type_of u = (case u of BatchSender _ \<Rightarrow> 0 | Fees _ _ \<Rightarrow> 1 | Gas _ \<Rightarrow> 2 | UnsafeBlockSigner _ \<Rightarrow> 3)"

definition update_log :: "h256 \<Rightarrow> u64 \<Rightarrow> system_config_update \<Rightarrow> eth_log" where
  "update_log topic0 block_num u =
     \<lparr>log_topics = [topic0, 0, update_type_of u],
      log_data = to_be_bytes 32 (32 :: u256) @ to_be_bytes 32 (of_nat (length (update_payload u)) :: u256) @
        update_payload u,
      log_block_number = Some block_num, log_block_hash = None, log_index = None\<rparr>"

lemma drop_to_be_bytes:
  assumes "m \<le> n"
  shows "drop (n - m) (to_be_bytes n w) = to_be_bytes m w"
proof -
  have "rev [0..<n] = rev [m..<n] @ rev [0..<m]"
    using assms by (metis le0 le_add_diff_inverse rev_append upt_add_eq_append)
  then show ?thesis
    by (simp add: to_be_bytes_def drop_map)
qed

lemma drop_address_word: "drop 12 (to_be_bytes 32 (ucast (a :: address) :: u256)) = to_be_bytes 20 (ucast a :: u256)"
  using drop_to_be_bytes [of 20 32 "ucast a :: u256"] by simp

lemma from_be_bytes_address [simp]: "from_be_bytes (to_be_bytes 20 (ucast (a :: address) :: u256)) = a"
proof -
  have "to_be_bytes 20 (ucast a :: u256) = to_be_bytes 20 a"
    by (auto simp: to_be_bytes_def intro!: bit_word_eqI simp: bit_ucast_iff bit_drop_bit_eq dest: bit_imp_le_length)
  then show ?thesis by simp
qed

lemma update_log_roundtrip: "system_config_update_try_from (update_log topic0 n u) = Ok u"
  by (cases u)
    (simp_all add: system_config_update_try_from_def update_log_def update_payload_def update_type_of_def
      slice_get_def drop_address_word)

lemma system_config_update_no_panic:
  "system_config_update_try_from log \<noteq> Panic p" "system_config_update_try_from log \<noteq> Diverge"
  by (auto simp: system_config_update_try_from_def outcome_simps Let_def split: if_splits)

definition deposit_opaque_data :: "user_deposited \<Rightarrow> bytes" where
  "deposit_opaque_data d =
     to_be_bytes 32 (ud_mint d) @ to_be_bytes 32 (ud_value d) @ to_be_bytes 8 (ud_gas d) @
     [if ud_is_creation d then 1 else 0] @ ud_data d"

lemma ucast_address_roundtrip [simp]: "ucast (ucast (a :: address) :: h256) = a"
  by (rule bit_word_eqI) (simp add: bit_ucast_iff)

lemma user_deposited_roundtrip:
  assumes "abi_decode (log_data log) = Ok (deposit_opaque_data d)"
    and "log_topics log = [t0, ucast (ud_from d), ucast (ud_to d)] @ ts"
    and "log_block_number log = Some (ud_l1_block_num d)" and "log_block_hash log = Some (ud_l1_block_hash d)"
    and "log_index log = Some (ud_log_index d)"
  shows "user_deposited_try_from abi_decode log = Ok d"
  using assms
  by (simp add: user_deposited_try_from_def index_def slice_def slice_from_def deposit_opaque_data_def nth_append)

section \<open>Properties\<close>

text \<open>
  The log of a system configuration update, in the contract's event format, decodes to exactly
  the update it announces, for each of the four kinds.
\<close>

lemma config_update_log_roundtrip:
  "system_config_update_try_from (update_log topic0 n u) = Ok u"
  by (rule update_log_roundtrip)

text \<open>
  The log of a deposit, in the contract's packed format, decodes to exactly that deposit.
\<close>

lemma deposit_log_roundtrip:
  assumes "abi_decode_bytes (log_data log) = Ok (deposit_opaque_data d)"
    and "log_topics log = [sig_topic, ucast (ud_from d), ucast (ud_to d)] @ ts"
    and "log_block_number log = Some (ud_l1_block_num d)" and "log_block_hash log = Some (ud_l1_block_hash d)"
    and "log_index log = Some (ud_log_index d)"
  shows "user_deposited_try_from abi_decode_bytes log = Ok d"
  using assms by (rule user_deposited_roundtrip)

definition sample_deposit :: user_deposited where
  "sample_deposit =
     \<lparr>ud_from = 1, ud_to = 2, ud_mint = 3, ud_value = 4, ud_gas = 5, ud_is_creation = False, ud_data = [6, 7],
      ud_l1_block_num = 8, ud_l1_block_hash = 9, ud_log_index = 10\<rparr>"

lemma deposit_log_roundtrip_witness:
  "user_deposited_try_from Ok
     \<lparr>log_topics = [0, 1, 2], log_data = deposit_opaque_data sample_deposit, log_block_number = Some 8,
      log_block_hash = Some 9, log_index = Some 10\<rparr> = Ok sample_deposit"
  by (rule deposit_log_roundtrip [where sig_topic = 0 and ts = "[]"]) (simp_all add: sample_deposit_def)

end
