(* ===== verification/Derive_State.thy ===== *)
theory Derive_State
  imports BTree_Map Head_Info L1_Info
begin

text \<open>
  \<^verbatim>\<open>src/src/derive/state.rs\<close>: the derivation state shared by the stages and the driver, a
  cache of L1 blocks by hash and by number and of recent L2 blocks, with the safe head, the safe
  epoch and the current epoch number. The L2 provider that fills the cache at start is the
  parameter \<open>get_block_with_txs\<close>.

  Shown: the two L1 maps stay consistent; what a lookup returns after an update, which states the
  pruning loops exactly; and that near the L2 genesis the bound of the second loop wraps
  around, so that it empties the cache of L2 blocks.
\<close>

record derive_state =
  st_l1_info :: "(h256, l1_info) btree"
  st_l1_hashes :: "(u64, h256) btree"
  st_l2_refs :: "(u64, block_info \<times> epoch) btree"
  st_safe_head :: block_info
  st_safe_epoch :: epoch
  st_current_epoch_num :: u64
  st_config :: config

section \<open>Operations\<close>

fun insert_l2_refs ::
  "(bytes \<Rightarrow> h256) \<Rightarrow> (block_id \<Rightarrow> eth_block option outcome) \<Rightarrow> config \<Rightarrow> u64 list \<Rightarrow>
   (u64, block_info \<times> epoch) btree \<Rightarrow> (u64, block_info \<times> epoch) btree outcome" where
  "insert_l2_refs keccak256 get_block_with_txs config [] refs = Ok refs"
| "insert_l2_refs keccak256 get_block_with_txs config (i # is) refs =
     and_then
       (case get_block_with_txs (BlockNumber i) of
          Ok (Some l2_block) \<Rightarrow>
            (case try_from_l2_block keccak256 config l2_block of
               Ok h \<Rightarrow> Ok (bt_insert (bi_number (hi_l2_block_info h)) (hi_l2_block_info h, hi_l1_epoch h) refs)
             | Err e \<Rightarrow> Ok refs
             | Panic p \<Rightarrow> Panic p
             | Diverge \<Rightarrow> Diverge)
        | Ok None \<Rightarrow> Ok refs
        | Err e \<Rightarrow> Ok refs
        | Panic p \<Rightarrow> Panic p
        | Diverge \<Rightarrow> Diverge)
       (insert_l2_refs keccak256 get_block_with_txs config is)"

definition range_inclusive :: "u64 \<Rightarrow> u64 \<Rightarrow> u64 list" where
  "range_inclusive a b = map of_nat [unat a..<Suc (unat b)]"

definition l2_refs ::
  "(bytes \<Rightarrow> h256) \<Rightarrow> u64 \<Rightarrow> (block_id \<Rightarrow> eth_block option outcome) \<Rightarrow> config \<Rightarrow>
   (u64, block_info \<times> epoch) btree outcome" where
  "l2_refs keccak256 head_num get_block_with_txs config =
     and_then (checked_div (cc_max_seq_drift (cfg_chain config)) (cc_blocktime (cfg_chain config))) (\<lambda>lookback.
     let start = max (saturating_sub head_num lookback) (bi_number (cc_l2_genesis (cfg_chain config)))
     in insert_l2_refs keccak256 get_block_with_txs config (range_inclusive start head_num) bt_empty)"

definition state_new ::
  "(bytes \<Rightarrow> h256) \<Rightarrow> block_info \<Rightarrow> epoch \<Rightarrow> (block_id \<Rightarrow> eth_block option outcome) \<Rightarrow> config \<Rightarrow>
   derive_state outcome" where
  "state_new keccak256 finalized_head finalized_epoch get_block_with_txs config =
     and_then (l2_refs keccak256 (bi_number finalized_head) get_block_with_txs config) (\<lambda>refs.
     Ok \<lparr>st_l1_info = bt_empty, st_l1_hashes = bt_empty, st_l2_refs = refs,
         st_safe_head = finalized_head, st_safe_epoch = finalized_epoch, st_current_epoch_num = 0,
         st_config = config\<rparr>)"

definition l1_info_by_hash :: "derive_state \<Rightarrow> h256 \<Rightarrow> l1_info option" where
  "l1_info_by_hash s hash = bt_get (st_l1_info s) hash"

definition l1_info_by_number :: "derive_state \<Rightarrow> u64 \<Rightarrow> l1_info option" where
  "l1_info_by_number s num = Option.bind (bt_get (st_l1_hashes s) num) (bt_get (st_l1_info s))"

definition l2_info_by_timestamp :: "derive_state \<Rightarrow> u64 \<Rightarrow> (block_info \<times> epoch) option outcome" where
  "l2_info_by_timestamp s timestamp =
     (let chain = cfg_chain (st_config s)
      in and_then (checked_div (timestamp - bi_timestamp (cc_l2_genesis chain)) (cc_blocktime chain)) (\<lambda>q.
         let block_num = q + bi_number (cc_l2_genesis chain)
         in Ok (bt_get (st_l2_refs s) block_num)))"

definition epoch_of_info :: "l1_info \<Rightarrow> epoch" where
  "epoch_of_info info =
     \<lparr>ep_number = l1b_number (l1i_block_info info), ep_hash = l1b_hash (l1i_block_info info),
      ep_timestamp = l1b_timestamp (l1i_block_info info)\<rparr>"

definition epoch_by_hash :: "derive_state \<Rightarrow> h256 \<Rightarrow> epoch option" where
  "epoch_by_hash s hash = map_option epoch_of_info (l1_info_by_hash s hash)"

definition epoch_by_number :: "derive_state \<Rightarrow> u64 \<Rightarrow> epoch option" where
  "epoch_by_number s num = map_option epoch_of_info (l1_info_by_number s num)"

text \<open>The two loops of \<open>prune\<close>.\<close>

function prune_l1 ::
  "u64 \<Rightarrow> (u64, h256) btree \<Rightarrow> (h256, l1_info) btree \<Rightarrow> (u64, h256) btree \<times> (h256, l1_info) btree" where
  "prune_l1 prune_until hashes infos =
     (case bt_first hashes of
        None \<Rightarrow> (hashes, infos)
      | Some (block_num, block_hash) \<Rightarrow>
          if prune_until \<le> block_num then (hashes, infos)
          else prune_l1 prune_until (bt_pop_first hashes) (bt_remove block_hash infos))"
  by pat_completeness auto
termination
  by (relation "measure (\<lambda>(_, hashes, _). length hashes)") (auto intro: bt.len_pop_first)

function prune_l2 ::
  "u64 \<Rightarrow> (u64, block_info \<times> epoch) btree \<Rightarrow> (u64, block_info \<times> epoch) btree" where
  "prune_l2 prune_until refs =
     (case bt_first refs of
        None \<Rightarrow> refs
      | Some (num, _) \<Rightarrow>
          if prune_until \<le> num then refs else prune_l2 prune_until (bt_pop_first refs))"
  by pat_completeness auto
termination
  by (relation "measure (\<lambda>(_, refs). length refs)") (auto intro: bt.len_pop_first)

declare prune_l1.simps [simp del] prune_l2.simps [simp del]

definition state_prune :: "derive_state \<Rightarrow> derive_state outcome" where
  "state_prune s =
     (let chain = cfg_chain (st_config s);
          l1_until = saturating_sub (ep_number (st_safe_epoch s)) (cc_seq_window_size chain);
          (hashes, infos) = prune_l1 l1_until (st_l1_hashes s) (st_l1_info s)
      in and_then (checked_div (cc_max_seq_drift chain) (cc_blocktime chain)) (\<lambda>lookback.
         let l2_until = bi_number (st_safe_head s) - lookback
         in Ok (s\<lparr>st_l1_hashes := hashes, st_l1_info := infos,
                  st_l2_refs := prune_l2 l2_until (st_l2_refs s)\<rparr>)))"

definition update_l1_info :: "derive_state \<Rightarrow> l1_info \<Rightarrow> derive_state outcome" where
  "update_l1_info s info =
     (let s1 = s\<lparr>st_current_epoch_num := l1b_number (l1i_block_info info)\<rparr>;
          s2 = s1\<lparr>st_l1_hashes := bt_insert (l1b_number (l1i_block_info info))
                    (l1b_hash (l1i_block_info info)) (st_l1_hashes s1)\<rparr>;
          s3 = s2\<lparr>st_l1_info := bt_insert (l1b_hash (l1i_block_info info)) info (st_l1_info s2)\<rparr>
      in state_prune s3)"

definition update_safe_head :: "derive_state \<Rightarrow> block_info \<Rightarrow> epoch \<Rightarrow> derive_state" where
  "update_safe_head s safe_head safe_epoch =
     (let s1 = s\<lparr>st_safe_head := safe_head, st_safe_epoch := safe_epoch\<rparr>
      in s1\<lparr>st_l2_refs := bt_insert (bi_number (st_safe_head s1)) (st_safe_head s1, st_safe_epoch s1) (st_l2_refs s1)\<rparr>)"

definition state_purge :: "derive_state \<Rightarrow> block_info \<Rightarrow> epoch \<Rightarrow> derive_state" where
  "state_purge s safe_head safe_epoch =
     update_safe_head (s\<lparr>st_current_epoch_num := 0, st_l1_info := bt_empty, st_l1_hashes := bt_empty\<rparr>)
       safe_head safe_epoch"

section \<open>Invariant\<close>

definition l1_consistent :: "(u64, h256) btree \<Rightarrow> (h256, l1_info) btree \<Rightarrow> bool" where
  "l1_consistent hashes infos \<longleftrightarrow>
     (\<forall>n h. bt_get hashes n = Some h \<longrightarrow>
        (\<exists>info. bt_get infos h = Some info \<and> l1b_number (l1i_block_info info) = n \<and>
                l1b_hash (l1i_block_info info) = h))"

definition state_inv :: "derive_state \<Rightarrow> bool" where
  "state_inv s \<longleftrightarrow>
     bt_inv (st_l1_info s) \<and> bt_inv (st_l1_hashes s) \<and> bt_inv (st_l2_refs s) \<and>
     l1_consistent (st_l1_hashes s) (st_l1_info s)"

lemma l1_consistent_inj:
  "l1_consistent hashes infos \<Longrightarrow> bt_get hashes n = Some h \<Longrightarrow> bt_get hashes n' = Some h \<Longrightarrow> n = n'"
  unfolding l1_consistent_def by (metis option.inject)

text \<open>The abstract effect of the first loop: forget the numbers below the bound, keep the rest.\<close>

lemma prune_l1_spec:
  assumes "bt_inv hashes" "bt_inv infos" "l1_consistent hashes infos"
    and "prune_l1 b hashes infos = (hashes', infos')"
  shows "bt_inv hashes' \<and> bt_inv infos' \<and> l1_consistent hashes' infos' \<and>
    (\<forall>n. bt_get hashes' n = (if n < b then None else bt_get hashes n)) \<and>
    (\<forall>n h. b \<le> n \<longrightarrow> bt_get hashes n = Some h \<longrightarrow> bt_get infos' h = bt_get infos h)"
  using assms
proof (induction b hashes infos rule: prune_l1.induct)
  case (1 b hashes infos)
  show ?case
  proof (cases "\<exists>n h. bt_first hashes = Some (n, h) \<and> n < b")
    case False
    then have "\<And>n h. bt_first hashes = Some (n, h) \<Longrightarrow> b \<le> n" by auto
    then have "\<And>n h. bt_get hashes n = Some h \<Longrightarrow> b \<le> n"
      using bt.all_keys_from [OF "1.prems"(1)] by blast
    then have "bt_get hashes n = (if n < b then None else bt_get hashes n)" for n
      by (cases "bt_get hashes n") (auto simp: not_less)
    moreover have "prune_l1 b hashes infos = (hashes, infos)"
      using False by (auto simp: prune_l1.simps [of b hashes] split: option.splits)
    ultimately show ?thesis using "1.prems" by auto
  next
    case True
    then obtain n h where first: "bt_first hashes = Some (n, h)" and n: "n < b" by blast
    let ?H = "bt_pop_first hashes" and ?I = "bt_remove h infos"
    have nh: "bt_get hashes n = Some h" using "1.prems"(1) first by (rule bt.first_get)
    have H: "bt_get ?H = (bt_get hashes)(n := None)"
      using "1.prems"(1) first by (rule bt.get_pop_first)
    have I: "bt_get ?I = (bt_get infos)(h := None)"
      using "1.prems"(2) by (rule bt.get_remove)
    have other: "h' \<noteq> h" if "bt_get hashes n' = Some h'" "n' \<noteq> n" for n' h'
      using l1_consistent_inj [OF "1.prems"(3)] nh that by blast
    have cons: "l1_consistent ?H ?I"
      using "1.prems"(3) other by (auto simp: l1_consistent_def H I)
    have rec: "prune_l1 b ?H ?I = (hashes', infos')"
      using first n [folded not_le] "1.prems"(4) by (simp add: prune_l1.simps [of b hashes])
    have "bt_inv ?H" "bt_inv ?I" using "1.prems" by (simp_all add: bt.inv_specs)
    note IH = "1.IH" [OF first refl n [folded not_le] this cons rec]
    show ?thesis
      using IH n other by (auto simp: H I not_le split: if_splits)
  qed
qed

lemma prune_l2_spec:
  assumes "bt_inv refs"
  shows "bt_inv (prune_l2 b refs) \<and>
    (\<forall>n. bt_get (prune_l2 b refs) n = (if n < b then None else bt_get refs n))"
  using assms
proof (induction b refs rule: prune_l2.induct)
  case (1 b refs)
  show ?case
  proof (cases "\<exists>n r. bt_first refs = Some (n, r) \<and> n < b")
    case False
    then have "\<And>n r. bt_first refs = Some (n, r) \<Longrightarrow> b \<le> n" by auto
    then have "\<And>n r. bt_get refs n = Some r \<Longrightarrow> b \<le> n"
      using bt.all_keys_from [OF "1.prems"] by blast
    then have "bt_get refs n = (if n < b then None else bt_get refs n)" for n
      by (cases "bt_get refs n") (auto simp: not_less)
    moreover have "prune_l2 b refs = refs"
      using False by (auto simp: prune_l2.simps [of b refs] split: option.splits)
    ultimately show ?thesis using "1.prems" by auto
  next
    case True
    then obtain n r where first: "bt_first refs = Some (n, r)" and n: "n < b" by blast
    have "prune_l2 b refs = prune_l2 b (bt_pop_first refs)"
      using first n [folded not_le] by (simp add: prune_l2.simps [of b refs] split: prod.split)
    moreover have "bt_inv (bt_pop_first refs)" using "1.prems" by (simp add: bt.inv_specs)
    note IH = "1.IH" [OF first refl n [folded not_le] this]
    ultimately show ?thesis
      using n bt.get_pop_first [OF "1.prems" first] IH by auto
  qed
qed

text \<open>What one pruning keeps: \<open>s'\<close> is \<open>s\<close> less the L1 and L2 blocks below the two bounds.\<close>

definition pruned :: "derive_state \<Rightarrow> u64 \<Rightarrow> u64 \<Rightarrow> derive_state \<Rightarrow> bool" where
  "pruned s l1_until l2_until s' \<longleftrightarrow>
     state_inv s' \<and>
     (\<forall>n. l1_info_by_number s' n = (if n < l1_until then None else l1_info_by_number s n)) \<and>
     (\<forall>n. bt_get (st_l2_refs s') n = (if n < l2_until then None else bt_get (st_l2_refs s) n)) \<and>
     st_safe_head s' = st_safe_head s \<and> st_safe_epoch s' = st_safe_epoch s \<and>
     st_config s' = st_config s \<and> st_current_epoch_num s' = st_current_epoch_num s"

definition l1_bound :: "derive_state \<Rightarrow> u64" where
  "l1_bound s = saturating_sub (ep_number (st_safe_epoch s)) (cc_seq_window_size (cfg_chain (st_config s)))"

definition l2_bound :: "derive_state \<Rightarrow> u64" where
  "l2_bound s = bi_number (st_safe_head s) -
     cc_max_seq_drift (cfg_chain (st_config s)) div cc_blocktime (cfg_chain (st_config s))"

lemma state_prune_Ok:
  assumes inv: "state_inv s" and bt: "cc_blocktime (cfg_chain (st_config s)) \<noteq> 0"
  shows "\<exists>s'. state_prune s = Ok s' \<and> pruned s (l1_bound s) (l2_bound s) s'"
proof -
  obtain hashes infos where l1: "prune_l1 (l1_bound s) (st_l1_hashes s) (st_l1_info s) = (hashes, infos)"
    by (cases "prune_l1 (l1_bound s) (st_l1_hashes s) (st_l1_info s)")
  let ?s = "s\<lparr>st_l1_hashes := hashes, st_l1_info := infos, st_l2_refs := prune_l2 (l2_bound s) (st_l2_refs s)\<rparr>"
  note spec1 = prune_l1_spec [OF _ _ _ l1]
  note spec2 = prune_l2_spec [of "st_l2_refs s" "l2_bound s"]
  have keep: "l1_info_by_number ?s n = (if n < l1_bound s then None else l1_info_by_number s n)" for n
    using spec1 inv by (cases "bt_get (st_l1_hashes s) n")
      (auto simp: l1_info_by_number_def state_inv_def not_less)
  have "state_prune s = Ok ?s"
    using l1 bt by (simp add: state_prune_def checked_div_def l1_bound_def l2_bound_def Let_def)
  moreover have "state_inv ?s"
    using spec1 spec2 inv by (simp add: state_inv_def)
  ultimately show ?thesis
    using keep spec2 inv by (simp add: pruned_def state_inv_def)
qed

text \<open>A block is new to the cache, or replaces the block of the same number and hash.\<close>

definition fresh_l1 :: "derive_state \<Rightarrow> l1_info \<Rightarrow> bool" where
  "fresh_l1 s info \<longleftrightarrow>
     list_all (\<lambda>(n, h). h = l1b_hash (l1i_block_info info) \<longrightarrow> n = l1b_number (l1i_block_info info)) (st_l1_hashes s)"

lemma fresh_l1D:
  "fresh_l1 s info \<Longrightarrow> bt_get (st_l1_hashes s) n = Some (l1b_hash (l1i_block_info info)) \<Longrightarrow>
     n = l1b_number (l1i_block_info info)"
  by (auto simp: fresh_l1_def list_all_iff dest!: bt_get_in_set)

lemma inserted_inv:
  assumes "state_inv s" and "fresh_l1 s info"
  shows "state_inv (s\<lparr>st_current_epoch_num := e,
     st_l1_hashes := bt_insert (l1b_number (l1i_block_info info)) (l1b_hash (l1i_block_info info)) (st_l1_hashes s),
     st_l1_info := bt_insert (l1b_hash (l1i_block_info info)) info (st_l1_info s)\<rparr>)"
  using assms fresh_l1D [OF assms(2)]
  by (auto simp: state_inv_def l1_consistent_def bt_get_bt_insert bt_inv_bt_insert)

lemma inserted_lookup:
  assumes "state_inv s" and "fresh_l1 s info"
  shows "l1_info_by_number (s\<lparr>st_current_epoch_num := e,
     st_l1_hashes := bt_insert (l1b_number (l1i_block_info info)) (l1b_hash (l1i_block_info info)) (st_l1_hashes s),
     st_l1_info := bt_insert (l1b_hash (l1i_block_info info)) info (st_l1_info s)\<rparr>) n =
     (if n = l1b_number (l1i_block_info info) then Some info else l1_info_by_number s n)"
  using fresh_l1D [OF assms(2), of n]
  by (cases "bt_get (st_l1_hashes s) n") (auto simp: l1_info_by_number_def bt_get_bt_insert)

lemma update_l1_info_Ok:
  assumes inv: "state_inv s" and fresh: "fresh_l1 s info"
    and bt: "cc_blocktime (cfg_chain (st_config s)) \<noteq> 0"
  shows "\<exists>s'. update_l1_info s info = Ok s' \<and> state_inv s' \<and>
    st_current_epoch_num s' = l1b_number (l1i_block_info info) \<and>
    (\<forall>n. l1_info_by_number s' n =
       (if n < l1_bound s then None
        else if n = l1b_number (l1i_block_info info) then Some info else l1_info_by_number s n)) \<and>
    (\<forall>n. bt_get (st_l2_refs s') n = (if n < l2_bound s then None else bt_get (st_l2_refs s) n)) \<and>
    st_safe_head s' = st_safe_head s \<and> st_safe_epoch s' = st_safe_epoch s \<and> st_config s' = st_config s"
proof -
  let ?num = "l1b_number (l1i_block_info info)"
  let ?s = "s\<lparr>st_current_epoch_num := ?num,
     st_l1_hashes := bt_insert ?num (l1b_hash (l1i_block_info info)) (st_l1_hashes s),
     st_l1_info := bt_insert (l1b_hash (l1i_block_info info)) info (st_l1_info s)\<rparr>"
  have upd: "update_l1_info s info = state_prune ?s"
    by (simp add: update_l1_info_def)
  have bounds: "l1_bound ?s = l1_bound s" "l2_bound ?s = l2_bound s"
    by (simp_all add: l1_bound_def l2_bound_def)
  show ?thesis
    using state_prune_Ok [OF inserted_inv [OF inv fresh, of ?num]] bt
    unfolding pruned_def inserted_lookup [OF inv fresh] bounds upd by auto
qed

lemma state_inv_update_safe_head: "state_inv s \<Longrightarrow> state_inv (update_safe_head s h e)"
  by (simp add: state_inv_def update_safe_head_def bt_inv_bt_insert)

lemma state_inv_purge: "state_inv s \<Longrightarrow> state_inv (state_purge s h e)"
  by (simp add: state_inv_def update_safe_head_def state_purge_def bt_inv_bt_insert l1_consistent_def)

lemma bt_inv_insert_l2_refs:
  "bt_inv refs \<Longrightarrow> insert_l2_refs k get_block config is refs = Ok refs' \<Longrightarrow> bt_inv refs'"
proof (induction "is" arbitrary: refs)
  case (Cons i "is")
  from Cons.prems(2) obtain r where "insert_l2_refs k get_block config is r = Ok refs'" "bt_inv r"
    using Cons.prems(1)
    by (auto simp: outcome_simps bt_inv_bt_insert split: outcome.splits option.splits)
  then show ?case using Cons.IH by blast
qed simp

lemma state_inv_new: "state_new k h e get_block config = Ok s \<Longrightarrow> state_inv s"
  by (auto simp: state_new_def outcome_simps l2_refs_def Let_def state_inv_def l1_consistent_def
      dest: bt_inv_insert_l2_refs [rotated])

lemma l1_info_by_number_number:
  "state_inv s \<Longrightarrow> l1_info_by_number s n = Some info \<Longrightarrow>
     l1b_number (l1i_block_info info) = n \<and> l1_info_by_hash s (l1b_hash (l1i_block_info info)) = Some info"
  by (fastforce simp: state_inv_def l1_consistent_def l1_info_by_number_def l1_info_by_hash_def bind_eq_Some_conv)

lemma epoch_by_number_number: "state_inv s \<Longrightarrow> epoch_by_number s n = Some e \<Longrightarrow> ep_number e = n"
  by (auto simp: epoch_by_number_def epoch_of_info_def dest: l1_info_by_number_number)

section \<open>Properties\<close>

text \<open>
  C34: the derivation state keeps its invariant, that the caches by number and by hash agree on
  every L1 block, and the effect of a new L1 block on lookups is exactly this: blocks
  older than the sequencing window before the safe epoch are forgotten, the new block is found under
  its number, every other block is found as before.
\<close>

theorem update_l1_info_lookup:
  assumes "state_inv s" and "fresh_l1 s info" and "cc_blocktime (cfg_chain (st_config s)) \<noteq> 0"
  shows "\<exists>s'. update_l1_info s info = Ok s' \<and> state_inv s' \<and>
    st_current_epoch_num s' = l1b_number (l1i_block_info info) \<and>
    (\<forall>n. l1_info_by_number s' n =
       (if unat n < unat (ep_number (st_safe_epoch s)) - unat (cc_seq_window_size (cfg_chain (st_config s)))
        then None
        else if n = l1b_number (l1i_block_info info) then Some info
        else l1_info_by_number s n))"
  using update_l1_info_Ok [OF assms] by (auto simp: word_less_nat_alt unat_saturating_sub l1_bound_def)

definition sample_l1_info :: "u64 \<Rightarrow> l1_info" where
  "sample_l1_info n =
     \<lparr>l1i_block_info = \<lparr>l1b_number = n, l1b_hash = 1000 + ucast n, l1b_timestamp = 12 * n, l1b_base_fee = 7,
        l1b_mix_hash = 5, l1b_parent_beacon_block_root = None\<rparr>,
      l1i_system_config = cc_system_config optimism, l1i_user_deposits = [],
      l1i_batcher_transactions = [], l1i_finalized = False\<rparr>"

definition sample_state :: derive_state where
  "sample_state =
     \<lparr>st_l1_info = [(1001, sample_l1_info 1)], st_l1_hashes = [(1, 1001)],
      st_l2_refs = [(100, (\<lparr>bi_hash = 9, bi_number = 100, bi_parent_hash = 8, bi_timestamp = 200\<rparr>,
                           \<lparr>ep_number = 4000, ep_hash = 3, ep_timestamp = 190\<rparr>))],
      st_safe_head = \<lparr>bi_hash = 9, bi_number = 100, bi_parent_hash = 8, bi_timestamp = 200\<rparr>,
      st_safe_epoch = \<lparr>ep_number = 4000, ep_hash = 3, ep_timestamp = 190\<rparr>,
      st_current_epoch_num = 1, st_config = sample_config optimism_sepolia\<rparr>"

lemma state_inv_sample: "state_inv sample_state"
  by (simp add: state_inv_def l1_consistent_def sample_state_def sample_l1_info_def)

theorem update_l1_info_lookup_witness:
  "\<exists>s'. update_l1_info sample_state (sample_l1_info 4001) = Ok s' \<and>
     l1_info_by_number s' 4001 = Some (sample_l1_info 4001) \<and> l1_info_by_number s' 1 = None"
proof -
  have "cc_blocktime (cfg_chain (st_config sample_state)) \<noteq> 0" "fresh_l1 sample_state (sample_l1_info 4001)"
    by (simp_all add: sample_state_def optimism_sepolia_def fresh_l1_def sample_l1_info_def)
  then show ?thesis
    using update_l1_info_lookup [OF state_inv_sample]
    by (force simp: sample_state_def optimism_sepolia_def sample_l1_info_def)
qed

text \<open>
  While the safe head is fewer than \<open>max_seq_drift / blocktime\<close> blocks above zero, the bound
  \<open>safe_head.number - max_seq_drift / blocktime\<close> wraps around, and a new L1 block empties
  the cache of L2 blocks instead of keeping the recent ones.
\<close>

lemma l2_cache_lost_near_genesis:
  assumes "state_inv s" and "fresh_l1 s info" and "cc_blocktime (cfg_chain (st_config s)) \<noteq> 0"
    and "bi_number (st_safe_head s) < cc_max_seq_drift (cfg_chain (st_config s)) div cc_blocktime (cfg_chain (st_config s))"
    and "list_all (\<lambda>(n, _). n \<le> bi_number (st_safe_head s)) (st_l2_refs s)"
  shows "\<exists>s'. update_l1_info s info = Ok s' \<and> st_l2_refs s' = []"
proof -
  let ?h = "bi_number (st_safe_head s)"
  let ?d = "cc_max_seq_drift (cfg_chain (st_config s)) div cc_blocktime (cfg_chain (st_config s))"
  have wrap: "?h < ?h - ?d"
    using assms(4) unsigned_less [of ?d, where ?'a = nat]
    by (auto simp: word_less_nat_alt unat_sub_if_size size_word_def)
  obtain s' where s': "update_l1_info s info = Ok s'" "state_inv s'"
    "\<And>n. bt_get (st_l2_refs s') n = (if n < ?h - ?d then None else bt_get (st_l2_refs s) n)"
    using update_l1_info_Ok [OF assms(1-3)] unfolding l2_bound_def by blast
  have "bt_get (st_l2_refs s') n = None" for n
  proof (cases "bt_get (st_l2_refs s) n")
    case (Some r)
    then have "n \<le> ?h" using assms(5) by (auto simp: list_all_iff dest: bt_get_in_set)
    then show ?thesis using s'(3) wrap by (simp add: order.strict_trans1)
  qed (simp add: s'(3))
  then have "bt_first (st_l2_refs s') = None"
    using bt.first_None s'(2) by (auto simp: state_inv_def)
  then show ?thesis using s'(1) by simp
qed

lemma l2_cache_lost_near_genesis_witness:
  "\<exists>s'. update_l1_info sample_state (sample_l1_info 4001) = Ok s' \<and> st_l2_refs s' = []"
  by (rule l2_cache_lost_near_genesis [OF state_inv_sample])
    (simp_all add: sample_state_def optimism_sepolia_def fresh_l1_def sample_l1_info_def)

end
