(* ===== verification/Block_Input.thy ===== *)
theory Block_Input
  imports Derive_State
begin

text \<open>
  \<^verbatim>\<open>src/src/derive/stages/block_input.rs\<close> and \<^verbatim>\<open>src/src/derive/stages/single_batch.rs\<close>: the L2
  block a batch stands for, and the batch of a single block.

  The record \<open>codec\<close> bundles the functions of the external crates that the batch decoders
  call, as parameters of the model: \<^verbatim>\<open>unsigned_varint::decode::u64\<close>, the item accessors of
  \<^verbatim>\<open>rlp::Rlp\<close> (\<open>None\<close> is a decoder error), the encoder \<^verbatim>\<open>rlp::RlpStream\<close> on the list of items
  appended to it, and the zlib decoder of \<^verbatim>\<open>libflate\<close>.
\<close>

section \<open>External codecs\<close>

type_synonym access_list = "(address \<times> h256 list) list"

datatype rlp_item =
    RlpU64 u64
  | RlpU256 u256
  | RlpH256 h256
  | RlpAddress address
  | RlpBool bool
  | RlpBytes bytes
  | RlpEmptyStr
  | RlpAccessList access_list

record codec =
  cod_varint :: "bytes \<Rightarrow> (u64 \<times> bytes) option"
  cod_rlp_u64_at :: "bytes \<Rightarrow> nat \<Rightarrow> u64 option"
  cod_rlp_u256_at :: "bytes \<Rightarrow> nat \<Rightarrow> u256 option"
  cod_rlp_h256_at :: "bytes \<Rightarrow> nat \<Rightarrow> h256 option"
  cod_rlp_bytes_at :: "bytes \<Rightarrow> nat \<Rightarrow> bytes option"
  cod_rlp_access_list_at :: "bytes \<Rightarrow> nat \<Rightarrow> access_list option"
  cod_rlp_list_at :: "bytes \<Rightarrow> nat \<Rightarrow> raw_transaction list option"
  cod_rlp_as_bytes :: "bytes \<Rightarrow> bytes option"
  cod_rlp_payload_info :: "bytes \<Rightarrow> (nat \<times> nat) option"
  cod_rlp_list_out :: "rlp_item list \<Rightarrow> bytes"
  cod_zlib :: "bytes \<Rightarrow> bytes option"

text \<open>The outcomes of a decoder error: propagated by the question mark operator, or unwrapped.\<close>

definition rlp_try :: "'a option \<Rightarrow> 'a outcome" where
  "rlp_try r = (case r of Some x \<Rightarrow> Ok x | None \<Rightarrow> Err (External ''DecoderError''))"

lemma rlp_try_simps [simp]: "rlp_try (Some x) = Ok x" "rlp_try None = Err (External ''DecoderError'')"
  by (simp_all add: rlp_try_def)

lemma rlp_try_eq_Ok [outcome_simps]: "rlp_try r = Ok x \<longleftrightarrow> r = Some x"
  by (cases r) auto

lemma rlp_try_no_panic [simp]: "rlp_try r \<noteq> Panic p" "rlp_try r \<noteq> Diverge"
  by (cases r; simp)+

definition payload_total :: "nat \<times> nat \<Rightarrow> nat" where
  "payload_total info = fst info + snd info"

section \<open>Block inputs\<close>

record 'e block_input =
  bin_timestamp :: u64
  bin_epoch :: 'e
  bin_transactions :: "raw_transaction list"
  bin_l1_inclusion_block :: u64

definition with_full_epoch :: "u64 block_input \<Rightarrow> derive_state \<Rightarrow> epoch block_input outcome" where
  "with_full_epoch input state =
     and_then (ok_or (epoch_by_number state (bin_epoch input)) ''epoch not found'') (\<lambda>epoch.
     Ok \<lparr>bin_timestamp = bin_timestamp input, bin_epoch = epoch,
         bin_transactions = bin_transactions input,
         bin_l1_inclusion_block = bin_l1_inclusion_block input\<rparr>)"

section \<open>Single batches\<close>

record single_batch =
  sb_parent_hash :: h256
  sb_epoch_num :: u64
  sb_epoch_hash :: h256
  sb_timestamp :: u64
  sb_transactions :: "raw_transaction list"
  sb_l1_inclusion_block :: u64

definition single_batch_decode :: "codec \<Rightarrow> bytes \<Rightarrow> u64 \<Rightarrow> single_batch outcome" where
  "single_batch_decode cod rlp l1_inclusion_block =
     and_then (rlp_try (cod_rlp_h256_at cod rlp 0)) (\<lambda>parent_hash.
     and_then (rlp_try (cod_rlp_u64_at cod rlp 1)) (\<lambda>epoch_num.
     and_then (rlp_try (cod_rlp_h256_at cod rlp 2)) (\<lambda>epoch_hash.
     and_then (rlp_try (cod_rlp_u64_at cod rlp 3)) (\<lambda>timestamp.
     and_then (rlp_try (cod_rlp_list_at cod rlp 4)) (\<lambda>transactions.
     Ok \<lparr>sb_parent_hash = parent_hash, sb_epoch_num = epoch_num, sb_epoch_hash = epoch_hash,
         sb_timestamp = timestamp, sb_transactions = transactions,
         sb_l1_inclusion_block = l1_inclusion_block\<rparr>)))))"

definition has_invalid_transactions :: "single_batch \<Rightarrow> bool" where
  "has_invalid_transactions b =
     list_ex (\<lambda>tx. case raw_bytes tx of [] \<Rightarrow> True | b0 # _ \<Rightarrow> b0 = 0x7E) (sb_transactions b)"

definition single_block_input :: "single_batch \<Rightarrow> u64 block_input" where
  "single_block_input b =
     \<lparr>bin_timestamp = sb_timestamp b, bin_epoch = sb_epoch_num b,
      bin_transactions = sb_transactions b, bin_l1_inclusion_block = sb_l1_inclusion_block b\<rparr>"

lemma has_invalid_transactions_iff:
  "has_invalid_transactions b \<longleftrightarrow>
     (\<exists>tx \<in> set (sb_transactions b). raw_bytes tx = [] \<or> hd (raw_bytes tx) = 0x7E)"
proof -
  have "(case bs of [] \<Rightarrow> True | b0 # _ \<Rightarrow> b0 = 0x7E) \<longleftrightarrow> bs = [] \<or> hd bs = 0x7E" for bs :: bytes
    by (cases bs) simp_all
  then show ?thesis by (simp add: has_invalid_transactions_def list_ex_iff)
qed

lemma single_batch_decode_safe:
  "single_batch_decode cod rlp l1 \<noteq> Panic p" "single_batch_decode cod rlp l1 \<noteq> Diverge"
  by (auto simp: single_batch_decode_def outcome_simps)

end
