(* ===== verification/Span_Batch.thy ===== *)
theory Span_Batch
  imports Block_Input
begin

text \<open>
  \<^verbatim>\<open>src/src/derive/stages/span_batch.rs\<close>: the batch of a range of blocks, decoded from its
  column layout, and the block inputs it stands for.

  Shown: the decoders of the columns are inverse to their layout; decoding the transaction columns
  rebuilds each transaction from its own row; the block inputs of a well-formed batch
  cover its blocks in order, with consecutive timestamps, epochs that end at the batch's L1 origin
  and the batch's transactions cut in order.
\<close>

record span_batch =
  sp_rel_timestamp :: u64
  sp_l1_origin_num :: u64
  sp_parent_check :: bytes
  sp_l1_origin_check :: bytes
  sp_block_count :: u64
  sp_origin_bits :: "bool list"
  sp_block_tx_counts :: "u64 list"
  sp_transactions :: "raw_transaction list"
  sp_l1_inclusion_block :: u64

section \<open>Decoding\<close>

definition take_data :: "bytes \<Rightarrow> nat \<Rightarrow> (bytes \<times> bytes) outcome" where
  "take_data data len =
     and_then (slice data 0 len) (\<lambda>a. and_then (slice_from data len) (\<lambda>b. Ok (a, b)))"

text \<open>The bits of a byte, least significant first, and of the bytes of a bitlist, last byte first.\<close>

definition byte_bits :: "u8 \<Rightarrow> bool list" where
  "byte_bits byte = map (\<lambda>i. (drop_bit i byte) AND 1 = 1) [0..<8]"

definition decode_bitlist :: "bytes \<Rightarrow> u64 \<Rightarrow> (bool list \<times> bytes) outcome" where
  "decode_bitlist data len =
     (let len_up = (len + 7) div 8
      in and_then (take_data data (unat len_up)) (\<lambda>(bytes, data').
         let bitlist = concat (map byte_bits (rev bytes))
         in and_then (slice bitlist 0 (unat len)) (\<lambda>bits. Ok (bits, data'))))"

text \<open>The loops that decode one item after the other, \<open>n\<close> times.\<close>

fun decode_n :: "(bytes \<Rightarrow> ('a \<times> bytes) outcome) \<Rightarrow> nat \<Rightarrow> bytes \<Rightarrow> ('a list \<times> bytes) outcome" where
  "decode_n f 0 data = Ok ([], data)"
| "decode_n f (Suc n) data =
     and_then (f data) (\<lambda>(x, d).
     and_then (decode_n f n d) (\<lambda>(xs, d'). Ok (x # xs, d')))"

definition varint_unwrap :: "codec \<Rightarrow> bytes \<Rightarrow> (u64 \<times> bytes) outcome" where
  "varint_unwrap cod data = unwrap_opt (cod_varint cod data) ''called unwrap on an Err value''"

definition decode_block_tx_counts :: "codec \<Rightarrow> bytes \<Rightarrow> u64 \<Rightarrow> (u64 list \<times> bytes) outcome" where
  "decode_block_tx_counts cod data block_count = decode_n (varint_unwrap cod) (unat block_count) data"

definition decode_uvarint_list :: "codec \<Rightarrow> bytes \<Rightarrow> u64 \<Rightarrow> (u64 list \<times> bytes) outcome" where
  "decode_uvarint_list cod data count = decode_n (varint_unwrap cod) (unat count) data"

definition decode_address :: "bytes \<Rightarrow> (address \<times> bytes) outcome" where
  "decode_address data =
     and_then (take_data data 20) (\<lambda>(address_bytes, data'). Ok (from_be_bytes address_bytes, data'))"

definition decode_tos :: "bytes \<Rightarrow> u64 \<Rightarrow> (address list \<times> bytes) outcome" where
  "decode_tos data count = decode_n decode_address (unat count) data"

definition decode_u256 :: "bytes \<Rightarrow> (u256 \<times> bytes) outcome" where
  "decode_u256 data =
     and_then (take_data data 32) (\<lambda>(bytes, data'). Ok (from_be_bytes bytes, data'))"

definition decode_signatures :: "bytes \<Rightarrow> u64 \<Rightarrow> ((u256 \<times> u256) list \<times> bytes) outcome" where
  "decode_signatures data tx_count =
     decode_n (\<lambda>data_ref.
       and_then (decode_u256 data_ref) (\<lambda>(r, d).
       and_then (decode_u256 d) (\<lambda>(s, d').
       Ok ((r, s), d')))) (unat tx_count) data"

datatype tx_data =
    Legacy (td_value: u256) (td_gas_price: u256) (td_data: bytes)
  | Type1 (td_value: u256) (td_gas_price: u256) (td_data: bytes) (td_access_list: access_list)
  | Type2 (td_value: u256) (td_max_fee: u256) (td_max_priority_fee: u256) (td_data: bytes)
      (td_access_list: access_list)

definition unwrap_rlp :: "'a option \<Rightarrow> 'a outcome" where
  "unwrap_rlp r = unwrap_opt r ''called unwrap on an Err value''"

definition decode_one_tx_data :: "codec \<Rightarrow> bytes \<Rightarrow> (tx_data \<times> bytes) outcome" where
  "decode_one_tx_data cod data_ref =
     and_then (index data_ref 0) (\<lambda>tag.
     and_then
       (if tag = 1 then
          and_then (slice_from data_ref 1) (\<lambda>rlp.
          and_then (unwrap_rlp (cod_rlp_u256_at cod rlp 0)) (\<lambda>value.
          and_then (unwrap_rlp (cod_rlp_u256_at cod rlp 1)) (\<lambda>gas_price.
          and_then (unwrap_rlp (cod_rlp_bytes_at cod rlp 2)) (\<lambda>data.
          and_then (unwrap_rlp (cod_rlp_access_list_at cod rlp 3)) (\<lambda>access_list.
          and_then (unwrap_rlp (cod_rlp_payload_info cod rlp)) (\<lambda>info.
          Ok (payload_total info + 1, Type1 value gas_price data access_list)))))))
        else if tag = 2 then
          and_then (slice_from data_ref 1) (\<lambda>rlp.
          and_then (unwrap_rlp (cod_rlp_u256_at cod rlp 0)) (\<lambda>value.
          and_then (unwrap_rlp (cod_rlp_u256_at cod rlp 1)) (\<lambda>max_priority_fee.
          and_then (unwrap_rlp (cod_rlp_u256_at cod rlp 2)) (\<lambda>max_fee.
          and_then (unwrap_rlp (cod_rlp_bytes_at cod rlp 3)) (\<lambda>data.
          and_then (unwrap_rlp (cod_rlp_access_list_at cod rlp 4)) (\<lambda>access_list.
          and_then (unwrap_rlp (cod_rlp_payload_info cod rlp)) (\<lambda>info.
          Ok (payload_total info + 1, Type2 value max_fee max_priority_fee data access_list))))))))
        else
          and_then (slice_from data_ref 0) (\<lambda>rlp.
          and_then (unwrap_rlp (cod_rlp_u256_at cod rlp 0)) (\<lambda>value.
          and_then (unwrap_rlp (cod_rlp_u256_at cod rlp 1)) (\<lambda>gas_price.
          and_then (unwrap_rlp (cod_rlp_bytes_at cod rlp 2)) (\<lambda>data.
          and_then (unwrap_rlp (cod_rlp_payload_info cod rlp)) (\<lambda>info.
          Ok (payload_total info, Legacy value gas_price data)))))))
       (\<lambda>(next, data). and_then (slice_from data_ref next) (\<lambda>rest. Ok (data, rest))))"

definition decode_tx_data :: "codec \<Rightarrow> bytes \<Rightarrow> u64 \<Rightarrow> (tx_data list \<times> bytes) outcome" where
  "decode_tx_data cod data tx_count = decode_n (decode_one_tx_data cod) (unat tx_count) data"

text \<open>The columns the loop of \<open>decode_transactions\<close> reads by index.\<close>

record tx_columns =
  col_contract_creation_bits :: "bool list"
  col_y_parity_bits :: "bool list"
  col_signatures :: "(u256 \<times> u256) list"
  col_tos :: "address list"
  col_tx_datas :: "tx_data list"
  col_tx_nonces :: "u64 list"
  col_tx_gas_limits :: "u64 list"
  col_protected_bits :: "bool list"

definition to_item :: "tx_columns \<Rightarrow> nat \<Rightarrow> nat \<Rightarrow> (rlp_item \<times> nat) outcome" where
  "to_item c i tos_i =
     and_then (index (col_contract_creation_bits c) i) (\<lambda>creation.
     if creation then Ok (RlpEmptyStr, tos_i)
     else and_then (index (col_tos c) tos_i) (\<lambda>to. Ok (RlpAddress to, tos_i + 1)))"

definition decode_one_tx ::
  "codec \<Rightarrow> u64 \<Rightarrow> tx_columns \<Rightarrow> nat \<Rightarrow> nat \<Rightarrow> nat \<Rightarrow> (raw_transaction \<times> nat \<times> nat) outcome" where
  "decode_one_tx cod chain_id c i legacy_i tos_i =
     and_then (index (col_tx_datas c) i) (\<lambda>tx_data.
     case tx_data of
       Legacy value gas_price data \<Rightarrow>
         and_then (index (col_tx_nonces c) i) (\<lambda>nonce.
         and_then (index (col_tx_gas_limits c) i) (\<lambda>gas_limit.
         and_then (to_item c i tos_i) (\<lambda>(to, tos_i').
         and_then (index (col_y_parity_bits c) i) (\<lambda>y.
         let parity = (if y then 1 else 0)
         in and_then (index (col_protected_bits c) legacy_i) (\<lambda>protected.
         let v = (if protected then chain_id * 2 + 35 + parity else 27 + parity)
         in and_then (index (col_signatures c) i) (\<lambda>sig.
         Ok (RawTransaction (cod_rlp_list_out cod
               [RlpU64 nonce, RlpU256 gas_price, RlpU64 gas_limit, to, RlpU256 value, RlpBytes data,
                RlpU64 v, RlpU256 (fst sig), RlpU256 (snd sig)]),
             legacy_i + 1, tos_i')))))))
     | Type1 value gas_price data access_list \<Rightarrow>
         and_then (index (col_tx_nonces c) i) (\<lambda>nonce.
         and_then (index (col_tx_gas_limits c) i) (\<lambda>gas_limit.
         and_then (to_item c i tos_i) (\<lambda>(to, tos_i').
         and_then (index (col_y_parity_bits c) i) (\<lambda>y.
         let parity = (if y then 1 else 0)
         in and_then (index (col_signatures c) i) (\<lambda>sig.
         Ok (RawTransaction (1 # cod_rlp_list_out cod
               [RlpU64 chain_id, RlpU64 nonce, RlpU256 gas_price, RlpU64 gas_limit, to, RlpU256 value,
                RlpBytes data, RlpAccessList access_list, RlpU64 parity, RlpU256 (fst sig), RlpU256 (snd sig)]),
             legacy_i, tos_i'))))))
     | Type2 value max_fee max_priority_fee data access_list \<Rightarrow>
         and_then (index (col_tx_nonces c) i) (\<lambda>nonce.
         and_then (index (col_tx_gas_limits c) i) (\<lambda>gas_limit.
         and_then (to_item c i tos_i) (\<lambda>(to, tos_i').
         and_then (index (col_y_parity_bits c) i) (\<lambda>y.
         let parity = (if y then 1 else 0)
         in and_then (index (col_signatures c) i) (\<lambda>sig.
         Ok (RawTransaction (2 # cod_rlp_list_out cod
               [RlpU64 chain_id, RlpU64 nonce, RlpU256 max_priority_fee, RlpU256 max_fee, RlpU64 gas_limit, to,
                RlpU256 value, RlpBytes data, RlpAccessList access_list, RlpU64 parity,
                RlpU256 (fst sig), RlpU256 (snd sig)]),
             legacy_i, tos_i')))))))"

fun decode_rows ::
  "codec \<Rightarrow> u64 \<Rightarrow> tx_columns \<Rightarrow> nat list \<Rightarrow> nat \<Rightarrow> nat \<Rightarrow> raw_transaction list outcome" where
  "decode_rows cod chain_id c [] legacy_i tos_i = Ok []"
| "decode_rows cod chain_id c (i # is) legacy_i tos_i =
     and_then (decode_one_tx cod chain_id c i legacy_i tos_i) (\<lambda>(tx, legacy_i', tos_i').
     and_then (decode_rows cod chain_id c is legacy_i' tos_i') (\<lambda>txs. Ok (tx # txs)))"

fun is_legacy :: "tx_data \<Rightarrow> bool" where
  "is_legacy (Legacy _ _ _) = True"
| "is_legacy _ = False"

definition decode_transactions :: "codec \<Rightarrow> u64 \<Rightarrow> bytes \<Rightarrow> u64 \<Rightarrow> (raw_transaction list \<times> bytes) outcome" where
  "decode_transactions cod chain_id data0 tx_count =
     and_then (decode_bitlist data0 tx_count) (\<lambda>(contract_creation_bits, data1).
     and_then (decode_bitlist data1 tx_count) (\<lambda>(y_parity_bits, data2).
     and_then (decode_signatures data2 tx_count) (\<lambda>(signatures, data3).
     let tos_count = (of_nat (length (filter (\<lambda>b. \<not> b) contract_creation_bits)) :: u64)
     in and_then (decode_tos data3 tos_count) (\<lambda>(tos, data4).
     and_then (decode_tx_data cod data4 tx_count) (\<lambda>(tx_datas, data5).
     and_then (decode_uvarint_list cod data5 tx_count) (\<lambda>(tx_nonces, data6).
     and_then (decode_uvarint_list cod data6 tx_count) (\<lambda>(tx_gas_limits, data7).
     let legacy_tx_count = (of_nat (length (filter is_legacy tx_datas)) :: u64)
     in and_then (decode_bitlist data7 legacy_tx_count) (\<lambda>(protected_bits, data8).
     and_then (decode_rows cod chain_id
       \<lparr>col_contract_creation_bits = contract_creation_bits, col_y_parity_bits = y_parity_bits,
        col_signatures = signatures, col_tos = tos, col_tx_datas = tx_datas, col_tx_nonces = tx_nonces,
        col_tx_gas_limits = tx_gas_limits, col_protected_bits = protected_bits\<rparr>
       [0..<unat tx_count] 0 0) (\<lambda>txs.
     Ok (txs, data8))))))))))"

definition varint_try :: "codec \<Rightarrow> bytes \<Rightarrow> (u64 \<times> bytes) outcome" where
  "varint_try cod data =
     (case cod_varint cod data of Some r \<Rightarrow> Ok r | None \<Rightarrow> Err (External ''unsigned_varint''))"

definition span_batch_decode :: "codec \<Rightarrow> bytes \<Rightarrow> u64 \<Rightarrow> u64 \<Rightarrow> span_batch outcome" where
  "span_batch_decode cod data0 l1_inclusion_block chain_id =
     and_then (varint_try cod data0) (\<lambda>(rel_timestamp, data1).
     and_then (varint_try cod data1) (\<lambda>(l1_origin_num, data2).
     and_then (take_data data2 20) (\<lambda>(parent_check, data3).
     and_then (take_data data3 20) (\<lambda>(l1_origin_check, data4).
     and_then (varint_try cod data4) (\<lambda>(block_count, data5).
     and_then (decode_bitlist data5 block_count) (\<lambda>(origin_bits, data6).
     and_then (decode_block_tx_counts cod data6 block_count) (\<lambda>(block_tx_counts, data7).
     let total_txs = sum_list block_tx_counts
     in and_then (decode_transactions cod chain_id data7 total_txs) (\<lambda>(transactions, _).
     Ok \<lparr>sp_rel_timestamp = rel_timestamp, sp_l1_origin_num = l1_origin_num,
         sp_parent_check = parent_check, sp_l1_origin_check = l1_origin_check,
         sp_block_count = block_count, sp_origin_bits = origin_bits,
         sp_block_tx_counts = block_tx_counts, sp_transactions = transactions,
         sp_l1_inclusion_block = l1_inclusion_block\<rparr>))))))))"

section \<open>Block inputs of a span batch\<close>

definition origin_bit_sum :: "bool list \<Rightarrow> u64" where
  "origin_bit_sum bs = sum_list (map (\<lambda>b. if b then 1 else 0) bs)"

fun span_inputs_from ::
  "span_batch \<Rightarrow> config \<Rightarrow> nat list \<Rightarrow> u64 \<Rightarrow> nat \<Rightarrow> u64 block_input list outcome" where
  "span_inputs_from b config [] epoch_num tx_index = Ok []"
| "span_inputs_from b config (i # is) epoch_num tx_index =
     and_then (index (sp_origin_bits b) i) (\<lambda>bit.
     let epoch_num' = (if bit then epoch_num + 1 else epoch_num)
     in and_then (index (sp_block_tx_counts b) i) (\<lambda>tx_end.
     and_then (slice (sp_transactions b) tx_index (tx_index + unat tx_end)) (\<lambda>transactions.
     let timestamp = sp_rel_timestamp b + bi_timestamp (cc_l2_genesis (cfg_chain config)) +
           of_nat i * cc_blocktime (cfg_chain config)
     in and_then (span_inputs_from b config is epoch_num' (tx_index + unat tx_end)) (\<lambda>inputs.
     Ok (\<lparr>bin_timestamp = timestamp, bin_epoch = epoch_num', bin_transactions = transactions,
          bin_l1_inclusion_block = sp_l1_inclusion_block b\<rparr> # inputs)))))"

definition span_block_inputs :: "span_batch \<Rightarrow> config \<Rightarrow> u64 block_input list outcome" where
  "span_block_inputs b config =
     (let init_epoch_num = sp_l1_origin_num b - origin_bit_sum (sp_origin_bits b)
      in span_inputs_from b config [0..<unat (sp_block_count b)] init_epoch_num 0)"

definition start_epoch_num :: "span_batch \<Rightarrow> u64 outcome" where
  "start_epoch_num b =
     and_then (index (sp_origin_bits b) 0) (\<lambda>bit.
     Ok (sp_l1_origin_num b - origin_bit_sum (sp_origin_bits b) + (if bit then 1 else 0)))"

section \<open>The columns and their layout\<close>

lemma take_data_append [simp]: "length xs = n \<Longrightarrow> take_data (xs @ ys) n = Ok (xs, ys)"
  by (auto simp: take_data_def slice_def slice_from_def)

lemma decode_n_roundtrip:
  assumes "\<And>x rest. x \<in> set xs \<Longrightarrow> f (enc x @ rest) = Ok (x, rest)"
  shows "decode_n f (length xs) (concat (map enc xs) @ rest) = Ok (xs, rest)"
  using assms by (induction xs) auto

lemma decode_n_length: "decode_n f n data = Ok (xs, rest) \<Longrightarrow> length xs = n"
  by (induction f n data arbitrary: xs rule: decode_n.induct) (auto simp: outcome_simps)

lemma drop_bit_and_one: "drop_bit i w AND 1 = 1 \<longleftrightarrow> bit (w :: 'a::len word) i"
  by (simp add: bit_iff_odd_drop_bit and_one_eq odd_iff_mod_2_eq_one)

lemma length_byte_bits [simp]: "length (byte_bits b) = 8"
  by (simp add: byte_bits_def)

lemma byte_bits_nth: "i < 8 \<Longrightarrow> byte_bits b ! i = bit b i"
  by (simp add: byte_bits_def drop_bit_and_one)

text \<open>The layout of a bitlist: eight bits a byte, least significant first, last byte first.\<close>

function encode_bits :: "bool list \<Rightarrow> bytes" where
  "encode_bits bs = (if bs = [] then [] else horner_sum of_bool 2 (take 8 bs) # encode_bits (drop 8 bs))"
  by pat_completeness auto
termination by (relation "measure length") auto

declare encode_bits.simps [simp del]

definition encode_bitlist :: "bool list \<Rightarrow> bytes" where
  "encode_bitlist bs = rev (encode_bits bs)"

lemma byte_bits_horner:
  assumes "length bs \<le> 8"
  shows "byte_bits (horner_sum of_bool 2 bs) = bs @ replicate (8 - length bs) False"
proof (rule nth_equalityI)
  fix i assume "i < length (byte_bits (horner_sum of_bool 2 bs))"
  then show "byte_bits (horner_sum of_bool 2 bs) ! i = (bs @ replicate (8 - length bs) False) ! i"
    by (simp add: byte_bits_nth bit_horner_sum_bit_word_iff nth_append)
qed (use assms in simp)

lemma decode_encode_bits: "\<exists>k. concat (map byte_bits (encode_bits bs)) = bs @ replicate k False"
proof (induction bs rule: encode_bits.induct)
  case (1 bs)
  show ?case
  proof (cases "8 \<le> length bs")
    case True
    then obtain k where "concat (map byte_bits (encode_bits (drop 8 bs))) = drop 8 bs @ replicate k False"
      using "1.IH" by fastforce
    with True show ?thesis
      by (auto simp: encode_bits.simps [of bs] byte_bits_horner simp flip: append_assoc)
  next
    case False
    then have "encode_bits (drop 8 bs) = []" by (simp add: encode_bits.simps)
    with False show ?thesis
      by (cases "bs = []") (auto simp: encode_bits.simps [of bs] byte_bits_horner)
  qed
qed

lemma length_encode_bits: "length (encode_bits bs) = (length bs + 7) div 8"
proof (induction bs rule: encode_bits.induct)
  case (1 bs)
  show ?case
  proof (cases "bs = []")
    case False
    then have "length (encode_bits bs) = Suc ((length bs - 8 + 7) div 8)"
      using "1.IH" by (simp add: encode_bits.simps [of bs])
    also have "\<dots> = (length bs + 7) div 8"
    proof (cases "8 \<le> length bs")
      case False
      with \<open>bs \<noteq> []\<close> have "(length bs + 7) div 8 = 1"
        by (intro div_nat_eqI) (auto simp: Suc_le_eq)
      with False show ?thesis by simp
    next
      case True
      then have "length bs + 7 = (length bs - 8 + 7) + 8" by simp
      then show ?thesis by simp
    qed
    finally show ?thesis .
  qed (simp add: encode_bits.simps)
qed

lemma unat_len_up:
  assumes "n + 7 < 2 ^ 64"
  shows "unat (((of_nat n :: u64) + 7) div 8) = (n + 7) div 8"
proof -
  have n: "unat (of_nat n :: u64) = n"
    using assms by (simp add: unat_of_nat take_bit_nat_eq_self)
  have "unat ((of_nat n :: u64) + 7) = n + 7"
    using assms n unat_add_no_wrap [of "of_nat n :: u64" 7] by simp
  then show ?thesis by (simp add: unat_div)
qed

lemma decode_bitlist_encode:
  assumes "length bs + 7 < 2 ^ 64"
  shows "decode_bitlist (encode_bitlist bs @ rest) (of_nat (length bs)) = Ok (bs, rest)"
proof -
  have n: "unat (of_nat (length bs) :: u64) = length bs"
    using assms by (simp add: unat_of_nat take_bit_nat_eq_self)
  have td: "take_data (encode_bitlist bs @ rest) (unat (((of_nat (length bs) :: u64) + 7) div 8)) =
      Ok (encode_bitlist bs, rest)"
    by (rule take_data_append) (simp add: encode_bitlist_def length_encode_bits unat_len_up [OF assms])
  obtain k where "concat (map byte_bits (encode_bits bs)) = bs @ replicate k False"
    using decode_encode_bits by blast
  then show ?thesis
    unfolding decode_bitlist_def Let_def td n by (simp add: encode_bitlist_def slice_def)
qed

lemma decode_bitlist_length:
  "decode_bitlist data len = Ok (bits, rest) \<Longrightarrow> length bits = unat len"
  by (auto simp: decode_bitlist_def Let_def outcome_simps)

lemma decode_signatures_roundtrip:
  assumes "length sigs < 2 ^ 64"
  shows "decode_signatures (concat (map (\<lambda>(r, s). to_be_bytes 32 r @ to_be_bytes 32 s) sigs) @ rest)
    (of_nat (length sigs)) = Ok (sigs, rest)"
  using assms unfolding decode_signatures_def
  by (simp add: unat_of_nat take_bit_nat_eq_self)
    (intro decode_n_roundtrip, auto simp: decode_u256_def)

lemma decode_tos_roundtrip:
  assumes "length tos < 2 ^ 64"
  shows "decode_tos (concat (map (to_be_bytes 20) tos) @ rest) (of_nat (length tos)) = Ok (tos, rest)"
  using assms unfolding decode_tos_def
  by (simp add: unat_of_nat take_bit_nat_eq_self)
    (intro decode_n_roundtrip, auto simp: decode_address_def)

section \<open>Transactions of a span batch\<close>

text \<open>
  The rows behind the columns: one transaction of the batch. \<open>stx_protected\<close> matters for a
  legacy transaction only.
\<close>

record span_tx =
  stx_data :: tx_data
  stx_nonce :: u64
  stx_gas_limit :: u64
  stx_to :: "address option"
  stx_y_parity :: bool
  stx_signature :: "u256 \<times> u256"
  stx_protected :: bool

definition stx_to_item :: "span_tx \<Rightarrow> rlp_item" where
  "stx_to_item t = (case stx_to t of None \<Rightarrow> RlpEmptyStr | Some a \<Rightarrow> RlpAddress a)"

text \<open>The signed transaction a row stands for, in the encoding of its type.\<close>

definition span_tx_raw :: "codec \<Rightarrow> u64 \<Rightarrow> span_tx \<Rightarrow> raw_transaction" where
  "span_tx_raw cod chain_id t =
     (let parity = (if stx_y_parity t then 1 else 0); sig = [RlpU256 (fst (stx_signature t)), RlpU256 (snd (stx_signature t))]
      in case stx_data t of
        Legacy value gas_price data \<Rightarrow>
          RawTransaction (cod_rlp_list_out cod
            ([RlpU64 (stx_nonce t), RlpU256 gas_price, RlpU64 (stx_gas_limit t), stx_to_item t, RlpU256 value,
              RlpBytes data, RlpU64 (if stx_protected t then chain_id * 2 + 35 + parity else 27 + parity)] @ sig))
      | Type1 value gas_price data access_list \<Rightarrow>
          RawTransaction (1 # cod_rlp_list_out cod
            ([RlpU64 chain_id, RlpU64 (stx_nonce t), RlpU256 gas_price, RlpU64 (stx_gas_limit t), stx_to_item t,
              RlpU256 value, RlpBytes data, RlpAccessList access_list, RlpU64 parity] @ sig))
      | Type2 value max_fee max_priority_fee data access_list \<Rightarrow>
          RawTransaction (2 # cod_rlp_list_out cod
            ([RlpU64 chain_id, RlpU64 (stx_nonce t), RlpU256 max_priority_fee, RlpU256 max_fee,
              RlpU64 (stx_gas_limit t), stx_to_item t, RlpU256 value, RlpBytes data,
              RlpAccessList access_list, RlpU64 parity] @ sig)))"

text \<open>The columns of a list of rows, and the bytes they are laid out in.\<close>

definition columns_of :: "span_tx list \<Rightarrow> tx_columns" where
  "columns_of txs =
     \<lparr>col_contract_creation_bits = map (\<lambda>t. stx_to t = None) txs,
      col_y_parity_bits = map stx_y_parity txs, col_signatures = map stx_signature txs,
      col_tos = List.map_filter stx_to txs, col_tx_datas = map stx_data txs,
      col_tx_nonces = map stx_nonce txs, col_tx_gas_limits = map stx_gas_limit txs,
      col_protected_bits = map stx_protected (filter (is_legacy \<circ> stx_data) txs)\<rparr>"

definition span_txs_bytes :: "(u64 \<Rightarrow> bytes) \<Rightarrow> (tx_data \<Rightarrow> bytes) \<Rightarrow> span_tx list \<Rightarrow> bytes" where
  "span_txs_bytes enc_varint enc_tx_data txs =
     encode_bitlist (map (\<lambda>t. stx_to t = None) txs) @
     encode_bitlist (map stx_y_parity txs) @
     concat (map (\<lambda>(r, s). to_be_bytes 32 r @ to_be_bytes 32 s) (map stx_signature txs)) @
     concat (map (to_be_bytes 20) (List.map_filter stx_to txs)) @
     concat (map enc_tx_data (map stx_data txs)) @
     concat (map enc_varint (map stx_nonce txs)) @
     concat (map enc_varint (map stx_gas_limit txs)) @
     encode_bitlist (map stx_protected (filter (is_legacy \<circ> stx_data) txs))"

text \<open>What the decoder relies on of the external codecs.\<close>

definition varint_roundtrip :: "codec \<Rightarrow> (u64 \<Rightarrow> bytes) \<Rightarrow> bool" where
  "varint_roundtrip cod enc \<longleftrightarrow> (\<forall>n rest. cod_varint cod (enc n @ rest) = Some (n, rest))"

definition rlp_spans :: "codec \<Rightarrow> bytes \<Rightarrow> bytes \<Rightarrow> bool" where
  "rlp_spans cod e rest \<longleftrightarrow> (\<exists>h v. cod_rlp_payload_info cod (e @ rest) = Some (h, v) \<and> h + v = length e)"

definition rlp_tx_data :: "codec \<Rightarrow> tx_data \<Rightarrow> bytes \<Rightarrow> bool" where
  "rlp_tx_data cod td e \<longleftrightarrow>
     (case td of
        Legacy value gas_price data \<Rightarrow>
          (\<exists>b bs. e = b # bs \<and> b \<noteq> 1 \<and> b \<noteq> 2) \<and>
          (\<forall>rest. cod_rlp_u256_at cod (e @ rest) 0 = Some value \<and> cod_rlp_u256_at cod (e @ rest) 1 = Some gas_price \<and>
             cod_rlp_bytes_at cod (e @ rest) 2 = Some data \<and> rlp_spans cod e rest)
      | Type1 value gas_price data access_list \<Rightarrow>
          (\<exists>l. e = 1 # l \<and>
          (\<forall>rest. cod_rlp_u256_at cod (l @ rest) 0 = Some value \<and> cod_rlp_u256_at cod (l @ rest) 1 = Some gas_price \<and>
             cod_rlp_bytes_at cod (l @ rest) 2 = Some data \<and>
             cod_rlp_access_list_at cod (l @ rest) 3 = Some access_list \<and> rlp_spans cod l rest))
      | Type2 value max_fee max_priority_fee data access_list \<Rightarrow>
          (\<exists>l. e = 2 # l \<and>
          (\<forall>rest. cod_rlp_u256_at cod (l @ rest) 0 = Some value \<and>
             cod_rlp_u256_at cod (l @ rest) 1 = Some max_priority_fee \<and> cod_rlp_u256_at cod (l @ rest) 2 = Some max_fee \<and>
             cod_rlp_bytes_at cod (l @ rest) 3 = Some data \<and>
             cod_rlp_access_list_at cod (l @ rest) 4 = Some access_list \<and> rlp_spans cod l rest)))"

lemma decode_one_tx_data_roundtrip:
  assumes "rlp_tx_data cod td e"
  shows "decode_one_tx_data cod (e @ rest) = Ok (td, rest)"
proof (cases td)
  case (Legacy val gas_price data)
  with assms have "e \<noteq> []" "hd e \<noteq> 1" "hd e \<noteq> 2" by (auto simp: rlp_tx_data_def)
  moreover from this have "(e @ rest) ! 0 = hd e" "length e + length rest \<noteq> 0"
    by (simp_all add: nth_append hd_conv_nth)
  moreover have "rlp_spans cod e rest" using assms Legacy by (simp add: rlp_tx_data_def)
  then obtain h v where "cod_rlp_payload_info cod (e @ rest) = Some (h, v)" "h + v = length e"
    unfolding rlp_spans_def by blast
  ultimately show ?thesis
    using assms Legacy
    by (auto simp: rlp_tx_data_def decode_one_tx_data_def index_def slice_from_def unwrap_rlp_def payload_total_def)
next
  case (Type1 val gas_price data al)
  then obtain l where e: "e = 1 # l" using assms by (auto simp: rlp_tx_data_def)
  moreover have "rlp_spans cod l rest" using assms Type1 e by (simp add: rlp_tx_data_def)
  then obtain h v where "cod_rlp_payload_info cod (l @ rest) = Some (h, v)" "h + v = length l"
    unfolding rlp_spans_def by blast
  ultimately show ?thesis
    using assms Type1
    by (auto simp: rlp_tx_data_def decode_one_tx_data_def index_def slice_from_def unwrap_rlp_def payload_total_def)
next
  case (Type2 val max_fee max_prio data al)
  then obtain l where e: "e = 2 # l" using assms by (auto simp: rlp_tx_data_def)
  moreover have "rlp_spans cod l rest" using assms Type2 e by (simp add: rlp_tx_data_def)
  then obtain h v where "cod_rlp_payload_info cod (l @ rest) = Some (h, v)" "h + v = length l"
    unfolding rlp_spans_def by blast
  ultimately show ?thesis
    using assms Type2
    by (auto simp: rlp_tx_data_def decode_one_tx_data_def index_def slice_from_def unwrap_rlp_def payload_total_def)
qed

lemma index_mid [simp]: "index (map f (pre @ t # post)) (length pre) = Ok (f t)"
  by (simp add: index_def nth_append)

lemma map_filter_append: "List.map_filter f (xs @ ys) = List.map_filter f xs @ List.map_filter f ys"
  by (induction xs) (auto simp: List.map_filter_simps split: option.splits)

lemma to_item_columns_of:
  "to_item (columns_of (pre @ t # post)) (length pre) (length (List.map_filter stx_to pre)) =
     Ok (stx_to_item t, length (List.map_filter stx_to (pre @ [t])))"
proof (cases "stx_to t")
  case None
  then show ?thesis
    by (simp add: to_item_def columns_of_def stx_to_item_def map_filter_append List.map_filter_simps
        del: map_append)
next
  case (Some a)
  then show ?thesis
    by (simp add: to_item_def columns_of_def stx_to_item_def map_filter_append List.map_filter_simps
        index_def nth_append)
qed

lemma decode_one_tx_columns_of:
  "decode_one_tx cod chain_id (columns_of (pre @ t # post)) (length pre)
     (length (filter (is_legacy \<circ> stx_data) pre)) (length (List.map_filter stx_to pre)) =
   Ok (span_tx_raw cod chain_id t,
       length (filter (is_legacy \<circ> stx_data) (pre @ [t])), length (List.map_filter stx_to (pre @ [t])))"
proof -
  let ?c = "columns_of (pre @ t # post)"
  have cols: "index (col_tx_datas ?c) (length pre) = Ok (stx_data t)"
    "index (col_tx_nonces ?c) (length pre) = Ok (stx_nonce t)"
    "index (col_tx_gas_limits ?c) (length pre) = Ok (stx_gas_limit t)"
    "index (col_y_parity_bits ?c) (length pre) = Ok (stx_y_parity t)"
    "index (col_signatures ?c) (length pre) = Ok (stx_signature t)"
    by (simp_all add: columns_of_def del: map_append)
  have prot: "index (col_protected_bits ?c) (length (filter (is_legacy \<circ> stx_data) pre)) = Ok (stx_protected t)"
    if "is_legacy (stx_data t)"
    using that by (simp add: columns_of_def index_def nth_append)
  show ?thesis
    using prot
    by (cases "stx_data t")
      (simp_all add: decode_one_tx_def cols to_item_columns_of span_tx_raw_def Let_def)
qed

lemma decode_rows_columns_of:
  "decode_rows cod chain_id (columns_of (pre @ post)) [length pre..<length pre + length post]
     (length (filter (is_legacy \<circ> stx_data) pre)) (length (List.map_filter stx_to pre)) =
   Ok (map (span_tx_raw cod chain_id) post)"
proof (induction post arbitrary: pre)
  case (Cons t post)
  have eq: "[length pre..<length pre + length (t # post)] =
      length pre # [length (pre @ [t])..<length (pre @ [t]) + length post]"
    by (simp add: upt_rec [of "length pre"] Suc_le_eq)
  have app: "pre @ t # post = (pre @ [t]) @ post" by simp
  have IH: "decode_rows cod chain_id (columns_of (pre @ t # post))
      [length (pre @ [t])..<length (pre @ [t]) + length post]
      (length (filter (is_legacy \<circ> stx_data) (pre @ [t]))) (length (List.map_filter stx_to (pre @ [t]))) =
    Ok (map (span_tx_raw cod chain_id) post)"
    unfolding app by (rule Cons.IH)
  show ?case
    unfolding eq decode_rows.simps decode_one_tx_columns_of and_then.simps prod.case IH by simp
qed simp

lemma decode_transactions_roundtrip:
  assumes varint: "varint_roundtrip cod enc_v"
    and datas: "\<forall>t \<in> set txs. rlp_tx_data cod (stx_data t) (enc_td (stx_data t))"
    and len: "length txs + 7 < 2 ^ 64"
  shows "decode_transactions cod chain_id (span_txs_bytes enc_v enc_td txs @ rest) (of_nat (length txs)) =
    Ok (map (span_tx_raw cod chain_id) txs, rest)"
proof -
  have n: "unat (of_nat (length txs) :: u64) = length txs"
    using len by (simp add: unat_of_nat take_bit_nat_eq_self)
  have bits: "decode_bitlist (encode_bitlist (map f txs) @ r) (of_nat (length txs)) = Ok (map f txs, r)" for f r
    using decode_bitlist_encode [of "map f txs" r] len by simp
  have le: "length (List.map_filter stx_to txs) < 2 ^ 64"
    using len by (simp add: List.map_filter_def order.strict_trans1 [OF length_filter_le])
  have tos_count: "length (filter (\<lambda>b. \<not> b) (map (\<lambda>t. stx_to t = None) txs)) = length (List.map_filter stx_to txs)"
    by (simp add: List.map_filter_def filter_map comp_def)
  have sigs: "decode_signatures (concat (map (\<lambda>(r, s). to_be_bytes 32 r @ to_be_bytes 32 s) (map stx_signature txs)) @ r)
      (of_nat (length txs)) = Ok (map stx_signature txs, r)" for r
    using decode_signatures_roundtrip [of "map stx_signature txs" r] len by (simp del: map_map)
  have tds: "decode_tx_data cod (concat (map enc_td (map stx_data txs)) @ r) (of_nat (length txs)) = Ok (map stx_data txs, r)" for r
  proof -
    have "decode_n (decode_one_tx_data cod) (length (map stx_data txs)) (concat (map enc_td (map stx_data txs)) @ r) =
        Ok (map stx_data txs, r)"
      by (rule decode_n_roundtrip) (use datas in \<open>auto intro: decode_one_tx_data_roundtrip\<close>)
    then show ?thesis by (simp add: decode_tx_data_def n)
  qed
  have uv: "decode_uvarint_list cod (concat (map enc_v (map f txs)) @ r) (of_nat (length txs)) = Ok (map f txs, r)" for f r
    using decode_n_roundtrip [of "map f txs" "varint_unwrap cod" enc_v r] varint
    by (auto simp: decode_uvarint_list_def n varint_unwrap_def varint_roundtrip_def simp del: map_map)
  have leg: "length (filter is_legacy (map stx_data txs)) = length (filter (is_legacy \<circ> stx_data) txs)"
    by (simp add: filter_map)
  have prot: "decode_bitlist (encode_bitlist (map stx_protected (filter (is_legacy \<circ> stx_data) txs)) @ r)
      (of_nat (length (filter (is_legacy \<circ> stx_data) txs))) = Ok (map stx_protected (filter (is_legacy \<circ> stx_data) txs), r)" for r
  proof -
    have "length (filter (is_legacy \<circ> stx_data) txs) + 7 < 2 ^ 64"
      using len length_filter_le [of "is_legacy \<circ> stx_data" txs] by linarith
    then show ?thesis
      using decode_bitlist_encode [of "map stx_protected (filter (is_legacy \<circ> stx_data) txs)" r] by simp
  qed
  show ?thesis
    using decode_rows_columns_of [of cod chain_id "[]" txs]
    unfolding decode_transactions_def span_txs_bytes_def append_assoc bits and_then.simps prod.case sigs
      tos_count Let_def decode_tos_roundtrip [OF le] tds uv leg prot
    by (simp add: n columns_of_def List.map_filter_simps)
qed

section \<open>The blocks a span batch stands for\<close>

definition set_bits :: "bool list \<Rightarrow> nat" where
  "set_bits bs = length (filter (\<lambda>b. b) bs)"

definition txs_before :: "span_batch \<Rightarrow> nat \<Rightarrow> nat" where
  "txs_before b i = sum_list (map unat (take i (sp_block_tx_counts b)))"

definition span_wf :: "span_batch \<Rightarrow> bool" where
  "span_wf b \<longleftrightarrow>
     length (sp_origin_bits b) = unat (sp_block_count b) \<and>
     length (sp_block_tx_counts b) = unat (sp_block_count b) \<and>
     sum_list (map unat (sp_block_tx_counts b)) = length (sp_transactions b)"

text \<open>Block \<open>j\<close> of the batch, its epoch counted back from the L1 origin of the last block.\<close>

definition span_block :: "span_batch \<Rightarrow> config \<Rightarrow> nat \<Rightarrow> u64 block_input" where
  "span_block b config j =
     \<lparr>bin_timestamp = sp_rel_timestamp b + bi_timestamp (cc_l2_genesis (cfg_chain config)) +
        of_nat j * cc_blocktime (cfg_chain config),
      bin_epoch = sp_l1_origin_num b - of_nat (set_bits (drop (Suc j) (sp_origin_bits b))),
      bin_transactions = take (unat (sp_block_tx_counts b ! j)) (drop (txs_before b j) (sp_transactions b)),
      bin_l1_inclusion_block = sp_l1_inclusion_block b\<rparr>"

lemma origin_bit_sum_set_bits: "origin_bit_sum bs = of_nat (set_bits bs)"
  by (induction bs) (auto simp: origin_bit_sum_def set_bits_def)

lemma txs_before_Suc:
  "j < length (sp_block_tx_counts b) \<Longrightarrow>
     txs_before b (Suc j) = txs_before b j + unat (sp_block_tx_counts b ! j)"
  by (simp add: txs_before_def take_Suc_conv_app_nth)

lemma txs_before_le: "span_wf b \<Longrightarrow> txs_before b j \<le> length (sp_transactions b)"
  by (metis append_take_drop_id le_add1 map_append span_wf_def sum_list_append txs_before_def)

lemma span_inputs_from_spec:
  assumes wf: "span_wf b" and "i + k = unat (sp_block_count b)"
  shows "span_inputs_from b config [i..<unat (sp_block_count b)]
      (sp_l1_origin_num b - of_nat (set_bits (drop i (sp_origin_bits b)))) (txs_before b i) =
    Ok (map (span_block b config) [i..<unat (sp_block_count b)])"
  using assms(2)
proof (induction k arbitrary: i)
  case (Suc k)
  let ?n = "unat (sp_block_count b)"
  have i: "i < ?n" using Suc.prems by simp
  have len: "length (sp_origin_bits b) = ?n" "length (sp_block_tx_counts b) = ?n"
    using wf by (simp_all add: span_wf_def)
  have bits: "drop i (sp_origin_bits b) = sp_origin_bits b ! i # drop (Suc i) (sp_origin_bits b)"
    using i len by (simp add: Cons_nth_drop_Suc)
  have epoch: "(if sp_origin_bits b ! i
      then sp_l1_origin_num b - of_nat (set_bits (drop i (sp_origin_bits b))) + 1
      else sp_l1_origin_num b - of_nat (set_bits (drop i (sp_origin_bits b)))) =
      sp_l1_origin_num b - of_nat (set_bits (drop (Suc i) (sp_origin_bits b)))"
    by (simp add: bits set_bits_def)
  have next_tx: "txs_before b i + unat (sp_block_tx_counts b ! i) = txs_before b (Suc i)"
    using i len by (simp add: txs_before_Suc)
  have sl: "slice (sp_transactions b) (txs_before b i) (txs_before b (Suc i)) =
      Ok (take (unat (sp_block_tx_counts b ! i)) (drop (txs_before b i) (sp_transactions b)))"
    using txs_before_le [OF wf, of "Suc i"] by (simp add: slice_def flip: next_tx)
  have up: "[i..<?n] = i # [Suc i..<?n]" using i by (simp add: upt_conv_Cons)
  have IH: "span_inputs_from b config [Suc i..<?n]
      (sp_l1_origin_num b - of_nat (set_bits (drop (Suc i) (sp_origin_bits b)))) (txs_before b (Suc i)) =
    Ok (map (span_block b config) [Suc i..<?n])"
    using Suc.prems by (intro Suc.IH) simp
  show ?case
    using i len
    by (simp add: up index_def Let_def epoch next_tx sl IH) (simp add: span_block_def)
qed simp

lemma span_block_inputs_wf:
  assumes "span_wf b"
  shows "span_block_inputs b config = Ok (map (span_block b config) [0..<unat (sp_block_count b)])"
  using span_inputs_from_spec [OF assms, of 0 "unat (sp_block_count b)" config]
  by (simp add: span_block_inputs_def origin_bit_sum_set_bits txs_before_def)

lemma concat_span_transactions:
  assumes "span_wf b" and "j \<le> unat (sp_block_count b)"
  shows "concat (map (bin_transactions \<circ> span_block b config) [0..<j]) = take (txs_before b j) (sp_transactions b)"
  using assms(2)
proof (induction j)
  case (Suc j)
  then have "j < length (sp_block_tx_counts b)" using assms(1) by (simp add: span_wf_def)
  then show ?case
    using Suc by (simp add: txs_before_Suc take_add span_block_def)
qed (simp add: txs_before_def)

lemma txs_before_all: "span_wf b \<Longrightarrow> txs_before b (unat (sp_block_count b)) = length (sp_transactions b)"
  by (simp add: txs_before_def span_wf_def)

lemma decode_rows_length: "decode_rows cod chain_id c is l t = Ok txs \<Longrightarrow> length txs = length is"
  by (induction "is" arbitrary: l t txs) (auto simp: outcome_simps)

lemma decode_transactions_length:
  "decode_transactions cod chain_id data n = Ok (txs, rest) \<Longrightarrow> length txs = unat n"
  by (auto simp: decode_transactions_def Let_def outcome_simps dest!: decode_rows_length)

text \<open>A decoded batch is well-formed, unless its transaction counts overflow 64 bits in sum.\<close>

lemma span_batch_decode_wf:
  assumes "span_batch_decode cod data l1 chain_id = Ok b"
    and "sum_list (map unat (sp_block_tx_counts b)) < 2 ^ 64"
  shows "span_wf b"
proof -
  have "length (sp_origin_bits b) = unat (sp_block_count b)"
    "length (sp_block_tx_counts b) = unat (sp_block_count b)"
    "length (sp_transactions b) = unat (sum_list (sp_block_tx_counts b))"
    using assms(1)
    by (auto simp: span_batch_decode_def Let_def outcome_simps decode_block_tx_counts_def
        dest!: decode_bitlist_length decode_n_length decode_transactions_length)
  then show ?thesis
    using unat_sum_list_no_wrap [of "sp_block_tx_counts b"] assms(2) by (simp add: span_wf_def)
qed

section \<open>Properties\<close>

definition span_batch_bytes ::
  "(u64 \<Rightarrow> bytes) \<Rightarrow> (tx_data \<Rightarrow> bytes) \<Rightarrow> u64 \<Rightarrow> u64 \<Rightarrow> bytes \<Rightarrow> bytes \<Rightarrow> bool list \<Rightarrow> u64 list \<Rightarrow> span_tx list \<Rightarrow> bytes" where
  "span_batch_bytes enc_v enc_td rel_timestamp l1_origin_num parent_check l1_origin_check origin_bits counts txs =
     enc_v rel_timestamp @ enc_v l1_origin_num @ parent_check @ l1_origin_check @
     enc_v (of_nat (length origin_bits)) @ encode_bitlist origin_bits @ concat (map enc_v counts) @
     span_txs_bytes enc_v enc_td txs"

lemma span_batch_decode_bytes:
  assumes "varint_roundtrip cod enc_v"
    and "\<forall>t \<in> set txs. rlp_tx_data cod (stx_data t) (enc_td (stx_data t))"
    and "length parent_check = 20" and "length l1_origin_check = 20"
    and "length origin_bits + 7 < 2 ^ 64" and "length counts = length origin_bits"
    and "length txs + 7 < 2 ^ 64" and "sum_list counts = of_nat (length txs)"
  shows "span_batch_decode cod
      (span_batch_bytes enc_v enc_td rel_timestamp l1_origin_num parent_check l1_origin_check origin_bits counts txs)
      l1_inclusion_block chain_id =
    Ok \<lparr>sp_rel_timestamp = rel_timestamp, sp_l1_origin_num = l1_origin_num, sp_parent_check = parent_check,
        sp_l1_origin_check = l1_origin_check, sp_block_count = of_nat (length origin_bits),
        sp_origin_bits = origin_bits, sp_block_tx_counts = counts,
        sp_transactions = map (span_tx_raw cod chain_id) txs, sp_l1_inclusion_block = l1_inclusion_block\<rparr>"
proof -
  have v: "varint_try cod (enc_v n @ r) = Ok (n, r)" for n r
    using assms(1) by (simp add: varint_try_def varint_roundtrip_def)
  have n: "unat (of_nat (length origin_bits) :: u64) = length origin_bits"
    using assms(5) by (simp add: unat_of_nat take_bit_nat_eq_self)
  have counts: "decode_block_tx_counts cod (concat (map enc_v counts) @ r) (of_nat (length origin_bits)) = Ok (counts, r)" for r
    using decode_n_roundtrip [of counts "varint_unwrap cod" enc_v r] assms(1,6)
    by (simp add: decode_block_tx_counts_def n varint_unwrap_def varint_roundtrip_def)
  have txs: "decode_transactions cod chain_id (span_txs_bytes enc_v enc_td txs) (of_nat (length txs)) =
      Ok (map (span_tx_raw cod chain_id) txs, [])"
    using decode_transactions_roundtrip [OF assms(1,2,7), of chain_id "[]"] by simp
  show ?thesis
    unfolding span_batch_decode_def span_batch_bytes_def
    by (simp only: v and_then.simps prod.case take_data_append [OF assms(3)] take_data_append [OF assms(4)]
        decode_bitlist_encode [OF assms(5)] counts Let_def assms(8) txs)
qed

text \<open>
  Decoding a span batch is inverse to its column layout: from the bytes of the prefix, the
  origin bits, the transaction counts and the transaction columns it rebuilds every field, and
  from the columns each transaction in the signed encoding of its type, given only that
  the varint and RLP libraries decode what was encoded.
\<close>

lemma span_batch_roundtrip:
  assumes "varint_roundtrip cod enc_v"
    and "\<forall>t \<in> set txs. rlp_tx_data cod (stx_data t) (enc_td (stx_data t))"
    and "length parent_check = 20" and "length l1_origin_check = 20"
    and "length origin_bits + 7 < 2 ^ 64" and "length counts = length origin_bits"
    and "length txs + 7 < 2 ^ 64" and "sum_list counts = of_nat (length txs)"
  shows "span_batch_decode cod
      (span_batch_bytes enc_v enc_td rel_timestamp l1_origin_num parent_check l1_origin_check origin_bits counts txs)
      l1_inclusion_block chain_id =
    Ok \<lparr>sp_rel_timestamp = rel_timestamp, sp_l1_origin_num = l1_origin_num, sp_parent_check = parent_check,
        sp_l1_origin_check = l1_origin_check, sp_block_count = of_nat (length origin_bits),
        sp_origin_bits = origin_bits, sp_block_tx_counts = counts,
        sp_transactions = map (span_tx_raw cod chain_id) txs, sp_l1_inclusion_block = l1_inclusion_block\<rparr>"
  by (rule span_batch_decode_bytes [OF assms])

definition sample_codec :: codec where
  "sample_codec =
     \<lparr>cod_varint = (\<lambda>d. if length d < 8 then None else Some (from_be_bytes (take 8 d), drop 8 d)),
      cod_rlp_u64_at = (\<lambda>_ _. Some 1), cod_rlp_u256_at = (\<lambda>_ i. Some (of_nat i)), cod_rlp_h256_at = (\<lambda>_ _. Some 0),
      cod_rlp_bytes_at = (\<lambda>_ _. Some [9]), cod_rlp_access_list_at = (\<lambda>_ _. Some []),
      cod_rlp_list_at = (\<lambda>_ _. Some []), cod_rlp_as_bytes = (\<lambda>d. Some d),
      cod_rlp_payload_info = (\<lambda>_. Some (1, 2)), cod_rlp_list_out = (\<lambda>items. [0xc0 + of_nat (length items)]),
      cod_zlib = (\<lambda>d. Some d)\<rparr>"

lemma varint_roundtrip_sample: "varint_roundtrip sample_codec (to_be_bytes 8)"
  by (simp add: varint_roundtrip_def sample_codec_def)

definition sample_span_tx :: span_tx where
  "sample_span_tx =
     \<lparr>stx_data = Legacy 0 1 [9], stx_nonce = 3, stx_gas_limit = 21000, stx_to = Some 77, stx_y_parity = True,
      stx_signature = (5, 6), stx_protected = True\<rparr>"

lemma span_batch_roundtrip_witness:
  "span_batch_decode sample_codec
     (span_batch_bytes (to_be_bytes 8) (\<lambda>_. [0xc2, 0, 0]) 100 7 (replicate 20 1) (replicate 20 2)
        [True, False] [0, 1] [sample_span_tx]) 8 10 =
   Ok \<lparr>sp_rel_timestamp = 100, sp_l1_origin_num = 7, sp_parent_check = replicate 20 1,
       sp_l1_origin_check = replicate 20 2, sp_block_count = 2, sp_origin_bits = [True, False],
       sp_block_tx_counts = [0, 1], sp_transactions = [span_tx_raw sample_codec 10 sample_span_tx],
       sp_l1_inclusion_block = 8\<rparr>"
  using span_batch_roundtrip [OF varint_roundtrip_sample, of "[sample_span_tx]" "\<lambda>_. [0xc2, 0, 0]"
      "replicate 20 1" "replicate 20 2" "[True, False]" "[0, 1]" 100 7 8 10]
  by (simp add: rlp_tx_data_def rlp_spans_def sample_span_tx_def sample_codec_def)

text \<open>
  A well-formed span batch yields one block input per block, in order: the timestamps
  advance by the block time from the batch's start, the epoch of a block is the batch's L1 origin
  less the epoch changes after it (so the last block has the L1 origin itself and the first one
  the start epoch), and the transactions of the blocks are the batch's transactions cut in order.
\<close>

lemma span_block_inputs_correct:
  assumes "span_wf b" and "sp_block_count b \<noteq> 0"
  shows "\<exists>inputs. span_block_inputs b config = Ok inputs \<and>
    length inputs = unat (sp_block_count b) \<and>
    concat (map bin_transactions inputs) = sp_transactions b \<and>
    bin_epoch (last inputs) = sp_l1_origin_num b \<and>
    start_epoch_num b = Ok (bin_epoch (hd inputs)) \<and>
    (\<forall>j < length inputs.
       bin_timestamp (inputs ! j) = sp_rel_timestamp b + bi_timestamp (cc_l2_genesis (cfg_chain config)) +
         of_nat j * cc_blocktime (cfg_chain config) \<and>
       bin_epoch (inputs ! j) = sp_l1_origin_num b - of_nat (set_bits (drop (Suc j) (sp_origin_bits b))) \<and>
       unat (sp_block_tx_counts b ! j) = length (bin_transactions (inputs ! j)))"
proof -
  let ?n = "unat (sp_block_count b)"
  let ?inputs = "map (span_block b config) [0..<?n]"
  have n: "0 < ?n" using assms(2) by (simp add: unat_gt_0)
  then have last: "last [0..<?n] = ?n - 1" and hd: "hd [0..<?n] = 0" by (simp_all add: last_upt)
  have len: "length (sp_origin_bits b) = ?n" "length (sp_block_tx_counts b) = ?n"
    using assms(1) by (simp_all add: span_wf_def)
  then obtain b0 bs where bits: "sp_origin_bits b = b0 # bs" using n by (cases "sp_origin_bits b") auto
  have concat: "concat (map bin_transactions ?inputs) = sp_transactions b"
    using concat_span_transactions [OF assms(1), of ?n] txs_before_all [OF assms(1)] by simp
  have txs: "unat (sp_block_tx_counts b ! j) = length (bin_transactions (span_block b config j))" if "j < ?n" for j
    using txs_before_le [OF assms(1), of "Suc j"] that len
    by (simp add: span_block_def txs_before_Suc)
  have "bin_epoch (last ?inputs) = sp_l1_origin_num b"
    using n len by (simp add: last_map last span_block_def set_bits_def)
  moreover have "start_epoch_num b = Ok (bin_epoch (hd ?inputs))"
    using n by (simp add: start_epoch_num_def index_def hd_map hd span_block_def bits origin_bit_sum_set_bits set_bits_def)
  ultimately show ?thesis
    using span_block_inputs_wf [OF assms(1)] concat txs by (auto simp: span_block_def)
qed

lemma span_block_inputs_correct_witness:
  "\<exists>inputs. span_block_inputs
     \<lparr>sp_rel_timestamp = 100, sp_l1_origin_num = 7, sp_parent_check = [], sp_l1_origin_check = [],
      sp_block_count = 2, sp_origin_bits = [True, False], sp_block_tx_counts = [0, 1],
      sp_transactions = [RawTransaction [1]], sp_l1_inclusion_block = 8\<rparr> (sample_config optimism) = Ok inputs \<and>
     concat (map bin_transactions inputs) = [RawTransaction [1]] \<and> bin_epoch (last inputs) = 7"
  using span_block_inputs_correct [of "\<lparr>sp_rel_timestamp = 100, sp_l1_origin_num = 7, sp_parent_check = [],
      sp_l1_origin_check = [], sp_block_count = 2, sp_origin_bits = [True, False], sp_block_tx_counts = [0, 1],
      sp_transactions = [RawTransaction [1]], sp_l1_inclusion_block = 8\<rparr>" "sample_config optimism"]
  by (auto simp: span_wf_def)

end
