(* ===== verification/Batches.thy ===== *)
theory Batches
  imports Channels Span_Batch
begin

text \<open>
  \<^verbatim>\<open>src/src/derive/stages/batches.rs\<close>: the batch queue. Channels are decompressed and decoded into
  batches, kept by timestamp; each call drops the invalid batches at the front, takes the first valid one
  and hands on its blocks, or an empty block when the sequencing window has passed without a batch.

  The stage is generic in the channel stage below it. It reads the derivation state through a shared
  lock; here the state is an argument of each call. Decompression and RLP decoding are the
  parameters of the \<open>codec\<close>.

  Shown: the loop over the queue ends and takes the first batch that is not dropped; what an
  accepted single batch satisfies; every block handed on lies after the safe head; a passed
  sequencing window always yields a block; purging composes.
\<close>

datatype batch = Single single_batch | Span span_batch

datatype batch_status_t = Drop | Accept | Undecided | Future

record 'i batches =
  bs_batches :: "(u64, batch) btree"
  bs_pending_inputs :: "u64 block_input list"
  bs_channel_iter :: 'i
  bs_config :: config

definition batches_new :: "'i \<Rightarrow> config \<Rightarrow> 'i batches" where
  "batches_new channel_iter config =
     \<lparr>bs_batches = bt_empty, bs_pending_inputs = [], bs_channel_iter = channel_iter, bs_config = config\<rparr>"

definition batches_purge :: "('i \<Rightarrow> 'i) \<Rightarrow> 'i batches \<Rightarrow> 'i batches" where
  "batches_purge purge_iter s =
     s\<lparr>bs_channel_iter := purge_iter (bs_channel_iter s), bs_batches := bt_empty, bs_pending_inputs := []\<rparr>"

definition batch_timestamp :: "config \<Rightarrow> batch \<Rightarrow> u64" where
  "batch_timestamp config b =
     (case b of
        Single sb \<Rightarrow> sb_timestamp sb
      | Span sp \<Rightarrow> sp_rel_timestamp sp + bi_timestamp (cc_l2_genesis (cfg_chain config)))"

definition as_inputs :: "config \<Rightarrow> batch \<Rightarrow> u64 block_input list outcome" where
  "as_inputs config b =
     (case b of
        Single sb \<Rightarrow> Ok [single_block_input sb]
      | Span sp \<Rightarrow> span_block_inputs sp config)"

section \<open>Decoding a channel\<close>

text \<open>The loop over the decompressed data; its last argument collects the batches.\<close>

function decode_batches_from ::
  "codec \<Rightarrow> channel \<Rightarrow> u64 \<Rightarrow> bytes \<Rightarrow> nat \<Rightarrow> batch list \<Rightarrow> batch list outcome" where
  "decode_batches_from cod channel chain_id channel_data offset batches =
     (if offset < length channel_data then
        and_then (slice_from channel_data offset) (\<lambda>batch_rlp.
        and_then (rlp_try (cod_rlp_payload_info cod batch_rlp)) (\<lambda>batch_info.
        and_then (rlp_try (cod_rlp_as_bytes cod batch_rlp)) (\<lambda>batch_data.
        and_then (index batch_data 0) (\<lambda>version.
        and_then (slice_from batch_data 1) (\<lambda>batch_content.
        if version = 0 then
          and_then (rlp_try (cod_rlp_payload_info cod batch_content)) (\<lambda>info.
          and_then (single_batch_decode cod batch_content (ch_l1_inclusion_block channel)) (\<lambda>batch.
          decode_batches_from cod channel chain_id channel_data
            (offset + (payload_total info + fst batch_info + 1)) (batches @ [Single batch])))
        else if version = 1 then
          and_then (span_batch_decode cod batch_content (ch_l1_inclusion_block channel) chain_id) (\<lambda>batch.
          Ok (batches @ [Span batch]))
        else Err (Eyre ''invalid batch version''))))))
      else Ok batches)"
  by pat_completeness auto
termination
  by (relation "measure (\<lambda>(_, _, _, d, off, _). length d - off)") auto

declare decode_batches_from.simps [simp del]

definition decode_batches :: "codec \<Rightarrow> channel \<Rightarrow> u64 \<Rightarrow> batch list outcome" where
  "decode_batches cod channel chain_id =
     (case cod_zlib cod (ch_data channel) of
        None \<Rightarrow> Err (External ''zlib'')
      | Some channel_data \<Rightarrow> decode_batches_from cod channel chain_id channel_data 0 [])"

section \<open>Validity of a batch\<close>

definition single_batch_status :: "derive_state \<Rightarrow> config \<Rightarrow> single_batch \<Rightarrow> batch_status_t" where
  "single_batch_status state config batch =
     (let epoch = st_safe_epoch state;
          next_epoch = epoch_by_number state (ep_number epoch + 1);
          head = st_safe_head state;
          next_timestamp = bi_timestamp head + cc_blocktime (cfg_chain config)
      in if next_timestamp < sb_timestamp batch then Future
         else if sb_timestamp batch < next_timestamp then Drop
         else if sb_parent_hash batch \<noteq> bi_hash head then Drop
         else if sb_epoch_num batch + cc_seq_window_size (cfg_chain config) < sb_l1_inclusion_block batch then Drop
         else if sb_epoch_num batch \<noteq> ep_number epoch \<and> sb_epoch_num batch \<noteq> ep_number epoch + 1 then Drop
         else
           case (if sb_epoch_num batch = ep_number epoch then Some epoch else next_epoch) of
             None \<Rightarrow> Undecided
           | Some batch_origin \<Rightarrow>
               if sb_epoch_hash batch \<noteq> ep_hash batch_origin then Drop
               else if sb_timestamp batch < ep_timestamp batch_origin then Drop
               else
                 let drift =
                   (if ep_timestamp batch_origin + cc_max_seq_drift (cfg_chain config) < sb_timestamp batch then
                      if sb_transactions batch = [] then
                        if ep_number epoch = sb_epoch_num batch then
                          (case next_epoch of
                             Some e \<Rightarrow> if ep_timestamp e \<le> sb_timestamp batch then Some Drop else None
                           | None \<Rightarrow> Some Undecided)
                        else None
                      else Some Drop
                    else None)
                 in (case drift of
                       Some status \<Rightarrow> status
                     | None \<Rightarrow> if has_invalid_transactions batch then Drop else Accept))"

text \<open>The two loops of the span batch check; \<open>None\<close> means that no input decided the status.\<close>

fun span_drift_check ::
  "derive_state \<Rightarrow> config \<Rightarrow> span_batch \<Rightarrow> nat \<Rightarrow> u64 block_input list \<Rightarrow> batch_status_t option outcome" where
  "span_drift_check state config batch i [] = Ok None"
| "span_drift_check state config batch i (input # inputs) =
     and_then (unwrap_opt (epoch_by_number state (bin_epoch input)) ''called unwrap on a None value'') (\<lambda>input_epoch.
     let next_epoch = epoch_by_number state (bin_epoch input + 1)
     in if bin_timestamp input < ep_timestamp input_epoch then Ok (Some Drop)
        else if ep_timestamp input_epoch + cc_max_seq_drift (cfg_chain config) < bin_timestamp input then
          if bin_transactions input = [] then
            and_then (index (sp_origin_bits batch) i) (\<lambda>bit.
            if \<not> bit then
              (case next_epoch of
                 Some e \<Rightarrow>
                   if ep_timestamp e \<le> bin_timestamp input then Ok (Some Drop)
                   else span_drift_check state config batch (i + 1) inputs
               | None \<Rightarrow> Ok (Some Undecided))
            else span_drift_check state config batch (i + 1) inputs)
          else Ok (Some Drop)
        else span_drift_check state config batch (i + 1) inputs)"

fun span_overlap_check ::
  "derive_state \<Rightarrow> u64 \<Rightarrow> u64 block_input list \<Rightarrow> batch_status_t option outcome" where
  "span_overlap_check state next_timestamp [] = Ok None"
| "span_overlap_check state next_timestamp (input # inputs) =
     (if bin_timestamp input < next_timestamp then
        and_then (l2_info_by_timestamp state (bin_timestamp input)) (\<lambda>info.
        case info of
          Some (_, epoch) \<Rightarrow>
            if bin_epoch input \<noteq> ep_number epoch then Ok (Some Drop)
            else span_overlap_check state next_timestamp inputs
        | None \<Rightarrow> Ok (Some Drop))
      else span_overlap_check state next_timestamp inputs)"

definition hash_prefix :: "h256 \<Rightarrow> bytes" where
  "hash_prefix h = take 20 (to_be_bytes 32 h)"

definition span_batch_status :: "derive_state \<Rightarrow> config \<Rightarrow> span_batch \<Rightarrow> batch_status_t outcome" where
  "span_batch_status state config batch =
     (let chain = cfg_chain config;
          epoch = st_safe_epoch state;
          next_epoch = epoch_by_number state (ep_number epoch + 1);
          head = st_safe_head state;
          next_timestamp = bi_timestamp head + cc_blocktime chain
      in and_then (start_epoch_num batch) (\<lambda>start_epoch.
         let end_epoch_num = sp_l1_origin_num batch;
             span_start_timestamp = sp_rel_timestamp batch + bi_timestamp (cc_l2_genesis chain);
             span_end_timestamp = span_start_timestamp + sp_block_count batch * cc_blocktime chain
         in if span_end_timestamp < next_timestamp then Ok Drop
         else if next_timestamp < span_start_timestamp then Ok Future
         else
           case (if start_epoch = ep_number epoch + 1 then next_epoch else Some epoch) of
             None \<Rightarrow> Ok Undecided
           | Some batch_origin \<Rightarrow>
               if ep_timestamp batch_origin < cc_delta_time chain then Ok Drop else
               let prev_timestamp = span_start_timestamp - cc_blocktime chain
               in and_then (l2_info_by_timestamp state prev_timestamp) (\<lambda>prev.
               case prev of
                 None \<Rightarrow> Ok Drop
               | Some (prev_l2_block, prev_l2_epoch) \<Rightarrow>
                   if hash_prefix (bi_hash prev_l2_block) \<noteq> sp_parent_check batch then Ok Drop
                   else if start_epoch + cc_seq_window_size chain < sp_l1_inclusion_block batch then Ok Drop
                   else if bi_number prev_l2_block + 1 < start_epoch then Ok Drop
                   else
                     case epoch_by_number state end_epoch_num of
                       None \<Rightarrow> Ok Drop
                     | Some l1_origin \<Rightarrow>
                         if sp_l1_origin_check batch \<noteq> hash_prefix (ep_hash l1_origin) then Ok Drop
                         else if start_epoch < ep_number prev_l2_epoch then Ok Drop
                         else
                           and_then (span_block_inputs batch config) (\<lambda>block_inputs.
                           and_then (span_drift_check state config batch 0 block_inputs) (\<lambda>drift.
                           case drift of
                             Some status \<Rightarrow> Ok status
                           | None \<Rightarrow>
                               and_then (span_overlap_check state next_timestamp block_inputs) (\<lambda>overlap.
                               case overlap of Some status \<Rightarrow> Ok status | None \<Rightarrow> Ok Accept))))))"

definition batch_status :: "derive_state \<Rightarrow> config \<Rightarrow> batch \<Rightarrow> batch_status_t outcome" where
  "batch_status state config b =
     (case b of
        Single sb \<Rightarrow> Ok (single_batch_status state config sb)
      | Span sp \<Rightarrow> span_batch_status state config sp)"

section \<open>The next block input\<close>

definition filter_inputs :: "derive_state \<Rightarrow> u64 block_input list \<Rightarrow> u64 block_input list" where
  "filter_inputs state inputs = filter (\<lambda>input. bi_timestamp (st_safe_head state) < bin_timestamp input) inputs"

text \<open>
  The loop that looks for the first acceptable batch. A batch that is dropped is removed under
  its own timestamp; should that remove nothing, the loop would see the same batch again, for ever.
\<close>

function select_batch ::
  "derive_state \<Rightarrow> config \<Rightarrow> (u64, batch) btree \<Rightarrow> (batch option \<times> (u64, batch) btree) outcome" where
  "select_batch state config m =
     (case bt_first m of
        None \<Rightarrow> Ok (None, m)
      | Some (_, batch) \<Rightarrow>
          and_then (batch_status state config batch) (\<lambda>status.
          let m' = bt_remove (batch_timestamp config batch) m
          in case status of
               Accept \<Rightarrow> Ok (Some batch, m')
             | Drop \<Rightarrow> if length m' < length m then select_batch state config m' else Diverge
             | Future \<Rightarrow> Ok (None, m)
             | Undecided \<Rightarrow> Ok (None, m)))"
  by pat_completeness auto
termination
  by (relation "measure (\<lambda>(_, _, m). length m)") auto

declare select_batch.simps [simp del]

text \<open>The block derived without a batch, once the sequencing window has passed.\<close>

definition empty_input :: "derive_state \<Rightarrow> config \<Rightarrow> u64 block_input option" where
  "empty_input state config =
     (let current_l1_block = st_current_epoch_num state;
          safe_head = st_safe_head state;
          epoch = st_safe_epoch state;
          seq_window_size = cc_seq_window_size (cfg_chain config)
      in case epoch_by_number state (ep_number epoch + 1) of
           None \<Rightarrow> None
         | Some next_epoch \<Rightarrow>
             if ep_number epoch + seq_window_size < current_l1_block then
               let next_timestamp = bi_timestamp safe_head + cc_blocktime (cfg_chain config)
               in map_option (\<lambda>e. \<lparr>bin_timestamp = next_timestamp, bin_epoch = ep_number e,
                                    bin_transactions = [], bin_l1_inclusion_block = current_l1_block\<rparr>)
                   (if next_timestamp < ep_timestamp next_epoch then Some epoch
                    else if ep_number next_epoch + seq_window_size < current_l1_block then Some next_epoch
                    else None)
             else None)"

definition insert_batches :: "config \<Rightarrow> batch list \<Rightarrow> (u64, batch) btree \<Rightarrow> (u64, batch) btree" where
  "insert_batches config bs m = fold (\<lambda>b. bt_insert (batch_timestamp config b) b) bs m"

text \<open>What \<open>try_next\<close> does after the channel's batches have been inserted.\<close>

definition derive_next ::
  "derive_state \<Rightarrow> 'i batches \<Rightarrow> ((error + u64 block_input option) \<times> 'i batches) outcome" where
  "derive_next state s =
     and_then (select_batch state (bs_config s) (bs_batches s)) (\<lambda>(derived_batch, m).
     let s1 = s\<lparr>bs_batches := m\<rparr>
     in case derived_batch of
          Some b \<Rightarrow>
            and_then (as_inputs (bs_config s1) b) (\<lambda>all_inputs.
            case filter_inputs state all_inputs of
              [] \<Rightarrow> Ok (Inr None, s1)
            | first # inputs \<Rightarrow>
                Ok (Inr (Some first), s1\<lparr>bs_pending_inputs := bs_pending_inputs s1 @ inputs\<rparr>))
        | None \<Rightarrow> Ok (Inr (empty_input state (bs_config s1)), s1))"

text \<open>
  \<open>try_next\<close> may return an error (\<open>Inl\<close>) after the channel stage has moved on, so the new
  state comes with either result.
\<close>

definition try_next ::
  "codec \<Rightarrow> ('i \<Rightarrow> (channel option \<times> 'i) outcome) \<Rightarrow> derive_state \<Rightarrow> 'i batches \<Rightarrow>
   ((error + u64 block_input option) \<times> 'i batches) outcome" where
  "try_next cod next_channel state s =
     (case bs_pending_inputs s of
        input # inputs \<Rightarrow> Ok (Inr (Some input), s\<lparr>bs_pending_inputs := inputs\<rparr>)
      | [] \<Rightarrow>
          and_then (next_channel (bs_channel_iter s)) (\<lambda>(channel, it).
          let s1 = s\<lparr>bs_channel_iter := it\<rparr>
          in case channel of
               None \<Rightarrow> derive_next state s1
             | Some ch \<Rightarrow>
                 (case decode_batches cod ch (cc_l2_chain_id (cfg_chain (bs_config s1))) of
                    Ok bs \<Rightarrow> derive_next state (s1\<lparr>bs_batches := insert_batches (bs_config s1) bs (bs_batches s1)\<rparr>)
                  | Err e \<Rightarrow> Ok (Inl e, s1)
                  | Panic p \<Rightarrow> Panic p
                  | Diverge \<Rightarrow> Diverge)))"

definition batches_next ::
  "codec \<Rightarrow> ('i \<Rightarrow> (channel option \<times> 'i) outcome) \<Rightarrow> derive_state \<Rightarrow> 'i batches \<Rightarrow>
   (u64 block_input option \<times> 'i batches) outcome" where
  "batches_next cod next_channel state s =
     and_then (try_next cod next_channel state s) (\<lambda>(r, s').
     Ok (case r of Inr x \<Rightarrow> x | Inl _ \<Rightarrow> None, s'))"

section \<open>No loop runs for ever\<close>

lemma decode_n_not_Diverge: "(\<And>d. f d \<noteq> Diverge) \<Longrightarrow> decode_n f n data \<noteq> Diverge"
  by (induction n arbitrary: data) (auto simp: outcome_simps)

lemma take_data_not_Diverge [simp]: "take_data d n \<noteq> Diverge"
  by (auto simp: take_data_def outcome_simps)

lemma decode_bitlist_not_Diverge [simp]: "decode_bitlist d n \<noteq> Diverge"
  by (auto simp: decode_bitlist_def Let_def outcome_simps)

lemma decode_columns_not_Diverge [simp]:
  "decode_signatures d n \<noteq> Diverge" "decode_tos d n \<noteq> Diverge" "decode_tx_data cod d n \<noteq> Diverge"
  "decode_uvarint_list cod d n \<noteq> Diverge" "decode_block_tx_counts cod d n \<noteq> Diverge"
  unfolding decode_signatures_def decode_tos_def decode_tx_data_def decode_uvarint_list_def
    decode_block_tx_counts_def
  by (rule decode_n_not_Diverge; auto simp: outcome_simps decode_u256_def decode_address_def
      decode_one_tx_data_def varint_unwrap_def unwrap_rlp_def split: if_splits)+

lemma to_item_not_Diverge [simp]: "to_item c i t \<noteq> Diverge"
  by (auto simp: to_item_def outcome_simps)

lemma decode_one_tx_not_Diverge [simp]: "decode_one_tx cod chain_id c i l t \<noteq> Diverge"
  by (auto simp: decode_one_tx_def outcome_simps Let_def split: tx_data.splits)

lemma decode_rows_not_Diverge [simp]: "decode_rows cod chain_id c is l t \<noteq> Diverge"
  by (induction "is" arbitrary: l t) (auto simp: outcome_simps)

lemma span_batch_decode_not_Diverge [simp]: "span_batch_decode cod d l1 chain_id \<noteq> Diverge"
proof -
  have "decode_transactions cod chain_id d' n \<noteq> Diverge" for d' n
    by (auto simp: decode_transactions_def outcome_simps Let_def)
  moreover have "varint_try cod d' \<noteq> Diverge" for d'
    by (auto simp: varint_try_def split: option.splits)
  ultimately show ?thesis
    by (auto simp: span_batch_decode_def outcome_simps Let_def)
qed

lemma decode_batches_from_not_Diverge: "decode_batches_from cod ch chain_id d off bs \<noteq> Diverge"
proof (induction cod ch chain_id d off bs rule: decode_batches_from.induct)
  case (1 cod channel chain_id channel_data offset batches)
  then show ?case
    by (subst decode_batches_from.simps)
      (auto simp: outcome_simps single_batch_decode_safe split: if_splits)
qed

lemma decode_batches_not_Diverge [simp]: "decode_batches cod ch chain_id \<noteq> Diverge"
  by (auto simp: decode_batches_def decode_batches_from_not_Diverge split: option.splits)

lemma span_inputs_from_not_Diverge [simp]: "span_inputs_from b config is e t \<noteq> Diverge"
  by (induction "is" arbitrary: e t) (auto simp: outcome_simps Let_def)

lemma span_block_inputs_not_Diverge [simp]: "span_block_inputs b config \<noteq> Diverge"
  by (simp add: span_block_inputs_def)

lemma l2_info_not_Diverge [simp]: "l2_info_by_timestamp state t \<noteq> Diverge"
  by (auto simp: l2_info_by_timestamp_def Let_def outcome_simps checked_div_def)

lemma span_drift_check_not_Diverge [simp]: "span_drift_check state config b i inputs \<noteq> Diverge"
  by (induction inputs arbitrary: i) (auto simp: outcome_simps Let_def split: if_splits option.splits)

lemma span_overlap_check_not_Diverge [simp]: "span_overlap_check state t inputs \<noteq> Diverge"
  by (induction inputs) (auto simp: outcome_simps split: if_splits option.splits)

lemma batch_status_not_Diverge [simp]: "batch_status state config b \<noteq> Diverge"
  by (auto simp: batch_status_def span_batch_status_def Let_def start_epoch_num_def outcome_simps
      split: batch.splits option.splits if_splits)

section \<open>The queue of batches\<close>

definition queue_inv :: "config \<Rightarrow> (u64, batch) btree \<Rightarrow> bool" where
  "queue_inv config m \<longleftrightarrow> bt_inv m \<and> list_all (\<lambda>(k, b). k = batch_timestamp config b) m"

lemma queue_inv_Nil [simp]: "queue_inv config []"
  by (simp add: queue_inv_def)

lemma queue_inv_Cons:
  "queue_inv config ((k, b) # m) \<Longrightarrow>
     queue_inv config m \<and> k = batch_timestamp config b \<and> bt_remove k ((k, b) # m) = m"
  by (auto simp: queue_inv_def bt_remove_def intro!: filter_True)

lemma queue_inv_insert: "queue_inv config m \<Longrightarrow> queue_inv config (bt_insert (batch_timestamp config b) b m)"
  using set_bt_insert [of "batch_timestamp config b" b m]
  by (auto simp: queue_inv_def bt_inv_bt_insert list_all_iff)

lemma queue_inv_insert_batches: "queue_inv config m \<Longrightarrow> queue_inv config (insert_batches config bs m)"
  unfolding insert_batches_def by (induction bs arbitrary: m) (auto simp: queue_inv_insert)

lemma select_batch_Cons:
  assumes "queue_inv config ((k, b) # m)"
  shows "select_batch state config ((k, b) # m) =
    and_then (batch_status state config b) (\<lambda>status.
      case status of
        Accept \<Rightarrow> Ok (Some b, m) | Drop \<Rightarrow> select_batch state config m
      | _ \<Rightarrow> Ok (None, (k, b) # m))"
proof -
  have "bt_remove (batch_timestamp config b) ((k, b) # m) = m"
    using queue_inv_Cons [OF assms] by metis
  then show ?thesis
    by (cases "batch_status state config b")
      (simp_all add: select_batch.simps [of state config "(k, b) # m"] split: batch_status_t.splits)
qed

lemma select_batch_not_Diverge: "queue_inv config m \<Longrightarrow> select_batch state config m \<noteq> Diverge"
proof (induction m)
  case (Cons p m)
  then show ?case
    using queue_inv_Cons [of config "fst p" "snd p" m]
    by (cases p) (auto simp: select_batch_Cons outcome_simps split: batch_status_t.splits)
qed (simp add: select_batch.simps)

text \<open>
  The queue is split into the batches dropped in front, the batch taken, if any, and the rest.
\<close>

definition selects :: "derive_state \<Rightarrow> config \<Rightarrow> (u64, batch) btree \<Rightarrow> batch option \<Rightarrow> (u64, batch) btree \<Rightarrow> bool" where
  "selects state config m r rest \<longleftrightarrow>
     (\<exists>dropped. list_all (\<lambda>(_, b). batch_status state config b = Ok Drop) dropped \<and>
        (case r of
           Some b \<Rightarrow> batch_status state config b = Ok Accept \<and> m = dropped @ (batch_timestamp config b, b) # rest
         | None \<Rightarrow> m = dropped @ rest \<and>
             (case rest of [] \<Rightarrow> True
              | (_, b) # _ \<Rightarrow> batch_status state config b \<in> {Ok Future, Ok Undecided})))"

lemma selects_drop:
  assumes "selects state config m r rest" and "batch_status state config b = Ok Drop"
  shows "selects state config ((k, b) # m) r rest"
proof -
  obtain dropped where "list_all (\<lambda>(_, b). batch_status state config b = Ok Drop) ((k, b) # dropped)"
    and "(case r of
           Some b \<Rightarrow> batch_status state config b = Ok Accept \<and> m = dropped @ (batch_timestamp config b, b) # rest
         | None \<Rightarrow> m = dropped @ rest \<and>
             (case rest of [] \<Rightarrow> True
              | (_, b) # _ \<Rightarrow> batch_status state config b \<in> {Ok Future, Ok Undecided}))"
    using assms by (auto simp: selects_def)
  then show ?thesis
    unfolding selects_def by (intro exI [of _ "(k, b) # dropped"]) (simp split: option.splits)
qed

lemma select_batch_spec:
  "queue_inv config m \<Longrightarrow> select_batch state config m = Ok (r, rest) \<Longrightarrow> selects state config m r rest"
proof (induction m)
  case Nil
  then show ?case by (auto simp: select_batch.simps selects_def)
next
  case (Cons p m)
  obtain k b where p: "p = (k, b)" by (cases p)
  with Cons.prems have q: "queue_inv config ((k, b) # m)" by simp
  obtain status where status: "batch_status state config b = Ok status"
    using Cons.prems p by (auto simp: select_batch_Cons outcome_simps)
  show ?case
  proof (cases status)
    case Drop
    then have "select_batch state config m = Ok (r, rest)"
      using Cons.prems p status select_batch_Cons [OF q] by simp
    then show ?thesis
      using Cons.IH queue_inv_Cons [OF q] status Drop p by (simp add: selects_drop)
  qed (use Cons.prems p status select_batch_Cons [OF q] queue_inv_Cons [OF q] in
      \<open>auto simp: selects_def intro!: exI [of _ "[]"]\<close>)
qed

lemma selects_queue_inv: "selects state config m r rest \<Longrightarrow> queue_inv config m \<Longrightarrow> queue_inv config rest"
  by (auto simp: selects_def queue_inv_def bt_inv_def sorted_wrt_append split: option.splits)

section \<open>The stage\<close>

definition batches_inv :: "'i batches \<Rightarrow> bool" where
  "batches_inv s \<longleftrightarrow> queue_inv (bs_config s) (bs_batches s)"

lemma batches_inv_new: "batches_inv (batches_new it config)"
  by (simp add: batches_inv_def batches_new_def)

lemma derive_next_Ok:
  assumes "derive_next state s = Ok (r, s')"
  obtains (no_batch) m where "select_batch state (bs_config s) (bs_batches s) = Ok (None, m)"
      "r = Inr (empty_input state (bs_config s))" "s' = s\<lparr>bs_batches := m\<rparr>"
    | (batch) b m inputs where "select_batch state (bs_config s) (bs_batches s) = Ok (Some b, m)"
      "as_inputs (bs_config s) b = Ok inputs"
      "r = Inr (case filter_inputs state inputs of [] \<Rightarrow> None | x # _ \<Rightarrow> Some x)"
      "s' = s\<lparr>bs_batches := m, bs_pending_inputs := bs_pending_inputs s @ tl (filter_inputs state inputs)\<rparr>"
proof -
  obtain d m where sel: "select_batch state (bs_config s) (bs_batches s) = Ok (d, m)"
    using assms by (auto simp: derive_next_def outcome_simps)
  show thesis
  proof (cases d)
    case None
    then show thesis using no_batch assms sel by (auto simp: derive_next_def)
  next
    case (Some b)
    then obtain inputs where inputs: "as_inputs (bs_config s) b = Ok inputs"
      using assms sel by (auto simp: derive_next_def outcome_simps Let_def)
    show thesis
    proof (rule batch [OF _ inputs])
      show "select_batch state (bs_config s) (bs_batches s) = Ok (Some b, m)" using sel Some by simp
    qed (use assms sel Some inputs in \<open>cases "filter_inputs state inputs"; auto simp: derive_next_def\<close>)+
  qed
qed

lemma derive_next_inv:
  assumes "batches_inv s" and "derive_next state s = Ok (r, s')"
  shows "batches_inv s' \<and> bs_channel_iter s' = bs_channel_iter s \<and> bs_config s' = bs_config s"
  using assms(2)
proof (cases rule: derive_next_Ok)
  case (no_batch m)
  then have "queue_inv (bs_config s) m"
    using assms(1) select_batch_spec selects_queue_inv unfolding batches_inv_def by blast
  with no_batch show ?thesis by (simp add: batches_inv_def)
next
  case (batch b m inputs)
  then have "queue_inv (bs_config s) m"
    using assms(1) select_batch_spec selects_queue_inv unfolding batches_inv_def by blast
  with batch show ?thesis by (simp add: batches_inv_def)
qed

lemma derive_next_not_Diverge: "batches_inv s \<Longrightarrow> derive_next state s \<noteq> Diverge"
  by (auto simp: derive_next_def outcome_simps batches_inv_def Let_def as_inputs_def
      select_batch_not_Diverge split: option.splits list.splits batch.splits)

lemma try_next_Ok:
  assumes "try_next cod nxt state s = Ok (r, s')"
  obtains (pending) input inputs where "bs_pending_inputs s = input # inputs" "r = Inr (Some input)"
      "s' = s\<lparr>bs_pending_inputs := inputs\<rparr>"
    | (no_channel) it where "bs_pending_inputs s = []" "nxt (bs_channel_iter s) = Ok (None, it)"
      "derive_next state (s\<lparr>bs_channel_iter := it\<rparr>) = Ok (r, s')"
    | (bad_channel) ch it e where "bs_pending_inputs s = []" "nxt (bs_channel_iter s) = Ok (Some ch, it)"
      "r = Inl e" "s' = s\<lparr>bs_channel_iter := it\<rparr>"
    | (channel) ch it bs where "bs_pending_inputs s = []" "nxt (bs_channel_iter s) = Ok (Some ch, it)"
      "decode_batches cod ch (cc_l2_chain_id (cfg_chain (bs_config s))) = Ok bs"
      "derive_next state (s\<lparr>bs_channel_iter := it,
         bs_batches := insert_batches (bs_config s) bs (bs_batches s)\<rparr>) = Ok (r, s')"
proof (cases "bs_pending_inputs s")
  case (Cons input inputs)
  then show thesis using pending assms by (auto simp: try_next_def)
next
  case Nil
  then obtain c it where nx: "nxt (bs_channel_iter s) = Ok (c, it)"
    using assms by (auto simp: try_next_def outcome_simps)
  show thesis
  proof (cases c)
    case None
    then show thesis using no_channel Nil nx assms by (simp add: try_next_def)
  next
    case (Some ch)
    then show thesis
      using Nil nx assms channel [of ch it] bad_channel [of ch it]
      by (cases "decode_batches cod ch (cc_l2_chain_id (cfg_chain (bs_config s)))")
        (auto simp: try_next_def Let_def)
  qed
qed

lemma batches_next_inv:
  assumes "batches_inv s" and "batches_next cod nxt state s = Ok (r, s')"
  shows "batches_inv s' \<and> bs_config s' = bs_config s \<and>
    (bs_channel_iter s' = bs_channel_iter s \<or> (\<exists>c. nxt (bs_channel_iter s) = Ok (c, bs_channel_iter s')))"
proof -
  have inv1: "batches_inv (s\<lparr>bs_channel_iter := it\<rparr>)"
    "batches_inv (s\<lparr>bs_channel_iter := it, bs_batches := insert_batches (bs_config s) bs (bs_batches s)\<rparr>)" for it bs
    using assms(1) by (simp_all add: batches_inv_def queue_inv_insert_batches)
  obtain r0 where "try_next cod nxt state s = Ok (r0, s')"
    using assms(2) by (auto simp: batches_next_def outcome_simps)
  then show ?thesis
  proof (cases rule: try_next_Ok)
    case pending
    then show ?thesis using assms(1) by (simp add: batches_inv_def)
  next
    case (no_channel it)
    then show ?thesis using derive_next_inv [OF inv1(1)] by fastforce
  next
    case bad_channel
    then show ?thesis using inv1(1) by auto
  next
    case (channel ch it bs)
    then show ?thesis using derive_next_inv [OF inv1(2) channel(4)] by auto
  qed
qed

lemma batches_next_not_Diverge:
  assumes "batches_inv s" and "nxt (bs_channel_iter s) \<noteq> Diverge"
  shows "batches_next cod nxt state s \<noteq> Diverge"
proof -
  have "batches_inv (s\<lparr>bs_channel_iter := it\<rparr>)"
    "batches_inv (s\<lparr>bs_channel_iter := it, bs_batches := insert_batches (bs_config s) bs (bs_batches s)\<rparr>)" for it bs
    using assms(1) by (simp_all add: batches_inv_def queue_inv_insert_batches)
  note this [THEN derive_next_not_Diverge, of state]
  then show ?thesis
    using assms(2)
    by (auto simp: batches_next_def try_next_def outcome_simps Let_def
        split: list.splits option.splits outcome.splits)
qed

section \<open>The stage over the stage below\<close>

locale batch_stage = purgeable_iterator step purge inv drained quiet
  for step :: "'env \<Rightarrow> 's \<Rightarrow> (channel option \<times> 's) outcome"
    and purge inv drained quiet +
  fixes cod :: codec
begin

lemma batches_next_keeps:
  assumes "inv (bs_channel_iter s)" and "batches_inv s" and "batches_next cod (step env) state s = Ok (x, s')"
  shows "inv (bs_channel_iter s') \<and> batches_inv s'"
  using batches_next_inv [OF assms(2,3)] assms(1) inv_step by metis

lemma batches_next_drained:
  assumes "drained (bs_channel_iter s)" "bs_batches s = []" "bs_pending_inputs s = []" "quiet env"
    and "epoch_by_number state (ep_number (st_safe_epoch state) + 1) = None"
  shows "\<exists>s'. batches_next cod (step env) state s = Ok (None, s') \<and>
    drained (bs_channel_iter s') \<and> bs_batches s' = [] \<and> bs_pending_inputs s' = []"
  using step_drained [OF assms(1,4)] assms(2,3,5)
  by (auto simp: batches_next_def try_next_def derive_next_def empty_input_def select_batch.simps)

end

sublocale batch_stage \<subseteq> batches_out: purgeable_iterator
  "\<lambda>(env, state). batches_next cod (step env) state" "batches_purge purge"
  "\<lambda>s. inv (bs_channel_iter s) \<and> batches_inv s"
  "\<lambda>s. drained (bs_channel_iter s) \<and> bs_batches s = [] \<and> bs_pending_inputs s = []"
  "\<lambda>(env, state). quiet env \<and> epoch_by_number state (ep_number (st_safe_epoch state) + 1) = None"
proof
  fix s :: "'s batches" and es :: "'env \<times> derive_state"
  assume "drained (bs_channel_iter s) \<and> bs_batches s = [] \<and> bs_pending_inputs s = []"
    and "case es of (env, state) \<Rightarrow> quiet env \<and> epoch_by_number state (ep_number (st_safe_epoch state) + 1) = None"
  then show "\<exists>s'. (case es of (env, state) \<Rightarrow> batches_next cod (step env) state) s = Ok (None, s') \<and>
      drained (bs_channel_iter s') \<and> bs_batches s' = [] \<and> bs_pending_inputs s' = []"
    using batches_next_drained [of s "fst es" "snd es"] by (cases es) simp
next
  fix s s' :: "'s batches" and es :: "'env \<times> derive_state" and x
  assume "inv (bs_channel_iter s) \<and> batches_inv s"
    and "(case es of (env, state) \<Rightarrow> batches_next cod (step env) state) s = Ok (x, s')"
  then show "inv (bs_channel_iter s') \<and> batches_inv s'"
    using batches_next_keeps [of s "fst es" "snd es" x s'] by (cases es) simp
qed (simp_all add: batches_purge_def inv_purge purge_drained batches_inv_def)

interpretation queue: batch_stage
  "\<lambda>_ :: unit. channels_next batcher_transactions_next" "channels_purge batcher_transactions_purge"
  "\<lambda>s. True \<and> channels_inv s"
  "\<lambda>s. (bts_txs (chs_batcher_tx_iter s) = [] \<and> bts_transaction_rx (chs_batcher_tx_iter s) = []) \<and>
     chs_pending_channels s = [] \<and> chs_frame_bank s = []"
  "\<lambda>_. True" cod for cod ..

section \<open>Properties\<close>

text \<open>
  C32: a call of the batch queue always comes back: decoding a channel and the loop that
  drops invalid batches end, because every batch is kept under its own timestamp.
\<close>

theorem batches_next_returns:
  assumes "batches_inv s" and "next_channel (bs_channel_iter s) \<noteq> Diverge"
  shows "batches_next cod next_channel state s \<noteq> Diverge"
  using assms by (rule batches_next_not_Diverge)

definition sample_single :: single_batch where
  "sample_single =
     \<lparr>sb_parent_hash = 9, sb_epoch_num = 4000, sb_epoch_hash = 3, sb_timestamp = 202,
      sb_transactions = [], sb_l1_inclusion_block = 4001\<rparr>"

definition sample_queue :: "unit batches" where
  "sample_queue =
     \<lparr>bs_batches = [(202, Single sample_single)], bs_pending_inputs = [], bs_channel_iter = (),
      bs_config = sample_config optimism_sepolia\<rparr>"

lemma batches_inv_sample: "batches_inv sample_queue"
  by (simp add: batches_inv_def queue_inv_def sample_queue_def batch_timestamp_def sample_single_def)

theorem batches_next_returns_witness:
  "batches_next sample_codec (\<lambda>_. Ok (None, ())) sample_state sample_queue \<noteq> Diverge"
  by (rule batches_next_returns [OF batches_inv_sample]) simp

text \<open>
  The batch taken from the queue is the earliest one that is not dropped: every batch
  in front of it, in order of timestamps, has status \<open>Drop\<close> and is removed, the batch itself has
  status \<open>Accept\<close>, and the batches behind it stay. When none is taken, the first batch that
  is kept is one for a later block or one not decided yet.
\<close>

lemma select_batch_takes_first:
  assumes "queue_inv config m" and "select_batch state config m = Ok (r, rest)"
  shows "selects state config m r rest"
  by (rule select_batch_spec [OF assms])

lemma sample_single_accepted: "single_batch_status sample_state (sample_config optimism_sepolia) sample_single = Accept"
  by (simp add: single_batch_status_def sample_state_def sample_single_def optimism_sepolia_def
      has_invalid_transactions_def Let_def)

lemma select_batch_takes_first_witness:
  "selects sample_state (sample_config optimism_sepolia) [(202, Single sample_single)] (Some (Single sample_single)) []"
proof (rule select_batch_takes_first)
  show q: "queue_inv (sample_config optimism_sepolia) [(202, Single sample_single)]"
    using batches_inv_sample by (simp add: batches_inv_def sample_queue_def)
  show "select_batch sample_state (sample_config optimism_sepolia) [(202, Single sample_single)] =
      Ok (Some (Single sample_single), [])"
    using select_batch_Cons [OF q] sample_single_accepted by (simp add: batch_status_def)
qed

text \<open>
  C10: a single batch is accepted exactly if it is for the block right after the safe head, builds
  on the safe head, was included within the sequencing window of its epoch, has the safe epoch or
  the known next one as its origin, by number and hash, is not older than that origin, does not
  drift too far from it (an empty batch may, until the next epoch must be adopted), and holds no
  empty transaction and no deposit.
\<close>

theorem single_batch_accept_iff:
  defines "next_epoch \<equiv> \<lambda>state. epoch_by_number state (ep_number (st_safe_epoch state) + 1)"
  shows "single_batch_status state config batch = Accept \<longleftrightarrow>
    sb_timestamp batch = bi_timestamp (st_safe_head state) + cc_blocktime (cfg_chain config) \<and>
    sb_parent_hash batch = bi_hash (st_safe_head state) \<and>
    sb_l1_inclusion_block batch \<le> sb_epoch_num batch + cc_seq_window_size (cfg_chain config) \<and>
    (\<exists>origin.
       (sb_epoch_num batch = ep_number (st_safe_epoch state) \<and> origin = st_safe_epoch state \<or>
        sb_epoch_num batch = ep_number (st_safe_epoch state) + 1 \<and> next_epoch state = Some origin) \<and>
       sb_epoch_hash batch = ep_hash origin \<and> ep_timestamp origin \<le> sb_timestamp batch \<and>
       (ep_timestamp origin + cc_max_seq_drift (cfg_chain config) < sb_timestamp batch \<longrightarrow>
          sb_transactions batch = [] \<and>
          (sb_epoch_num batch = ep_number (st_safe_epoch state) \<longrightarrow>
             (\<exists>e. next_epoch state = Some e \<and> sb_timestamp batch < ep_timestamp e)))) \<and>
    (\<forall>tx \<in> set (sb_transactions batch). raw_bytes tx \<noteq> [] \<and> hd (raw_bytes tx) \<noteq> 0x7E)"
proof -
  let ?ts = "sb_timestamp batch" and ?nts = "bi_timestamp (st_safe_head state) + cc_blocktime (cfg_chain config)"
  let ?n = "ep_number (st_safe_epoch state)"
  have ts: "?ts = ?nts \<longleftrightarrow> \<not> ?nts < ?ts \<and> \<not> ?ts < ?nts" by auto
  have neq: "?n \<noteq> ?n + 1" by simp
  consider (safe) "sb_epoch_num batch = ?n" | (succ) "sb_epoch_num batch \<noteq> ?n" "sb_epoch_num batch = ?n + 1"
    | (other) "sb_epoch_num batch \<noteq> ?n" "sb_epoch_num batch \<noteq> ?n + 1" by blast
  then show ?thesis
  proof cases
    case safe
    then show ?thesis
      unfolding single_batch_status_def Let_def next_epoch_def has_invalid_transactions_iff ts
      using neq by (cases "epoch_by_number state (?n + 1)") (auto simp: not_less not_le)
  next
    case succ
    then show ?thesis
      unfolding single_batch_status_def Let_def next_epoch_def has_invalid_transactions_iff ts
      using neq by (cases "epoch_by_number state (?n + 1)") (auto simp: not_less not_le)
  next
    case other
    then show ?thesis
      unfolding single_batch_status_def Let_def by simp
  qed
qed

theorem single_batch_accept_iff_witness:
  "sb_timestamp sample_single =
     bi_timestamp (st_safe_head sample_state) + cc_blocktime (cfg_chain (sample_config optimism_sepolia))"
  using single_batch_accept_iff [of sample_state "sample_config optimism_sepolia" sample_single]
    sample_single_accepted by blast

text \<open>
  Every block handed on from a batch, and every block kept for later calls, lies after the
  safe head, and so does the empty block of a passed sequencing window.
\<close>

lemma blocks_after_safe_head:
  assumes "bs_pending_inputs s = []"
    and "bi_timestamp (st_safe_head state) < bi_timestamp (st_safe_head state) + cc_blocktime (cfg_chain (bs_config s))"
    and "batches_next cod next_channel state s = Ok (r, s')"
    and "input \<in> set_option r \<union> set (bs_pending_inputs s')"
  shows "bi_timestamp (st_safe_head state) < bin_timestamp input"
proof -
  have derived: "bi_timestamp (st_safe_head state) < bin_timestamp input"
    if "derive_next state s1 = Ok (r0, s')" "bs_pending_inputs s1 = []" "bs_config s1 = bs_config s"
      "r = (case r0 of Inr x \<Rightarrow> x | Inl _ \<Rightarrow> None)" for s1 r0
    using that(1)
  proof (cases rule: derive_next_Ok)
    case no_batch
    then show ?thesis
      using that assms(2,4) by (auto simp: empty_input_def Let_def split: option.splits if_splits)
  next
    case (batch b m inputs)
    then have "input \<in> set (filter_inputs state inputs)"
      using that assms(4) by (cases "filter_inputs state inputs") auto
    then show ?thesis by (simp add: filter_inputs_def)
  qed
  obtain r0 where r0: "try_next cod next_channel state s = Ok (r0, s')" "r = (case r0 of Inr x \<Rightarrow> x | Inl _ \<Rightarrow> None)"
    using assms(3) by (auto simp: batches_next_def outcome_simps)
  from r0(1) show ?thesis
    by (cases rule: try_next_Ok) (use assms derived r0(2) in auto)
qed

lemma blocks_after_safe_head_witness:
  "bi_timestamp (st_safe_head sample_state) < bin_timestamp (single_block_input sample_single)"
proof (rule blocks_after_safe_head)
  show "batches_next sample_codec (\<lambda>_. Ok (None, ())) sample_state sample_queue =
      Ok (Some (single_block_input sample_single), sample_queue\<lparr>bs_batches := []\<rparr>)"
    using sample_single_accepted batches_inv_sample
    by (simp add: batches_next_def try_next_def derive_next_def sample_queue_def batches_inv_def
        select_batch_Cons batch_status_def as_inputs_def filter_inputs_def)
      (simp add: single_block_input_def sample_state_def sample_single_def)
qed (simp_all add: sample_queue_def sample_state_def optimism_sepolia_def)

text \<open>
  C33: derivation does not stall. If no batch is taken from the queue while the next epoch is known and
  its sequencing window has passed, the call yields an empty block right after the safe head, in the
  safe epoch or in the next one, and never in an epoch that starts after the block.
\<close>

theorem forced_empty_block:
  assumes "state_inv state" and "bs_pending_inputs s = []" and "next_channel (bs_channel_iter s) = Ok (None, it)"
    and "select_batch state (bs_config s) (bs_batches s) = Ok (None, m)"
    and "epoch_by_number state (ep_number (st_safe_epoch state) + 1) = Some next_epoch"
    and "unat (ep_number (st_safe_epoch state)) + 1 + unat (cc_seq_window_size (cfg_chain (bs_config s))) <
           unat (st_current_epoch_num state)"
    and "ep_timestamp (st_safe_epoch state) \<le> bi_timestamp (st_safe_head state) + cc_blocktime (cfg_chain (bs_config s))"
  shows "\<exists>e s'. e \<in> {st_safe_epoch state, next_epoch} \<and>
    ep_timestamp e \<le> bi_timestamp (st_safe_head state) + cc_blocktime (cfg_chain (bs_config s)) \<and>
    batches_next cod next_channel state s =
      Ok (Some \<lparr>bin_timestamp = bi_timestamp (st_safe_head state) + cc_blocktime (cfg_chain (bs_config s)),
                bin_epoch = ep_number e, bin_transactions = [],
                bin_l1_inclusion_block = st_current_epoch_num state\<rparr>, s')"
proof -
  let ?w = "cc_seq_window_size (cfg_chain (bs_config s))" and ?n = "ep_number (st_safe_epoch state)"
  have lt: "unat (st_current_epoch_num state) < 2 ^ 64"
    using unsigned_less [of "st_current_epoch_num state", where ?'a = nat] by simp
  have next_num: "ep_number next_epoch = ?n + 1"
    using epoch_by_number_number [OF assms(1,5)] by simp
  have n1: "unat (?n + 1) = unat ?n + 1"
    using assms(6) lt unat_add_no_wrap [of ?n 1] by simp
  have "unat (?n + 1 + ?w) = unat ?n + 1 + unat ?w"
    using assms(6) lt n1 unat_add_no_wrap [of "?n + 1" ?w] by simp
  moreover have "unat (?n + ?w) = unat ?n + unat ?w"
    using assms(6) lt by (intro unat_add_no_wrap) simp
  ultimately have win: "?n + ?w < st_current_epoch_num state" "ep_number next_epoch + ?w < st_current_epoch_num state"
    using assms(6) by (simp_all add: word_less_nat_alt next_num)
  let ?t = "bi_timestamp (st_safe_head state) + cc_blocktime (cfg_chain (bs_config s))"
  let ?e = "if ?t < ep_timestamp next_epoch then st_safe_epoch state else next_epoch"
  have "empty_input state (bs_config s) =
      Some \<lparr>bin_timestamp = ?t, bin_epoch = ep_number ?e, bin_transactions = [],
            bin_l1_inclusion_block = st_current_epoch_num state\<rparr>"
    using win assms(5) by (simp add: empty_input_def)
  then have "batches_next cod next_channel state s =
      Ok (Some \<lparr>bin_timestamp = ?t, bin_epoch = ep_number ?e, bin_transactions = [],
            bin_l1_inclusion_block = st_current_epoch_num state\<rparr>,
          s\<lparr>bs_channel_iter := it, bs_batches := m\<rparr>)"
    using assms(2-4) by (simp add: batches_next_def try_next_def derive_next_def)
  moreover have "ep_timestamp ?e \<le> ?t" using assms(7) by auto
  ultimately show ?thesis by (intro exI [of _ ?e]) auto
qed

text \<open>A state in which the sequencing windows of the safe epoch and of the next one have passed.\<close>

definition late_state :: derive_state where
  "late_state = sample_state
     \<lparr>st_l1_info := [(5001, sample_l1_info 4001)], st_l1_hashes := [(4001, 5001)], st_current_epoch_num := 8000\<rparr>"

theorem forced_empty_block_witness:
  "\<exists>e s'. batches_next sample_codec (\<lambda>_. Ok (None, ())) late_state (sample_queue\<lparr>bs_batches := []\<rparr>) =
     Ok (Some \<lparr>bin_timestamp = 202, bin_epoch = e, bin_transactions = [], bin_l1_inclusion_block = 8000\<rparr>, s')"
proof -
  let ?s = "sample_queue\<lparr>bs_batches := []\<rparr>"
  have fields: "ep_number (st_safe_epoch late_state) = 4000" "ep_timestamp (st_safe_epoch late_state) = 190"
    "bi_timestamp (st_safe_head late_state) = 200" "st_current_epoch_num late_state = 8000"
    "cc_blocktime (cfg_chain (bs_config ?s)) = 2" "cc_seq_window_size (cfg_chain (bs_config ?s)) = 3600"
    by (simp_all add: late_state_def sample_state_def sample_queue_def optimism_sepolia_def)
  have inv: "state_inv late_state"
    by (simp add: state_inv_def l1_consistent_def late_state_def sample_state_def sample_l1_info_def)
  have next_epoch: "epoch_by_number late_state (ep_number (st_safe_epoch late_state) + 1) =
      Some (epoch_of_info (sample_l1_info 4001))"
    by (simp add: epoch_by_number_def l1_info_by_number_def late_state_def sample_state_def)
  have sel: "select_batch late_state (bs_config ?s) (bs_batches ?s) = Ok (None, [])"
    by (simp add: select_batch.simps)
  show ?thesis
    using forced_empty_block [OF inv, of ?s "\<lambda>_. Ok (None, ())" "()" "[]" "epoch_of_info (sample_l1_info 4001)" sample_codec]
      next_epoch sel unfolding fields by (auto simp: sample_queue_def)
qed

text \<open>
  The check that a span batch starts at most one epoch after its parent block compares the start
  epoch, an L1 block number, with the parent's L2 block number. While L2 block numbers are below those of
  L1, a span batch is therefore never accepted, however valid it is otherwise.
\<close>

lemma span_batch_dropped_below_l1_number:
  assumes "start_epoch_num batch = Ok start_epoch"
    and "l2_info_by_timestamp state
           (sp_rel_timestamp batch + bi_timestamp (cc_l2_genesis (cfg_chain config)) - cc_blocktime (cfg_chain config)) =
         Ok (Some (prev_block, prev_epoch))"
    and "bi_number prev_block + 1 < start_epoch"
  shows "span_batch_status state config batch \<noteq> Ok Accept"
  using assms by (auto simp: span_batch_status_def Let_def split: option.splits)

definition genesis_span :: span_batch where
  "genesis_span =
     \<lparr>sp_rel_timestamp = 2, sp_l1_origin_num = 17481769, sp_parent_check = hash_prefix 9,
      sp_l1_origin_check = hash_prefix 1001, sp_block_count = 1, sp_origin_bits = [True],
      sp_block_tx_counts = [0], sp_transactions = [], sp_l1_inclusion_block = 17481770\<rparr>"

lemma span_batch_dropped_below_l1_number_witness:
  "span_batch_status
     (sample_state\<lparr>st_config := sample_config base,
        st_l2_refs := [(0, (cc_l2_genesis base, cc_l1_start_epoch base))]\<rparr>) (sample_config base) genesis_span \<noteq> Ok Accept"
  by (rule span_batch_dropped_below_l1_number [where prev_block = "cc_l2_genesis base" and
        prev_epoch = "cc_l1_start_epoch base" and start_epoch = 17481769])
    (simp_all add: start_epoch_num_def index_def origin_bit_sum_def genesis_span_def base_def
      l2_info_by_timestamp_def checked_div_def)

text \<open>
  After a purge of the three lower stages the batch queue yields nothing, however often it is
  asked, as long as no new batcher transactions arrive and the next epoch is not known, which is how
  the purge of the derivation state leaves it.
\<close>

lemma purged_queue_yields_nothing:
  "\<exists>s'. pull (\<lambda>state. batches_next cod (channels_next batcher_transactions_next) state) (state_purge st head epoch) n
     (batches_purge (channels_purge batcher_transactions_purge) s) = Ok ([], s')"
proof -
  have "epoch_by_number (state_purge st head epoch) k = None" for k
    by (simp add: epoch_by_number_def l1_info_by_number_def state_purge_def update_safe_head_def)
  then have "\<exists>s'. (\<lambda>(env, state). batches_next cod (channels_next batcher_transactions_next) state)
      ((), state_purge st head epoch) (batches_purge (channels_purge batcher_transactions_purge) s) = Ok (None, s')"
    using queue.batches_out.purged_yields_nothing [of "((), state_purge st head epoch)" cod s] by auto
  then show ?thesis by (cases n) auto
qed

end
