(* ===== verification/Ecotone_Upgrade.thy ===== *)
theory Ecotone_Upgrade
  imports Common_Types "HOL-Library.Char_ord"
begin

text \<open>
  \<^verbatim>\<open>src/src/derive/ecotone_upgrade.rs\<close>: the six deposit transactions inserted into the first
  block of the Ecotone hardfork. Their fields are those of the source, the calldata as its
  hexadecimal literal; the RLP encoding of a transaction is the \<^verbatim>\<open>ethers\<close> crate's and a parameter.
\<close>

section \<open>Hexadecimal literals\<close>

definition hex_digit :: "char \<Rightarrow> u8" where
  "hex_digit c =
     (let n = of_char c
      in if CHR ''0'' \<le> c \<and> c \<le> CHR ''9'' then n - 48
         else if CHR ''a'' \<le> c \<and> c \<le> CHR ''f'' then n - 87
         else n - 55)"

fun hex_bytes :: "string \<Rightarrow> bytes" where
  "hex_bytes (a # b # cs) = (16 * hex_digit a + hex_digit b) # hex_bytes cs"
| "hex_bytes _ = []"

section \<open>Upgrade transactions\<close>

record upgrade_transaction =
  ut_transaction_type :: u64
  ut_source_hash :: h256
  ut_from :: address
  ut_to :: "address option"
  ut_mint :: "u256 option"
  ut_value :: u256
  ut_gas :: u256
  ut_is_system_tx :: bool
  ut_input :: bytes

definition deploy_l1_block :: upgrade_transaction where
  "deploy_l1_block =
     \<lparr>ut_transaction_type = 0x7E, ut_source_hash = 0x877a6077205782ea15a6dc8699fa5ebcec5e0f4389f09cb8eda09488231346f8,
      ut_from = 0x4210000000000000000000000000000000000000, ut_to = None,
      ut_mint = None, ut_value = 0, ut_gas = 375000, ut_is_system_tx = False,
      ut_input = hex_bytes (
     ''608060405234801561001057600080fd5b5061053e806100206000396000f3fe608060405234801561001057600080fd'' @
     ''5b50600436106100f55760003560e01c80638381f58a11610097578063c598591811610066578063c598591814610229'' @
     ''578063e591b28214610249578063e81b2c6d14610289578063f82061401461029257600080fd5b80638381f58a146101'' @
     ''e35780638b239f73146101f75780639e8c496614610200578063b80777ea1461020957600080fd5b806354fd4d501161'' @
     ''00d357806354fd4d50146101335780635cf249691461017c57806364ca23ef1461018557806368d5dca6146101b25760'' @
     ''0080fd5b8063015d8eb9146100fa57806309bd5a601461010f578063440a5e201461012b575b600080fd5b61010d6101'' @
     ''0836600461044c565b61029b565b005b61011860025481565b6040519081526020015b60405180910390f35b61010d61'' @
     ''03da565b61016f6040518060400160405280600581526020017f312e322e300000000000000000000000000000000000'' @
     ''0000000000000000000081525081565b60405161012291906104be565b61011860015481565b6003546101999067ffff'' @
     ''ffffffffffff1681565b60405167ffffffffffffffff9091168152602001610122565b6003546101ce90680100000000'' @
     ''00000000900463ffffffff1681565b60405163ffffffff9091168152602001610122565b6000546101999067ffffffff'' @
     ''ffffffff1681565b61011860055481565b61011860065481565b6000546101999068010000000000000000900467ffff'' @
     ''ffffffffffff1681565b6003546101ce906c01000000000000000000000000900463ffffffff1681565b61026473dead'' @
     ''deaddeaddeaddeaddeaddeaddeaddead000181565b60405173ffffffffffffffffffffffffffffffffffffffff909116'' @
     ''8152602001610122565b61011860045481565b61011860075481565b3373deaddeaddeaddeaddeaddeaddeaddeaddead'' @
     ''000114610342576040517f08c379a0000000000000000000000000000000000000000000000000000000008152602060'' @
     ''04820152603b60248201527f4c31426c6f636b3a206f6e6c7920746865206465706f7369746f72206163636f60448201'' @
     ''527f756e742063616e20736574204c3120626c6f636b2076616c75657300000000006064820152608401604051809103'' @
     ''90fd5b6000805467ffffffffffffffff98891668010000000000000000027fffffffffffffffffffffffffffffffff00'' @
     ''000000000000000000000000000000909116998916999099179890981790975560019490945560029290925560038054'' @
     ''919094167fffffffffffffffffffffffffffffffffffffffffffffffff00000000000000009190911617909255600491'' @
     ''909155600555600655565b3373deaddeaddeaddeaddeaddeaddeaddeaddead00011461040357633cc50b456000526004'' @
     ''601cfd5b60043560801c60035560143560801c600055602435600155604435600755606435600255608435600455565b'' @
     ''803567ffffffffffffffff8116811461044757600080fd5b919050565b600080600080600080600080610100898b0312'' @
     ''1561046957600080fd5b6104728961042f565b975061048060208a0161042f565b965060408901359550606089013594'' @
     ''5061049c60808a0161042f565b979a969950949793969560a0850135955060c08501359460e001359350915050565b60'' @
     ''0060208083528351808285015260005b818110156104eb578581018301518582016040015282016104cf565b81811115'' @
     ''6104fd576000604083870101525b50601f017fffffffffffffffffffffffffffffffffffffffffffffffffffffffffff'' @
     ''ffffe01692909201604001939250505056fea164736f6c634300080f000a'')\<rparr>"

definition deploy_gas_price_oracle :: upgrade_transaction where
  "deploy_gas_price_oracle =
     \<lparr>ut_transaction_type = 0x7E, ut_source_hash = 0xa312b4510adf943510f05fcc8f15f86995a5066bd83ce11384688ae20e6ecf42,
      ut_from = 0x4210000000000000000000000000000000000001, ut_to = None,
      ut_mint = None, ut_value = 0, ut_gas = 1000000, ut_is_system_tx = False,
      ut_input = hex_bytes (
     ''608060405234801561001057600080fd5b50610fb5806100206000396000f3fe608060405234801561001057600080fd'' @
     ''5b50600436106100f55760003560e01c806354fd4d5011610097578063de26c4a111610066578063de26c4a1146101da'' @
     ''578063f45e65d8146101ed578063f8206140146101f5578063fe173b97146101cc57600080fd5b806354fd4d50146101'' @
     ''6657806368d5dca6146101af5780636ef25c3a146101cc578063c5985918146101d257600080fd5b8063313ce5671161'' @
     ''00d3578063313ce5671461012757806349948e0e1461012e5780634ef6e22414610141578063519b4bd31461015e5760'' @
     ''0080fd5b80630c18c162146100fa57806322b90ab3146101155780632e0f26251461011f575b600080fd5b6101026101'' @
     ''fd565b6040519081526020015b60405180910390f35b61011d61031e565b005b610102600681565b6006610102565b61'' @
     ''010261013c366004610b73565b610541565b60005461014e9060ff1681565b604051901515815260200161010c565b61'' @
     ''0102610565565b6101a26040518060400160405280600581526020017f312e322e300000000000000000000000000000'' @
     ''0000000000000000000000000081525081565b60405161010c9190610c42565b6101b76105c6565b60405163ffffffff'' @
     ''909116815260200161010c565b48610102565b6101b761064b565b6101026101e8366004610b73565b6106ac565b6101'' @
     ''02610760565b610102610853565b6000805460ff1615610296576040517f08c379a00000000000000000000000000000'' @
     ''0000000000000000000000000000815260206004820152602860248201527f47617350726963654f7261636c653a206f'' @
     ''76657268656164282920697320646560448201527f707265636174656400000000000000000000000000000000000000'' @
     ''000000000060648201526084015b60405180910390fd5b73420000000000000000000000000000000000001573ffffff'' @
     ''ffffffffffffffffffffffffffffffffff16638b239f736040518163ffffffff1660e01b815260040160206040518083'' @
     ''0381865afa1580156102f5573d6000803e3d6000fd5b505050506040513d601f19601f82011682018060405250810190'' @
     ''6103199190610cb5565b905090565b73420000000000000000000000000000000000001573ffffffffffffffffffffff'' @
     ''ffffffffffffffffff1663e591b2826040518163ffffffff1660e01b8152600401602060405180830381865afa158015'' @
     ''61037d573d6000803e3d6000fd5b505050506040513d601f19601f820116820180604052508101906103a19190610cce'' @
     ''565b73ffffffffffffffffffffffffffffffffffffffff163373ffffffffffffffffffffffffffffffffffffffff1614'' @
     ''610481576040517f08c379a0000000000000000000000000000000000000000000000000000000008152602060048201'' @
     ''52604160248201527f47617350726963654f7261636c653a206f6e6c7920746865206465706f73697460448201527f6f'' @
     ''72206163636f756e742063616e2073657420697345636f746f6e6520666c6160648201527f6700000000000000000000'' @
     ''000000000000000000000000000000000000000000608482015260a40161028d565b60005460ff161561051457604051'' @
     ''7f08c379a000000000000000000000000000000000000000000000000000000000815260206004820152602660248201'' @
     ''527f47617350726963654f7261636c653a2045636f746f6e6520616c72656164792060448201527f6163746976650000'' @
     ''000000000000000000000000000000000000000000000000606482015260840161028d565b600080547fffffffffffff'' @
     ''ffffffffffffffffffffffffffffffffffffffffffffffffff00166001179055565b6000805460ff161561055c576105'' @
     ''56826108b4565b92915050565b61055682610958565b600073420000000000000000000000000000000000001573ffff'' @
     ''ffffffffffffffffffffffffffffffffffff16635cf249696040518163ffffffff1660e01b8152600401602060405180'' @
     ''830381865afa1580156102f5573d6000803e3d6000fd5b600073420000000000000000000000000000000000001573ff'' @
     ''ffffffffffffffffffffffffffffffffffffff166368d5dca66040518163ffffffff1660e01b81526004016020604051'' @
     ''80830381865afa158015610627573d6000803e3d6000fd5b505050506040513d601f19601f8201168201806040525081'' @
     ''01906103199190610d04565b600073420000000000000000000000000000000000001573ffffffffffffffffffffffff'' @
     ''ffffffffffffffff1663c59859186040518163ffffffff1660e01b8152600401602060405180830381865afa15801561'' @
     ''0627573d6000803e3d6000fd5b6000806106b883610ab4565b60005490915060ff16156106cc5792915050565b734200'' @
     ''00000000000000000000000000000000001573ffffffffffffffffffffffffffffffffffffffff16638b239f73604051'' @
     ''8163ffffffff1660e01b8152600401602060405180830381865afa15801561072b573d6000803e3d6000fd5b50505050'' @
     ''6040513d601f19601f8201168201806040525081019061074f9190610cb5565b6107599082610d59565b939250505056'' @
     ''5b6000805460ff16156107f4576040517f08c379a0000000000000000000000000000000000000000000000000000000'' @
     ''00815260206004820152602660248201527f47617350726963654f7261636c653a207363616c61722829206973206465'' @
     ''707260448201527f65636174656400000000000000000000000000000000000000000000000000006064820152608401'' @
     ''61028d565b73420000000000000000000000000000000000001573ffffffffffffffffffffffffffffffffffffffff16'' @
     ''639e8c49666040518163ffffffff1660e01b8152600401602060405180830381865afa1580156102f5573d6000803e3d'' @
     ''6000fd5b600073420000000000000000000000000000000000001573ffffffffffffffffffffffffffffffffffffffff'' @
     ''1663f82061406040518163ffffffff1660e01b8152600401602060405180830381865afa1580156102f5573d6000803e'' @
     ''3d6000fd5b6000806108c083610ab4565b905060006108cc610565565b6108d461064b565b6108df906010610d71565b'' @
     ''63ffffffff166108ef9190610d9d565b905060006108fb610853565b6109036105c6565b63ffffffff16610913919061'' @
     ''0d9d565b905060006109218284610d59565b61092b9085610d9d565b90506109396006600a610efa565b610944906010'' @
     ''610d9d565b61094e9082610f06565b9695505050505050565b60008061096483610ab4565b9050600073420000000000'' @
     ''000000000000000000000000001573ffffffffffffffffffffffffffffffffffffffff16639e8c49666040518163ffff'' @
     ''ffff1660e01b8152600401602060405180830381865afa1580156109c7573d6000803e3d6000fd5b505050506040513d'' @
     ''601f19601f820116820180604052508101906109eb9190610cb5565b6109f3610565565b734200000000000000000000'' @
     ''00000000000000001573ffffffffffffffffffffffffffffffffffffffff16638b239f736040518163ffffffff1660e0'' @
     ''1b8152600401602060405180830381865afa158015610a52573d6000803e3d6000fd5b505050506040513d601f19601f'' @
     ''82011682018060405250810190610a769190610cb5565b610a809085610d59565b610a8a9190610d9d565b610a949190'' @
     ''610d9d565b9050610aa26006600a610efa565b610aac9082610f06565b949350505050565b80516000908190815b8181'' @
     ''1015610b3757848181518110610ad757610ad7610f41565b01602001517fff0000000000000000000000000000000000'' @
     ''000000000000000000000000000016600003610b1757610b10600484610d59565b9250610b25565b610b22601084610d'' @
     ''59565b92505b80610b2f81610f70565b915050610abd565b50610aac82610440610d59565b7f4e487b71000000000000'' @
     ''00000000000000000000000000000000000000000000600052604160045260246000fd5b600060208284031215610b85'' @
     ''57600080fd5b813567ffffffffffffffff80821115610b9d57600080fd5b818401915084601f830112610bb157600080'' @
     ''fd5b813581811115610bc357610bc3610b44565b604051601f82017fffffffffffffffffffffffffffffffffffffffff'' @
     ''ffffffffffffffffffffffe0908116603f01168101908382118183101715610c0957610c09610b44565b816040528281'' @
     ''52876020848701011115610c2257600080fd5b8260208601602083013760009281016020019290925250959450505050'' @
     ''50565b600060208083528351808285015260005b81811015610c6f57858101830151858201604001528201610c53565b'' @
     ''81811115610c81576000604083870101525b50601f017fffffffffffffffffffffffffffffffffffffffffffffffffff'' @
     ''ffffffffffffe016929092016040019392505050565b600060208284031215610cc757600080fd5b5051919050565b60'' @
     ''0060208284031215610ce057600080fd5b815173ffffffffffffffffffffffffffffffffffffffff8116811461075957'' @
     ''600080fd5b600060208284031215610d1657600080fd5b815163ffffffff8116811461075957600080fd5b7f4e487b71'' @
     ''00000000000000000000000000000000000000000000000000000000600052601160045260246000fd5b600082198211'' @
     ''15610d6c57610d6c610d2a565b500190565b600063ffffffff80831681851681830481118215151615610d9457610d94'' @
     ''610d2a565b02949350505050565b6000817fffffffffffffffffffffffffffffffffffffffffffffffffffffffffffff'' @
     ''ffff0483118215151615610dd557610dd5610d2a565b500290565b600181815b80851115610e3357817fffffffffffff'' @
     ''ffffffffffffffffffffffffffffffffffffffffffffffffffff04821115610e1957610e19610d2a565b80851615610e'' @
     ''2657918102915b93841c9390800290610ddf565b509250929050565b600082610e4a57506001610556565b81610e5757'' @
     ''506000610556565b8160018114610e6d5760028114610e7757610e93565b6001915050610556565b60ff841115610e88'' @
     ''57610e88610d2a565b50506001821b610556565b5060208310610133831016604e8410600b8410161715610eb6575081'' @
     ''810a610556565b610ec08383610dda565b807fffffffffffffffffffffffffffffffffffffffffffffffffffffffffff'' @
     ''ffffff04821115610ef257610ef2610d2a565b029392505050565b60006107598383610e3b565b600082610f3c577f4e'' @
     ''487b7100000000000000000000000000000000000000000000000000000000600052601260045260246000fd5b500490'' @
     ''565b7f4e487b7100000000000000000000000000000000000000000000000000000000600052603260045260246000fd'' @
     ''5b60007fffffffffffffffffffffffffffffffffffffffffffffffffffffffffffffffff8203610fa157610fa1610d2a'' @
     ''565b506001019056fea164736f6c634300080f000a'')\<rparr>"

definition update_l1_block_proxy :: upgrade_transaction where
  "update_l1_block_proxy =
     \<lparr>ut_transaction_type = 0x7E, ut_source_hash = 0x18acb38c5ff1c238a7460ebc1b421fa49ec4874bdf1e0a530d234104e5e67dbc,
      ut_from = 0x0000000000000000000000000000000000000000, ut_to = (Some 0x4200000000000000000000000000000000000015),
      ut_mint = None, ut_value = 0, ut_gas = 50000, ut_is_system_tx = False,
      ut_input = hex_bytes (
     ''3659cfe600000000000000000000000007dbe8500fc591d1852b76fee44d5a05e13097ff'')\<rparr>"

definition update_gas_price_oracle_proxy :: upgrade_transaction where
  "update_gas_price_oracle_proxy =
     \<lparr>ut_transaction_type = 0x7E, ut_source_hash = 0xee4f9385eceef498af0be7ec5862229f426dec41c8d42397c7257a5117d9230a,
      ut_from = 0x0000000000000000000000000000000000000000, ut_to = (Some 0x420000000000000000000000000000000000000F),
      ut_mint = None, ut_value = 0, ut_gas = 50000, ut_is_system_tx = False,
      ut_input = hex_bytes (
     ''3659cfe6000000000000000000000000b528d11cc114e026f138fe568744c6d45ce6da7a'')\<rparr>"

definition enable_ecotone :: upgrade_transaction where
  "enable_ecotone =
     \<lparr>ut_transaction_type = 0x7E, ut_source_hash = 0x0c1cb38e99dbc9cbfab3bb80863380b0905290b37eb3d6ab18dc01c1f3e75f93,
      ut_from = 0xDeaDDEaDDeAdDeAdDEAdDEaddeAddEAdDEAd0001, ut_to = (Some 0x420000000000000000000000000000000000000F),
      ut_mint = None, ut_value = 0, ut_gas = 80000, ut_is_system_tx = False,
      ut_input = hex_bytes (
     ''22b90ab3'')\<rparr>"

definition deploy_eip4788 :: upgrade_transaction where
  "deploy_eip4788 =
     \<lparr>ut_transaction_type = 0x7E, ut_source_hash = 0x69b763c48478b9dc2f65ada09b3d92133ec592ea715ec65ad6e7f3dc519dc00c,
      ut_from = 0x0B799C86a49DEeb90402691F1041aa3AF2d3C875, ut_to = None,
      ut_mint = None, ut_value = 0, ut_gas = 0x3d090, ut_is_system_tx = False,
      ut_input = hex_bytes (
     ''60618060095f395ff33373fffffffffffffffffffffffffffffffffffffffe14604d57602036146024575f5ffd5b5f35'' @
     ''801560495762001fff810690815414603c575f5ffd5b62001fff01545f5260205ff35b5f5ffd5b62001fff4206428155'' @
     ''5f359062001fff015500'')\<rparr>"

definition get_ecotone_upgrade_transactions :: "(upgrade_transaction \<Rightarrow> bytes) \<Rightarrow> raw_transaction list" where
  "get_ecotone_upgrade_transactions rlp =
     map (\<lambda>tx. RawTransaction (rlp tx))
       [deploy_l1_block, deploy_gas_price_oracle, update_l1_block_proxy,
        update_gas_price_oracle_proxy, enable_ecotone, deploy_eip4788]"

lemma length_ecotone_upgrade_transactions [simp]:
  "length (get_ecotone_upgrade_transactions rlp) = 6"
  by (simp add: get_ecotone_upgrade_transactions_def)

end
