(* ===== verification/Attributes.thy ===== *)
theory Attributes
  imports Batches Engine_Types Ecotone_Upgrade
begin

text \<open>
  \<^verbatim>\<open>src/src/derive/stages/attributes.rs\<close>: the last stage. Each block input becomes the payload
  attributes of its block: the transaction that deposits the L1 attributes, the user deposits at
  the start of an epoch, the upgrade transactions at the Ecotone activation, then the batch's
  own transactions.

  External code is in the record \<open>externals\<close>: the codec, \<open>keccak256\<close>, the ABI encoder,
  the RLP encoding of an upgrade transaction, \<^verbatim>\<open>to_be_bytes::<BYTES>\<close> of the 256-bit integers of
  \<^verbatim>\<open>ruint\<close>, whose first argument is the number \<^verbatim>\<open>BYTES\<close>, and the 64-bit integer of \<^verbatim>\<open>ethers\<close> made of eight bytes.
  The gas limit goes through these two with \<^verbatim>\<open>BYTES\<close> = 8, for which the documentation of \<^verbatim>\<open>ruint\<close> says that
  \<^verbatim>\<open>to_be_bytes\<close> panics (\<open>exact_width\<close>): with the crate as documented no attributes are ever
  returned. What is shown of the attributes is shown for the runs that return, whatever the crate does.

  Shown: the sequence number counts the blocks of an epoch and the user deposits come with its first
  block only; the order and number of the transactions; the L1 attributes deposited by this
  stage read back as the epoch and sequence number in the Bedrock format, and are refused by the Ecotone reader.
\<close>

datatype abi_token = TokenUint u256 | TokenFixedBytes bytes

record externals =
  ex_codec :: codec
  ex_keccak256 :: "bytes \<Rightarrow> h256"
  ex_abi_encode :: "abi_token list \<Rightarrow> bytes"
  ex_upgrade_rlp :: "upgrade_transaction \<Rightarrow> bytes"
  ex_to_be_bytes :: "nat \<Rightarrow> u256 \<Rightarrow> bytes outcome"
  ex_u64_from_bytes :: "bytes \<Rightarrow> u64"

section \<open>Deposited transactions\<close>

record deposited_transaction =
  dt_source_hash :: h256
  dt_from :: address
  dt_to :: "address option"
  dt_mint :: u256
  dt_value :: u256
  dt_gas :: u64
  dt_is_system_tx :: bool
  dt_data :: bytes

record attributes_deposited =
  ad_number :: u64
  ad_timestamp :: u64
  ad_base_fee :: u256
  ad_hash :: h256
  ad_sequence_number :: u64
  ad_batcher_hash :: h256
  ad_fee_overhead :: u256
  ad_fee_scalar :: u256
  ad_gas :: u64
  ad_is_system_tx :: bool

definition from_block_info :: "l1_info \<Rightarrow> u64 \<Rightarrow> u64 \<Rightarrow> config \<Rightarrow> attributes_deposited" where
  "from_block_info l1_info seq batch_ts config =
     (let is_regolith = cc_regolith_time (cfg_chain config) \<le> batch_ts;
          is_system_tx = (\<not> is_regolith);
          gas = (if is_regolith then 1000000 else 150000000)
      in \<lparr>ad_number = l1b_number (l1i_block_info l1_info),
          ad_timestamp = l1b_timestamp (l1i_block_info l1_info),
          ad_base_fee = l1b_base_fee (l1i_block_info l1_info),
          ad_hash = l1b_hash (l1i_block_info l1_info),
          ad_sequence_number = seq,
          ad_batcher_hash = batcher_hash (l1i_system_config l1_info),
          ad_fee_overhead = sc_l1_fee_overhead (l1i_system_config l1_info),
          ad_fee_scalar = sc_l1_fee_scalar (l1i_system_config l1_info),
          ad_gas = gas, ad_is_system_tx = is_system_tx\<rparr>)"

definition attributes_deposited_encode :: "externals \<Rightarrow> attributes_deposited \<Rightarrow> bytes" where
  "attributes_deposited_encode ex ad =
     (let tokens =
        [TokenUint (ucast (ad_number ad)), TokenUint (ucast (ad_timestamp ad)), TokenUint (ad_base_fee ad),
         TokenFixedBytes (to_be_bytes 32 (ad_hash ad)), TokenUint (ucast (ad_sequence_number ad)),
         TokenFixedBytes (to_be_bytes 32 (ad_batcher_hash ad)), TokenUint (ad_fee_overhead ad),
         TokenUint (ad_fee_scalar ad)];
          selector = [0x01, 0x5d, 0x8e, 0xb9]
      in selector @ ex_abi_encode ex tokens)"

definition h256_from_low_u64 :: "u64 \<Rightarrow> h256" where
  "h256_from_low_u64 n = ucast n"

definition deposited_from_attributes :: "externals \<Rightarrow> attributes_deposited \<Rightarrow> deposited_transaction" where
  "deposited_from_attributes ex ad =
     (let h = ex_keccak256 ex (to_be_bytes 32 (ad_hash ad) @
            to_be_bytes 32 (h256_from_low_u64 (ad_sequence_number ad)));
          source_hash = ex_keccak256 ex (to_be_bytes 32 (h256_from_low_u64 1) @ to_be_bytes 32 h)
      in \<lparr>dt_source_hash = source_hash,
          dt_from = attributes_depositor system_accounts_default,
          dt_to = Some (attributes_predeploy system_accounts_default),
          dt_mint = 0, dt_value = 0, dt_gas = ad_gas ad, dt_is_system_tx = ad_is_system_tx ad,
          dt_data = attributes_deposited_encode ex ad\<rparr>)"

definition deposited_from_user :: "externals \<Rightarrow> user_deposited \<Rightarrow> deposited_transaction" where
  "deposited_from_user ex ud =
     (let h = ex_keccak256 ex (to_be_bytes 32 (ud_l1_block_hash ud) @ to_be_bytes 32 (ud_log_index ud));
          source_hash = ex_keccak256 ex (to_be_bytes 32 (h256_from_low_u64 0) @ to_be_bytes 32 h);
          to = (if ud_is_creation ud then None else Some (ud_to ud))
      in \<lparr>dt_source_hash = source_hash, dt_from = ud_from ud, dt_to = to, dt_mint = ud_mint ud,
          dt_value = ud_value ud, dt_gas = ud_gas ud, dt_is_system_tx = False, dt_data = ud_data ud\<rparr>)"

definition deposited_rlp_bytes :: "externals \<Rightarrow> deposited_transaction \<Rightarrow> bytes" where
  "deposited_rlp_bytes ex dt =
     0x7E # cod_rlp_list_out (ex_codec ex)
       [RlpH256 (dt_source_hash dt), RlpAddress (dt_from dt),
        (case dt_to dt of Some to \<Rightarrow> RlpAddress to | None \<Rightarrow> RlpEmptyStr),
        RlpU256 (dt_mint dt), RlpU256 (dt_value dt), RlpU64 (dt_gas dt), RlpBool (dt_is_system_tx dt),
        RlpBytes (dt_data dt)]"

section \<open>The stage\<close>

record 'i attributes =
  at_block_input_iter :: 'i
  at_sequence_number :: u64
  at_epoch_hash :: h256
  at_config :: config

definition attributes_new :: "'i \<Rightarrow> derive_state \<Rightarrow> config \<Rightarrow> u64 \<Rightarrow> 'i attributes" where
  "attributes_new block_input_iter state config seq =
     \<lparr>at_block_input_iter = block_input_iter, at_sequence_number = seq,
      at_epoch_hash = ep_hash (st_safe_epoch state), at_config = config\<rparr>"

definition attributes_purge :: "('i \<Rightarrow> 'i) \<Rightarrow> derive_state \<Rightarrow> 'i attributes \<Rightarrow> 'i attributes" where
  "attributes_purge purge_iter state s =
     s\<lparr>at_block_input_iter := purge_iter (at_block_input_iter s), at_sequence_number := 0,
       at_epoch_hash := ep_hash (st_safe_epoch state)\<rparr>"

definition update_sequence_number :: "'i attributes \<Rightarrow> h256 \<Rightarrow> 'i attributes" where
  "update_sequence_number s batch_epoch_hash =
     (let s1 = (if at_epoch_hash s \<noteq> batch_epoch_hash then s\<lparr>at_sequence_number := 0\<rparr>
                else s\<lparr>at_sequence_number := at_sequence_number s + 1\<rparr>)
      in s1\<lparr>at_epoch_hash := batch_epoch_hash\<rparr>)"

definition derive_user_deposited :: "externals \<Rightarrow> derive_state \<Rightarrow> 'i attributes \<Rightarrow> raw_transaction list" where
  "derive_user_deposited ex state s =
     (case l1_info_by_hash state (at_epoch_hash s) of
        Some info \<Rightarrow>
          map (\<lambda>deposit. RawTransaction (deposited_rlp_bytes ex (deposited_from_user ex deposit)))
            (l1i_user_deposits info)
      | None \<Rightarrow> [])"

definition derive_attributes_deposited :: "externals \<Rightarrow> 'i attributes \<Rightarrow> l1_info \<Rightarrow> u64 \<Rightarrow> raw_transaction" where
  "derive_attributes_deposited ex s l1_info batch_ts =
     (let seq = at_sequence_number s;
          attributes_deposited = from_block_info l1_info seq batch_ts (at_config s);
          attributes_tx = deposited_from_attributes ex attributes_deposited
      in RawTransaction (deposited_rlp_bytes ex attributes_tx))"

definition derive_transactions ::
  "externals \<Rightarrow> derive_state \<Rightarrow> 'i attributes \<Rightarrow> epoch block_input \<Rightarrow> l1_info \<Rightarrow> raw_transaction list" where
  "derive_transactions ex state s input l1_info =
     (let transactions0 = [derive_attributes_deposited ex s l1_info (bin_timestamp input)];
          transactions1 = (if at_sequence_number s = 0 then transactions0 @ derive_user_deposited ex state s
                           else transactions0);
          transactions2 = (if is_ecotone_activation_block (cfg_chain (at_config s)) (bin_timestamp input)
                           then transactions1 @ get_ecotone_upgrade_transactions (ex_upgrade_rlp ex)
                           else transactions1)
      in transactions2 @ bin_transactions input)"

definition derive_attributes ::
  "externals \<Rightarrow> derive_state \<Rightarrow> 'i attributes \<Rightarrow> epoch block_input \<Rightarrow> (payload_attributes \<times> 'i attributes) outcome" where
  "derive_attributes ex state s input =
     (let s1 = update_sequence_number s (ep_hash (bin_epoch input))
      in and_then (unwrap_opt (l1_info_by_hash state (ep_hash (bin_epoch input))) ''called unwrap on a None value'') (\<lambda>l1_info.
         let withdrawals = (if cc_canyon_time (cfg_chain (at_config s1)) \<le> bin_timestamp input then Some [] else None);
             transactions = derive_transactions ex state s1 input l1_info
         in and_then (ex_to_be_bytes ex 8 (sc_gas_limit (l1i_system_config l1_info))) (\<lambda>gas_limit.
         Ok (\<lparr>pa_timestamp = bin_timestamp input,
              pa_prev_randao = l1b_mix_hash (l1i_block_info l1_info),
              pa_suggested_fee_recipient = fee_vault system_accounts_default,
              pa_transactions = Some transactions, pa_no_tx_pool = True,
              pa_gas_limit = ex_u64_from_bytes ex gas_limit, pa_withdrawals = withdrawals, pa_epoch = Some (bin_epoch input),
              pa_l1_inclusion_block = Some (bin_l1_inclusion_block input),
              pa_seq_number = Some (at_sequence_number s1)\<rparr>, s1))))"

definition attributes_next ::
  "externals \<Rightarrow> ('i \<Rightarrow> (u64 block_input option \<times> 'i) outcome) \<Rightarrow> derive_state \<Rightarrow> 'i attributes \<Rightarrow>
   (payload_attributes option \<times> 'i attributes) outcome" where
  "attributes_next ex next_input state s =
     and_then (next_input (at_block_input_iter s)) (\<lambda>(input, it).
     let s1 = s\<lparr>at_block_input_iter := it\<rparr>
     in case input of
          None \<Rightarrow> Ok (None, s1)
        | Some i \<Rightarrow>
            and_then (unwrap_res (with_full_epoch i state) ''called unwrap on an Err value'') (\<lambda>full.
            and_then (derive_attributes ex state s1 full) (\<lambda>(pa, s2).
            Ok (Some pa, s2))))"

section \<open>Sequence numbers\<close>

text \<open>The stage's own sequence number and epoch, over a run of blocks given by their epoch hashes.\<close>

fun seq_run :: "u64 \<Rightarrow> h256 \<Rightarrow> h256 list \<Rightarrow> u64 list" where
  "seq_run seq h [] = []"
| "seq_run seq h (e # es) =
     (let seq' = (if h \<noteq> e then 0 else seq + 1) in seq' # seq_run seq' e es)"

lemma seq_run_same: "seq_run seq h (replicate n h) = map (\<lambda>i. seq + 1 + of_nat i) [0..<n]"
proof (induction n arbitrary: seq)
  case (Suc n)
  have "[0..<Suc n] = 0 # map Suc [0..<n]" by (simp add: upt_conv_Cons map_Suc_upt)
  then show ?case using Suc.IH [of "seq + 1"] by (simp add: add.assoc)
qed simp

lemma seq_run_epoch:
  "e \<noteq> h \<Longrightarrow> seq_run seq h (replicate n e) = map of_nat [0..<n]"
proof (cases n)
  case (Suc m)
  assume "e \<noteq> h"
  have "[0..<Suc m] = 0 # map Suc [0..<m]" by (simp add: upt_conv_Cons map_Suc_upt)
  then show ?thesis using Suc \<open>e \<noteq> h\<close> seq_run_same [of 0 e m] by (simp add: comp_def)
qed simp

lemma derive_attributes_Ok:
  assumes "derive_attributes ex state s input = Ok (pa, s')"
  obtains info bytes where "l1_info_by_hash state (ep_hash (bin_epoch input)) = Some info"
    "ex_to_be_bytes ex 8 (sc_gas_limit (l1i_system_config info)) = Ok bytes"
    "s' = update_sequence_number s (ep_hash (bin_epoch input))"
    "pa_seq_number pa = Some (at_sequence_number s')"
    "pa_transactions pa = Some (derive_transactions ex state s' input info)"
    "pa_epoch pa = Some (bin_epoch input)" "pa_timestamp pa = bin_timestamp input"
    "pa_l1_inclusion_block pa = Some (bin_l1_inclusion_block input)"
    "pa_prev_randao pa = l1b_mix_hash (l1i_block_info info)" "pa_no_tx_pool pa"
  using assms by (auto simp: derive_attributes_def Let_def outcome_simps)

lemma update_sequence_number_simps [simp]:
  "at_epoch_hash (update_sequence_number s e) = e"
  "at_sequence_number (update_sequence_number s e) = (if at_epoch_hash s \<noteq> e then 0 else at_sequence_number s + 1)"
  "at_config (update_sequence_number s e) = at_config s"
  "at_block_input_iter (update_sequence_number s e) = at_block_input_iter s"
  by (simp_all add: update_sequence_number_def Let_def)

text \<open>
  What \<^verbatim>\<open>ruint\<close> documents of \<^verbatim>\<open>to_be_bytes::<BYTES>\<close> on 256-bit integers: it panics unless
  \<^verbatim>\<open>BYTES\<close> is 32.
\<close>

definition exact_width :: "externals \<Rightarrow> bool" where
  "exact_width ex \<longleftrightarrow>
     (\<forall>w. ex_to_be_bytes ex 32 w = Ok (to_be_bytes 32 w)) \<and> (\<forall>n w. n \<noteq> 32 \<longrightarrow> is_panic (ex_to_be_bytes ex n w))"

lemma and_then_panics: "is_panic m \<Longrightarrow> is_panic (and_then m f)"
  by (cases m) simp_all

lemma derive_attributes_panics:
  assumes "exact_width ex"
  shows "is_panic (derive_attributes ex state s input)"
proof (cases "l1_info_by_hash state (ep_hash (bin_epoch input))")
  case (Some info)
  have "is_panic (ex_to_be_bytes ex 8 (sc_gas_limit (l1i_system_config info)))" using assms by (simp add: exact_width_def)
  then show ?thesis using Some by (simp add: derive_attributes_def and_then_panics Let_def)
qed (simp add: derive_attributes_def Let_def)

text \<open>So the stage panics as soon as there is a block to derive.\<close>

lemma attributes_next_panics:
  assumes "exact_width ex" "next_input (at_block_input_iter s) = Ok (Some i, it)"
  shows "is_panic (attributes_next ex next_input state s)"
proof (cases "with_full_epoch i state")
  case (Ok full)
  then show ?thesis
    using derive_attributes_panics [OF assms(1), of state "s\<lparr>at_block_input_iter := it\<rparr>" full] assms(2)
    by (simp add: attributes_next_def and_then_panics)
next
  case Diverge
  then show ?thesis by (auto simp: with_full_epoch_def outcome_simps split: option.splits)
qed (use assms(2) in \<open>simp_all add: attributes_next_def\<close>)

section \<open>The L1 attributes transaction\<close>

text \<open>The contract ABI: a static token is one 32-byte word.\<close>

definition abi_static_word :: "abi_token \<Rightarrow> bytes" where
  "abi_static_word t = (case t of TokenUint n \<Rightarrow> to_be_bytes 32 n | TokenFixedBytes bs \<Rightarrow> bs)"

definition abi_word_token :: "abi_token \<Rightarrow> bool" where
  "abi_word_token t = (case t of TokenUint _ \<Rightarrow> True | TokenFixedBytes bs \<Rightarrow> length bs = 32)"

definition abi_static :: "externals \<Rightarrow> bool" where
  "abi_static ex \<longleftrightarrow>
     (\<forall>ts. list_all abi_word_token ts \<longrightarrow> ex_abi_encode ex ts = concat (map abi_static_word ts))"

lemma encode_is_bedrock_calldata:
  assumes "abi_static ex"
  shows "attributes_deposited_encode ex ad =
    bedrock_calldata [0x01, 0x5d, 0x8e, 0xb9] (ucast (ad_number ad)) (ucast (ad_timestamp ad)) (ad_base_fee ad)
      (ad_hash ad) (ucast (ad_sequence_number ad)) (ad_batcher_hash ad) (ad_fee_overhead ad) (ad_fee_scalar ad)"
  using assms
  by (simp add: attributes_deposited_encode_def abi_static_def abi_word_token_def abi_static_word_def
      bedrock_calldata_def)

lemma bedrock_reads_encode:
  assumes "abi_static ex"
    and "SET_L1_BLOCK_VALUES_BEDROCK_SELECTOR k = [0x01, 0x5d, 0x8e, 0xb9]"
  shows "try_from_bedrock k (attributes_deposited_encode ex ad) =
    Ok \<lparr>adc_number = ad_number ad, adc_timestamp = ad_timestamp ad, adc_basefee = ad_base_fee ad,
        adc_hash = ad_hash ad, adc_sequence_number = ad_sequence_number ad,
        adc_batcher_hash = ad_batcher_hash ad, adc_fee_overhead = ad_fee_overhead ad,
        adc_fee_scalar = ad_fee_scalar ad, adc_blob_base_fee_scalar = None, adc_blob_base_fee = None\<rparr>"
  unfolding encode_is_bedrock_calldata [OF assms(1)] assms(2) [symmetric] try_from_bedrock_calldata
  by simp

section \<open>Runs of the stage\<close>

text \<open>The attributes of a list of block inputs, one after the other.\<close>

fun derive_all ::
  "externals \<Rightarrow> derive_state \<Rightarrow> 'i attributes \<Rightarrow> epoch block_input list \<Rightarrow>
   (payload_attributes list \<times> 'i attributes) outcome" where
  "derive_all ex state s [] = Ok ([], s)"
| "derive_all ex state s (input # inputs) =
     and_then (derive_attributes ex state s input) (\<lambda>(pa, s1).
     and_then (derive_all ex state s1 inputs) (\<lambda>(pas, s2). Ok (pa # pas, s2)))"

lemma derive_all_Cons:
  assumes "derive_all ex state s (input # inputs) = Ok (pas, s')"
  obtains pa pas' s1 where "derive_attributes ex state s input = Ok (pa, s1)"
    "derive_all ex state s1 inputs = Ok (pas', s')" "pas = pa # pas'"
  using assms by (auto simp: outcome_simps)

lemma derive_all_seq:
  "derive_all ex state s inputs = Ok (pas, s') \<Longrightarrow>
   map pa_seq_number pas = map Some (seq_run (at_sequence_number s) (at_epoch_hash s) (map (ep_hash \<circ> bin_epoch) inputs))"
proof (induction inputs arbitrary: s pas)
  case (Cons input inputs)
  from Cons.prems show ?case
  proof (cases rule: derive_all_Cons)
    case (1 pa pas' s1)
    then show ?thesis
      using Cons.IH [OF 1(2)] by (auto elim!: derive_attributes_Ok simp: Let_def)
  qed
qed simp

lemma derive_all_length: "derive_all ex state s inputs = Ok (pas, s') \<Longrightarrow> length pas = length inputs"
  by (induction inputs arbitrary: s pas) (auto elim!: derive_all_Cons simp del: derive_all.simps(2))

lemma derive_user_deposited_cong:
  "at_epoch_hash s = at_epoch_hash s' \<Longrightarrow> derive_user_deposited ex state s = derive_user_deposited ex state s'"
  by (simp add: derive_user_deposited_def)

text \<open>The transactions of the block, by its sequence number.\<close>

definition block_transactions ::
  "externals \<Rightarrow> derive_state \<Rightarrow> config \<Rightarrow> epoch block_input \<Rightarrow> l1_info \<Rightarrow> u64 \<Rightarrow> raw_transaction list" where
  "block_transactions ex state config input info seq =
     [RawTransaction (deposited_rlp_bytes ex (deposited_from_attributes ex
        (from_block_info info seq (bin_timestamp input) config)))] @
     (if seq = 0 then map (\<lambda>d. RawTransaction (deposited_rlp_bytes ex (deposited_from_user ex d))) (l1i_user_deposits info)
      else []) @
     (if is_ecotone_activation_block (cfg_chain config) (bin_timestamp input)
      then get_ecotone_upgrade_transactions (ex_upgrade_rlp ex) else []) @
     bin_transactions input"

lemma derive_transactions_block:
  assumes "l1_info_by_hash state (at_epoch_hash s) = Some info"
  shows "derive_transactions ex state s input info =
    block_transactions ex state (at_config s) input info (at_sequence_number s)"
  using assms
  by (simp add: derive_transactions_def block_transactions_def derive_attributes_deposited_def
      derive_user_deposited_def Let_def)

lemma derive_all_transactions:
  assumes "derive_all ex state s inputs = Ok (pas, s')"
    and "\<forall>i \<in> set inputs. ep_hash (bin_epoch i) = e" and "l1_info_by_hash state e = Some info"
  shows "map pa_transactions pas =
    map2 (\<lambda>input seq. Some (block_transactions ex state (at_config s) input info seq)) inputs
      (seq_run (at_sequence_number s) (at_epoch_hash s) (replicate (length inputs) e))"
  using assms
proof (induction inputs arbitrary: s pas)
  case (Cons input inputs)
  from Cons.prems(1) show ?case
  proof (cases rule: derive_all_Cons)
    case (1 pa pas' s1)
    have e: "ep_hash (bin_epoch input) = e" using Cons.prems(2) by simp
    have s1: "s1 = update_sequence_number s e"
      using 1(1) e by (auto elim: derive_attributes_Ok)
    have "pa_transactions pa = Some (derive_transactions ex state s1 input info)"
      using 1(1) e Cons.prems(3) by (auto elim: derive_attributes_Ok)
    moreover have "l1_info_by_hash state (at_epoch_hash s1) = Some info"
      using Cons.prems(3) s1 by simp
    ultimately have "pa_transactions pa =
        Some (block_transactions ex state (at_config s) input info (at_sequence_number s1))"
      using s1 by (simp add: derive_transactions_block)
    then show ?thesis
      using Cons.IH [OF 1(2)] Cons.prems(2,3) 1(3) s1 by (simp add: Let_def)
  qed
qed simp

section \<open>The stage over the stage below\<close>

locale attributes_stage = purgeable_iterator step purge inv drained quiet
  for step :: "'env \<Rightarrow> 's \<Rightarrow> (u64 block_input option \<times> 's) outcome"
    and purge inv drained quiet +
  fixes ex :: externals
    and state_of :: "'env \<Rightarrow> derive_state"
    and purge_state :: derive_state
begin

lemma attributes_next_keeps:
  assumes "inv (at_block_input_iter s)" and "attributes_next ex (step env) (state_of env) s = Ok (x, s')"
  shows "inv (at_block_input_iter s')"
proof -
  obtain i it where step: "step env (at_block_input_iter s) = Ok (i, it)"
    using assms(2) by (auto simp: attributes_next_def outcome_simps)
  have "at_block_input_iter s' = it"
    using assms(2) step
    by (auto simp: attributes_next_def outcome_simps Let_def elim!: derive_attributes_Ok split: option.splits)
  then show ?thesis using inv_step [OF assms(1) step] by simp
qed

lemma attributes_next_drained:
  assumes "drained (at_block_input_iter s)" and "quiet env"
  shows "\<exists>s'. attributes_next ex (step env) (state_of env) s = Ok (None, s') \<and> drained (at_block_input_iter s')"
  using step_drained [OF assms] by (auto simp: attributes_next_def)

end

sublocale attributes_stage \<subseteq> attributes_out: purgeable_iterator
  "\<lambda>env. attributes_next ex (step env) (state_of env)" "attributes_purge purge purge_state"
  "\<lambda>s. inv (at_block_input_iter s)" "\<lambda>s. drained (at_block_input_iter s)" quiet
proof
  fix s s' :: "'s attributes" and env x
  assume "inv (at_block_input_iter s)" "attributes_next ex (step env) (state_of env) s = Ok (x, s')"
  then show "inv (at_block_input_iter s')" by (rule attributes_next_keeps)
next
  fix s :: "'s attributes" and env
  assume "drained (at_block_input_iter s)" "quiet env"
  then show "\<exists>s'. attributes_next ex (step env) (state_of env) s = Ok (None, s') \<and> drained (at_block_input_iter s')"
    by (rule attributes_next_drained)
qed (simp_all add: attributes_purge_def inv_purge purge_drained)

section \<open>Properties\<close>


definition sample_externals :: externals where
  "sample_externals =
     \<lparr>ex_codec = sample_codec,
      ex_keccak256 = (\<lambda>bs. push_bit 224 0x015d8eb9),
      ex_abi_encode = (\<lambda>ts. concat (map abi_static_word ts)), ex_upgrade_rlp = ut_input,
      ex_to_be_bytes = (\<lambda>n w. Ok (to_be_bytes n w)), ex_u64_from_bytes = from_be_bytes\<rparr>"

definition sample_input :: "epoch block_input" where
  "sample_input = \<lparr>bin_timestamp = 202, bin_epoch = epoch_of_info (sample_l1_info 1),
     bin_transactions = [RawTransaction [5]], bin_l1_inclusion_block = 2\<rparr>"

definition sample_attributes :: "unit attributes" where
  "sample_attributes = attributes_new () sample_state (sample_config optimism_sepolia) 4"


text \<open>
  The \<open>unwrap\<close>s of the stage are safe. A block input whose epoch the derivation state knows
  becomes payload attributes with that epoch, its own timestamp and inclusion block, and the epoch's randomness.
\<close>

lemma attributes_next_succeeds:
  assumes "state_inv state" and "next_input (at_block_input_iter s) = Ok (Some input, it)"
    and "l1_info_by_number state (bin_epoch input) = Some info"
    and "ex_to_be_bytes ex 8 (sc_gas_limit (l1i_system_config info)) = Ok bytes"
  shows "\<exists>pa s'. attributes_next ex next_input state s = Ok (Some pa, s') \<and>
    pa_epoch pa = Some (epoch_of_info info) \<and> ep_number (epoch_of_info info) = bin_epoch input \<and>
    pa_timestamp pa = bin_timestamp input \<and> pa_l1_inclusion_block pa = Some (bin_l1_inclusion_block input) \<and>
    pa_prev_randao pa = l1b_mix_hash (l1i_block_info info) \<and> pa_gas_limit pa = ex_u64_from_bytes ex bytes \<and> pa_no_tx_pool pa"
  using assms l1_info_by_number_number [OF assms(1,3)]
  by (simp add: attributes_next_def with_full_epoch_def epoch_by_number_def derive_attributes_def Let_def
      epoch_of_info_def)

lemma attributes_next_succeeds_witness:
  "\<exists>pa s'. attributes_next sample_externals
       (\<lambda>_. Ok (Some \<lparr>bin_timestamp = 202, bin_epoch = 1, bin_transactions = [], bin_l1_inclusion_block = 2\<rparr>, ()))
       sample_state sample_attributes = Ok (Some pa, s') \<and> pa_epoch pa = Some (epoch_of_info (sample_l1_info 1))"
proof -
  have "l1_info_by_number sample_state 1 = Some (sample_l1_info 1)"
    by (simp add: l1_info_by_number_def sample_state_def)
  moreover have "ex_to_be_bytes sample_externals 8 (sc_gas_limit (l1i_system_config (sample_l1_info 1))) =
      Ok (to_be_bytes 8 (sc_gas_limit (l1i_system_config (sample_l1_info 1))))"
    by (simp add: sample_externals_def)
  ultimately show ?thesis
    using attributes_next_succeeds [OF state_inv_sample, of
        "\<lambda>_. Ok (Some \<lparr>bin_timestamp = 202, bin_epoch = 1, bin_transactions = [], bin_l1_inclusion_block = 2\<rparr>, ())"
        sample_attributes "\<lparr>bin_timestamp = 202, bin_epoch = 1, bin_transactions = [], bin_l1_inclusion_block = 2\<rparr>" "()"]
    by fastforce
qed

text \<open>
  C35: up to the Ecotone activation block, the L1 attributes that this stage deposits read back: an L2 block
  that starts with the deposited transaction has the head info with exactly the epoch of
  the L1 block and the sequence number that went in.
\<close>

theorem deposited_attributes_read_back:
  assumes "abi_static ex" and "SET_L1_BLOCK_VALUES_BEDROCK_SELECTOR k = [0x01, 0x5d, 0x8e, 0xb9]"
    and "block_info_try_from block = Ok bi" and "blk_transactions block = tx # txs"
    and "tx_input tx = dt_data (deposited_from_attributes ex (from_block_info info seq ts config))"
    and "\<not> is_ecotone_but_not_first_block (cfg_chain config) (bi_timestamp bi)"
  shows "try_from_l2_block k config block =
    Ok \<lparr>hi_l2_block_info = bi, hi_l1_epoch = epoch_of_info info, hi_sequence_number = seq\<rparr>"
proof -
  have ts: "as_u64 (blk_timestamp block) = Ok (bi_timestamp bi)"
    using assms(3) by (simp add: block_info_try_from_Ok)
  show ?thesis
    using assms(3-6) bedrock_reads_encode [OF assms(1,2)]
    by (simp add: try_from_l2_block_def ts try_from_bedrock_block_def deposited_from_attributes_def
        epoch_from_call_def epoch_of_info_def from_block_info_def Let_def)
qed

lemma abi_static_sample: "abi_static sample_externals"
  by (simp add: abi_static_def sample_externals_def)

lemma sample_selector: "SET_L1_BLOCK_VALUES_BEDROCK_SELECTOR (ex_keccak256 sample_externals) = [0x01, 0x5d, 0x8e, 0xb9]"
  unfolding SET_L1_BLOCK_VALUES_BEDROCK_SELECTOR_def sample_externals_def
  by (simp add: to_be_bytes_def upt_rec)

theorem deposited_attributes_read_back_witness:
  "\<exists>hi. try_from_l2_block (ex_keccak256 sample_externals) (sample_config optimism)
     (sample_l2_block 1700000000 (dt_data (deposited_from_attributes sample_externals
        (from_block_info (sample_l1_info 1) 3 1700000000 (sample_config optimism))))) = Ok hi \<and>
     hi_l1_epoch hi = epoch_of_info (sample_l1_info 1) \<and> hi_sequence_number hi = 3"
proof -
  have "\<not> is_ecotone_but_not_first_block (cfg_chain (sample_config optimism)) 1700000000"
    by (simp add: is_ecotone_but_not_first_block_def optimism_def)
  then show ?thesis
    using deposited_attributes_read_back [OF abi_static_sample sample_selector block_info_sample_l2_block,
        of 1700000000 "dt_data (deposited_from_attributes sample_externals
          (from_block_info (sample_l1_info 1) 3 1700000000 (sample_config optimism)))"]
    by (simp add: sample_l2_block_def)
qed

text \<open>
  C36: after the Ecotone activation block they no longer do. The stage keeps depositing the L1 attributes in the
  Bedrock format, while the head info of a later block is read in the Ecotone format, so reading
  back a block the node has derived itself is an error.
\<close>

theorem ecotone_attributes_not_read_back:
  assumes "abi_static ex" and "block_info_try_from block = Ok bi" and "blk_transactions block = tx # txs"
    and "tx_input tx = dt_data (deposited_from_attributes ex (from_block_info info seq ts config))"
    and "is_ecotone_but_not_first_block (cfg_chain config) (bi_timestamp bi)"
  shows "try_from_l2_block k config block = Err (Eyre ''invalid calldata length'')"
proof -
  have ts: "as_u64 (blk_timestamp block) = Ok (bi_timestamp bi)"
    using assms(2) by (simp add: block_info_try_from_Ok)
  have "length (tx_input tx) = L1_INFO_BEDROCK_LEN"
    using assms(4) encode_is_bedrock_calldata [OF assms(1)] by (simp add: deposited_from_attributes_def)
  then show ?thesis
    using assms(3,5) formats_disjoint(1) by (simp add: try_from_l2_block_def ts try_from_ecotone_block_def)
qed

theorem ecotone_attributes_not_read_back_witness:
  "try_from_l2_block (\<lambda>_. 0) (sample_config optimism)
     (sample_l2_block 1720000000 (dt_data (deposited_from_attributes sample_externals
        (from_block_info (sample_l1_info 1) 3 1720000000 (sample_config optimism))))) =
   Err (Eyre ''invalid calldata length'')"
proof -
  have "is_ecotone_but_not_first_block (cfg_chain (sample_config optimism)) 1720000000"
    by (simp add: is_ecotone_but_not_first_block_def is_ecotone_activation_block_def optimism_def)
  then show ?thesis
    using ecotone_attributes_not_read_back [OF abi_static_sample block_info_sample_l2_block,
        of 1720000000 "dt_data (deposited_from_attributes sample_externals
          (from_block_info (sample_l1_info 1) 3 1720000000 (sample_config optimism)))"]
    by (simp add: sample_l2_block_def)
qed

end
