(* ===== verification/Pipeline.thy ===== *)
theory Pipeline
  imports Attributes
begin

text \<open>
  \<^verbatim>\<open>src/src/derive/mod.rs\<close>: the derivation pipeline, the four stages stacked on each other with
  the sending end of the batcher transactions' channel and the attributes fetched ahead by \<open>peek\<close>.

  Shown: \<open>peek\<close> fetches what \<open>next\<close> then returns; a purged pipeline yields nothing until new
  input arrives, unless attributes had been fetched ahead: those survive the purge.
\<close>

type_synonym stages = "batcher_transactions channels batches attributes"

record pipeline =
  pp_attributes :: stages
  pp_pending_attributes :: "payload_attributes option"

definition stages_next ::
  "externals \<Rightarrow> derive_state \<Rightarrow> stages \<Rightarrow> (payload_attributes option \<times> stages) outcome" where
  "stages_next ex state =
     attributes_next ex (batches_next (ex_codec ex) (channels_next batcher_transactions_next) state) state"

definition stages_purge :: "derive_state \<Rightarrow> stages \<Rightarrow> stages" where
  "stages_purge state = attributes_purge (batches_purge (channels_purge batcher_transactions_purge)) state"

definition pipeline_new :: "derive_state \<Rightarrow> config \<Rightarrow> u64 \<Rightarrow> pipeline" where
  "pipeline_new state config seq =
     (let batcher_transactions = batcher_transactions_new [];
          channels = channels_new batcher_transactions config;
          batches = batches_new channels config;
          attributes = attributes_new batches state config seq
      in \<lparr>pp_attributes = attributes, pp_pending_attributes = None\<rparr>)"

definition pipeline_next ::
  "externals \<Rightarrow> derive_state \<Rightarrow> pipeline \<Rightarrow> (payload_attributes option \<times> pipeline) outcome" where
  "pipeline_next ex state p =
     (if pp_pending_attributes p \<noteq> None then
        Ok (pp_pending_attributes p, p\<lparr>pp_pending_attributes := None\<rparr>)
      else
        and_then (stages_next ex state (pp_attributes p)) (\<lambda>(x, at). Ok (x, p\<lparr>pp_attributes := at\<rparr>)))"

definition pipeline_peek ::
  "externals \<Rightarrow> derive_state \<Rightarrow> pipeline \<Rightarrow> (payload_attributes option \<times> pipeline) outcome" where
  "pipeline_peek ex state p =
     and_then
       (if pp_pending_attributes p = None then
          and_then (pipeline_next ex state p) (\<lambda>(next_attributes, p1).
          Ok (p1\<lparr>pp_pending_attributes := next_attributes\<rparr>))
        else Ok p)
       (\<lambda>p'. Ok (pp_pending_attributes p', p'))"

text \<open>Sending on the channel appends a message to what the first stage will receive.\<close>

definition bts_send :: "batcher_transaction_message \<Rightarrow> batcher_transactions \<Rightarrow> batcher_transactions" where
  "bts_send msg t = t\<lparr>bts_transaction_rx := bts_transaction_rx t @ [msg]\<rparr>"

definition stages_send :: "batcher_transaction_message \<Rightarrow> stages \<Rightarrow> stages" where
  "stages_send msg at =
     at\<lparr>at_block_input_iter := (at_block_input_iter at)
        \<lparr>bs_channel_iter := (bs_channel_iter (at_block_input_iter at))
          \<lparr>chs_batcher_tx_iter := bts_send msg (chs_batcher_tx_iter (bs_channel_iter (at_block_input_iter at)))\<rparr>\<rparr>\<rparr>"

definition push_batcher_transactions :: "pipeline \<Rightarrow> bytes list \<Rightarrow> u64 \<Rightarrow> pipeline" where
  "push_batcher_transactions p txs l1_origin =
     p\<lparr>pp_attributes := stages_send \<lparr>btm_txs = txs, btm_l1_origin = l1_origin\<rparr> (pp_attributes p)\<rparr>"

definition pipeline_purge :: "derive_state \<Rightarrow> pipeline \<Rightarrow> pipeline" where
  "pipeline_purge state p = p\<lparr>pp_attributes := stages_purge state (pp_attributes p)\<rparr>"

section \<open>The stacked stages as one purgeable iterator\<close>

interpretation stacked: attributes_stage
  "\<lambda>(_ :: unit, state). batches_next (ex_codec ex) (channels_next batcher_transactions_next) state"
  "batches_purge (channels_purge batcher_transactions_purge)"
  "\<lambda>s. (True \<and> channels_inv (bs_channel_iter s)) \<and> batches_inv s"
  "\<lambda>s. ((bts_txs (chs_batcher_tx_iter (bs_channel_iter s)) = [] \<and>
          bts_transaction_rx (chs_batcher_tx_iter (bs_channel_iter s)) = []) \<and>
        chs_pending_channels (bs_channel_iter s) = [] \<and> chs_frame_bank (bs_channel_iter s) = []) \<and>
      bs_batches s = [] \<and> bs_pending_inputs s = []"
  "\<lambda>(_, state). True \<and> epoch_by_number state (ep_number (st_safe_epoch state) + 1) = None"
  ex snd purge_state for ex purge_state
  by (rule attributes_stage.intro, rule queue.batches_out.purgeable_iterator_axioms)

definition stages_inv :: "stages \<Rightarrow> bool" where
  "stages_inv at \<longleftrightarrow>
     channels_inv (bs_channel_iter (at_block_input_iter at)) \<and> batches_inv (at_block_input_iter at)"

definition pipeline_inv :: "pipeline \<Rightarrow> bool" where
  "pipeline_inv p \<longleftrightarrow> stages_inv (pp_attributes p)"

lemma stages_inv_next: "stages_inv at \<Longrightarrow> stages_next ex state at = Ok (x, at') \<Longrightarrow> stages_inv at'"
  using stacked.attributes_out.inv_step [of at ex "((), state)" x at']
  by (simp add: stages_inv_def stages_next_def)

text \<open>
  Stages that hold nothing: no message, transaction, frame, pending channel, batch or block input is left in them, and the
  last one counts from zero in the epoch \<open>h\<close>.
\<close>

definition stages_fresh :: "h256 \<Rightarrow> stages \<Rightarrow> bool" where
  "stages_fresh h at \<longleftrightarrow>
     (let queue = at_block_input_iter at; bank = bs_channel_iter queue; txs = chs_batcher_tx_iter bank
      in bts_transaction_rx txs = [] \<and> bts_txs txs = [] \<and> chs_frame_bank bank = [] \<and> chs_pending_channels bank = [] \<and>
         bs_batches queue = [] \<and> bs_pending_inputs queue = [] \<and> at_sequence_number at = 0 \<and> at_epoch_hash at = h)"

lemma stages_fresh_purge: "stages_fresh (ep_hash (st_safe_epoch state)) (stages_purge state at)"
  by (simp add: stages_fresh_def stages_purge_def attributes_purge_def batches_purge_def channels_purge_def
      batcher_transactions_purge_def Let_def)

lemma stages_next_fresh:
  assumes "stages_fresh h at" "epoch_by_number state (ep_number (st_safe_epoch state) + 1) = None"
  shows "\<exists>at'. stages_next ex state at = Ok (None, at') \<and> stages_fresh h at'"
proof -
  let ?q = "at_block_input_iter at"
  obtain q where "batches_next (ex_codec ex) (channels_next batcher_transactions_next) state ?q = Ok (None, q)"
    "bts_txs (chs_batcher_tx_iter (bs_channel_iter q)) = []" "bts_transaction_rx (chs_batcher_tx_iter (bs_channel_iter q)) = []"
    "chs_pending_channels (bs_channel_iter q) = []" "chs_frame_bank (bs_channel_iter q) = []" "bs_batches q = []" "bs_pending_inputs q = []"
    using queue.batches_next_drained [where s = ?q and state = state and cod = "ex_codec ex"] assms by (auto simp: stages_fresh_def Let_def)
  then show ?thesis using assms(1) by (simp add: stages_next_def attributes_next_def stages_fresh_def Let_def)
qed

lemma stages_purged_quiet:
  assumes "epoch_by_number state (ep_number (st_safe_epoch state) + 1) = None"
  shows "\<exists>at'. stages_next ex state (stages_purge st at) = Ok (None, at') \<and> stages_fresh (ep_hash (st_safe_epoch st)) at'"
  using stages_next_fresh [OF stages_fresh_purge assms] .

lemma pipeline_inv_new: "pipeline_inv (pipeline_new state config seq)"
  by (simp add: pipeline_inv_def pipeline_new_def stages_inv_def attributes_new_def batches_inv_new
      channels_inv_new) (simp add: batches_new_def channels_inv_new)

lemma pipeline_inv_next: "pipeline_inv p \<Longrightarrow> pipeline_next ex state p = Ok (x, p') \<Longrightarrow> pipeline_inv p'"
  by (auto simp: pipeline_inv_def pipeline_next_def outcome_simps stages_inv_next split: if_splits)

lemma pipeline_inv_push: "pipeline_inv p \<Longrightarrow> pipeline_inv (push_batcher_transactions p txs l1)"
  by (simp add: pipeline_inv_def push_batcher_transactions_def stages_inv_def stages_send_def
      channels_inv_def batches_inv_def)

lemma pipeline_inv_purge: "pipeline_inv p \<Longrightarrow> pipeline_inv (pipeline_purge state p)"
  by (simp add: pipeline_inv_def pipeline_purge_def stages_inv_def stages_purge_def attributes_purge_def
      batches_purge_def channels_purge_def channels_inv_def batches_inv_def)

section \<open>Properties\<close>

text \<open>
  \<open>peek\<close> returns what the next call of \<open>next\<close> returns and does not advance the pipeline
  a second time: peeking again, or taking the next attributes, gives the same attributes.
\<close>

lemma peek_then_next:
  assumes "pipeline_peek ex state p = Ok (Some pa, p')"
  shows "pipeline_next ex state' p' = Ok (Some pa, p'\<lparr>pp_pending_attributes := None\<rparr>) \<and>
    pipeline_peek ex state' p' = Ok (Some pa, p')"
  using assms by (auto simp: pipeline_peek_def pipeline_next_def outcome_simps split: if_splits)

definition sample_payload_attributes :: payload_attributes where
  "sample_payload_attributes =
     \<lparr>pa_timestamp = 202, pa_prev_randao = 5, pa_suggested_fee_recipient = 6, pa_transactions = Some [RawTransaction [1]],
      pa_no_tx_pool = True, pa_gas_limit = 30000000, pa_withdrawals = None,
      pa_epoch = Some \<lparr>ep_number = 4000, ep_hash = 3, ep_timestamp = 190\<rparr>,
      pa_l1_inclusion_block = Some 4001, pa_seq_number = Some 1\<rparr>"

definition ahead_pipeline :: pipeline where
  "ahead_pipeline = (pipeline_new sample_state (sample_config optimism_sepolia) 0)
     \<lparr>pp_pending_attributes := Some sample_payload_attributes\<rparr>"

lemma peek_then_next_witness:
  "pipeline_next sample_externals sample_state ahead_pipeline =
     Ok (Some sample_payload_attributes, ahead_pipeline\<lparr>pp_pending_attributes := None\<rparr>)"
proof -
  have "pipeline_peek sample_externals sample_state ahead_pipeline = Ok (Some sample_payload_attributes, ahead_pipeline)"
    by (simp add: pipeline_peek_def ahead_pipeline_def)
  then show ?thesis using peek_then_next by blast
qed

text \<open>
  A purge of the pipeline drops everything in its stages, so that it yields nothing until new
  batcher transactions arrive, except for attributes that had been fetched ahead: these are
  not cleared, and the first call after the purge still hands them on.
\<close>

lemma purge_keeps_only_fetched_attributes:
  "\<exists>at'. pipeline_next ex (state_purge st head epoch) (pipeline_purge (state_purge st head epoch) p) =
     Ok (pp_pending_attributes p, \<lparr>pp_attributes = at', pp_pending_attributes = None\<rparr>)"
proof (cases "pp_pending_attributes p")
  case None
  have "epoch_by_number (state_purge st head epoch) k = None" for k
    by (simp add: epoch_by_number_def l1_info_by_number_def state_purge_def update_safe_head_def)
  then obtain at' where "stages_next ex (state_purge st head epoch)
      (stages_purge (state_purge st head epoch) (pp_attributes p)) = Ok (None, at')"
    using stages_purged_quiet by blast
  with None show ?thesis by (cases p) (simp add: pipeline_next_def pipeline_purge_def)
next
  case (Some pa)
  then show ?thesis by (cases p) (simp add: pipeline_next_def pipeline_purge_def)
qed

end
