(* ===== verification/Derivation.thy ===== *)
theory Derivation
  imports Pipeline
begin

text \<open>
  The stages of the pipeline as the inverse of what a batcher does. A batcher encodes the blocks of L2 as batches, compresses them into a
  channel, cuts the channel into frames and posts the frames in transactions of L1 blocks. The driver pushes them into the pipeline
  (\<^verbatim>\<open>src/src/derive/mod.rs\<close>); the calls of \<^verbatim>\<open>Batches::next\<close>, the stage that gives the inputs of blocks to the last stage, each with the
  derivation state of its moment, are \<open>input_run\<close>.

  Shown: the calls return nothing until the last frame of the channel is in, and from then on the input of
  one block per call, for every batch of the channel in order.
  The last stage turns an input into attributes, unless it panics on the gas limit (\<open>attributes_next_panics\<close>): then the whole
  pipeline panics on the first input, and yields nothing before.
  Of the attributes that it does yield, whatever has been done with it, the type is shown.

  The encoders of the batcher are not part of this program: they are the fields of \<open>channel_encoder\<close>, and
  \<open>channel_codec\<close> states that the libraries decode what they encode.
\<close>

text \<open>The three lower stages of a pipeline, and a call of them.\<close>

abbreviation queue_of :: "pipeline \<Rightarrow> batcher_transactions channels batches" where
  "queue_of p \<equiv> at_block_input_iter (pp_attributes p)"

abbreviation next_input ::
  "codec \<Rightarrow> derive_state \<Rightarrow> batcher_transactions channels batches \<Rightarrow>
   (u64 block_input option \<times> batcher_transactions channels batches) outcome" where
  "next_input cod state \<equiv> batches_next cod (channels_next batcher_transactions_next) state"

fun input_run ::
  "codec \<Rightarrow> derive_state list \<Rightarrow> batcher_transactions channels batches \<Rightarrow>
   (u64 block_input option list \<times> batcher_transactions channels batches) outcome" where
  "input_run cod [] q = Ok ([], q)"
| "input_run cod (state # states) q =
     and_then (next_input cod state q) (\<lambda>(x, q1).
     and_then (input_run cod states q1) (\<lambda>(xs, q2). Ok (x # xs, q2)))"

lemma input_run_append:
  "input_run cod as q = Ok (xs, q1) \<Longrightarrow> input_run cod bs q1 = Ok (ys, q2) \<Longrightarrow> input_run cod (as @ bs) q = Ok (xs @ ys, q2)"
  by (induction as arbitrary: q xs) (auto simp: outcome_simps)

text \<open>What the pipeline makes of it.\<close>

lemma pipeline_next_stages:
  assumes "pp_pending_attributes p = None"
  shows "pipeline_next ex state p = and_then (attributes_next ex (next_input (ex_codec ex) state) state (pp_attributes p))
      (\<lambda>(x, at). Ok (x, p\<lparr>pp_attributes := at\<rparr>))"
  using assms by (simp add: pipeline_next_def stages_next_def)

lemma pipeline_next_nothing:
  assumes "pp_pending_attributes p = None" "next_input (ex_codec ex) state (queue_of p) = Ok (None, q)"
  shows "pipeline_next ex state p = Ok (None, p\<lparr>pp_attributes := (pp_attributes p)\<lparr>at_block_input_iter := q\<rparr>\<rparr>)"
  using assms by (simp add: pipeline_next_stages attributes_next_def)

lemma pipeline_next_panics:
  assumes "exact_width ex" "pp_pending_attributes p = None" "next_input (ex_codec ex) state (queue_of p) = Ok (Some i, q)"
  shows "is_panic (pipeline_next ex state p)"
  unfolding pipeline_next_stages [OF assms(2)]
  by (rule and_then_panics, rule attributes_next_panics [where it = q and i = i]) (use assms in simp_all)

section \<open>Frames that arrive one by one\<close>

text \<open>The bank holds nothing but the frames \<open>gs\<close> of one channel.\<close>

definition collecting :: "u128 \<Rightarrow> bytes list \<Rightarrow> frame list \<Rightarrow> 'i channels \<Rightarrow> bool" where
  "collecting cid ds gs s \<longleftrightarrow> chs_frame_bank s = [] \<and>
     (if gs = [] then chs_pending_channels s = []
      else \<exists>pc. chs_pending_channels s = [pc] \<and> pending_of pc cid ds gs)"

lemma push_collecting:
  assumes "collecting cid ds gs s" and "\<forall>g \<in> set (gs @ [f]). frame_of cid ds g"
    and "within_timeout (chs_channel_timeout s) (gs @ [f])"
  shows "\<exists>pc. pending_of pc cid ds (gs @ [f]) \<and>
    channels_push_frame (s\<lparr>chs_frame_bank := []\<rparr>) f = s\<lparr>chs_frame_bank := [], chs_pending_channels := [pc]\<rparr>"
proof (cases "gs = []")
  case True
  then have "pending_of (pending_channel_new f) cid ds (gs @ [f])" using assms(2) by (simp add: pending_of_new)
  then show ?thesis using assms(1) True by (intro exI conjI) (assumption, simp add: channels_push_frame_def collecting_def)
next
  case False
  then obtain pc where pc: "chs_pending_channels s = [pc]" "pending_of pc cid ds gs"
    using assms(1) by (auto simp: collecting_def)
  have f: "frame_of cid ds f" using assms(2) by simp
  have new: "pending_of (pending_push_frame pc f) cid ds (gs @ [f])" by (rule pending_of_push [OF pc(2) f])
  then have "\<not> is_timed_out (pending_push_frame pc f) (chs_channel_timeout s)"
    using assms(3) by (rule pending_of_not_timed_out)
  then have "channels_push_frame (s\<lparr>chs_frame_bank := []\<rparr>) f =
      s\<lparr>chs_frame_bank := [], chs_pending_channels := [pending_push_frame pc f]\<rparr>"
    using pc f by (simp add: channels_push_frame_def pending_of_def frame_of_def Let_def)
  with new show ?thesis by blast
qed

lemma collect_frame:
  assumes "collecting cid ds gs s" and "next_tx (chs_batcher_tx_iter s) = Ok (Some \<lparr>btx_version = v, btx_frames = [f]\<rparr>, it)"
    and fs: "\<forall>g \<in> set (gs @ [f]). frame_of cid ds g" and "within_timeout (chs_channel_timeout s) (gs @ [f])"
    and ds: "ds \<noteq> []" "length ds < 2 ^ 16" "length (concat ds) \<le> unat (chs_max_channel_size s)"
    and l1: "\<forall>g \<in> set gs. fr_l1_inclusion_block g \<le> fr_l1_inclusion_block f" and "\<not> all_seen ds gs"
  shows "\<exists>pcs. channels_next next_tx s =
      Ok (if all_seen ds (gs @ [f])
          then Some \<lparr>ch_id = cid, ch_data = concat ds, ch_l1_inclusion_block = fr_l1_inclusion_block f\<rparr> else None,
        s\<lparr>chs_batcher_tx_iter := it, chs_pending_channels := pcs\<rparr>) \<and>
    collecting cid ds (if all_seen ds (gs @ [f]) then [] else gs @ [f]) (s\<lparr>chs_batcher_tx_iter := it, chs_pending_channels := pcs\<rparr>)"
proof -
  let ?s = "s\<lparr>chs_batcher_tx_iter := it, chs_frame_bank := [f]\<rparr>"
  have bank: "chs_frame_bank s = []" using assms(1) by (simp add: collecting_def)
  have "collecting cid ds gs (?s\<lparr>chs_frame_bank := []\<rparr>)" using assms(1) by (simp add: collecting_def)
  then obtain pc where pc: "pending_of pc cid ds (gs @ [f])"
    and push: "channels_push_frame (?s\<lparr>chs_frame_bank := []\<rparr>) f = ?s\<lparr>chs_frame_bank := [], chs_pending_channels := [pc]\<rparr>"
    using push_collecting [of cid ds gs "?s\<lparr>chs_frame_bank := []\<rparr>" f] fs assms(4) by auto
  have "fr_channel_id f = cid" using fs by (simp add: frame_of_def)
  then have step: "process_bank [f] ?s =
    (if all_seen ds (gs @ [f])
     then Ok (Some \<lparr>ch_id = cid, ch_data = concat ds, ch_l1_inclusion_block = pc_highest_l1_block pc\<rparr>,
              ?s\<lparr>chs_frame_bank := [], chs_pending_channels := []\<rparr>)
     else process_bank [] (?s\<lparr>chs_frame_bank := [], chs_pending_channels := [pc]\<rparr>))"
    using collect_step [OF pc fs push] ds by simp
  have run: "channels_next next_tx s = process_bank [f] ?s"
    using assms(2) bank by (simp add: channels_next_def process_frames_def fill_bank_def)
  have same: "?s\<lparr>chs_frame_bank := [], chs_pending_channels := pcs\<rparr> = s\<lparr>chs_batcher_tx_iter := it, chs_pending_channels := pcs\<rparr>" for pcs
    using bank by simp
  show ?thesis
  proof (cases "all_seen ds (gs @ [f])")
    case True
    then show ?thesis using run step completed_highest_l1 [OF pc True assms(9) l1] bank
      by (intro exI [of _ "[]"]) (simp add: collecting_def same)
  next
    case False
    then show ?thesis using run step pc bank
      by (intro exI [of _ "[pc]"]) (simp add: collecting_def same)
  qed
qed

section \<open>Batches in a channel\<close>

text \<open>
  What a batcher uses: the RLP encoding of the five fields of a batch, RLP strings, and zlib. The stage
  reads them through the libraries in \<open>codec\<close>.
\<close>

record channel_encoder =
  ce_batch :: "single_batch \<Rightarrow> bytes"
  ce_string :: "bytes \<Rightarrow> bytes"
  ce_zlib :: "bytes \<Rightarrow> bytes"

definition reads_batch :: "codec \<Rightarrow> bytes \<Rightarrow> single_batch \<Rightarrow> bool" where
  "reads_batch cod rlp b \<longleftrightarrow>
     (\<exists>h n. cod_rlp_payload_info cod rlp = Some (h, n) \<and> h + n = length rlp) \<and>
     cod_rlp_h256_at cod rlp 0 = Some (sb_parent_hash b) \<and> cod_rlp_u64_at cod rlp 1 = Some (sb_epoch_num b) \<and>
     cod_rlp_h256_at cod rlp 2 = Some (sb_epoch_hash b) \<and> cod_rlp_u64_at cod rlp 3 = Some (sb_timestamp b) \<and>
     cod_rlp_list_at cod rlp 4 = Some (sb_transactions b)"

definition channel_codec :: "codec \<Rightarrow> channel_encoder \<Rightarrow> bool" where
  "channel_codec cod ce \<longleftrightarrow>
     (\<forall>data. cod_zlib cod (ce_zlib ce data) = Some data) \<and>
     (\<forall>b. reads_batch cod (ce_batch ce b) b) \<and>
     (\<forall>str rest. cod_rlp_as_bytes cod (ce_string ce str @ rest) = Some str \<and>
        (\<exists>h. cod_rlp_payload_info cod (ce_string ce str @ rest) = Some (h, length str) \<and>
          length (ce_string ce str) = h + length str))"

definition encode_batch :: "channel_encoder \<Rightarrow> single_batch \<Rightarrow> bytes" where
  "encode_batch ce b = ce_string ce (0 # ce_batch ce b)"

definition encode_channel :: "channel_encoder \<Rightarrow> single_batch list \<Rightarrow> bytes" where
  "encode_channel ce bs = ce_zlib ce (concat (map (encode_batch ce) bs))"

lemma reads_batch_decode:
  "reads_batch cod rlp b \<Longrightarrow> sb_l1_inclusion_block b = l1 \<Longrightarrow> single_batch_decode cod rlp l1 = Ok b"
  by (auto simp: reads_batch_def single_batch_decode_def rlp_try_def)

lemma decode_encoded_from:
  assumes "channel_codec cod ce" and "\<forall>b \<in> set bs. sb_l1_inclusion_block b = ch_l1_inclusion_block ch"
  shows "decode_batches_from cod ch chain_id (pre @ concat (map (encode_batch ce) bs)) (length pre) acc = Ok (acc @ map Single bs)"
  using assms(2)
proof (induction bs arbitrary: pre acc)
  case Nil
  show ?case by (simp add: decode_batches_from.simps)
next
  case (Cons b bs)
  let ?rest = "concat (map (encode_batch ce) bs)"
  obtain h where str: "cod_rlp_as_bytes cod (encode_batch ce b @ ?rest) = Some (0 # ce_batch ce b)"
      "cod_rlp_payload_info cod (encode_batch ce b @ ?rest) = Some (h, Suc (length (ce_batch ce b)))"
    and len: "length (encode_batch ce b) = h + Suc (length (ce_batch ce b))"
    using assms(1) unfolding channel_codec_def encode_batch_def by (metis length_Cons)
  have read: "reads_batch cod (ce_batch ce b) b" using assms(1) by (simp add: channel_codec_def)
  then obtain i where info: "cod_rlp_payload_info cod (ce_batch ce b) = Some i" "payload_total i = length (ce_batch ce b)"
    by (auto simp: reads_batch_def payload_total_def)
  have "length pre + (payload_total i + h + 1) = length (pre @ encode_batch ce b)" by (simp add: len info)
  then show ?case
    using Cons.IH [of "pre @ encode_batch ce b" "acc @ [Single b]"] Cons.prems str info reads_batch_decode [OF read]
    by (subst decode_batches_from.simps) (simp add: slice_from_def rlp_try_def index_def len ac_simps)
qed

lemma decode_encoded_channel:
  assumes "channel_codec cod ce" and "\<forall>b \<in> set bs. sb_l1_inclusion_block b = ch_l1_inclusion_block ch"
    and "ch_data ch = encode_channel ce bs"
  shows "decode_batches cod ch chain_id = Ok (map Single bs)"
  using decode_encoded_from [OF assms(1,2), of chain_id "[]" "[]"] assms(1,3)
  by (simp add: decode_batches_def encode_channel_def channel_codec_def)


section \<open>Blocks to come\<close>

text \<open>
  A block to come: the derivation state at its turn, and its batch. Its input comes out of the queue
  if the batch is accepted in that state and is newer than the safe head.
\<close>

type_synonym derivation = "derive_state \<times> single_batch"

fun acceptable :: "config \<Rightarrow> derivation \<Rightarrow> bool" where
  "acceptable config (state, b) \<longleftrightarrow> single_batch_status state config b = Accept \<and> bi_timestamp (st_safe_head state) < sb_timestamp b"

definition batches_of :: "derivation list \<Rightarrow> single_batch list" where
  "batches_of blocks = map snd blocks"

lemma batches_of_simps [simp]:
  "batches_of [] = []" "batches_of ((state, b) # blocks) = b # batches_of blocks"
  by (simp_all add: batches_of_def)

section \<open>The stages, each on its own\<close>

abbreviation queued :: "single_batch list \<Rightarrow> (u64, batch) btree" where
  "queued bs \<equiv> map (\<lambda>b. (sb_timestamp b, Single b)) bs"

lemma bt_insert_last: "\<forall>(j, u) \<in> set m. j < k \<Longrightarrow> bt_insert k v m = m @ [(k, v)]"
  by (induction m) auto

lemma insert_sorted_batches:
  assumes "sorted_wrt (<) (map sb_timestamp (cs @ bs))"
  shows "insert_batches config (map Single bs) (queued cs) = queued (cs @ bs)"
  using assms
proof (induction bs arbitrary: cs)
  case (Cons b bs)
  have "bt_insert (sb_timestamp b) (Single b) (queued cs) = queued (cs @ [b])"
    using Cons.prems by (subst bt_insert_last) (auto simp: sorted_wrt_append)
  then show ?case using Cons.IH [of "cs @ [b]"] Cons.prems
    by (simp add: insert_batches_def batch_timestamp_def)
qed (simp add: insert_batches_def)

lemma queue_inv_queued: "sorted_wrt (<) (map sb_timestamp bs) \<Longrightarrow> queue_inv config (queued bs)"
  using queue_inv_insert_batches [of config "[]" "map Single bs"] insert_sorted_batches [of "[]" bs config] by simp

lemma derive_next_accepts:
  assumes "bs_batches q = queued (b # bs)" "bs_pending_inputs q = []" "sorted_wrt (<) (map sb_timestamp (b # bs))"
    and "acceptable (bs_config q) (state, b)"
  shows "derive_next state q = Ok (Inr (Some (single_block_input b)), q\<lparr>bs_batches := queued bs\<rparr>)"
  using assms select_batch_Cons [of "bs_config q" "sb_timestamp b" "Single b" "queued bs" state]
    queue_inv_queued [OF assms(3), of "bs_config q"]
  by (simp add: derive_next_def batch_status_def as_inputs_def filter_inputs_def single_block_input_def)

section \<open>Calls of the stages\<close>

text \<open>
  The stages between two calls: the frames \<open>gs\<close> of the channel are in the bank and the frames \<open>fs\<close> are still to be
  read, each in a transaction of its own; the batches \<open>bs\<close> are queued.
\<close>

definition holds ::
  "config \<Rightarrow> u128 \<Rightarrow> bytes list \<Rightarrow> frame list \<Rightarrow> frame list \<Rightarrow> single_batch list \<Rightarrow> batcher_transactions channels batches \<Rightarrow> bool" where
  "holds config cid ds gs fs bs q \<longleftrightarrow>
     (let c = bs_channel_iter q; t = chs_batcher_tx_iter c
      in bs_config q = config \<and> bs_pending_inputs q = [] \<and> bs_batches q = queued bs \<and>
         chs_channel_timeout c = cc_channel_timeout (cfg_chain config) \<and>
         chs_max_channel_size c = cc_max_channel_size (cfg_chain config) \<and> collecting cid ds gs c \<and>
         bts_safe t \<and> bts_backlog t = map one_frame fs)"

text \<open>What is assumed of the frames: they are those of one channel, in the order of L1, in time and not too large.\<close>

definition channel_posted :: "config \<Rightarrow> u128 \<Rightarrow> bytes list \<Rightarrow> frame list \<Rightarrow> bool" where
  "channel_posted config cid ds fs \<longleftrightarrow>
     (\<forall>f \<in> set fs. frame_of cid ds f) \<and> within_timeout (cc_channel_timeout (cfg_chain config)) fs \<and>
     sorted (map fr_l1_inclusion_block fs) \<and> ds \<noteq> [] \<and> length ds < 2 ^ 16 \<and>
     length (concat ds) \<le> unat (cc_max_channel_size (cfg_chain config))"

lemma within_timeout_prefix: "within_timeout t (gs @ fs) \<Longrightarrow> within_timeout t gs"
  by (simp add: within_timeout_def)

lemma channels_next_frame:
  assumes "collecting cid ds gs c" "bts_safe (chs_batcher_tx_iter c)" "bts_backlog (chs_batcher_tx_iter c) = map one_frame (f # fs)"
    and "channel_posted config cid ds (gs @ f # fs)" "\<not> all_seen ds gs"
    and "chs_channel_timeout c = cc_channel_timeout (cfg_chain config)" "chs_max_channel_size c = cc_max_channel_size (cfg_chain config)"
  shows "\<exists>it pcs. channels_next batcher_transactions_next c =
      Ok (if all_seen ds (gs @ [f])
          then Some \<lparr>ch_id = cid, ch_data = concat ds, ch_l1_inclusion_block = fr_l1_inclusion_block f\<rparr> else None,
        c\<lparr>chs_batcher_tx_iter := it, chs_pending_channels := pcs\<rparr>) \<and>
    collecting cid ds (if all_seen ds (gs @ [f]) then [] else gs @ [f]) (c\<lparr>chs_batcher_tx_iter := it, chs_pending_channels := pcs\<rparr>) \<and>
    bts_safe it \<and> bts_backlog it = map one_frame fs"
proof -
  obtain it where it: "batcher_transactions_next (chs_batcher_tx_iter c) = Ok (Some (one_frame f), it)"
    "bts_backlog it = map one_frame fs" "bts_safe it"
    using batcher_transactions_next_safe [OF assms(2)] assms(3) by auto
  have "within_timeout (chs_channel_timeout c) (gs @ [f])"
    using assms(4,6) within_timeout_prefix [of _ "gs @ [f]" fs] by (simp add: channel_posted_def)
  moreover have "\<forall>g \<in> set (gs @ [f]). frame_of cid ds g" "\<forall>g \<in> set gs. fr_l1_inclusion_block g \<le> fr_l1_inclusion_block f"
    using assms(4) by (auto simp: channel_posted_def sorted_append)
  ultimately show ?thesis
    using collect_frame [where next_tx = batcher_transactions_next, OF assms(1) it(1)] assms(4,5,7) it(2,3) unfolding channel_posted_def by metis
qed

lemma channels_next_idle:
  assumes "collecting cid ds [] c" "bts_safe (chs_batcher_tx_iter c)" "bts_backlog (chs_batcher_tx_iter c) = []"
  shows "\<exists>it. channels_next batcher_transactions_next c = Ok (None, c\<lparr>chs_batcher_tx_iter := it\<rparr>) \<and>
    bts_safe it \<and> bts_backlog it = []"
  using batcher_transactions_next_safe [OF assms(2)] assms
  by (auto simp: channels_next_def process_frames_def fill_bank_def collecting_def)

lemma next_waits:
  assumes "holds config cid ds gs (f # fs) [] q" "channel_posted config cid ds (gs @ f # fs)"
    and "\<not> all_seen ds gs" "\<not> all_seen ds (gs @ [f])" "empty_input state config = None"
  shows "\<exists>q'. next_input cod state q = Ok (None, q') \<and> holds config cid ds (gs @ [f]) fs [] q'"
proof -
  obtain it pcs where ch: "channels_next batcher_transactions_next (bs_channel_iter q) =
      Ok (None, (bs_channel_iter q)\<lparr>chs_batcher_tx_iter := it, chs_pending_channels := pcs\<rparr>)"
    "collecting cid ds (gs @ [f]) ((bs_channel_iter q)\<lparr>chs_batcher_tx_iter := it, chs_pending_channels := pcs\<rparr>)"
    "bts_safe it" "bts_backlog it = map one_frame fs"
    using channels_next_frame [of cid ds gs "bs_channel_iter q" f fs config] assms(1-4) by (auto simp: holds_def Let_def)
  then show ?thesis using assms
    by (simp add: holds_def Let_def batches_next_def try_next_def derive_next_def select_batch.simps)
qed

lemma next_delivers:
  assumes "holds config cid ds gs [f] [] q" "channel_posted config cid ds (gs @ [f])"
    and "\<not> all_seen ds gs" "all_seen ds (gs @ [f])"
    and "channel_codec cod ce" "concat ds = encode_channel ce (b # bs)"
    and "\<forall>c \<in> set (b # bs). sb_l1_inclusion_block c = fr_l1_inclusion_block f" "sorted_wrt (<) (map sb_timestamp (b # bs))"
    and "acceptable config (state, b)"
  shows "\<exists>q'. next_input cod state q = Ok (Some (single_block_input b), q') \<and> holds config cid ds [] [] bs q'"
proof -
  let ?ch = "\<lparr>ch_id = cid, ch_data = concat ds, ch_l1_inclusion_block = fr_l1_inclusion_block f\<rparr>"
  obtain it pcs where ch: "channels_next batcher_transactions_next (bs_channel_iter q) =
      Ok (Some ?ch, (bs_channel_iter q)\<lparr>chs_batcher_tx_iter := it, chs_pending_channels := pcs\<rparr>)"
    "collecting cid ds [] ((bs_channel_iter q)\<lparr>chs_batcher_tx_iter := it, chs_pending_channels := pcs\<rparr>)"
    "bts_safe it" "bts_backlog it = []"
    using channels_next_frame [of cid ds gs "bs_channel_iter q" f "[]" config] assms(1-4) by (auto simp: holds_def Let_def)
  let ?q1 = "q\<lparr>bs_channel_iter := (bs_channel_iter q)\<lparr>chs_batcher_tx_iter := it, chs_pending_channels := pcs\<rparr>,
      bs_batches := queued (b # bs)\<rparr>"
  have dec: "decode_batches cod ?ch chain_id = Ok (map Single (b # bs))" for chain_id
    using assms(5-7) by (intro decode_encoded_channel) auto
  have q: "bs_config q = config" "bs_pending_inputs q = []" "bs_batches q = []" using assms(1) by (simp_all add: holds_def Let_def)
  have "derive_next state ?q1 = Ok (Inr (Some (single_block_input b)), ?q1\<lparr>bs_batches := queued bs\<rparr>)"
    using assms(8,9) q by (intro derive_next_accepts) simp_all
  then have "next_input cod state q = Ok (Some (single_block_input b), ?q1\<lparr>bs_batches := queued bs\<rparr>)"
    using insert_sorted_batches [of "[]" "b # bs" config] assms(8) q ch(1) dec by (simp add: batches_next_def try_next_def)
  then show ?thesis using assms(1) ch by (simp add: holds_def Let_def)
qed

lemma next_serves:
  assumes "holds config cid ds [] [] (b # bs) q" "sorted_wrt (<) (map sb_timestamp (b # bs))" "acceptable config (state, b)"
  shows "\<exists>q'. next_input cod state q = Ok (Some (single_block_input b), q') \<and> holds config cid ds [] [] bs q'"
proof -
  obtain it where ch: "channels_next batcher_transactions_next (bs_channel_iter q) = Ok (None, (bs_channel_iter q)\<lparr>chs_batcher_tx_iter := it\<rparr>)"
    "bts_safe it" "bts_backlog it = []"
    using channels_next_idle [of cid ds "bs_channel_iter q"] assms(1) by (auto simp: holds_def Let_def)
  let ?q1 = "q\<lparr>bs_channel_iter := (bs_channel_iter q)\<lparr>chs_batcher_tx_iter := it\<rparr>\<rparr>"
  have "derive_next state ?q1 = Ok (Inr (Some (single_block_input b)), ?q1\<lparr>bs_batches := queued bs\<rparr>)"
    using assms by (intro derive_next_accepts) (simp_all add: holds_def Let_def)
  then have "next_input cod state q = Ok (Some (single_block_input b), ?q1\<lparr>bs_batches := queued bs\<rparr>)"
    using assms(1) ch(1) by (simp add: batches_next_def try_next_def holds_def Let_def)
  then show ?thesis using assms(1) ch by (simp add: holds_def Let_def collecting_def)
qed

section \<open>Runs\<close>

definition queue_idle :: "config \<Rightarrow> batcher_transactions channels batches \<Rightarrow> bool" where
  "queue_idle config q \<longleftrightarrow> holds config 0 [] [] [] [] q"

definition pipeline_idle :: "config \<Rightarrow> pipeline \<Rightarrow> bool" where
  "pipeline_idle config p \<longleftrightarrow> pp_pending_attributes p = None \<and> queue_idle config (queue_of p)"

lemma next_idle:
  assumes "pipeline_idle config p" "empty_input state config = None"
  shows "\<exists>p'. pipeline_next ex state p = Ok (None, p')"
proof -
  let ?q = "queue_of p"
  obtain it where "channels_next batcher_transactions_next (bs_channel_iter ?q) = Ok (None, (bs_channel_iter ?q)\<lparr>chs_batcher_tx_iter := it\<rparr>)"
    using channels_next_idle [of 0 "[]" "bs_channel_iter ?q"] assms(1)
    by (auto simp: pipeline_idle_def queue_idle_def holds_def Let_def)
  then have "\<exists>q. next_input (ex_codec ex) state ?q = Ok (None, q)"
    using assms by (simp add: pipeline_idle_def queue_idle_def holds_def Let_def batches_next_def try_next_def derive_next_def select_batch.simps)
  then show ?thesis using assms(1) pipeline_next_nothing [of p ex state] by (auto simp: pipeline_idle_def)
qed

lemma holds_nothing: "holds config cid ds [] fs bs q \<longleftrightarrow> holds config 0 [] [] fs bs q"
  by (simp add: holds_def collecting_def Let_def)

lemma pipeline_idle_new: "pipeline_idle config (pipeline_new state config seq)"
  by (simp add: pipeline_idle_def queue_idle_def holds_def pipeline_new_def attributes_new_def batches_new_def channels_new_def
      batcher_transactions_new_def collecting_def bts_safe_def bts_backlog_def Let_def)

text \<open>The frames of one L1 block, each in a transaction of its own, as the driver pushes them.\<close>

definition post_frames :: "pipeline \<Rightarrow> u64 \<times> frame list \<Rightarrow> pipeline" where
  "post_frames p = (\<lambda>(l1, fs). push_batcher_transactions p (map (\<lambda>f. 0 # frame_bytes f) fs) l1)"

lemma frame_transaction:
  "frame_wf f \<Longrightarrow> fr_l1_inclusion_block f = l1 \<Longrightarrow> batcher_transaction_new (0 # frame_bytes f) l1 = Ok (one_frame f)"
  using frame_from_data_frame_bytes [of f l1 "[]" "[]"] by (simp add: batcher_transaction_new_Cons frame_bytes_def)

lemma holds_post:
  assumes "holds config cid ds gs fs bs (queue_of p)" "\<forall>f \<in> set hs. frame_wf f \<and> fr_l1_inclusion_block f = l1"
  shows "holds config cid ds gs (fs @ hs) bs (queue_of (post_frames p (l1, hs)))"
proof -
  let ?m = "\<lparr>btm_txs = map (\<lambda>f. 0 # frame_bytes f) hs, btm_l1_origin = l1\<rparr>"
  have "decode_ok ?m = map one_frame hs"
    using assms(2) by (induction hs) (simp_all add: decode_ok_def List.map_filter_simps frame_transaction)
  moreover have "message_safe ?m" using assms(2) by (auto simp: message_safe_def frame_transaction)
  ultimately show ?thesis using assms(1)
    by (simp add: holds_def post_frames_def push_batcher_transactions_def stages_send_def bts_send_def Let_def bts_safe_def
        bts_backlog_def collecting_def)
qed

lemma holds_posts:
  assumes "holds config cid ds gs fs bs (queue_of p)" "\<forall>(l1, hs) \<in> set posts. \<forall>f \<in> set hs. frame_wf f \<and> fr_l1_inclusion_block f = l1"
  shows "holds config cid ds gs (fs @ concat (map snd posts)) bs (queue_of (foldl post_frames p posts))"
  using assms
proof (induction posts arbitrary: p fs)
  case (Cons post posts)
  then show ?case using Cons.IH [OF holds_post [OF Cons.prems(1), of "snd post" "fst post"]] by (cases post) auto
qed simp

lemma post_pending [simp]: "pp_pending_attributes (post_frames p post) = pp_pending_attributes p"
  by (simp add: post_frames_def push_batcher_transactions_def split: prod.splits)

lemma run_waits:
  assumes "holds config cid ds gs (fs @ hs) [] q" "channel_posted config cid ds (gs @ fs @ hs)"
    and "\<not> all_seen ds (gs @ fs)" "length states = length fs" "\<forall>state \<in> set states. empty_input state config = None"
  shows "\<exists>q'. input_run cod states q = Ok (replicate (length fs) None, q') \<and> holds config cid ds (gs @ fs) hs [] q'"
  using assms
proof (induction fs arbitrary: gs q states)
  case (Cons f fs)
  obtain state states' where st: "states = state # states'" using Cons.prems(4) by (cases states) auto
  have frames: "\<forall>g \<in> set (gs @ f # fs). frame_of cid ds g" using Cons.prems(2) by (auto simp: channel_posted_def)
  then have "\<not> all_seen ds gs" "\<not> all_seen ds (gs @ [f])"
    using Cons.prems(3) all_seen_more [of ds gs "f # fs" cid] all_seen_more [of ds "gs @ [f]" fs cid] by auto
  then obtain q1 where q1: "next_input cod state q = Ok (None, q1)" "holds config cid ds (gs @ [f]) (fs @ hs) [] q1"
    using next_waits [of config cid ds gs f "fs @ hs" q state cod] Cons.prems(1,2,5) st by auto
  from Cons.IH [OF q1(2)] Cons.prems(2-5) st
  obtain q2 where "input_run cod states' q1 = Ok (replicate (length fs) None, q2)" "holds config cid ds (gs @ f # fs) hs [] q2" by auto
  then show ?case using q1(1) st by simp
qed simp

lemma run_serves:
  assumes "holds config cid ds [] [] (batches_of blocks) q" "sorted_wrt (<) (map sb_timestamp (batches_of blocks))"
    and "list_all (acceptable config) blocks"
  shows "\<exists>q'. input_run cod (map fst blocks) q = Ok (map (Some \<circ> single_block_input) (batches_of blocks), q') \<and> queue_idle config q'"
  using assms
proof (induction blocks arbitrary: q)
  case Nil
  then show ?case by (simp add: queue_idle_def holds_nothing [of config cid ds])
next
  case (Cons block blocks)
  obtain state b where block: "block = (state, b)" by (cases block)
  obtain q1 where q1: "next_input cod state q = Ok (Some (single_block_input b), q1)" "holds config cid ds [] [] (batches_of blocks) q1"
    using next_serves [of config cid ds b "batches_of blocks" q state cod] Cons.prems block by auto
  with Cons.IH [OF q1(2)] Cons.prems(2,3) block show ?case by (auto simp del: acceptable.simps)
qed

text \<open>Up to the last frame nothing comes out.\<close>

lemma inputs_until_last:
  assumes "queue_idle config (queue_of p)" "\<forall>(l1, gs) \<in> set posts. \<forall>f \<in> set gs. fr_l1_inclusion_block f = l1"
    and "concat (map snd posts) = fs @ [f]" "channel_posted config cid ds (fs @ [f])" "\<not> all_seen ds fs"
    and "length waits = length fs" "\<forall>state \<in> set waits. empty_input state config = None"
  shows "\<exists>q. input_run cod waits (queue_of (foldl post_frames p posts)) = Ok (replicate (length fs) None, q) \<and> holds config cid ds fs [f] [] q"
proof -
  let ?p = "foldl post_frames p posts"
  have wf: "\<forall>g \<in> set (fs @ [f]). frame_wf g" using assms(4) by (auto simp: channel_posted_def frame_of_def)
  have "holds config cid ds [] ([] @ concat (map snd posts)) [] (queue_of ?p)"
  proof (rule holds_posts)
    show "holds config cid ds [] [] [] (queue_of p)" using assms(1) by (simp add: queue_idle_def holds_nothing [of config cid ds])
    show "\<forall>(l1, hs) \<in> set posts. \<forall>g \<in> set hs. frame_wf g \<and> fr_l1_inclusion_block g = l1"
      using assms(2) wf assms(3) [symmetric] by fastforce
  qed
  then show ?thesis using run_waits [of config cid ds "[]" fs "[f]" "queue_of ?p" waits cod] assms(3-7) by auto
qed

lemma run_delivers:
  assumes "holds config cid ds fs [f] [] q" "channel_codec cod ce" "channel_posted config cid ds (fs @ [f])"
    and "all_seen ds (fs @ [f])" "\<not> all_seen ds fs" "concat ds = encode_channel ce (batches_of blocks)" "blocks \<noteq> []"
    and "\<forall>b \<in> set (batches_of blocks). sb_l1_inclusion_block b = fr_l1_inclusion_block f"
    and "sorted_wrt (<) (map sb_timestamp (batches_of blocks))" "list_all (acceptable config) blocks"
  shows "\<exists>q'. input_run cod (map fst blocks) q = Ok (map (Some \<circ> single_block_input) (batches_of blocks), q') \<and> queue_idle config q'"
proof -
  obtain state b rest where blocks: "blocks = (state, b) # rest"
    using assms(7) by (metis list.exhaust prod.exhaust)
  obtain q2 where q2: "next_input cod state q = Ok (Some (single_block_input b), q2)" "holds config cid ds [] [] (batches_of rest) q2"
    using next_delivers [of config cid ds fs f q cod ce b "batches_of rest" state] assms(1-6,8-10) blocks by auto
  obtain q3 where "input_run cod (map fst rest) q2 = Ok (map (Some \<circ> single_block_input) (batches_of rest), q3)" "queue_idle config q3"
    using run_serves [OF q2(2)] assms(9,10) blocks by auto
  with q2(1) show ?thesis by (simp add: blocks)
qed

lemma inputs_of_posted:
  assumes "pipeline_idle config p" "channel_codec cod ce"
    and "\<forall>(l1, gs) \<in> set posts. \<forall>f \<in> set gs. fr_l1_inclusion_block f = l1"
    and "concat (map snd posts) = fs @ [f]" "channel_posted config cid ds (fs @ [f])"
    and "all_seen ds (fs @ [f])" "\<not> all_seen ds fs"
    and "concat ds = encode_channel ce (batches_of blocks)" "blocks \<noteq> []"
    and "\<forall>b \<in> set (batches_of blocks). sb_l1_inclusion_block b = fr_l1_inclusion_block f"
    and "sorted_wrt (<) (map sb_timestamp (batches_of blocks))" "list_all (acceptable config) blocks"
    and "length waits = length fs" "\<forall>state \<in> set waits. empty_input state config = None"
  shows "\<exists>q. input_run cod (waits @ map fst blocks) (queue_of (foldl post_frames p posts)) =
      Ok (replicate (length fs) None @ map (Some \<circ> single_block_input) (batches_of blocks), q) \<and> queue_idle config q"
proof -
  let ?q = "queue_of (foldl post_frames p posts)"
  have "queue_idle config (queue_of p)" using assms(1) by (simp add: pipeline_idle_def)
  then obtain q1 where q1: "input_run cod waits ?q = Ok (replicate (length fs) None, q1)" "holds config cid ds fs [f] [] q1"
    using inputs_until_last [OF _ assms(3-5,7,13,14)] by blast
  obtain q2 where "input_run cod (map fst blocks) q1 = Ok (map (Some \<circ> single_block_input) (batches_of blocks), q2)" "queue_idle config q2"
    using run_delivers [OF q1(2) assms(2,5-12)] by blast
  with input_run_append [OF q1(1)] show ?thesis by blast
qed

text \<open>
  C3: The lower stages invert batching. A batcher encodes the batches of consecutive blocks into a channel and posts its frames, one
  per transaction, in any order and with repeats, in consecutive L1 blocks, which the driver pushes into an empty pipeline. Then the calls
  of the batch queue, each with the
  derivation state of its moment, return nothing for each frame but the last, and from the last on one block per call: the
  input of every batch, in order, with exactly its time, epoch, transactions and inclusion block. After
  that the stages are as empty as before.
\<close>

theorem posted_batches_come_out:
  assumes "pipeline_idle config p" "channel_codec cod ce"
    and "\<forall>(l1, gs) \<in> set posts. \<forall>f \<in> set gs. fr_l1_inclusion_block f = l1"
    and "concat (map snd posts) = fs @ [f]" "channel_posted config cid ds (fs @ [f])"
    and "all_seen ds (fs @ [f])" "\<not> all_seen ds fs"
    and "concat ds = encode_channel ce (batches_of blocks)" "blocks \<noteq> []"
    and "\<forall>b \<in> set (batches_of blocks). sb_l1_inclusion_block b = fr_l1_inclusion_block f"
    and "sorted_wrt (<) (map sb_timestamp (batches_of blocks))" "list_all (acceptable config) blocks"
    and "length waits = length fs" "\<forall>state \<in> set waits. empty_input state config = None"
  shows "\<exists>q. input_run cod (waits @ map fst blocks) (queue_of (foldl post_frames p posts)) =
      Ok (replicate (length fs) None @ map (Some \<circ> single_block_input) (batches_of blocks), q) \<and> queue_idle config q"
  by (rule inputs_of_posted [OF assms])

section \<open>The type of attributes\<close>

text \<open>
  The optional fields of \<open>PayloadAttributes\<close> are only left out by others: the driver and the engine driver
  unwrap them. A pipeline that is used through its methods fills them in.
\<close>

definition complete :: "payload_attributes \<Rightarrow> bool" where
  "complete pa \<longleftrightarrow> pa_epoch pa \<noteq> None \<and> pa_l1_inclusion_block pa \<noteq> None \<and> pa_seq_number pa \<noteq> None \<and> pa_transactions pa \<noteq> None"

definition starts_with_deposit :: "payload_attributes \<Rightarrow> bool" where
  "starts_with_deposit pa \<longleftrightarrow>
     (case pa_transactions pa of Some (tx # txs) \<Rightarrow> take 1 (raw_bytes tx) = [0x7E] | _ \<Rightarrow> False)"

inductive pipeline_reachable :: "externals \<Rightarrow> config \<Rightarrow> pipeline \<Rightarrow> bool" for ex config where
  created: "pipeline_reachable ex config (pipeline_new state config seq)"
| pushed: "pipeline_reachable ex config p \<Longrightarrow> pipeline_reachable ex config (push_batcher_transactions p txs l1_origin)"
| advanced: "pipeline_reachable ex config p \<Longrightarrow> pipeline_next ex state p = Ok (x, p') \<Longrightarrow> pipeline_reachable ex config p'"
| peeked: "pipeline_reachable ex config p \<Longrightarrow> pipeline_peek ex state p = Ok (x, p') \<Longrightarrow> pipeline_reachable ex config p'"
| purged: "pipeline_reachable ex config p \<Longrightarrow> pipeline_reachable ex config (pipeline_purge state p)"

definition well_typed :: "payload_attributes option \<Rightarrow> bool" where
  "well_typed x \<longleftrightarrow> (\<forall>pa. x = Some pa \<longrightarrow> complete pa \<and> starts_with_deposit pa \<and> pa_no_tx_pool pa)"

lemma derive_attributes_typed:
  assumes "derive_attributes ex state s input = Ok (pa, s')"
  shows "complete pa \<and> starts_with_deposit pa \<and> pa_no_tx_pool pa"
  using assms
proof (cases rule: derive_attributes_Ok)
  case (1 info gas)
  then show ?thesis
    by (simp add: complete_def starts_with_deposit_def derive_transactions_def derive_attributes_deposited_def deposited_rlp_bytes_def Let_def)
qed

lemma stages_next_typed:
  assumes "stages_next ex state at = Ok (x, at')"
  shows "well_typed x"
proof (cases x)
  case (Some pa)
  then obtain s input s' where "derive_attributes ex state (s :: stages) input = Ok (pa, s')"
    using assms by (auto simp: stages_next_def attributes_next_def outcome_simps Let_def split: option.splits)
  from derive_attributes_typed [OF this] show ?thesis using Some by (simp add: well_typed_def)
qed (simp add: well_typed_def)

lemma pipeline_next_typed:
  "well_typed (pp_pending_attributes p) \<Longrightarrow> pipeline_next ex state p = Ok (x, p') \<Longrightarrow> well_typed x \<and> well_typed (pp_pending_attributes p')"
  by (auto simp: pipeline_next_def outcome_simps stages_next_typed split: if_splits) (simp add: well_typed_def)

lemma pending_typed: "pipeline_reachable ex config p \<Longrightarrow> well_typed (pp_pending_attributes p)"
proof (induction rule: pipeline_reachable.induct)
  case (created state seq)
  show ?case by (simp add: pipeline_new_def well_typed_def Let_def)
next
  case (peeked p state x p')
  show ?case
  proof (cases "pp_pending_attributes p")
    case None
    then obtain y p1 where "pipeline_next ex state p = Ok (y, p1)" "p' = p1\<lparr>pp_pending_attributes := y\<rparr>"
      using peeked.hyps(2) by (auto simp: pipeline_peek_def outcome_simps)
    then show ?thesis using pipeline_next_typed [OF peeked.IH] by simp
  next
    case (Some pa)
    then have "p' = p" using peeked.hyps(2) by (simp add: pipeline_peek_def)
    then show ?thesis using peeked.IH by simp
  qed
qed (auto simp: push_batcher_transactions_def pipeline_purge_def dest: pipeline_next_typed)


section \<open>A sample\<close>

text \<open>A codec in which strings are delimited by flags in front of their bytes, and integers have a fixed width.\<close>

fun escape :: "bytes \<Rightarrow> bytes" where
  "escape [] = [0]"
| "escape (b # bs) = 1 # b # escape bs"

fun unescape :: "bytes \<Rightarrow> (bytes \<times> bytes) option" where
  "unescape (c # bs) =
     (if c = 0 then Some ([], bs)
      else case bs of [] \<Rightarrow> None | b # bs \<Rightarrow> map_option (\<lambda>(x, rest). (b # x, rest)) (unescape bs))"
| "unescape [] = None"

fun escape_txs :: "raw_transaction list \<Rightarrow> bytes" where
  "escape_txs [] = [0]"
| "escape_txs (t # ts) = 1 # escape (raw_bytes t) @ escape_txs ts"

fun unescape_txs :: "nat \<Rightarrow> bytes \<Rightarrow> raw_transaction list option" where
  "unescape_txs (Suc n) (c # bs) =
     (if c = 0 then Some []
      else Option.bind (unescape bs) (\<lambda>(t, rest). map_option ((#) (RawTransaction t)) (unescape_txs n rest)))"
| "unescape_txs n bs = None"

definition plain_encoder :: channel_encoder where
  "plain_encoder =
     \<lparr>ce_batch = (\<lambda>b. 2 # to_be_bytes 32 (sb_parent_hash b) @ to_be_bytes 8 (sb_epoch_num b) @ to_be_bytes 32 (sb_epoch_hash b) @
        to_be_bytes 8 (sb_timestamp b) @ escape_txs (sb_transactions b)),
      ce_string = escape, ce_zlib = (\<lambda>d. d)\<rparr>"

definition plain_codec :: codec where
  "plain_codec = sample_codec
     \<lparr>cod_rlp_h256_at := (\<lambda>d i. Some (from_be_bytes (take 32 (drop (if i = 0 then 1 else 41) d)))),
      cod_rlp_u64_at := (\<lambda>d i. Some (from_be_bytes (take 8 (drop (if i = 1 then 33 else 73) d)))),
      cod_rlp_list_at := (\<lambda>d _. unescape_txs (length d) (drop 81 d)),
      cod_rlp_as_bytes := (\<lambda>d. map_option fst (unescape d)),
      cod_rlp_payload_info := (\<lambda>d. if take 1 d = [2] then Some (0, length d)
        else map_option (\<lambda>(x, _). (length x + 1, length x)) (unescape d))\<rparr>"

lemma unescape_escape [simp]: "unescape (escape x @ rest) = Some (x, rest)"
  by (induction x) auto

lemma unescape_escape_txs: "length ts < n \<Longrightarrow> unescape_txs n (escape_txs ts) = Some ts"
proof (induction ts arbitrary: n)
  case (Cons t ts)
  then show ?case by (cases n) auto
next
  case Nil
  then show ?case by (cases n) auto
qed

lemma length_escape [simp]: "length (escape x) = 2 * length x + 1"
  by (induction x) auto

lemma length_escape_txs: "length ts < length (escape_txs ts)"
  by (induction ts) auto

lemma escape_no_batch: "take 1 (escape x @ rest) \<noteq> [2]"
  by (cases x) auto

lemma plain_channel_codec: "channel_codec plain_codec plain_encoder"
proof -
  have "reads_batch plain_codec (ce_batch plain_encoder b) b" for b
  proof -
    have "length (sb_transactions b) < length (escape_txs (sb_transactions b)) + 81"
      using length_escape_txs [of "sb_transactions b"] by simp
    then show ?thesis
      by (simp add: reads_batch_def plain_codec_def plain_encoder_def unescape_escape_txs)
  qed
  moreover have "cod_rlp_payload_info plain_codec (escape x @ rest) = Some (length x + 1, length x)" for x rest
    using escape_no_batch [of x rest] by (simp add: plain_codec_def)
  ultimately show ?thesis
    by (simp add: channel_codec_def) (simp add: plain_codec_def plain_encoder_def sample_codec_def)
qed

text \<open>Two blocks of two epochs in one channel, whose second frame is posted first.\<close>

definition state_at :: "block_info \<Rightarrow> derive_state" where
  "state_at head = sample_state
     \<lparr>st_l1_info := [(1016, sample_l1_info 16), (1017, sample_l1_info 17)], st_l1_hashes := [(16, 1016), (17, 1017)],
      st_l2_refs := [], st_safe_head := head, st_safe_epoch := epoch_of_info (sample_l1_info 16), st_current_epoch_num := 20\<rparr>"

definition two_blocks :: "derivation list" where
  "two_blocks =
     [(state_at \<lparr>bi_hash = 9, bi_number = 100, bi_parent_hash = 8, bi_timestamp = 200\<rparr>,
       \<lparr>sb_parent_hash = 9, sb_epoch_num = 16, sb_epoch_hash = 1016, sb_timestamp = 202,
        sb_transactions = [RawTransaction [5]], sb_l1_inclusion_block = 20\<rparr>),
      (state_at \<lparr>bi_hash = 10, bi_number = 101, bi_parent_hash = 9, bi_timestamp = 202\<rparr>,
       \<lparr>sb_parent_hash = 10, sb_epoch_num = 17, sb_epoch_hash = 1017, sb_timestamp = 204,
        sb_transactions = [RawTransaction [6]], sb_l1_inclusion_block = 20\<rparr>)]"

definition plain_externals :: externals where
  "plain_externals = sample_externals\<lparr>ex_codec := plain_codec\<rparr>"

definition cut_channel :: "bytes list" where
  "cut_channel = (let data = encode_channel plain_encoder (batches_of two_blocks) in [take 100 data, drop 100 data])"

definition cut_frame :: "nat \<Rightarrow> u64 \<Rightarrow> frame" where
  "cut_frame i l1 = \<lparr>fr_channel_id = 5, fr_frame_number = of_nat i, fr_frame_data_len = of_nat (length (cut_channel ! i)),
     fr_frame_data = cut_channel ! i, fr_is_last = (i = 1), fr_l1_inclusion_block = l1\<rparr>"

lemma state_inv_state_at: "state_inv (state_at head)"
  by (auto simp: state_inv_def state_at_def sample_state_def l1_consistent_def sample_l1_info_def bt_get_def bt_inv_def)

lemma two_blocks_acceptable: "list_all (acceptable (sample_config optimism_sepolia)) two_blocks"
  by (simp add: two_blocks_def state_at_def single_batch_status_def sample_state_def epoch_of_info_def sample_l1_info_def
      optimism_sepolia_def has_invalid_transactions_def l1_info_by_number_def epoch_by_number_def bt_get_def optimism_def Let_def)

lemma cut_channel_length [simp]:
  "cut_channel \<noteq> []" "length cut_channel = 2" "length (cut_channel ! 0) = 100" "length (cut_channel ! Suc 0) = 250" "length (concat cut_channel) = 350"
  by (simp_all add: cut_channel_def encode_channel_def encode_batch_def two_blocks_def plain_encoder_def Let_def)

lemma cut_frame_of: "frame_of 5 cut_channel (cut_frame 0 l1)" "frame_of 5 cut_channel (cut_frame (Suc 0) l1)"
  by (simp_all add: frame_of_def cut_frame_def frame_wf_def)

theorem posted_batches_come_out_witness:
  "\<exists>q. input_run plain_codec (state_at \<lparr>bi_hash = 9, bi_number = 100, bi_parent_hash = 8, bi_timestamp = 200\<rparr> # map fst two_blocks)
      (queue_of (foldl post_frames (pipeline_new sample_state (sample_config optimism_sepolia) 0)
        [(19, [cut_frame (Suc 0) 19]), (20, [cut_frame 0 20])])) =
    Ok ([None,
      Some \<lparr>bin_timestamp = 202, bin_epoch = 16, bin_transactions = [RawTransaction [5]], bin_l1_inclusion_block = 20\<rparr>,
      Some \<lparr>bin_timestamp = 204, bin_epoch = 17, bin_transactions = [RawTransaction [6]], bin_l1_inclusion_block = 20\<rparr>], q)"
proof -
  let ?config = "sample_config optimism_sepolia"
  let ?p = "pipeline_new sample_state ?config 0" and ?posts = "[(19, [cut_frame (Suc 0) 19]), (20, [cut_frame 0 20])]"
  let ?state = "state_at \<lparr>bi_hash = 9, bi_number = 100, bi_parent_hash = 8, bi_timestamp = 200\<rparr>"
  have nums: "fr_frame_number (cut_frame (Suc 0) 19) = 1" "fr_frame_number (cut_frame 0 20) = 0"
    "fr_l1_inclusion_block (cut_frame (Suc 0) 19) = 19" "fr_l1_inclusion_block (cut_frame 0 20) = 20"
    by (simp_all add: cut_frame_def)
  have "channel_posted ?config 5 cut_channel ([cut_frame (Suc 0) 19] @ [cut_frame 0 20])"
    using cut_frame_of by (auto simp: channel_posted_def within_timeout_def nums optimism_sepolia_def)
  moreover have "all_seen cut_channel ([cut_frame (Suc 0) 19] @ [cut_frame 0 20])" "\<not> all_seen cut_channel [cut_frame (Suc 0) 19]"
    by (simp_all add: all_seen_def frame_numbers_def nums lessThan_nat_numeral lessThan_Suc insert_commute)
  moreover have "concat cut_channel = encode_channel plain_encoder (batches_of two_blocks)"
    by (simp add: cut_channel_def Let_def)
  moreover have "empty_input ?state ?config = None"
    by (simp add: empty_input_def state_at_def sample_state_def epoch_of_info_def sample_l1_info_def optimism_sepolia_def Let_def
        split: option.splits)
  ultimately show ?thesis
    using posted_batches_come_out [OF pipeline_idle_new plain_channel_codec, of ?posts "[cut_frame (Suc 0) 19]" "cut_frame 0 20"
        ?config 5 cut_channel two_blocks "[?state]" sample_state 0] two_blocks_acceptable
    by (auto simp: nums two_blocks_def single_block_input_def)
qed

text \<open>The first attributes after a whole channel in one frame, with a \<^verbatim>\<open>to_be_bytes\<close> that does not panic.\<close>

definition first_frame :: frame where
  "first_frame = (cut_frame 0 20)\<lparr>fr_frame_data := concat cut_channel, fr_frame_data_len := 350, fr_is_last := True\<rparr>"

lemma first_frame_comes_out:
  "\<exists>q. next_input plain_codec (fst (hd two_blocks))
      (queue_of (push_batcher_transactions (pipeline_new sample_state (sample_config optimism_sepolia) 0) [0 # frame_bytes first_frame] 20)) =
    Ok (Some \<lparr>bin_timestamp = 202, bin_epoch = 16, bin_transactions = [RawTransaction [5]], bin_l1_inclusion_block = 20\<rparr>, q)"
proof -
  let ?config = "sample_config optimism_sepolia" and ?ds = "[concat cut_channel]"
  have "channel_posted ?config 5 ?ds ([] @ [first_frame])"
    by (simp add: channel_posted_def frame_of_def frame_wf_def within_timeout_def first_frame_def cut_frame_def optimism_sepolia_def)
  moreover have "all_seen ?ds ([] @ [first_frame])" "\<not> all_seen ?ds []"
    by (auto simp: all_seen_def frame_numbers_def lessThan_Suc first_frame_def cut_frame_def)
  moreover have "concat ?ds = encode_channel plain_encoder (batches_of two_blocks)" by (simp add: cut_channel_def Let_def)
  moreover have "\<forall>b \<in> set (batches_of two_blocks). sb_l1_inclusion_block b = fr_l1_inclusion_block first_frame"
    "sorted_wrt (<) (map sb_timestamp (batches_of two_blocks))" "two_blocks \<noteq> []"
    by (simp_all add: two_blocks_def first_frame_def cut_frame_def)
  moreover have "\<forall>(l1, gs) \<in> set [(20, [first_frame])]. \<forall>f \<in> set gs. fr_l1_inclusion_block f = l1" by (simp add: first_frame_def cut_frame_def)
  ultimately show ?thesis
    using inputs_of_posted [OF pipeline_idle_new plain_channel_codec, of "[(20, [first_frame])]" "[]" first_frame
        ?config 5 ?ds two_blocks "[]" sample_state 0] two_blocks_acceptable
    by (auto simp: two_blocks_def single_block_input_def post_frames_def outcome_simps)
qed


end
