(* ===== verification/Blob_Data.thy ===== *)
theory Blob_Data
  imports Common_Types Effects
begin

text \<open>
  Batcher data in blobs: \<^verbatim>\<open>src/src/l1/blob_encoding.rs\<close> (the decoder of a blob) and
  \<^verbatim>\<open>src/src/l1/blob_fetcher.rs\<close> (the slot of a block time, with the beacon chain's parameters cached).

  The decoder writes into one output buffer at running positions, as in the source; the buffer, the two
  positions and the four high bytes of a round are its state. The HTTP calls to the beacon node are
  parameters, as is the reading of the number of seconds per slot from its JSON answer.

  Shown: the decoder inverts the encoding of the OP stack (four field elements carry 127 bytes), for
  data of any length that fits; the slot of a time, and what a failed first request leaves behind.
\<close>

section \<open>The blob decoder\<close>

definition MAX_BLOB_DATA_SIZE :: nat where "MAX_BLOB_DATA_SIZE = (4 * 31 + 3) * 1024 - 4"
definition ENCODING_VERSION :: u8 where "ENCODING_VERSION = 0"
definition VERSION_OFFSET :: nat where "VERSION_OFFSET = 1"
definition ROUNDS :: nat where "ROUNDS = 1024"

text \<open>Writes into a slice of fixed length: \<open>copy_from_slice\<close> and assignment to an index.\<close>

definition copy_at :: "'a list \<Rightarrow> nat \<Rightarrow> 'a list \<Rightarrow> 'a list outcome" where
  "copy_at xs p src =
     (if p + length src \<le> length xs then Ok (take p xs @ src @ drop (p + length src) xs)
      else Panic IndexOutOfBounds)"

definition store_at :: "'a list \<Rightarrow> nat \<Rightarrow> 'a \<Rightarrow> 'a list outcome" where
  "store_at xs i v = (if i < length xs then Ok (xs[i := v]) else Panic IndexOutOfBounds)"

record blob_cursor =
  bc_output_pos :: nat
  bc_input_pos :: nat
  bc_output :: bytes

definition decode_field_element :: "bytes \<Rightarrow> blob_cursor \<Rightarrow> (u8 \<times> blob_cursor) outcome" where
  "decode_field_element blob c =
     and_then (index blob (bc_input_pos c)) (\<lambda>result.
     if result AND 0xC0 \<noteq> 0 then Err (Eyre ''Blob decoding: Invalid field element'') else
     and_then (slice blob (bc_input_pos c + 1) (bc_input_pos c + 32)) (\<lambda>src.
     and_then (copy_at (bc_output c) (bc_output_pos c) src) (\<lambda>output.
     Ok (result, \<lparr>bc_output_pos = bc_output_pos c + 32, bc_input_pos = bc_input_pos c + 32,
                  bc_output = output\<rparr>))))"

fun decode_field_elements :: "nat \<Rightarrow> bytes \<Rightarrow> blob_cursor \<Rightarrow> (u8 list \<times> blob_cursor) outcome" where
  "decode_field_elements 0 blob c = Ok ([], c)"
| "decode_field_elements (Suc n) blob c =
     and_then (decode_field_element blob c) (\<lambda>(b, c1).
     and_then (decode_field_elements n blob c1) (\<lambda>(bs, c2). Ok (b # bs, c2)))"

definition reassemble_bytes :: "u8 list \<Rightarrow> blob_cursor \<Rightarrow> blob_cursor outcome" where
  "reassemble_bytes encoded_byte c =
     (let pos = bc_output_pos c - 1;
          x = (encoded_byte ! 0 AND 0x3F) OR push_bit 2 (encoded_byte ! 1 AND 0x30);
          y = (encoded_byte ! 1 AND 0x0F) OR push_bit 4 (encoded_byte ! 3 AND 0x0F);
          z = (encoded_byte ! 2 AND 0x3F) OR push_bit 2 (encoded_byte ! 3 AND 0x30)
      in and_then (store_at (bc_output c) (pos - 32) z) (\<lambda>o1.
         and_then (store_at o1 (pos - 32 * 2) y) (\<lambda>o2.
         and_then (store_at o2 (pos - 32 * 3) x) (\<lambda>o3.
         Ok (c\<lparr>bc_output_pos := pos, bc_output := o3\<rparr>)))))"

fun decode_rounds :: "nat \<Rightarrow> nat \<Rightarrow> bytes \<Rightarrow> blob_cursor \<Rightarrow> blob_cursor outcome" where
  "decode_rounds 0 output_len blob c = Ok c"
| "decode_rounds (Suc n) output_len blob c =
     (if output_len \<le> bc_output_pos c then Ok c
      else and_then (decode_field_elements 4 blob c) (\<lambda>(encoded_byte, c1).
           and_then (reassemble_bytes encoded_byte c1) (decode_rounds n output_len blob)))"

definition decode_blob_data :: "bytes \<Rightarrow> bytes outcome" where
  "decode_blob_data blob =
     (let output = replicate MAX_BLOB_DATA_SIZE (0 :: u8)
      in and_then (index blob VERSION_OFFSET) (\<lambda>version.
         if version \<noteq> ENCODING_VERSION then Err (Eyre ''Blob decoding: Invalid encoding version'') else
         and_then (index blob 2) (\<lambda>b2.
         and_then (index blob 3) (\<lambda>b3.
         and_then (index blob 4) (\<lambda>b4.
         let output_len = unat (from_be_bytes [0, b2, b3, b4] :: u32)
         in if MAX_BLOB_DATA_SIZE < output_len then Err (Eyre ''Blob decoding: Invalid length'') else
         and_then (slice blob 5 32) (\<lambda>first.
         and_then (copy_at output 0 first) (\<lambda>output.
         and_then (index blob 0) (\<lambda>b0.
         and_then (decode_field_elements 3 blob
             \<lparr>bc_output_pos = 28, bc_input_pos = 32, bc_output = output\<rparr>) (\<lambda>(bs, c1).
         and_then (reassemble_bytes (b0 # bs) c1) (\<lambda>c2.
         and_then (decode_rounds (ROUNDS - 1) output_len blob c2) (\<lambda>c3.
         if \<exists>b \<in> set (drop output_len (take MAX_BLOB_DATA_SIZE (bc_output c3))). b \<noteq> 0
         then Err (Eyre ''Blob decoding: Extraneous data in field element'')
         else if \<exists>b \<in> set (drop (bc_input_pos c3) blob). b \<noteq> 0
         then Err (Eyre ''Blob decoding: Extraneous data in input position'')
         else Ok (take output_len (bc_output c3)))))))))))))"

section \<open>The blob fetcher\<close>

record blob_fetcher =
  bf_genesis_timestamp :: u64
  bf_seconds_per_slot :: u64

record blob_sidecar =
  bsc_index :: u64
  bsc_blob :: bytes

definition blob_fetcher_new :: blob_fetcher where
  "blob_fetcher_new = \<lparr>bf_genesis_timestamp = 0, bf_seconds_per_slot = 0\<rparr>"

text \<open>
  \<open>fetch_genesis\<close> and \<open>fetch_seconds\<close> are the beacon node's answers: the genesis time, and the
  specification's \<open>SECONDS_PER_SLOT\<close> (an error where the request fails, the entry is missing or it
  does not parse).
\<close>

definition slot_of_time :: "u64 \<Rightarrow> u64 \<Rightarrow> u64 \<Rightarrow> (blob_fetcher, u64) action" where
  "slot_of_time time genesis_timestamp seconds_per_slot =
     (if time < genesis_timestamp then bail ''Time is before genesis; cannot calculate slot number''
      else lift_outcome (checked_div (time - genesis_timestamp) seconds_per_slot))"

definition get_slot_from_time :: "u64 outcome \<Rightarrow> u64 outcome \<Rightarrow> u64 \<Rightarrow> (blob_fetcher, u64) action" where
  "get_slot_from_time fetch_genesis fetch_seconds time = with_state (\<lambda>bf.
     if bf_genesis_timestamp bf = 0 then
       bind_action (lift_outcome fetch_genesis) (\<lambda>genesis_timestamp.
       bind_action (modify (\<lambda>bf. bf\<lparr>bf_genesis_timestamp := genesis_timestamp\<rparr>)) (\<lambda>_.
       bind_action (lift_outcome fetch_seconds) (\<lambda>seconds_per_slot.
       if seconds_per_slot = 0 then bail ''Seconds per slot is 0; cannot calculate slot number'' else
       bind_action (modify (\<lambda>bf. bf\<lparr>bf_seconds_per_slot := seconds_per_slot\<rparr>)) (\<lambda>_.
       slot_of_time time genesis_timestamp seconds_per_slot))))
     else slot_of_time time (bf_genesis_timestamp bf) (bf_seconds_per_slot bf))"

section \<open>The encoding\<close>

text \<open>
  A round packs 127 bytes into four field elements of 32 bytes: each holds 31 of them after a
  byte with two zero bits on top, and the four times six bits of these first bytes hold the
  other three.
\<close>

definition encode_round :: "bytes \<Rightarrow> bytes" where
  "encode_round d =
     (let x = d ! 31; y = d ! 63; z = d ! 95
      in ((x AND 0x3F) # take 31 d) @
         (((y AND 0x0F) OR drop_bit 2 (x AND 0xC0)) # take 31 (drop 32 d)) @
         ((z AND 0x3F) # take 31 (drop 64 d)) @
         ((drop_bit 2 (z AND 0xC0) OR drop_bit 4 (y AND 0xF0)) # take 31 (drop 96 d)))"

fun encode_rounds :: "nat \<Rightarrow> bytes \<Rightarrow> bytes" where
  "encode_rounds 0 ds = []"
| "encode_rounds (Suc n) ds = encode_round (take 127 ds) @ encode_rounds n (drop 127 ds)"

definition encode_blob_data :: "bytes \<Rightarrow> bytes" where
  "encode_blob_data data =
     encode_rounds ROUNDS
       (ENCODING_VERSION # to_be_bytes 3 (of_nat (length data) :: u32) @ data @
        replicate (MAX_BLOB_DATA_SIZE - length data) 0)"

lemma nat_below_8:
  "n < 8 \<Longrightarrow> n = 0 \<or> n = 1 \<or> n = 2 \<or> n = 3 \<or> n = 4 \<or> n = 5 \<or> n = 6 \<or> n = (7 :: nat)"
  by presburger

lemma byte_eqI:
  "bit a 0 = bit b 0 \<Longrightarrow> bit a 1 = bit b 1 \<Longrightarrow> bit a 2 = bit b 2 \<Longrightarrow> bit a 3 = bit b 3 \<Longrightarrow>
   bit a 4 = bit b 4 \<Longrightarrow> bit a 5 = bit b 5 \<Longrightarrow> bit a 6 = bit b 6 \<Longrightarrow> bit a 7 = bit b 7 \<Longrightarrow> a = (b :: u8)"
  apply (rule bit_word_eqI)
  subgoal for n using nat_below_8 [of n] by (simp, elim disjE; simp only:)
  done

lemma packed_bytes:
  "((x AND 0x3F) AND 0x3F) OR push_bit 2 (((y AND 0x0F) OR drop_bit 2 (x AND 0xC0)) AND 0x30) = (x :: u8)"
  "(((y AND 0x0F) OR drop_bit 2 (x AND 0xC0)) AND 0x0F) OR
     push_bit 4 ((drop_bit 2 (z AND 0xC0) OR drop_bit 4 (y AND 0xF0)) AND 0x0F) = (y :: u8)"
  "((z AND 0x3F) AND 0x3F) OR push_bit 2 ((drop_bit 2 (z AND 0xC0) OR drop_bit 4 (y AND 0xF0)) AND 0x30) = (z :: u8)"
  by (rule byte_eqI; simp add: bit_simps)+

lemma top_bits_clear:
  "(x AND 0x3F) AND 0xC0 = (0 :: u8)" "((y AND 0x0F) OR drop_bit 2 (x AND 0xC0)) AND 0xC0 = (0 :: u8)"
  "(drop_bit 2 (z AND 0xC0) OR drop_bit 4 (y AND 0xF0)) AND 0xC0 = (0 :: u8)"
  by (rule byte_eqI; simp add: bit_simps)+

lemma split_round:
  assumes "length d = 127"
  obtains s0 x s1 y s2 z s3 where "d = s0 @ [x] @ s1 @ [y] @ s2 @ [z] @ s3"
    and "length s0 = 31" "length s1 = 31" "length s2 = 31" "length s3 = 31"
proof
  have "d = take 31 d @ drop 31 d" by simp
  also have "drop 31 d = d ! 31 # drop 32 d" using assms by (subst Cons_nth_drop_Suc [symmetric]) simp_all
  also have "drop 32 d = take 31 (drop 32 d) @ drop 63 d" by (subst append_take_drop_id [of 31, symmetric]) simp
  also have "drop 63 d = d ! 63 # drop 64 d" using assms by (subst Cons_nth_drop_Suc [symmetric]) simp_all
  also have "drop 64 d = take 31 (drop 64 d) @ drop 95 d" by (subst append_take_drop_id [of 31, symmetric]) simp
  also have "drop 95 d = d ! 95 # drop 96 d" using assms by (subst Cons_nth_drop_Suc [symmetric]) simp_all
  finally show "d = take 31 d @ [d ! 31] @ take 31 (drop 32 d) @ [d ! 63] @ take 31 (drop 64 d) @ [d ! 95] @ drop 96 d"
    by simp
qed (use assms in simp_all)

lemma encode_round_parts:
  assumes "length s0 = 31" "length s1 = 31" "length s2 = 31" "length s3 = 31"
  shows "encode_round (s0 @ [x] @ s1 @ [y] @ s2 @ [z] @ s3) =
    ((x AND 0x3F) # s0) @ (((y AND 0x0F) OR drop_bit 2 (x AND 0xC0)) # s1) @ ((z AND 0x3F) # s2) @
    ((drop_bit 2 (z AND 0xC0) OR drop_bit 4 (y AND 0xF0)) # s3)"
  using assms by (simp add: encode_round_def Let_def nth_append)

lemma length_encode_round: "length d = 127 \<Longrightarrow> length (encode_round d) = 128"
  by (simp add: encode_round_def Let_def)

lemma encode_round_zeros: "encode_round (replicate 127 0) = replicate 128 0"
proof -
  have "replicate 127 0 = replicate 31 (0 :: u8) @ [0] @ replicate 31 0 @ [0] @ replicate 31 0 @ [0] @ replicate 31 0"
    by (simp flip: replicate_Suc replicate_add add: replicate_append_same)
  then show ?thesis
    by (simp only: encode_round_parts length_replicate) (simp flip: replicate_Suc replicate_add)
qed

lemma encode_rounds_zeros: "encode_rounds n (replicate m 0) = replicate (128 * n) 0" if "127 * n \<le> m"
  using that
proof (induction n arbitrary: m)
  case (Suc n)
  then have "encode_rounds (Suc n) (replicate m 0) = replicate 128 0 @ replicate (128 * n) 0"
    by (simp add: encode_round_zeros min_def)
  then show ?case by (simp flip: replicate_add)
qed simp


section \<open>The decoder, round by round\<close>

lemma copy_at_parts: "length zs = length src \<Longrightarrow> copy_at (xs @ zs @ ys) (length xs) src = Ok (xs @ src @ ys)"
  by (simp add: copy_at_def)

lemma store_at_mid: "i = length xs \<Longrightarrow> store_at (xs @ g # ys) i v = Ok (xs @ v # ys)"
  by (simp add: store_at_def)

lemma decode_field_element_parts:
  assumes "b AND 0xC0 = 0" and "length src = 31" and "length zs = 31"
  shows "decode_field_element (pre @ (b # src) @ post)
      \<lparr>bc_output_pos = length xs, bc_input_pos = length pre, bc_output = xs @ zs @ ys\<rparr> =
    Ok (b, \<lparr>bc_output_pos = length xs + 32, bc_input_pos = length pre + 32, bc_output = xs @ src @ ys\<rparr>)"
proof -
  have "slice ((pre @ [b]) @ src @ post) (length pre + 1) (length pre + 32) = Ok src"
    by (rule slice_append_mid) (use assms in simp_all)
  then show ?thesis using assms
    by (simp add: decode_field_element_def index_def nth_append copy_at_parts)
qed

text \<open>Three field elements in a row leave a gap of one byte in front of each.\<close>

lemma decode_three:
  assumes "a AND 0xC0 = 0" "b AND 0xC0 = 0" "c AND 0xC0 = 0"
    and "length s1 = 31" "length s2 = 31" "length s3 = 31"
    and "length z1 = 31" "length z2 = 31" "length z3 = 31"
  shows "decode_field_elements 3 (pre @ (a # s1) @ (b # s2) @ (c # s3) @ post)
      \<lparr>bc_output_pos = length xs, bc_input_pos = length pre,
       bc_output = xs @ z1 @ [g1] @ z2 @ [g2] @ z3 @ ys\<rparr> =
    Ok ([a, b, c], \<lparr>bc_output_pos = length xs + 96, bc_input_pos = length pre + 96,
                    bc_output = xs @ s1 @ [g1] @ s2 @ [g2] @ s3 @ ys\<rparr>)"
proof -
  have 1: "decode_field_element (pre @ (a # s1) @ (b # s2) @ (c # s3) @ post)
      \<lparr>bc_output_pos = length xs, bc_input_pos = length pre, bc_output = xs @ z1 @ [g1] @ z2 @ [g2] @ z3 @ ys\<rparr> =
    Ok (a, \<lparr>bc_output_pos = length xs + 32, bc_input_pos = length pre + 32,
            bc_output = xs @ s1 @ [g1] @ z2 @ [g2] @ z3 @ ys\<rparr>)"
    by (rule decode_field_element_parts) (use assms in simp_all)
  have 2: "decode_field_element (pre @ (a # s1) @ (b # s2) @ (c # s3) @ post)
      \<lparr>bc_output_pos = length xs + 32, bc_input_pos = length pre + 32,
       bc_output = xs @ s1 @ [g1] @ z2 @ [g2] @ z3 @ ys\<rparr> =
    Ok (b, \<lparr>bc_output_pos = length xs + 64, bc_input_pos = length pre + 64,
            bc_output = xs @ s1 @ [g1] @ s2 @ [g2] @ z3 @ ys\<rparr>)"
    using decode_field_element_parts [of b s2 z2 "pre @ a # s1" "(c # s3) @ post" "xs @ s1 @ [g1]" "[g2] @ z3 @ ys"] assms
    by simp
  have 3: "decode_field_element (pre @ (a # s1) @ (b # s2) @ (c # s3) @ post)
      \<lparr>bc_output_pos = length xs + 64, bc_input_pos = length pre + 64,
       bc_output = xs @ s1 @ [g1] @ s2 @ [g2] @ z3 @ ys\<rparr> =
    Ok (c, \<lparr>bc_output_pos = length xs + 96, bc_input_pos = length pre + 96,
            bc_output = xs @ s1 @ [g1] @ s2 @ [g2] @ s3 @ ys\<rparr>)"
    using decode_field_element_parts [of c s3 z3 "pre @ (a # s1) @ (b # s2)" post "xs @ s1 @ [g1] @ s2 @ [g2]" ys] assms
    by simp
  show ?thesis by (simp add: numeral_3_eq_3 1 2 3 del: append_assoc append.simps)
qed

text \<open>Reassembly fills the three gaps and steps back over the one after the last element.\<close>

lemma reassemble_parts:
  assumes "length s1 = 31" "length s2 = 31" "length s3 = 31"
    and x: "(a AND 0x3F) OR push_bit 2 (b AND 0x30) = x" and y: "(b AND 0x0F) OR push_bit 4 (e AND 0x0F) = y"
    and z: "(c AND 0x3F) OR push_bit 2 (e AND 0x30) = z"
  shows "reassemble_bytes [a, b, c, e]
      \<lparr>bc_output_pos = length xs + 97, bc_input_pos = i,
       bc_output = xs @ [g0] @ s1 @ [g1] @ s2 @ [g2] @ s3 @ ys\<rparr> =
    Ok \<lparr>bc_output_pos = length xs + 96, bc_input_pos = i,
        bc_output = xs @ [x] @ s1 @ [y] @ s2 @ [z] @ s3 @ ys\<rparr>"
proof -
  have "store_at (xs @ g0 # s1 @ g1 # s2 @ g2 # s3 @ ys) (length xs + 64) z =
      Ok (xs @ g0 # s1 @ g1 # s2 @ z # s3 @ ys)"
    using store_at_mid [of "length xs + 64" "xs @ g0 # s1 @ g1 # s2"] assms(1-3) by simp
  moreover have "store_at (xs @ g0 # s1 @ g1 # s2 @ z # s3 @ ys) (length xs + 32) y =
      Ok (xs @ g0 # s1 @ y # s2 @ z # s3 @ ys)"
    using store_at_mid [of "length xs + 32" "xs @ g0 # s1"] assms(1-3) by simp
  moreover have "store_at (xs @ g0 # s1 @ y # s2 @ z # s3 @ ys) (length xs) x =
      Ok (xs @ x # s1 @ y # s2 @ z # s3 @ ys)"
    by (rule store_at_mid) simp
  ultimately show ?thesis
    using x y z by (simp add: reassemble_bytes_def Let_def add.commute)
qed

lemma decode_four:
  "decode_field_elements 4 blob c = and_then (decode_field_element blob c) (\<lambda>(b, c1).
     and_then (decode_field_elements 3 blob c1) (\<lambda>(bs, c2). Ok (b # bs, c2)))"
proof -
  have "4 = Suc 3" by simp
  then show ?thesis by (metis decode_field_elements.simps(2))
qed

lemma decode_round:
  assumes "length d = 127" and "length zs = 127"
  shows "\<exists>es c1. decode_field_elements 4 (pre @ encode_round d @ post)
      \<lparr>bc_output_pos = length xs, bc_input_pos = length pre, bc_output = xs @ zs @ ys\<rparr> = Ok (es, c1) \<and>
    reassemble_bytes es c1 =
      Ok \<lparr>bc_output_pos = length xs + 127, bc_input_pos = length pre + 128, bc_output = xs @ d @ ys\<rparr>"
proof -
  obtain s0 x s1 y s2 z s3 where d: "d = s0 @ [x] @ s1 @ [y] @ s2 @ [z] @ s3"
    and len: "length s0 = 31" "length s1 = 31" "length s2 = 31" "length s3 = 31"
    using split_round [OF assms(1)] by blast
  obtain z0 g0 z1 g1 z2 g2 z3 where zs: "zs = z0 @ [g0] @ z1 @ [g1] @ z2 @ [g2] @ z3"
    and zlen: "length z0 = 31" "length z1 = 31" "length z2 = 31" "length z3 = 31"
    using split_round [OF assms(2)] by blast
  let ?A = "x AND 0x3F" and ?B = "(y AND 0x0F) OR drop_bit 2 (x AND 0xC0)" and ?C = "z AND 0x3F"
    and ?D = "drop_bit 2 (z AND 0xC0) OR drop_bit 4 (y AND 0xF0)"
  let ?blob = "pre @ encode_round d @ post"
  have blob: "?blob = pre @ (?A # s0) @ (?B # s1) @ (?C # s2) @ (?D # s3) @ post"
    using len unfolding d by (simp only: encode_round_parts append_assoc)
  have first: "decode_field_element ?blob
      \<lparr>bc_output_pos = length xs, bc_input_pos = length pre, bc_output = xs @ zs @ ys\<rparr> =
    Ok (?A, \<lparr>bc_output_pos = length xs + 32, bc_input_pos = length pre + 32,
             bc_output = xs @ s0 @ [g0] @ z1 @ [g1] @ z2 @ [g2] @ z3 @ ys\<rparr>)"
    unfolding blob zs append_assoc by (rule decode_field_element_parts) (use len zlen top_bits_clear in simp_all)
  have rest: "decode_field_elements 3 ?blob
      \<lparr>bc_output_pos = length xs + 32, bc_input_pos = length pre + 32,
       bc_output = xs @ s0 @ [g0] @ z1 @ [g1] @ z2 @ [g2] @ z3 @ ys\<rparr> =
    Ok ([?B, ?C, ?D], \<lparr>bc_output_pos = length (xs @ s0) + 97, bc_input_pos = length pre + 128,
             bc_output = (xs @ s0) @ [g0] @ s1 @ [g1] @ s2 @ [g2] @ s3 @ ys\<rparr>)"
    using decode_three [of ?B ?C ?D s1 s2 s3 z1 z2 z3 "pre @ ?A # s0" post "xs @ s0 @ [g0]" g1 g2 ys]
      len zlen top_bits_clear unfolding blob by (simp del: bit.conj_disj_distrib2 bit.conj_disj_distrib)
  have "reassemble_bytes [?A, ?B, ?C, ?D] \<lparr>bc_output_pos = length (xs @ s0) + 97, bc_input_pos = length pre + 128,
             bc_output = (xs @ s0) @ [g0] @ s1 @ [g1] @ s2 @ [g2] @ s3 @ ys\<rparr> =
      Ok \<lparr>bc_output_pos = length (xs @ s0) + 96, bc_input_pos = length pre + 128,
          bc_output = (xs @ s0) @ [x] @ s1 @ [y] @ s2 @ [z] @ s3 @ ys\<rparr>"
    by (rule reassemble_parts) (rule len packed_bytes)+
  moreover have "decode_field_elements 4 ?blob
      \<lparr>bc_output_pos = length xs, bc_input_pos = length pre, bc_output = xs @ zs @ ys\<rparr> =
    Ok ([?A, ?B, ?C, ?D], \<lparr>bc_output_pos = length (xs @ s0) + 97, bc_input_pos = length pre + 128,
             bc_output = (xs @ s0) @ [g0] @ s1 @ [g1] @ s2 @ [g2] @ s3 @ ys\<rparr>)"
    using first rest by (simp only: decode_four and_then.simps prod.case)
  ultimately show ?thesis using len by (intro exI conjI) (assumption, simp add: d)
qed

lemma length_encode_rounds: "127 * n \<le> length ds \<Longrightarrow> length (encode_rounds n ds) = 128 * n"
  by (induction n arbitrary: ds) (simp_all add: length_encode_round)

lemma encode_rounds_split:
  "r \<le> n \<Longrightarrow> encode_rounds n ds = encode_rounds r ds @ encode_rounds (n - r) (drop (127 * r) ds)"
proof (induction r arbitrary: n ds)
  case (Suc r)
  then obtain m where "n = Suc m" by (cases n) auto
  with Suc.IH [of m "drop 127 ds"] Suc.prems show ?case by (simp add: add.commute)
qed simp

lemma decode_rounds_encoded:
  assumes "length ds = 127 * n"
  shows "\<exists>r \<le> n. (output_len \<le> length xs + 127 * r \<or> r = n) \<and>
    decode_rounds n output_len (pre @ encode_rounds n ds)
      \<lparr>bc_output_pos = length xs, bc_input_pos = length pre, bc_output = xs @ replicate (127 * n) 0\<rparr> =
    Ok \<lparr>bc_output_pos = length xs + 127 * r, bc_input_pos = length pre + 128 * r,
        bc_output = xs @ take (127 * r) ds @ replicate (127 * (n - r)) 0\<rparr>"
  using assms
proof (induction n arbitrary: pre xs ds)
  case 0
  then show ?case by simp
next
  case (Suc n)
  show ?case
  proof (cases "output_len \<le> length xs")
    case True
    then show ?thesis by (intro exI [where x=0]) simp
  next
    case False
    have "replicate (127 * Suc n) (0 :: u8) = replicate 127 0 @ replicate (127 * n) 0"
      by (simp flip: replicate_add)
    moreover obtain es c1 where "decode_field_elements 4 (pre @ encode_round (take 127 ds) @ encode_rounds n (drop 127 ds))
        \<lparr>bc_output_pos = length xs, bc_input_pos = length pre,
         bc_output = xs @ replicate 127 0 @ replicate (127 * n) 0\<rparr> = Ok (es, c1)"
      and "reassemble_bytes es c1 = Ok \<lparr>bc_output_pos = length xs + 127, bc_input_pos = length pre + 128,
        bc_output = xs @ take 127 ds @ replicate (127 * n) 0\<rparr>"
      using decode_round [of "take 127 ds" "replicate 127 0"] Suc.prems by fastforce
    ultimately have step: "decode_rounds (Suc n) output_len (pre @ encode_rounds (Suc n) ds)
        \<lparr>bc_output_pos = length xs, bc_input_pos = length pre, bc_output = xs @ replicate (127 * Suc n) 0\<rparr> =
      decode_rounds n output_len ((pre @ encode_round (take 127 ds)) @ encode_rounds n (drop 127 ds))
        \<lparr>bc_output_pos = length (xs @ take 127 ds), bc_input_pos = length (pre @ encode_round (take 127 ds)),
         bc_output = (xs @ take 127 ds) @ replicate (127 * n) 0\<rparr>"
      using False Suc.prems by (simp add: length_encode_round)
    obtain r where r: "r \<le> n" "output_len \<le> length (xs @ take 127 ds) + 127 * r \<or> r = n"
      "decode_rounds (Suc n) output_len (pre @ encode_rounds (Suc n) ds)
        \<lparr>bc_output_pos = length xs, bc_input_pos = length pre, bc_output = xs @ replicate (127 * Suc n) 0\<rparr> =
       Ok \<lparr>bc_output_pos = length (xs @ take 127 ds) + 127 * r,
           bc_input_pos = length (pre @ encode_round (take 127 ds)) + 128 * r,
           bc_output = (xs @ take 127 ds) @ take (127 * r) (drop 127 ds) @ replicate (127 * (n - r)) 0\<rparr>"
      unfolding step using Suc.IH [of "drop 127 ds" "xs @ take 127 ds" "pre @ encode_round (take 127 ds)"] Suc.prems
      by auto
    have out: "(xs @ take 127 ds) @ take (127 * r) (drop 127 ds) @ ys = xs @ take (127 * Suc r) ds @ ys" for ys
      using take_add [of 127 "127 * r" ds] by (simp add: add.commute)
    have "length (xs @ take 127 ds) + 127 * r = length xs + 127 * Suc r"
      "length (pre @ encode_round (take 127 ds)) + 128 * r = length pre + 128 * Suc r"
      using Suc.prems by (simp_all add: length_encode_round)
    then show ?thesis using r(1,2) r(3) [unfolded out]
      by (intro exI [where x="Suc r"]) (simp only: Suc_le_mono diff_Suc_Suc nat.inject simp_thms)
  qed
qed


text \<open>The first round: its first field element carries the version and the length.\<close>

lemma blob_header:
  assumes "n \<le> MAX_BLOB_DATA_SIZE"
  obtains b2 b3 b4 where "to_be_bytes 3 (of_nat n :: u32) = [b2, b3, b4]"
    and "unat (from_be_bytes [0, b2, b3, b4] :: u32) = n"
proof -
  obtain b2 b3 b4 where bs: "to_be_bytes 3 (of_nat n :: u32) = [b2, b3, b4]"
    by (simp add: to_be_bytes_def upt_rec numeral_3_eq_3)
  have small: "n < 2 ^ 24" using assms by (simp add: MAX_BLOB_DATA_SIZE_def)
  then have n: "unat (of_nat n :: u32) = n" by (simp add: unat_of_nat take_bit_nat_eq_self)
  have "unat (drop_bit 24 (of_nat n :: u32)) = 0" using small n by (simp add: drop_bit_eq_div unat_div)
  then have "drop_bit 24 (of_nat n :: u32) = 0" by (simp only: unat_eq_zero)
  then have "to_be_bytes 4 (of_nat n :: u32) = 0 # to_be_bytes 3 (of_nat n :: u32)"
    by (simp add: to_be_bytes_def upt_rec numeral_eq_Suc)
  then have "from_be_bytes (0 # to_be_bytes 3 (of_nat n :: u32)) = (of_nat n :: u32)"
    using from_to_be_bytes [where 'a=32, of 4 "of_nat n"] by simp
  then show thesis using that bs n by simp
qed

lemma decode_first_round:
  assumes "length d = 127" and "d = [h0, h1, h2, h3] @ d'" and "length ys = 127 * 1023"
  shows "\<exists>bs c1. decode_field_elements 3 (encode_round d @ post)
      \<lparr>bc_output_pos = 28, bc_input_pos = 32, bc_output = take 27 d' @ replicate 96 0 @ ys\<rparr> = Ok (bs, c1) \<and>
    reassemble_bytes ((encode_round d ! 0) # bs) c1 =
      Ok \<lparr>bc_output_pos = 123, bc_input_pos = 128, bc_output = d' @ ys\<rparr>"
proof -
  obtain s0 x s1 y s2 z s3 where d: "d = s0 @ [x] @ s1 @ [y] @ s2 @ [z] @ s3"
    and len: "length s0 = 31" "length s1 = 31" "length s2 = 31" "length s3 = 31"
    using split_round [OF assms(1)] by blast
  let ?A = "x AND 0x3F" and ?B = "(y AND 0x0F) OR drop_bit 2 (x AND 0xC0)" and ?C = "z AND 0x3F"
    and ?D = "drop_bit 2 (z AND 0xC0) OR drop_bit 4 (y AND 0xF0)"
  have enc: "encode_round d = (?A # s0) @ (?B # s1) @ (?C # s2) @ (?D # s3)"
    using len unfolding d by (simp only: encode_round_parts)
  have d': "d' = drop 4 s0 @ [x] @ s1 @ [y] @ s2 @ [z] @ s3"
  proof -
    have "d' = drop 4 d" using assms(2) by simp
    then show ?thesis using len by (simp add: d)
  qed
  have zeros: "replicate 96 (0 :: u8) = [0] @ replicate 31 0 @ [0] @ replicate 31 0 @ [0] @ replicate 31 0"
    by (simp flip: replicate_Suc replicate_add add: replicate_append_same)
  have "decode_field_elements 3 ((?A # s0) @ (?B # s1) @ (?C # s2) @ (?D # s3) @ post)
      \<lparr>bc_output_pos = length (drop 4 s0 @ [0]), bc_input_pos = length (?A # s0),
       bc_output = (drop 4 s0 @ [0]) @ replicate 31 0 @ [0] @ replicate 31 0 @ [0] @ replicate 31 0 @ ys\<rparr> =
    Ok ([?B, ?C, ?D], \<lparr>bc_output_pos = length (drop 4 s0 @ [0]) + 96, bc_input_pos = length (?A # s0) + 96,
       bc_output = (drop 4 s0 @ [0]) @ s1 @ [0] @ s2 @ [0] @ s3 @ ys\<rparr>)"
    by (rule decode_three) (use len top_bits_clear in simp_all)
  moreover have "reassemble_bytes [?A, ?B, ?C, ?D]
      \<lparr>bc_output_pos = length (drop 4 s0) + 97, bc_input_pos = 128,
       bc_output = drop 4 s0 @ [0] @ s1 @ [0] @ s2 @ [0] @ s3 @ ys\<rparr> =
    Ok \<lparr>bc_output_pos = length (drop 4 s0) + 96, bc_input_pos = 128,
        bc_output = drop 4 s0 @ [x] @ s1 @ [y] @ s2 @ [z] @ s3 @ ys\<rparr>"
    by (rule reassemble_parts) (rule len packed_bytes)+
  ultimately show ?thesis
    using len by (simp add: enc d' zeros del: bit.conj_disj_distrib2 bit.conj_disj_distrib)
qed


lemma encode_round_front:
  assumes "length d = 127" and "d = [h0, h1, h2, h3] @ d'"
  obtains more where "encode_round d = [encode_round d ! 0, h0, h1, h2, h3] @ take 27 d' @ more"
proof -
  have "take 31 d = [h0, h1, h2, h3] @ take 27 d'" using assms(2) by simp
  then show thesis using that assms(1) by (simp add: encode_round_def Let_def)
qed

text \<open>What the later rounds leave: the whole data in the output, zeros behind it and behind the input.\<close>

lemma decode_later_rounds:
  assumes "length data \<le> MAX_BLOB_DATA_SIZE" and "length pre = 128"
    and padded: "padded = data @ replicate (MAX_BLOB_DATA_SIZE - length data) 0"
  shows "\<exists>p i. decode_rounds 1023 (length data) (pre @ encode_rounds 1023 (drop 123 padded))
      \<lparr>bc_output_pos = 123, bc_input_pos = 128, bc_output = take 123 padded @ replicate (127 * 1023) 0\<rparr> =
      Ok \<lparr>bc_output_pos = p, bc_input_pos = i, bc_output = padded\<rparr> \<and>
    set (drop i (pre @ encode_rounds 1023 (drop 123 padded))) \<subseteq> {0}"
proof -
  have len: "length padded = 123 + 127 * 1023" using assms(1) by (simp add: padded MAX_BLOB_DATA_SIZE_def)
  then have "length (drop 123 padded) = 127 * 1023" and l1: "length (take 123 padded) = 123" by simp_all
  from decode_rounds_encoded [OF this(1), of "length data" "take 123 padded" pre]
  obtain r where r: "r \<le> 1023" "length data \<le> 123 + 127 * r \<or> r = 1023"
    and run: "decode_rounds 1023 (length data) (pre @ encode_rounds 1023 (drop 123 padded))
      \<lparr>bc_output_pos = 123, bc_input_pos = 128, bc_output = take 123 padded @ replicate (127 * 1023) 0\<rparr> =
      Ok \<lparr>bc_output_pos = 123 + 127 * r, bc_input_pos = 128 + 128 * r,
          bc_output = take 123 padded @ take (127 * r) (drop 123 padded) @ replicate (127 * (1023 - r)) 0\<rparr>"
    unfolding l1 assms(2) by blast
  have behind: "drop (123 + 127 * r) padded = replicate (127 * (1023 - r)) 0"
    using r len by (auto simp: padded MAX_BLOB_DATA_SIZE_def)
  have "take 123 padded @ take (127 * r) (drop 123 padded) @ replicate (127 * (1023 - r)) 0
      = take (123 + 127 * r) padded @ drop (123 + 127 * r) padded"
    by (simp add: take_add behind)
  also have "\<dots> = padded" by (rule append_take_drop_id)
  finally have out: "take 123 padded @ take (127 * r) (drop 123 padded) @ replicate (127 * (1023 - r)) 0 = padded" .
  have "encode_rounds 1023 (drop 123 padded) =
      encode_rounds r (drop 123 padded) @ encode_rounds (1023 - r) (drop (127 * r) (drop 123 padded))"
    by (rule encode_rounds_split [OF r(1)])
  moreover have "length (encode_rounds r (drop 123 padded)) = 128 * r"
    using length_encode_rounds [of r "drop 123 padded"] len r(1) by simp
  moreover have "drop (127 * r) (drop 123 padded) = replicate (127 * (1023 - r)) 0"
    using behind by (simp add: add.commute)
  ultimately have "drop (128 + 128 * r) (pre @ encode_rounds 1023 (drop 123 padded)) = replicate (128 * (1023 - r)) 0"
    using assms(2) by (simp add: encode_rounds_zeros)
  then show ?thesis using run unfolding out by (intro exI conjI) (assumption, auto)
qed

lemma decode_encode_blob:
  assumes "length data \<le> MAX_BLOB_DATA_SIZE"
  shows "decode_blob_data (encode_blob_data data) = Ok data"
proof -
  obtain b2 b3 b4 where hdr: "to_be_bytes 3 (of_nat (length data) :: u32) = [b2, b3, b4]"
    and n: "unat (from_be_bytes [0, b2, b3, b4] :: u32) = length data"
    using blob_header [OF assms] by blast
  define padded where "padded = data @ replicate (MAX_BLOB_DATA_SIZE - length data) 0"
  have plen: "length padded = 123 + 127 * 1023" using assms by (simp add: padded_def MAX_BLOB_DATA_SIZE_def)
  define d where "d = [0, b2, b3, b4] @ take 123 padded"
  have dlen: "length d = 127" using plen by (simp add: d_def)
  have blob: "encode_blob_data data = encode_round d @ encode_rounds 1023 (drop 123 padded)"
  proof -
    have "ENCODING_VERSION # to_be_bytes 3 (of_nat (length data) :: u32) @ padded = d @ drop 123 padded"
      by (simp add: hdr d_def ENCODING_VERSION_def)
    moreover have "ROUNDS = Suc 1023" by (simp add: ROUNDS_def)
    then have "encode_rounds ROUNDS (d @ ds) = encode_round d @ encode_rounds 1023 ds" for ds
      using dlen by (metis append_eq_conv_conj encode_rounds.simps(2))
    ultimately show ?thesis by (simp add: encode_blob_data_def padded_def [symmetric])
  qed
  obtain more where front: "encode_round d = [encode_round d ! 0, 0, b2, b3, b4] @ take 27 (take 123 padded) @ more"
    using encode_round_front [OF dlen d_def] by blast
  obtain bs c1 where first: "decode_field_elements 3 (encode_blob_data data)
      \<lparr>bc_output_pos = 28, bc_input_pos = 32,
       bc_output = take 27 (take 123 padded) @ replicate 96 0 @ replicate (127 * 1023) 0\<rparr> = Ok (bs, c1)"
    and again: "reassemble_bytes ((encode_round d ! 0) # bs) c1 =
      Ok \<lparr>bc_output_pos = 123, bc_input_pos = 128, bc_output = take 123 padded @ replicate (127 * 1023) 0\<rparr>"
    using decode_first_round [OF dlen d_def] unfolding blob by (metis length_replicate)
  obtain p i where later: "decode_rounds 1023 (length data) (encode_blob_data data)
      \<lparr>bc_output_pos = 123, bc_input_pos = 128, bc_output = take 123 padded @ replicate (127 * 1023) 0\<rparr> =
      Ok \<lparr>bc_output_pos = p, bc_input_pos = i, bc_output = padded\<rparr>"
    and stray: "set (drop i (encode_blob_data data)) \<subseteq> {0}"
    using decode_later_rounds [OF assms length_encode_round [OF dlen] padded_def] unfolding blob by blast
  have items: "index (encode_blob_data data) 0 = Ok (encode_round d ! 0)"
    "index (encode_blob_data data) 1 = Ok 0" "index (encode_blob_data data) 2 = Ok b2"
    "index (encode_blob_data data) 3 = Ok b3" "index (encode_blob_data data) 4 = Ok b4"
    using arg_cong [OF front, of "\<lambda>xs. xs @ encode_rounds 1023 (drop 123 padded)", folded blob]
    by (simp_all add: index_def)
  have "slice ([encode_round d ! 0, 0, b2, b3, b4] @ take 27 (take 123 padded) @ more @
      encode_rounds 1023 (drop 123 padded)) 5 32 = Ok (take 27 (take 123 padded))"
    by (rule slice_append_mid) (use plen in simp_all)
  then have cut: "slice (encode_blob_data data) 5 32 = Ok (take 27 (take 123 padded))"
    by (simp add: blob) (subst front, simp)
  have start: "copy_at (replicate MAX_BLOB_DATA_SIZE 0) 0 (take 27 (take 123 padded)) =
      Ok (take 27 (take 123 padded) @ replicate 96 0 @ replicate (127 * 1023) 0)"
    using plen by (simp add: copy_at_def MAX_BLOB_DATA_SIZE_def flip: replicate_add)
  have "\<not> (\<exists>b \<in> set (drop (length data) (take MAX_BLOB_DATA_SIZE padded)). b \<noteq> 0)"
    by (auto simp: padded_def dest!: in_set_takeD)
  moreover have "take (length data) padded = data" by (simp add: padded_def)
  ultimately show ?thesis
    unfolding decode_blob_data_def Let_def VERSION_OFFSET_def items and_then.simps n cut start first
      prod.case again ENCODING_VERSION_def
    using later stray assms by (auto simp: ROUNDS_def)
qed

text \<open>
  C21: the blob decoder inverts the encoding: any data that fits into a blob is returned as it was,
  whatever its length, with none of the checks for stray bytes failing.
\<close>

theorem blob_roundtrip:
  "length data \<le> MAX_BLOB_DATA_SIZE \<Longrightarrow> decode_blob_data (encode_blob_data data) = Ok data"
  by (rule decode_encode_blob)

theorem blob_roundtrip_witness: "decode_blob_data (encode_blob_data [1, 2, 3]) = Ok [1, 2, 3]"
  using blob_roundtrip [of "[1, 2, 3]"] by (simp add: MAX_BLOB_DATA_SIZE_def)

section \<open>Slots\<close>

text \<open>With the parameters cached, the slot is the one whose interval of time contains the given time.\<close>

lemma slot_contains_time:
  assumes "bf_genesis_timestamp bf \<noteq> 0" and "bf_seconds_per_slot bf \<noteq> 0"
    and "bf_genesis_timestamp bf \<le> time"
    and "get_slot_from_time fetch_genesis fetch_seconds time bf = (Ok slot, bf')"
  shows "bf' = bf \<and>
    unat (bf_genesis_timestamp bf) + unat slot * unat (bf_seconds_per_slot bf) \<le> unat time \<and>
    unat time < unat (bf_genesis_timestamp bf) + (unat slot + 1) * unat (bf_seconds_per_slot bf)"
proof -
  have slot: "slot = (time - bf_genesis_timestamp bf) div bf_seconds_per_slot bf" "bf' = bf"
    using assms by (auto simp: get_slot_from_time_def slot_of_time_def action_simps outcome_simps split: if_splits)
  define q where "q = unat (time - bf_genesis_timestamp bf)"
  have "unat slot = q div unat (bf_seconds_per_slot bf)" by (simp add: slot q_def unat_div)
  moreover have "0 < unat (bf_seconds_per_slot bf)" using assms(2) by (simp add: unat_gt_0)
  moreover have "unat time = unat (bf_genesis_timestamp bf) + q"
    using assms(3) by (simp add: q_def unat_sub_no_wrap word_le_nat_alt)
  moreover have "q div m * m \<le> q \<and> q < (q div m + 1) * m" if "0 < m" for m :: nat
    using that div_times_less_eq_dividend [of q m] dividend_less_div_times [of m q]
    by (simp add: algebra_simps)
  ultimately show ?thesis using slot by simp
qed

text \<open>
  The genesis time is stored before the specification is fetched. When that second request fails, the
  call is an error, and every later call for a time after the genesis divides by zero.
\<close>

theorem failed_spec_poisons_slots:
  assumes "bf_genesis_timestamp bf = 0" and "bf_seconds_per_slot bf = 0" and "genesis \<noteq> 0" and "genesis \<le> time'"
  shows "get_slot_from_time (Ok genesis) (Err e) time bf = (Err e, bf\<lparr>bf_genesis_timestamp := genesis\<rparr>) \<and>
    get_slot_from_time fg fs time' (bf\<lparr>bf_genesis_timestamp := genesis\<rparr>) =
      (Panic DivideByZero, bf\<lparr>bf_genesis_timestamp := genesis\<rparr>)"
  using assms leD [OF assms(4)]
  by (simp add: get_slot_from_time_def slot_of_time_def action_simps bind_action_def lift_outcome_def modify_def
      with_state_def checked_div_def)


end
