(* ===== verification/Chain_Watcher.thy ===== *)
theory Chain_Watcher
  imports Blob_Data Derive_State
begin

text \<open>
  \<^verbatim>\<open>src/src/l1/chain_watcher.rs\<close>: the task that follows L1 block by block and sends, per block, the
  data the derivation needs, or the news of a reorg or of finality.

  The answers of the L1 provider, of the beacon node and of the library functions during one step are the parameter
  \<open>lc\<close>, a record; each step may be given other answers. The sending end of the channel is the list of messages sent
  so far. A message that finds the channel full waits, which delays the task and changes nothing else; \<open>send\<close> fails only when
  the receiving end is gone, and the handle gives that end up only together with the task, which it aborts (\<open>start\<close>, \<open>restart\<close> and the
  handle's \<open>drop\<close>), so that the steps here are those of a task whose receiver exists. The pause of a step that finds no new block has
  no effect on the state. The map of deposits is a partial function.

  Shown: which transactions carry batcher data and which blobs belong to them; that the cache of
  deposits is transparent; that updates are sent as long as the blocks are linked by their hashes, and
  a reorg exactly when the link is missing; which configuration updates a window of logs hides.
\<close>

section \<open>Provider and state\<close>

record log_filter =
  lf_address :: address
  lf_topic0 :: h256
  lf_from_block :: u64
  lf_to_block :: u64

record l1_calls =
  lc_get_block :: "block_id \<Rightarrow> eth_block option outcome"
  lc_get_block_with_txs :: "block_id \<Rightarrow> eth_block option outcome"
  lc_get_logs :: "log_filter \<Rightarrow> eth_log list outcome"
  lc_genesis_timestamp :: "u64 outcome"
  lc_seconds_per_slot :: "u64 outcome"
  lc_fetch_blob_sidecars :: "u64 \<Rightarrow> blob_sidecar list outcome"
  lc_abi_decode_bytes :: "bytes \<Rightarrow> bytes outcome"
  lc_keccak256 :: "bytes \<Rightarrow> h256"

definition CONFIG_UPDATE_TOPIC :: "(bytes \<Rightarrow> h256) \<Rightarrow> h256" where
  "CONFIG_UPDATE_TOPIC keccak256 = keccak256 (string_bytes ''ConfigUpdate(uint256,uint8,bytes)'')"

definition TRANSACTION_DEPOSITED_TOPIC :: "(bytes \<Rightarrow> h256) \<Rightarrow> h256" where
  "TRANSACTION_DEPOSITED_TOPIC keccak256 =
     keccak256 (string_bytes ''TransactionDeposited(address,address,uint256,bytes)'')"

definition BLOB_CARRYING_TRANSACTION_TYPE :: u64 where "BLOB_CARRYING_TRANSACTION_TYPE = 3"

datatype block_update = NewBlock l1_info | FinalityUpdate u64 | Reorg

record inner_watcher =
  iw_config :: config
  iw_blob_fetcher :: blob_fetcher
  iw_sent :: "block_update list"
  iw_current_block :: u64
  iw_head_block :: u64
  iw_finalized_block :: u64
  iw_unfinalized_blocks :: "block_info list"
  iw_deposits :: "u64 \<Rightarrow> user_deposited list option"
  iw_system_config :: system_config
  iw_next_system_config :: "u64 \<times> system_config option"

section \<open>Operations\<close>

definition inner_watcher_new ::
  "(block_id \<Rightarrow> eth_block option outcome) \<Rightarrow> config \<Rightarrow> u64 \<Rightarrow> u64 \<Rightarrow> inner_watcher outcome" where
  "inner_watcher_new l2_get_block_with_txs config l1_start_block l2_start_block =
     and_then
       (if l2_start_block = bi_number (cc_l2_genesis (cfg_chain config))
        then Ok (cc_system_config (cfg_chain config))
        else
          and_then (unwrap_res (l2_get_block_with_txs (BlockNumber (l2_start_block - 1))) ''called unwrap on an Err value'') (\<lambda>found.
          and_then (unwrap_opt found ''called unwrap on a None value'') (\<lambda>block.
          and_then (unwrap_opt (if blk_transactions block = [] then None else Some (hd (blk_transactions block)))
            ''Could not find the L1 attributes deposited transaction in the parent L2 block'') (\<lambda>tx.
          and_then (slice (tx_input tx) 176 196) (\<lambda>batch_sender.
          and_then (slice (tx_input tx) 196 228) (\<lambda>l1_fee_overhead.
          and_then (slice (tx_input tx) 228 260) (\<lambda>l1_fee_scalar.
          Ok \<lparr>sc_batch_sender = from_be_bytes batch_sender, sc_gas_limit = blk_gas_limit block,
              sc_l1_fee_overhead = from_be_bytes l1_fee_overhead, sc_l1_fee_scalar = from_be_bytes l1_fee_scalar,
              sc_unsafe_block_signer = sc_unsafe_block_signer (cc_system_config (cfg_chain config))\<rparr>)))))))
       (\<lambda>system_config.
        Ok \<lparr>iw_config = config, iw_blob_fetcher = blob_fetcher_new, iw_sent = [], iw_current_block = l1_start_block,
            iw_head_block = 0, iw_finalized_block = 0, iw_unfinalized_blocks = [], iw_deposits = (\<lambda>_. None),
            iw_system_config = system_config, iw_next_system_config = (l1_start_block, None)\<rparr>)"

definition check_reorg :: "inner_watcher \<Rightarrow> bool" where
  "check_reorg w =
     (let blocks = iw_unfinalized_blocks w; len = length blocks
      in if 2 \<le> len then bi_parent_hash (blocks ! (len - 1)) \<noteq> bi_hash (blocks ! (len - 2)) else False)"

definition block_number_of :: "eth_block option outcome \<Rightarrow> u64 outcome" where
  "block_number_of answer =
     and_then answer (\<lambda>found.
     and_then (ok_or found ''block not found'') (\<lambda>block.
     ok_or (blk_number block) ''block pending''))"

definition get_finalized :: "l1_calls \<Rightarrow> inner_watcher \<Rightarrow> u64 outcome" where
  "get_finalized lc w =
     (let block_number = (if cfg_devnet (iw_config w) then BlockLatest else BlockFinalized)
      in block_number_of (lc_get_block lc block_number))"

definition get_head :: "l1_calls \<Rightarrow> u64 outcome" where
  "get_head lc = block_number_of (lc_get_block lc BlockLatest)"

definition watcher_get_block :: "l1_calls \<Rightarrow> u64 \<Rightarrow> eth_block outcome" where
  "watcher_get_block lc block_num =
     and_then (lc_get_block_with_txs lc (BlockNumber block_num)) (\<lambda>found. ok_or found ''block not found'')"

fun apply_config_update :: "system_config_update \<Rightarrow> system_config \<Rightarrow> system_config" where
  "apply_config_update (BatchSender addr) config = config\<lparr>sc_batch_sender := addr\<rparr>"
| "apply_config_update (Fees overhead scalar) config =
     config\<lparr>sc_l1_fee_overhead := overhead, sc_l1_fee_scalar := scalar\<rparr>"
| "apply_config_update (Gas gas) config = config\<lparr>sc_gas_limit := gas\<rparr>"
| "apply_config_update (UnsafeBlockSigner addr) config = config\<lparr>sc_unsafe_block_signer := addr\<rparr>"

text \<open>What the first log of an answer announces: its block and the update, if it has both.\<close>

definition first_update :: "eth_log list \<Rightarrow> (u64 \<times> system_config_update) option" where
  "first_update updates =
     (case updates of
        [] \<Rightarrow> None
      | log # _ \<Rightarrow>
          (case (log_block_number log, system_config_update_try_from log) of
             (Some update_block, Ok update) \<Rightarrow> Some (update_block, update)
           | _ \<Rightarrow> None))"

definition fetch_system_config :: "l1_calls \<Rightarrow> (inner_watcher, unit) action" where
  "fetch_system_config lc = with_state (\<lambda>w.
     let last_update_block = fst (iw_next_system_config w);
         to_block = last_update_block + 1000;
         filter = \<lparr>lf_address = cc_system_config_contract (cfg_chain (iw_config w)),
                   lf_topic0 = CONFIG_UPDATE_TOPIC (lc_keccak256 lc),
                   lf_from_block = last_update_block + 1, lf_to_block = to_block\<rparr>
     in if last_update_block < iw_current_block w then
          bind_action (lift_outcome (lc_get_logs lc filter)) (\<lambda>updates.
          modify (\<lambda>w. w\<lparr>iw_next_system_config :=
            (case first_update updates of
               Some (update_block, update) \<Rightarrow> (update_block, Some (apply_config_update update (iw_system_config w)))
             | None \<Rightarrow> (to_block, None))\<rparr>))
        else return_action ())"

definition activate_system_config :: "inner_watcher \<Rightarrow> inner_watcher" where
  "activate_system_config w =
     (case iw_next_system_config w of
        (last_update_block, Some next_config) \<Rightarrow>
          if last_update_block = iw_current_block w then w\<lparr>iw_system_config := next_config\<rparr> else w
      | (_, None) \<Rightarrow> w)"

definition update_system_config :: "l1_calls \<Rightarrow> (inner_watcher, unit) action" where
  "update_system_config lc = bind_action (fetch_system_config lc) (\<lambda>_. modify activate_system_config)"

definition get_deposits :: "l1_calls \<Rightarrow> u64 \<Rightarrow> (inner_watcher, user_deposited list) action" where
  "get_deposits lc block_num = with_state (\<lambda>w.
     case iw_deposits w block_num of
       Some deposits \<Rightarrow>
         bind_action (modify (\<lambda>w. w\<lparr>iw_deposits := (iw_deposits w)(block_num := None)\<rparr>)) (\<lambda>_.
         return_action deposits)
     | None \<Rightarrow>
         let end_block = min (iw_head_block w) (block_num + 1000);
             filter = \<lparr>lf_address = cc_deposit_contract (cfg_chain (iw_config w)),
                       lf_topic0 = TRANSACTION_DEPOSITED_TOPIC (lc_keccak256 lc),
                       lf_from_block = block_num, lf_to_block = end_block\<rparr>
         in bind_action (lift_outcome (lc_get_logs lc filter)) (\<lambda>logs.
            bind_action (lift_outcome (map_outcome (\<lambda>log.
                unwrap_res (user_deposited_try_from (lc_abi_decode_bytes lc) log) ''called unwrap on an Err value'') logs))
              (\<lambda>deposit_logs.
            bind_action (modify (\<lambda>w. w\<lparr>iw_deposits :=
                fold (\<lambda>num m. m(num := Some [d \<leftarrow> deposit_logs. ud_l1_block_num d = num]))
                  (range_inclusive block_num end_block) (iw_deposits w)\<rparr>)) (\<lambda>_. with_state (\<lambda>w.
            bind_action (modify (\<lambda>w. w\<lparr>iw_deposits := (iw_deposits w)(block_num := None)\<rparr>)) (\<lambda>_.
            lift_outcome (unwrap_opt (iw_deposits w block_num) ''called unwrap on a None value'')))))))"

definition is_valid_batcher_transaction :: "config \<Rightarrow> eth_transaction \<Rightarrow> bool" where
  "is_valid_batcher_transaction config tx =
     (tx_from tx = sc_batch_sender (cc_system_config (cfg_chain config)) \<and>
      (case tx_to tx of Some to \<Rightarrow> to = cc_batch_inbox (cfg_chain config) | None \<Rightarrow> False))"

text \<open>The loop over the transactions: the calldata found, the blobs found and the running blob index.\<close>

fun collect_batcher_data ::
  "config \<Rightarrow> nat \<Rightarrow> eth_transaction list \<Rightarrow> bytes list \<times> (nat \<times> string) list" where
  "collect_batcher_data config blob_index [] = ([], [])"
| "collect_batcher_data config blob_index (tx # txs) =
     (if \<not> is_valid_batcher_transaction config tx then
        collect_batcher_data config (blob_index + length (tx_blob_hashes tx)) txs
      else if (case tx_type tx of Some t \<Rightarrow> t | None \<Rightarrow> 0) \<noteq> BLOB_CARRYING_TRANSACTION_TYPE then
        (case collect_batcher_data config blob_index txs of
           (datas, blobs) \<Rightarrow> (tx_input tx # datas, blobs))
      else
        (case collect_batcher_data config (blob_index + length (tx_blob_hashes tx)) txs of
           (datas, blobs) \<Rightarrow>
             (datas, zip [blob_index..<blob_index + length (tx_blob_hashes tx)] (tx_blob_hashes tx) @ blobs)))"

fun decode_blobs :: "blob_sidecar list \<Rightarrow> (nat \<times> string) list \<Rightarrow> bytes list outcome" where
  "decode_blobs blobs [] = Ok []"
| "decode_blobs blobs ((blob_index, _) # rest) =
     (case List.find (\<lambda>b. bsc_index b = of_nat blob_index) blobs of
        None \<Rightarrow> Err (Eyre ''blob index not found in fetched sidecars'')
      | Some blob_sidecar \<Rightarrow>
          and_then (decode_blob_data (bsc_blob blob_sidecar)) (\<lambda>decoded.
          and_then (decode_blobs blobs rest) (\<lambda>datas. Ok (decoded # datas))))"

definition get_batcher_transactions :: "l1_calls \<Rightarrow> eth_block \<Rightarrow> (inner_watcher, bytes list) action" where
  "get_batcher_transactions lc block = with_state (\<lambda>w.
     case collect_batcher_data (iw_config w) 0 (blk_transactions block) of
       (batcher_transactions_data, indexed_blobs) \<Rightarrow>
         if indexed_blobs = [] then return_action batcher_transactions_data
         else
           bind_action (lift_outcome (as_u64 (blk_timestamp block))) (\<lambda>time.
           bind_action (zoom iw_blob_fetcher (\<lambda>bf w. w\<lparr>iw_blob_fetcher := bf\<rparr>)
               (get_slot_from_time (lc_genesis_timestamp lc) (lc_seconds_per_slot lc) time)) (\<lambda>slot.
           bind_action (lift_outcome (lc_fetch_blob_sidecars lc slot)) (\<lambda>blobs.
           bind_action (lift_outcome (decode_blobs blobs indexed_blobs)) (\<lambda>decoded.
           return_action (batcher_transactions_data @ decoded))))))"

definition send_update :: "block_update \<Rightarrow> inner_watcher \<Rightarrow> inner_watcher" where
  "send_update update w = w\<lparr>iw_sent := iw_sent w @ [update]\<rparr>"

text \<open>The three parts of a step: the news of finality, the head, and the next block.\<close>

definition ingest_finality :: "l1_calls \<Rightarrow> (inner_watcher, unit) action" where
  "ingest_finality lc = with_state (\<lambda>w.
     if iw_finalized_block w < iw_current_block w then
       bind_action (lift_outcome (get_finalized lc w)) (\<lambda>finalized_block.
       if iw_finalized_block w < finalized_block then
         modify (\<lambda>w. let w1 = send_update (FinalityUpdate finalized_block) (w\<lparr>iw_finalized_block := finalized_block\<rparr>)
                     in w1\<lparr>iw_unfinalized_blocks := [b \<leftarrow> iw_unfinalized_blocks w1. finalized_block < bi_number b]\<rparr>)
       else return_action ())
     else return_action ())"

definition ingest_head :: "l1_calls \<Rightarrow> (inner_watcher, unit) action" where
  "ingest_head lc = with_state (\<lambda>w.
     if iw_head_block w < iw_current_block w then
       bind_action (lift_outcome (get_head lc)) (\<lambda>head_block. modify (\<lambda>w. w\<lparr>iw_head_block := head_block\<rparr>))
     else return_action ())"

definition push_unfinalized :: "eth_block \<Rightarrow> l1_info \<Rightarrow> inner_watcher \<Rightarrow> inner_watcher" where
  "push_unfinalized block info w =
     (if iw_finalized_block w \<le> l1b_number (l1i_block_info info) then
        w\<lparr>iw_unfinalized_blocks := iw_unfinalized_blocks w @
            [\<lparr>bi_hash = l1b_hash (l1i_block_info info), bi_number = l1b_number (l1i_block_info info),
              bi_parent_hash = blk_parent_hash block, bi_timestamp = l1b_timestamp (l1i_block_info info)\<rparr>]\<rparr>
      else w)"

definition send_block :: "l1_info \<Rightarrow> inner_watcher \<Rightarrow> inner_watcher" where
  "send_block info w =
     (let update = (if check_reorg w then Reorg else NewBlock info);
          w1 = send_update update w
      in w1\<lparr>iw_current_block := iw_current_block w1 + 1\<rparr>)"

definition fetch_l1_info :: "l1_calls \<Rightarrow> (inner_watcher, eth_block \<times> l1_info) action" where
  "fetch_l1_info lc =
     bind_action (update_system_config lc) (\<lambda>_. with_state (\<lambda>w.
     bind_action (lift_outcome (watcher_get_block lc (iw_current_block w))) (\<lambda>block.
     bind_action (get_deposits lc (iw_current_block w)) (\<lambda>user_deposits.
     bind_action (get_batcher_transactions lc block) (\<lambda>batcher_transactions. with_state (\<lambda>w.
     let finalized = (iw_finalized_block w \<le> iw_current_block w)
     in bind_action (lift_outcome (l1_block_info_try_from block)) (\<lambda>block_info.
        return_action (block,
          \<lparr>l1i_block_info = block_info, l1i_system_config = iw_system_config w,
           l1i_user_deposits = user_deposits, l1i_batcher_transactions = batcher_transactions,
           l1i_finalized = finalized\<rparr>))))))))"

definition ingest_next :: "l1_calls \<Rightarrow> (inner_watcher, unit) action" where
  "ingest_next lc =
     bind_action (fetch_l1_info lc) (\<lambda>(block, l1_info).
     modify (\<lambda>w. send_block l1_info (push_unfinalized block l1_info w)))"

definition try_ingest_block :: "l1_calls \<Rightarrow> (inner_watcher, unit) action" where
  "try_ingest_block lc =
     bind_action (ingest_finality lc) (\<lambda>_.
     bind_action (ingest_head lc) (\<lambda>_. with_state (\<lambda>w.
     if iw_current_block w \<le> iw_head_block w then ingest_next lc else return_action ())))"

section \<open>The handle the driver holds\<close>

text \<open>
  The receiving end of the channel is the list of updates not yet received, which the running
  task extends. Starting a task cannot fail; stopping one drops its channel.
\<close>

record chain_watcher =
  cw_running :: bool
  cw_config :: config
  cw_l1_start_block :: u64
  cw_l2_start_block :: u64
  cw_block_update_receiver :: "block_update list option"

definition chain_watcher_new :: "u64 \<Rightarrow> u64 \<Rightarrow> config \<Rightarrow> chain_watcher" where
  "chain_watcher_new l1_start_block l2_start_block config =
     \<lparr>cw_running = False, cw_config = config, cw_l1_start_block = l1_start_block,
      cw_l2_start_block = l2_start_block, cw_block_update_receiver = None\<rparr>"

definition chain_watcher_start :: "chain_watcher \<Rightarrow> chain_watcher" where
  "chain_watcher_start cw = cw\<lparr>cw_running := True, cw_block_update_receiver := Some []\<rparr>"

definition chain_watcher_restart :: "u64 \<Rightarrow> u64 \<Rightarrow> chain_watcher \<Rightarrow> chain_watcher" where
  "chain_watcher_restart l1_start_block l2_start_block cw =
     cw\<lparr>cw_running := True, cw_block_update_receiver := Some [],
        cw_l1_start_block := l1_start_block, cw_l2_start_block := l2_start_block\<rparr>"

definition try_recv_from_channel :: "(chain_watcher, block_update) action" where
  "try_recv_from_channel = with_state (\<lambda>cw.
     case cw_block_update_receiver cw of
       None \<Rightarrow> bail ''the watcher hasn't started''
     | Some [] \<Rightarrow> lift_outcome (Err (External ''receiving on an empty channel''))
     | Some (update # rest) \<Rightarrow>
         bind_action (modify (\<lambda>cw. cw\<lparr>cw_block_update_receiver := Some rest\<rparr>)) (\<lambda>_. return_action update))"

text \<open>The receiver waits while its channel is empty, and returns without an update only if it has no channel or a closed one.\<close>

definition recv_from_channel :: "(chain_watcher, block_update option) action" where
  "recv_from_channel = with_state (\<lambda>cw.
     case cw_block_update_receiver cw of
       None \<Rightarrow> return_action None
     | Some [] \<Rightarrow> if cw_running cw then lift_outcome Diverge else return_action None
     | Some (update # rest) \<Rightarrow>
         bind_action (modify (\<lambda>cw. cw\<lparr>cw_block_update_receiver := Some rest\<rparr>)) (\<lambda>_. return_action (Some update)))"

definition chain_watcher_drop :: "chain_watcher \<Rightarrow> chain_watcher" where
  "chain_watcher_drop cw = (if cw_running cw then cw\<lparr>cw_running := False\<rparr> else cw)"

lemma recv_waits_iff:
  "fst (recv_from_channel cw) = Diverge \<longleftrightarrow> cw_running cw \<and> cw_block_update_receiver cw = Some []"
  by (auto simp: recv_from_channel_def with_state_def lift_outcome_def bind_action_def modify_def
      split: option.splits list.splits)

lemma recv_agrees_with_try:
  "fst (recv_from_channel cw) = Ok (Some u) \<longleftrightarrow> fst (try_recv_from_channel cw) = Ok u"
  "fst (recv_from_channel cw) = Ok (Some u) \<Longrightarrow> snd (recv_from_channel cw) = snd (try_recv_from_channel cw)"
  by (auto simp: recv_from_channel_def try_recv_from_channel_def with_state_def lift_outcome_def bind_action_def modify_def
      split: option.splits list.splits if_splits)

section \<open>Batcher data of a block\<close>

text \<open>
  The reference: all blobs of the block in order, numbered from the running index, with the
  transaction each belongs to.
\<close>

definition carries_blobs :: "config \<Rightarrow> eth_transaction \<Rightarrow> bool" where
  "carries_blobs config tx \<longleftrightarrow>
     is_valid_batcher_transaction config tx \<and> tx_type tx = Some BLOB_CARRYING_TRANSACTION_TYPE"

definition carries_calldata :: "config \<Rightarrow> eth_transaction \<Rightarrow> bool" where
  "carries_calldata config tx \<longleftrightarrow>
     is_valid_batcher_transaction config tx \<and> tx_type tx \<noteq> Some BLOB_CARRYING_TRANSACTION_TYPE"

definition block_blobs :: "eth_transaction list \<Rightarrow> (eth_transaction \<times> string) list" where
  "block_blobs txs = concat (map (\<lambda>tx. map (Pair tx) (tx_blob_hashes tx)) txs)"

lemma blob_type_iff:
  "(case tx_type tx of Some t \<Rightarrow> t | None \<Rightarrow> 0) = BLOB_CARRYING_TRANSACTION_TYPE \<longleftrightarrow>
     tx_type tx = Some BLOB_CARRYING_TRANSACTION_TYPE"
  by (cases "tx_type tx") (simp_all add: BLOB_CARRYING_TRANSACTION_TYPE_def)

lemma enumerate_append: "enumerate k (xs @ ys) = enumerate k xs @ enumerate (k + length xs) ys"
  by (induction xs arbitrary: k) simp_all

lemma collect_calldata:
  "fst (collect_batcher_data config k txs) = map tx_input (filter (carries_calldata config) txs)"
  by (induction config k txs rule: collect_batcher_data.induct)
    (auto simp: carries_calldata_def blob_type_iff split: prod.splits)

lemma collect_blobs_Cons:
  "snd (collect_batcher_data config k (tx # txs)) =
     (if carries_blobs config tx then
        zip [k..<k + length (tx_blob_hashes tx)] (tx_blob_hashes tx) @
        snd (collect_batcher_data config (k + length (tx_blob_hashes tx)) txs)
      else if carries_calldata config tx then snd (collect_batcher_data config k txs)
      else snd (collect_batcher_data config (k + length (tx_blob_hashes tx)) txs))"
  by (auto simp: carries_blobs_def carries_calldata_def blob_type_iff split: prod.splits)

lemma own_blobs:
  "filter (\<lambda>(i, tx, h). carries_blobs config tx) (enumerate k (map (Pair tx) hs)) =
     (if carries_blobs config tx then enumerate k (map (Pair tx) hs) else [])"
  by (induction hs arbitrary: k) simp_all

lemma strip_owner: "map (\<lambda>(i, tx, h). (i, h)) (enumerate k (map (Pair tx) hs)) = zip [k..<k + length hs] hs"
  by (induction hs arbitrary: k) (simp_all add: upt_rec)

lemma collect_blobs:
  assumes "list_all (\<lambda>tx. carries_calldata config tx \<longrightarrow> tx_blob_hashes tx = []) txs"
  shows "snd (collect_batcher_data config k txs) =
    map (\<lambda>(i, tx, h). (i, h)) (filter (\<lambda>(i, tx, h). carries_blobs config tx) (enumerate k (block_blobs txs)))"
  using assms
proof (induction txs arbitrary: k)
  case (Cons tx txs)
  have blobs: "block_blobs (tx # txs) = map (Pair tx) (tx_blob_hashes tx) @ block_blobs txs"
    by (simp add: block_blobs_def)
  show ?case
    using Cons by (simp add: collect_blobs_Cons blobs enumerate_append own_blobs strip_owner
        del: collect_batcher_data.simps)
qed (simp add: block_blobs_def)

lemma decode_blobs_Ok:
  "decode_blobs blobs ixs = Ok datas \<longleftrightarrow>
     list_all2 (\<lambda>(i, h) data. \<exists>sc. List.find (\<lambda>b. bsc_index b = of_nat i) blobs = Some sc \<and>
       decode_blob_data (bsc_blob sc) = Ok data) ixs datas"
proof (induction ixs arbitrary: datas)
  case (Cons ix ixs)
  then show ?case by (cases ix) (auto simp: outcome_simps list_all2_Cons1 split: option.splits)
qed auto

text \<open>
  C22: the batcher data of a block are, first, the calldata of the transactions from the batch
  sender to the inbox that carry no blobs, in order, and then the contents of the blobs of the blob carrying ones, in
  order: each decoded from the fetched sidecar with the index that the blob has among all
  blobs of the block, those of foreign transactions included.
\<close>

theorem batcher_data_selected:
  assumes "get_batcher_transactions lc block w = (Ok datas, w')"
    and "list_all (\<lambda>tx. carries_calldata (iw_config w) tx \<longrightarrow> tx_blob_hashes tx = []) (blk_transactions block)"
  shows "\<exists>sidecars decoded.
    datas = map tx_input (filter (carries_calldata (iw_config w)) (blk_transactions block)) @ decoded \<and>
    list_all2 (\<lambda>(i, tx, h) data. \<exists>sc. List.find (\<lambda>b. bsc_index b = of_nat i) sidecars = Some sc \<and>
        decode_blob_data (bsc_blob sc) = Ok data)
      (filter (\<lambda>(i, tx, h). carries_blobs (iw_config w) tx) (enumerate 0 (block_blobs (blk_transactions block))))
      decoded \<and>
    (decoded = [] \<or> (\<exists>slot. lc_fetch_blob_sidecars lc slot = Ok sidecars))"
proof -
  obtain calldata blobs where col: "collect_batcher_data (iw_config w) 0 (blk_transactions block) = (calldata, blobs)"
    by fastforce
  have cd: "calldata = map tx_input (filter (carries_calldata (iw_config w)) (blk_transactions block))"
    using collect_calldata [of "iw_config w" 0 "blk_transactions block"] col by simp
  have bl: "blobs = map (\<lambda>(i, tx, h). (i, h)) (filter (\<lambda>(i, tx, h). carries_blobs (iw_config w) tx)
      (enumerate 0 (block_blobs (blk_transactions block))))"
    using collect_blobs [OF assms(2), of 0] col by simp
  show ?thesis
  proof (cases "blobs = []")
    case True
    then have "datas = calldata @ []" using assms(1) col
      by (simp add: get_batcher_transactions_def action_simps)
    with True cd bl show ?thesis by fastforce
  next
    case False
    then obtain slot sidecars decoded where "lc_fetch_blob_sidecars lc slot = Ok sidecars"
      "decode_blobs sidecars blobs = Ok decoded" "datas = calldata @ decoded"
      using assms(1) col by (auto simp: get_batcher_transactions_def action_simps)
    with cd bl show ?thesis
      by (intro exI [where x=sidecars] exI [where x=decoded])
        (auto simp: decode_blobs_Ok list_all2_map1 case_prod_unfold)
  qed
qed

section \<open>Deposits\<close>

lemma deposit_block_number:
  "user_deposited_try_from abi log = Ok d \<Longrightarrow> log_block_number log = Some (ud_l1_block_num d)"
  by (auto simp: user_deposited_try_from_def outcome_simps)

text \<open>
  A provider that serves the deposit logs of one chain: a request for a range of blocks returns
  the logs of that range, in order. \<open>ds\<close> are the deposits these logs decode to.
\<close>

definition serves_deposits :: "l1_calls \<Rightarrow> address \<Rightarrow> user_deposited list \<Rightarrow> bool" where
  "serves_deposits lc contract ds \<longleftrightarrow>
     (\<exists>logs. list_all2 (\<lambda>log d. user_deposited_try_from (lc_abi_decode_bytes lc) log = Ok d) logs ds \<and>
        (\<forall>from to. lc_get_logs lc
            \<lparr>lf_address = contract, lf_topic0 = TRANSACTION_DEPOSITED_TOPIC (lc_keccak256 lc),
             lf_from_block = from, lf_to_block = to\<rparr> =
          Ok [log \<leftarrow> logs. case log_block_number log of Some n \<Rightarrow> from \<le> n \<and> n \<le> to | None \<Rightarrow> False]))"

definition deposits_of :: "user_deposited list \<Rightarrow> u64 \<Rightarrow> user_deposited list" where
  "deposits_of ds n = [d \<leftarrow> ds. ud_l1_block_num d = n]"

definition deposits_cached :: "user_deposited list \<Rightarrow> inner_watcher \<Rightarrow> bool" where
  "deposits_cached ds w \<longleftrightarrow> (\<forall>n xs. iw_deposits w n = Some xs \<longrightarrow> xs = deposits_of ds n)"

lemma decode_served_logs:
  assumes "list_all2 (\<lambda>log d. user_deposited_try_from abi log = Ok d) logs ds"
  shows "map_outcome (\<lambda>log. unwrap_res (user_deposited_try_from abi log) msg)
      [log \<leftarrow> logs. case log_block_number log of Some n \<Rightarrow> P n | None \<Rightarrow> False] =
    Ok [d \<leftarrow> ds. P (ud_l1_block_num d)]"
  using assms
  by (induction logs ds rule: list_all2_induct) (simp_all add: deposit_block_number)

lemma fold_deposits:
  "fold (\<lambda>num m. m(num := Some (f num))) nums m = (\<lambda>n. if n \<in> set nums then Some (f n) else m n)"
  by (induction nums arbitrary: m) (auto simp: fun_eq_iff)

lemma in_range_inclusive: "n \<in> set (range_inclusive a b) \<longleftrightarrow> a \<le> n \<and> n \<le> b"
proof
  assume "n \<in> set (range_inclusive a b)"
  then obtain k where k: "unat a \<le> k" "k \<le> unat b" "n = of_nat k" by (auto simp: range_inclusive_def)
  moreover have "unat n = k"
    using k unsigned_less [of b, where 'a=nat] by (simp add: unat_of_nat take_bit_nat_eq_self)
  ultimately show "a \<le> n \<and> n \<le> b" by (simp add: word_le_nat_alt)
next
  assume "a \<le> n \<and> n \<le> b"
  then show "n \<in> set (range_inclusive a b)"
    by (auto simp: range_inclusive_def word_le_nat_alt image_iff nat_less_le word_unat_eq_iff
        intro!: bexI [where x="unat n"])
qed

text \<open>
  C24: asking for the deposits of a block returns exactly the deposits of that block in the order
  of their logs, whether they are in the cache or are fetched with the next thousand blocks; the cache
  stays correct.
\<close>

theorem deposits_of_block:
  assumes "serves_deposits lc (cc_deposit_contract (cfg_chain (iw_config w))) ds" and "deposits_cached ds w"
    and "n \<le> iw_head_block w" and "n \<le> n + 1000"
  shows "\<exists>w'. get_deposits lc n w = (Ok (deposits_of ds n), w') \<and> deposits_cached ds w'"
proof (cases "iw_deposits w n")
  case (Some xs)
  then have "xs = deposits_of ds n" using assms(2) by (simp add: deposits_cached_def)
  then have "get_deposits lc n w = (Ok (deposits_of ds n), w\<lparr>iw_deposits := (iw_deposits w)(n := None)\<rparr>)"
    using Some by (simp add: get_deposits_def with_state_def lift_outcome_def)
  moreover have "deposits_cached ds (w\<lparr>iw_deposits := (iw_deposits w)(n := None)\<rparr>)"
    using assms(2) by (auto simp: deposits_cached_def)
  ultimately show ?thesis by blast
next
  case None
  define e where "e = min (iw_head_block w) (n + 1000)"
  obtain logs where logs: "list_all2 (\<lambda>log d. user_deposited_try_from (lc_abi_decode_bytes lc) log = Ok d) logs ds"
    and served: "lc_get_logs lc \<lparr>lf_address = cc_deposit_contract (cfg_chain (iw_config w)),
        lf_topic0 = TRANSACTION_DEPOSITED_TOPIC (lc_keccak256 lc), lf_from_block = n, lf_to_block = e\<rparr> =
      Ok [log \<leftarrow> logs. case log_block_number log of Some k \<Rightarrow> n \<le> k \<and> k \<le> e | None \<Rightarrow> False]"
    using assms(1) unfolding serves_deposits_def by blast
  have ne: "n \<le> e" using assms(3,4) by (simp add: e_def)
  have sub: "[d \<leftarrow> [d \<leftarrow> ds. n \<le> ud_l1_block_num d \<and> ud_l1_block_num d \<le> e]. ud_l1_block_num d = k] = deposits_of ds k"
    if "n \<le> k \<and> k \<le> e" for k
    using that by (auto simp: deposits_of_def intro!: filter_cong)
  define m where "m = (\<lambda>k. if n \<le> k \<and> k \<le> e
      then Some [d \<leftarrow> [d \<leftarrow> ds. n \<le> ud_l1_block_num d \<and> ud_l1_block_num d \<le> e]. ud_l1_block_num d = k]
      else iw_deposits w k)"
  have "get_deposits lc n w = (unwrap_opt (m n) ''called unwrap on a None value'', w\<lparr>iw_deposits := m(n := None)\<rparr>)"
    using None served decode_served_logs [OF logs, of _ "\<lambda>k. n \<le> k \<and> k \<le> e"]
    by (simp add: get_deposits_def Let_def with_state_def bind_action_def lift_outcome_def modify_def
        e_def [symmetric] fold_deposits in_range_inclusive m_def cong: if_cong)
  moreover have "m n = Some (deposits_of ds n)" using ne sub by (simp add: m_def)
  moreover have "deposits_cached ds (w\<lparr>iw_deposits := m(n := None)\<rparr>)"
    using assms(2) sub by (auto simp: deposits_cached_def m_def)
  ultimately show ?thesis by simp
qed


section \<open>Reorgs\<close>

abbreviation linked :: "block_info list \<Rightarrow> bool" where
  "linked bs \<equiv> successively (\<lambda>a b. bi_parent_hash b = bi_hash a) bs"

text \<open>
  The unfinalized blocks form a chain of rising numbers below the next block to fetch, and no reorg has
  been sent. (After a reorg the watcher is replaced by a new one.)
\<close>

definition on_chain :: "inner_watcher \<Rightarrow> bool" where
  "on_chain w \<longleftrightarrow>
     linked (iw_unfinalized_blocks w) \<and> sorted_wrt (<) (map bi_number (iw_unfinalized_blocks w)) \<and>
     list_all (\<lambda>b. bi_number b < iw_current_block w) (iw_unfinalized_blocks w) \<and> Reorg \<notin> set (iw_sent w)"

text \<open>The part of the state the reorg check depends on.\<close>

definition same_chain :: "inner_watcher \<Rightarrow> inner_watcher \<Rightarrow> bool" where
  "same_chain w w' \<longleftrightarrow>
     iw_unfinalized_blocks w' = iw_unfinalized_blocks w \<and> iw_current_block w' = iw_current_block w \<and>
     iw_finalized_block w' = iw_finalized_block w \<and> iw_sent w' = iw_sent w"

lemma preorder_same_chain [simp]: "preorder_rel same_chain"
  by (simp add: preorder_rel_def same_chain_def)

lemma keeps_activate [keeps_intros]: "keeps same_chain (modify activate_system_config)"
  by (rule keeps_modify) (auto simp: activate_system_config_def same_chain_def split: prod.splits option.splits)

lemma keeps_update_system_config: "keeps same_chain (update_system_config lc)"
  by (auto simp: update_system_config_def fetch_system_config_def Let_def same_chain_def intro!: keeps_intros)

lemma keeps_get_deposits: "keeps same_chain (get_deposits lc n)"
  by (auto simp: get_deposits_def Let_def same_chain_def split: option.splits intro!: keeps_intros)

lemma keeps_zoom_fetcher [keeps_intros]:
  "keeps same_chain (zoom iw_blob_fetcher (\<lambda>bf w. w\<lparr>iw_blob_fetcher := bf\<rparr>) m)"
  by (auto simp: keeps_def zoom_def same_chain_def split: prod.splits)

lemma keeps_get_batcher_transactions: "keeps same_chain (get_batcher_transactions lc block)"
  by (auto simp: get_batcher_transactions_def split: prod.splits intro!: keeps_intros)

lemma keeps_fetch_l1_info: "keeps same_chain (fetch_l1_info lc)"
  by (auto simp: fetch_l1_info_def Let_def
      intro!: keeps_intros keeps_update_system_config keeps_get_deposits keeps_get_batcher_transactions)

lemma keeps_ingest_head: "keeps same_chain (ingest_head lc)"
  by (auto simp: ingest_head_def same_chain_def intro!: keeps_intros)

text \<open>The provider returns the block it is asked for.\<close>

definition serves_numbers :: "l1_calls \<Rightarrow> bool" where
  "serves_numbers lc \<longleftrightarrow>
     (\<forall>n block. lc_get_block_with_txs lc (BlockNumber n) = Ok (Some block) \<longrightarrow> blk_number block = Some n)"

lemma fetch_l1_info_number:
  assumes "serves_numbers lc" and "fetch_l1_info lc w = (Ok (block, info), w')"
  shows "l1b_number (l1i_block_info info) = iw_current_block w'"
proof -
  obtain w1 w2 w3 bi ds txs where
    steps: "update_system_config lc w = (Ok (), w1)" "watcher_get_block lc (iw_current_block w1) = Ok block"
    "get_deposits lc (iw_current_block w1) w1 = (Ok ds, w2)" "get_batcher_transactions lc block w2 = (Ok txs, w3)"
    and bi: "l1_block_info_try_from block = Ok bi" "l1i_block_info info = bi" "w' = w3"
    using assms(2) by (auto simp: fetch_l1_info_def Let_def action_simps)
  have "iw_current_block w3 = iw_current_block w1"
    using keepsD [OF keeps_get_deposits steps(3)] keepsD [OF keeps_get_batcher_transactions steps(4)]
    by (simp add: same_chain_def)
  moreover have "blk_number block = Some (iw_current_block w1)"
    using steps(2) assms(1) by (auto simp: watcher_get_block_def serves_numbers_def outcome_simps)
  moreover have "blk_number block = Some (l1b_number bi)"
    using bi(1) by (auto simp: l1_block_info_try_from_def outcome_simps)
  ultimately show ?thesis using bi by simp
qed

lemma on_chain_same: "same_chain w w' \<Longrightarrow> on_chain w \<Longrightarrow> on_chain w'"
  by (simp add: same_chain_def on_chain_def)

text \<open>Finality drops the oldest blocks of the chain.\<close>

lemma filter_rising:
  "sorted_wrt (<) (map bi_number bs) \<Longrightarrow>
     filter (\<lambda>b. f < bi_number b) bs = dropWhile (\<lambda>b. bi_number b \<le> f) bs"
proof (induction bs)
  case (Cons b bs)
  show ?case
  proof (cases "bi_number b \<le> f")
    case True
    with Cons show ?thesis by (simp add: leD)
  next
    case False
    with Cons.prems have "filter (\<lambda>b. f < bi_number b) bs = bs"
      by (intro filter_True) (auto simp: not_le intro: order.strict_trans)
    with False show ?thesis by (simp add: not_le)
  qed
qed simp

lemma linked_dropWhile: "linked bs \<Longrightarrow> linked (dropWhile P bs)"
  by (induction bs) (auto simp: successively_Cons)

lemma linked_filter:
  "linked bs \<Longrightarrow> sorted_wrt (<) (map bi_number bs) \<Longrightarrow> linked (filter (\<lambda>b. f < bi_number b) bs)"
  by (simp add: filter_rising linked_dropWhile)

lemma on_chain_finality:
  assumes "on_chain w" and "ingest_finality lc w = (r, w')"
  shows "on_chain w'"
proof -
  have "on_chain (w\<lparr>iw_finalized_block := f, iw_sent := iw_sent w @ [FinalityUpdate f],
      iw_unfinalized_blocks := [b \<leftarrow> iw_unfinalized_blocks w. f < bi_number b]\<rparr>)" for f
    using assms(1) linked_filter [of "iw_unfinalized_blocks w" f]
    by (auto simp: on_chain_def list_all_iff sorted_wrt_map sorted_wrt_filter)
  with assms show ?thesis
    by (auto simp: ingest_finality_def with_state_def bind_action_def lift_outcome_def modify_def send_update_def
        split: if_splits outcome.splits)
qed

text \<open>On a chain, the check of the last two blocks is a check of the whole list.\<close>

lemma check_reorg_last:
  assumes "linked bs" and "iw_unfinalized_blocks w = bs @ [b]"
  shows "check_reorg w \<longleftrightarrow> \<not> linked (bs @ [b])"
  using assms by (cases bs rule: rev_cases)
    (auto simp: check_reorg_def Let_def nth_append successively_append_iff)

lemma check_reorg_linked: "linked (iw_unfinalized_blocks w) \<Longrightarrow> \<not> check_reorg w"
  using check_reorg_last [of "butlast (iw_unfinalized_blocks w)" w "last (iw_unfinalized_blocks w)"]
  by (cases "iw_unfinalized_blocks w" rule: rev_cases)
    (auto simp: check_reorg_def Let_def successively_append_iff)

lemma send_block_reports:
  assumes "on_chain w" and "l1b_number (l1i_block_info info) = iw_current_block w" and "iw_current_block w + 1 \<noteq> 0"
    and "w' = send_block info (push_unfinalized block info w)"
  shows "if linked (iw_unfinalized_blocks w') then on_chain w' else Reorg \<in> set (iw_sent w')"
proof -
  have up: "iw_current_block w < iw_current_block w + 1"
    using assms(3) by (simp add: word_less_nat_alt unatSuc add.commute)
  have below: "n < iw_current_block w + 1" if "n < iw_current_block w" for n
    using that up by (rule order.strict_trans)
  show ?thesis
  proof (cases "iw_finalized_block w \<le> iw_current_block w")
    case True
    define b where "b = \<lparr>bi_hash = l1b_hash (l1i_block_info info), bi_number = l1b_number (l1i_block_info info),
              bi_parent_hash = blk_parent_hash block, bi_timestamp = l1b_timestamp (l1i_block_info info)\<rparr>"
    define w1 where "w1 = push_unfinalized block info w"
    have w1: "iw_unfinalized_blocks w1 = iw_unfinalized_blocks w @ [b]" "iw_sent w1 = iw_sent w"
      "iw_current_block w1 = iw_current_block w"
      using True assms(2) by (simp_all add: w1_def push_unfinalized_def b_def)
    have "check_reorg w1 \<longleftrightarrow> \<not> linked (iw_unfinalized_blocks w @ [b])"
      using assms(1) w1(1) by (intro check_reorg_last) (auto simp: on_chain_def)
    moreover have "bi_number b = iw_current_block w" using assms(2) by (simp add: b_def)
    ultimately show ?thesis using assms(1,4) up below w1
      by (auto simp: on_chain_def w1_def [symmetric] send_block_def send_update_def Let_def list_all_iff
          sorted_wrt_append)
  next
    case False
    then have "push_unfinalized block info w = w" using assms(2) by (simp add: push_unfinalized_def)
    with assms(1,4) below check_reorg_linked [of w] show ?thesis
      by (auto simp: on_chain_def send_block_def send_update_def Let_def list_all_iff)
  qed
qed

lemma ingest_finality_current: "ingest_finality lc w = (r, w') \<Longrightarrow> iw_current_block w' = iw_current_block w"
  by (auto simp: ingest_finality_def with_state_def bind_action_def lift_outcome_def modify_def send_update_def
      split: if_splits outcome.splits)

lemma ingest_next_reports:
  assumes "on_chain w" and "serves_numbers lc" and "iw_current_block w + 1 \<noteq> 0" and "ingest_next lc w = (r, w')"
  shows "if linked (iw_unfinalized_blocks w') then on_chain w' else Reorg \<in> set (iw_sent w')"
  using assms(4) unfolding ingest_next_def
proof (cases rule: bind_action_exit)
  case (continues x w1)
  obtain block info where x: "x = (block, info)" by fastforce
  have "same_chain w w1" using keepsD [OF keeps_fetch_l1_info continues(1)] .
  then have "on_chain w1" "iw_current_block w1 = iw_current_block w"
    using on_chain_same [OF _ assms(1)] by (auto simp: same_chain_def)
  then show ?thesis
    using continues x fetch_l1_info_number [OF assms(2)] assms(3)
    by (intro send_block_reports [of w1 info _ block]) (auto simp: action_simps)
next
  case stops
  then have "same_chain w w'" using keepsD [OF keeps_fetch_l1_info] by blast
  then have "on_chain w'" using on_chain_same assms(1) by blast
  then show ?thesis by (simp add: on_chain_def)
qed

text \<open>
  C17: as long as no reorg has been reported, the unfinalized blocks the watcher keeps are a chain
  linked by hashes. One more step, however it ends, either keeps that so, or leaves two
  blocks that are not linked and reports the reorg.
\<close>

theorem reorg_reported_iff_unlinked:
  assumes "on_chain w" and "serves_numbers lc" and "iw_current_block w + 1 \<noteq> 0"
    and "try_ingest_block lc w = (r, w')"
  shows "if linked (iw_unfinalized_blocks w') then on_chain w' else Reorg \<in> set (iw_sent w')"
proof -
  have stays: ?thesis if "on_chain w'" using that by (simp add: on_chain_def)
  from assms(4) show ?thesis unfolding try_ingest_block_def
  proof (cases rule: bind_action_exit)
    case stops
    then show ?thesis using on_chain_finality [OF assms(1)] stays by blast
  next
    case (continues u w1)
    then have w1: "on_chain w1" "iw_current_block w1 = iw_current_block w"
      using on_chain_finality [OF assms(1)] ingest_finality_current by blast+
    from continues(2) show ?thesis
    proof (cases rule: bind_action_exit)
      case stops
      then have "same_chain w1 w'" using keepsD [OF keeps_ingest_head] by blast
      then show ?thesis using on_chain_same [OF _ w1(1)] stays by blast
    next
      case (continues u w2)
      then have "same_chain w1 w2" using keepsD [OF keeps_ingest_head] by blast
      then have w2: "on_chain w2" "iw_current_block w2 = iw_current_block w"
        using w1 on_chain_same [OF _ w1(1)] by (auto simp: same_chain_def)
      show ?thesis
      proof (cases "iw_current_block w2 \<le> iw_head_block w2")
        case True
        then have "ingest_next lc w2 = (r, w')" using continues(2) by (simp add: with_state_def)
        then show ?thesis using w2 assms(2,3) by (intro ingest_next_reports [of w2]) simp_all
      next
        case False
        then have "w' = w2" using continues(2) by (simp add: with_state_def lift_outcome_def)
        then show ?thesis using w2 stays by simp
      qed
    qed
  qed
qed

section \<open>System configuration updates\<close>

text \<open>
  The log of an update is searched for in windows of a thousand blocks, and the window is closed by
  the first answer, also when it reaches beyond the head of L1. \<open>window_closed w to\<close> is the state after an
  answer without a usable log.
\<close>

definition window_closed :: "inner_watcher \<Rightarrow> u64 \<Rightarrow> bool" where
  "window_closed w to \<longleftrightarrow> iw_next_system_config w = (to, None) \<and> iw_current_block w \<le> to"

lemma update_system_config_closed:
  assumes "window_closed w to"
  shows "update_system_config lc w = (Ok (), w)"
proof -
  have "\<not> to < iw_current_block w" using assms by (simp add: window_closed_def not_less)
  then show ?thesis using assms
    by (simp add: window_closed_def update_system_config_def fetch_system_config_def activate_system_config_def
        with_state_def bind_action_def lift_outcome_def modify_def Let_def)
qed

lemma empty_answer_closes_window:
  assumes "fst (iw_next_system_config w) < iw_current_block w"
    and "iw_current_block w \<le> fst (iw_next_system_config w) + 1000"
    and "lc_get_logs lc \<lparr>lf_address = cc_system_config_contract (cfg_chain (iw_config w)),
          lf_topic0 = CONFIG_UPDATE_TOPIC (lc_keccak256 lc),
          lf_from_block = fst (iw_next_system_config w) + 1, lf_to_block = fst (iw_next_system_config w) + 1000\<rparr> = Ok logs"
    and "first_update logs = None" and "update_system_config lc w = (r, w')"
  shows "r = Ok () \<and> window_closed w' (fst (iw_next_system_config w) + 1000) \<and>
    iw_system_config w' = iw_system_config w"
  using assms
  by (auto simp: update_system_config_def fetch_system_config_def activate_system_config_def window_closed_def
      with_state_def bind_action_def lift_outcome_def modify_def Let_def)

text \<open>
  An update announced by the first log of an answer takes effect at its own block: from the
  answer on it is pending, no further log is asked for, and the configuration in force changes when
  the watcher reaches that block and not before.
\<close>

lemma config_update_at_its_block:
  assumes "iw_next_system_config w = (u, Some next_config)" and "iw_current_block w \<le> u"
  shows "update_system_config lc w =
    (Ok (), if iw_current_block w = u then w\<lparr>iw_system_config := next_config\<rparr> else w)"
proof -
  have "\<not> u < iw_current_block w" using assms(2) by (simp add: not_less)
  then show ?thesis using assms(1)
    by (auto simp: update_system_config_def fetch_system_config_def activate_system_config_def
        with_state_def bind_action_def lift_outcome_def modify_def Let_def)
qed

text \<open>
  C27: an answer without an update for a window that reaches beyond the head of L1 hides the
  updates of the blocks that are mined later inside that window: whatever logs exist by then, the
  watcher does not ask again before the end of the window, and the configuration stays.
\<close>

theorem config_updates_hidden_in_window:
  assumes "fst (iw_next_system_config w) < iw_current_block w"
    and "iw_current_block w \<le> fst (iw_next_system_config w) + 1000"
    and "lc_get_logs lc \<lparr>lf_address = cc_system_config_contract (cfg_chain (iw_config w)),
          lf_topic0 = CONFIG_UPDATE_TOPIC (lc_keccak256 lc),
          lf_from_block = fst (iw_next_system_config w) + 1, lf_to_block = fst (iw_next_system_config w) + 1000\<rparr> = Ok []"
    and "update_system_config lc w = (r, w1)"
    and "iw_next_system_config w2 = iw_next_system_config w1" and "iw_system_config w2 = iw_system_config w1"
    and "iw_current_block w2 \<le> fst (iw_next_system_config w) + 1000"
  shows "update_system_config lc' w2 = (Ok (), w2) \<and> iw_system_config w2 = iw_system_config w"
proof -
  have "window_closed w1 (fst (iw_next_system_config w) + 1000) \<and> iw_system_config w1 = iw_system_config w"
    using empty_answer_closes_window [OF assms(1-3) _ assms(4)] by (simp add: first_update_def)
  then have "window_closed w2 (fst (iw_next_system_config w) + 1000)" "iw_system_config w2 = iw_system_config w"
    using assms(5-7) by (simp_all add: window_closed_def)
  then show ?thesis using update_system_config_closed by blast
qed


section \<open>Concrete runs\<close>

definition sample_l1_block :: "u64 \<Rightarrow> h256 \<Rightarrow> eth_transaction list \<Rightarrow> eth_block" where
  "sample_l1_block n parent txs =
     (sample_l2_block 1000 [])\<lparr>blk_number := Some n, blk_hash := Some 42, blk_parent_hash := parent, blk_transactions := txs\<rparr>"

definition sample_batcher_tx :: eth_transaction where
  "sample_batcher_tx =
     \<lparr>tx_hash = 0, tx_from = sc_batch_sender (cc_system_config optimism_sepolia),
      tx_to = Some (cc_batch_inbox optimism_sepolia), tx_type = Some 2, tx_input = [1, 2, 3],
      tx_blob_hashes = [], tx_raw = []\<rparr>"

definition sample_l1 :: l1_calls where
  "sample_l1 =
     \<lparr>lc_get_block = (\<lambda>b. Ok (Some (sample_l1_block (if b = BlockFinalized then 90 else 200) 0 []))),
      lc_get_block_with_txs = (\<lambda>b. case b of BlockNumber n \<Rightarrow> Ok (Some (sample_l1_block n 7 [sample_batcher_tx])) | _ \<Rightarrow> Ok None),
      lc_get_logs = (\<lambda>_. Ok []), lc_genesis_timestamp = Ok 10, lc_seconds_per_slot = Ok 12,
      lc_fetch_blob_sidecars = (\<lambda>_. Ok []), lc_abi_decode_bytes = Ok, lc_keccak256 = (\<lambda>_. 0)\<rparr>"

definition sample_watcher :: inner_watcher where
  "sample_watcher =
     \<lparr>iw_config = sample_config optimism_sepolia, iw_blob_fetcher = blob_fetcher_new, iw_sent = [],
      iw_current_block = 100, iw_head_block = 200, iw_finalized_block = 90,
      iw_unfinalized_blocks = [\<lparr>bi_hash = 990, bi_number = 99, bi_parent_hash = 980, bi_timestamp = 990\<rparr>],
      iw_deposits = (\<lambda>_. None), iw_system_config = cc_system_config optimism_sepolia,
      iw_next_system_config = (50, None)\<rparr>"

lemma sample_batcher_run:
  assumes "iw_config w = sample_config optimism_sepolia"
  shows "get_batcher_transactions sample_l1 (sample_l1_block n 7 [sample_batcher_tx]) w = (Ok [[1, 2, 3]], w)"
  using assms
  by (simp add: get_batcher_transactions_def sample_l1_block_def sample_batcher_tx_def
      is_valid_batcher_transaction_def BLOB_CARRYING_TRANSACTION_TYPE_def with_state_def lift_outcome_def sample_config_def)

theorem batcher_data_selected_witness:
  "\<exists>decoded. [[1, 2, 3]] = map tx_input (filter (carries_calldata (iw_config sample_watcher)) [sample_batcher_tx]) @ decoded"
proof -
  have txs: "blk_transactions (sample_l1_block 100 7 [sample_batcher_tx]) = [sample_batcher_tx]"
    by (simp add: sample_l1_block_def)
  have "list_all (\<lambda>tx. carries_calldata (iw_config sample_watcher) tx \<longrightarrow> tx_blob_hashes tx = [])
      (blk_transactions (sample_l1_block 100 7 [sample_batcher_tx]))"
    unfolding txs by (simp add: sample_batcher_tx_def)
  from batcher_data_selected [OF sample_batcher_run this] have "iw_config sample_watcher = sample_config optimism_sepolia \<Longrightarrow> ?thesis"
    unfolding txs by blast
  then show ?thesis by (simp add: sample_watcher_def)
qed

definition sample_deposit_log :: eth_log where
  "sample_deposit_log =
     \<lparr>log_topics = [0, 1, 2], log_data = deposit_opaque_data sample_deposit, log_block_number = Some 8,
      log_block_hash = Some 9, log_index = Some 10\<rparr>"

definition deposit_l1 :: l1_calls where
  "deposit_l1 = sample_l1\<lparr>lc_get_logs :=
     (\<lambda>f. Ok [log \<leftarrow> [sample_deposit_log].
        case log_block_number log of Some n \<Rightarrow> lf_from_block f \<le> n \<and> n \<le> lf_to_block f | None \<Rightarrow> False])\<rparr>"

lemma sample_deposit_decodes: "user_deposited_try_from Ok sample_deposit_log = Ok sample_deposit"
  by (rule user_deposited_roundtrip [where ts="[]" and ?t0.0 = 0]) (simp_all add: sample_deposit_log_def sample_deposit_def)

theorem deposits_of_block_witness: "\<exists>w'. get_deposits deposit_l1 8 sample_watcher = (Ok [sample_deposit], w')"
proof -
  have "serves_deposits deposit_l1 (cc_deposit_contract (cfg_chain (iw_config sample_watcher))) [sample_deposit]"
    unfolding serves_deposits_def
    by (rule exI [where x="[sample_deposit_log]"])
      (auto simp: deposit_l1_def sample_l1_def sample_deposit_decodes split: option.splits)
  moreover have "deposits_cached [sample_deposit] sample_watcher" by (simp add: deposits_cached_def sample_watcher_def)
  moreover have "8 \<le> iw_head_block sample_watcher" by (simp add: sample_watcher_def)
  ultimately have "\<exists>w'. get_deposits deposit_l1 8 sample_watcher = (Ok (deposits_of [sample_deposit] 8), w') \<and>
      deposits_cached [sample_deposit] w'"
    by (rule deposits_of_block) simp
  then show ?thesis by (auto simp: deposits_of_def sample_deposit_def)
qed

text \<open>A step onto a block whose parent is not the last one kept.\<close>

lemma sample_ingest:
  "iw_unfinalized_blocks (snd (try_ingest_block sample_l1 sample_watcher)) =
     [\<lparr>bi_hash = 990, bi_number = 99, bi_parent_hash = 980, bi_timestamp = 990\<rparr>,
      \<lparr>bi_hash = 42, bi_number = 100, bi_parent_hash = 7, bi_timestamp = 1000\<rparr>] \<and>
   iw_sent (snd (try_ingest_block sample_l1 sample_watcher)) = [Reorg] \<and>
   fst (try_ingest_block sample_l1 sample_watcher) = Ok ()"
proof -
  let ?w = "sample_watcher\<lparr>iw_next_system_config := (1050, None)\<rparr>"
  have fin: "ingest_finality sample_l1 sample_watcher = (Ok (), sample_watcher)"
    by (simp add: ingest_finality_def get_finalized_def block_number_of_def sample_l1_def sample_watcher_def
        sample_l1_block_def sample_config_def with_state_def bind_action_def lift_outcome_def Let_def)
  have head: "ingest_head sample_l1 sample_watcher = (Ok (), sample_watcher)"
    by (simp add: ingest_head_def sample_watcher_def with_state_def lift_outcome_def)
  have conf: "update_system_config sample_l1 sample_watcher = (Ok (), ?w)"
    by (simp add: update_system_config_def fetch_system_config_def activate_system_config_def first_update_def
        sample_l1_def sample_watcher_def with_state_def bind_action_def lift_outcome_def modify_def Let_def)
  have deps: "\<exists>m. get_deposits sample_l1 100 ?w = (Ok [], ?w\<lparr>iw_deposits := m\<rparr>)"
    by (simp add: get_deposits_def Let_def with_state_def bind_action_def lift_outcome_def modify_def sample_l1_def
        sample_watcher_def fold_deposits in_range_inclusive)
  then obtain m where deps: "get_deposits sample_l1 100 ?w = (Ok [], ?w\<lparr>iw_deposits := m\<rparr>)" ..
  have block: "watcher_get_block sample_l1 100 = Ok (sample_l1_block 100 7 [sample_batcher_tx])"
    by (simp add: watcher_get_block_def sample_l1_def)
  have bat: "get_batcher_transactions sample_l1 (sample_l1_block 100 7 [sample_batcher_tx]) (?w\<lparr>iw_deposits := m\<rparr>) =
      (Ok [[1, 2, 3]], ?w\<lparr>iw_deposits := m\<rparr>)"
    by (rule sample_batcher_run) (simp add: sample_watcher_def)
  have info: "\<exists>bi. l1_block_info_try_from (sample_l1_block 100 7 [sample_batcher_tx]) = Ok bi \<and>
      l1b_number bi = 100 \<and> l1b_hash bi = 42 \<and> l1b_timestamp bi = 1000"
    by (simp add: l1_block_info_try_from_def sample_l1_block_def sample_l2_block_def as_u64_def)
  then obtain bi where bi: "l1_block_info_try_from (sample_l1_block 100 7 [sample_batcher_tx]) = Ok bi"
    "l1b_number bi = 100" "l1b_hash bi = 42" "l1b_timestamp bi = 1000" by blast
  have "iw_current_block ?w = 100" "iw_current_block sample_watcher = 100" "iw_head_block sample_watcher = 200"
    by (simp_all add: sample_watcher_def)
  then have "try_ingest_block sample_l1 sample_watcher = ingest_next sample_l1 sample_watcher"
    by (simp add: try_ingest_block_def fin head bind_action_run with_state_def)
  moreover obtain info where "fetch_l1_info sample_l1 sample_watcher =
      (Ok (sample_l1_block 100 7 [sample_batcher_tx], info), ?w\<lparr>iw_deposits := m\<rparr>)" "l1i_block_info info = bi"
    using \<open>iw_current_block ?w = 100\<close>
    by (simp add: fetch_l1_info_def bind_action_def conf with_state_def block deps bat bi lift_outcome_def Let_def)
  ultimately show ?thesis
    by (simp add: ingest_next_def bind_action_def modify_def push_unfinalized_def send_block_def send_update_def Let_def bi)
      (simp add: sample_watcher_def sample_l1_block_def check_reorg_def bi)
qed

theorem reorg_reported_iff_unlinked_witness: "Reorg \<in> set (iw_sent (snd (try_ingest_block sample_l1 sample_watcher)))"
proof -
  define w' where "w' = snd (try_ingest_block sample_l1 sample_watcher)"
  have "on_chain sample_watcher" by (simp add: on_chain_def sample_watcher_def)
  moreover have "serves_numbers sample_l1" by (simp add: serves_numbers_def sample_l1_def sample_l1_block_def)
  moreover have "iw_current_block sample_watcher + 1 \<noteq> 0" by (simp add: sample_watcher_def)
  moreover have "try_ingest_block sample_l1 sample_watcher = (fst (try_ingest_block sample_l1 sample_watcher), w')"
    by (simp add: w'_def)
  ultimately have "if linked (iw_unfinalized_blocks w') then on_chain w' else Reorg \<in> set (iw_sent w')"
    by (rule reorg_reported_iff_unlinked)
  moreover have "\<not> linked (iw_unfinalized_blocks w')"
    using sample_ingest by (simp add: w'_def)
  ultimately show ?thesis by (simp add: w'_def)
qed


theorem config_updates_hidden_in_window_witness:
  "\<exists>w2. iw_current_block w2 = 1050 \<and> update_system_config deposit_l1 w2 = (Ok (), w2) \<and>
     iw_system_config w2 = iw_system_config sample_watcher"
proof -
  let ?w1 = "snd (update_system_config sample_l1 sample_watcher)"
  have "update_system_config deposit_l1 (?w1\<lparr>iw_current_block := 1050\<rparr>) = (Ok (), ?w1\<lparr>iw_current_block := 1050\<rparr>) \<and>
      iw_system_config (?w1\<lparr>iw_current_block := 1050\<rparr>) = iw_system_config sample_watcher"
    by (rule config_updates_hidden_in_window
        [where w=sample_watcher and lc=sample_l1 and r="fst (update_system_config sample_l1 sample_watcher)" and ?w1.0 = ?w1])
      (simp_all add: sample_watcher_def, simp add: sample_l1_def)
  then show ?thesis by (intro exI [where x="?w1\<lparr>iw_current_block := 1050\<rparr>"]) simp
qed


end
