(* ===== verification/Engine_Driver.thy ===== *)
theory Engine_Driver
  imports Effects Engine_Types Head_Info "HOL-Library.Signed_Division"
begin

text \<open>
  \<^verbatim>\<open>src/src/driver/engine_driver.rs\<close>: the driver of the execution engine, which keeps the three
  heads of the L2 chain and moves them by calls of the engine.

  The engine is a parameter \<open>eng\<close>, a record of its calls; its state is the field \<open>ed_engine\<close>. The provider of
  the local execution client reads that state: \<open>get_block\<close>, given the engine's state and a block id. The
  hash function is the parameter \<open>keccak256\<close>. Error messages keep their fixed text.

  Shown: the heads move only along the steps of a small abstract machine, on every exit of every
  operation; what a success guarantees (the engine has answered \<open>Valid\<close> to exactly the heads kept); which block
  the provider is asked for; when attributes are skipped; what the new safe head extends.
\<close>

record 'e engine_driver =
  ed_engine :: 'e
  ed_blocktime :: u64
  ed_unsafe_head :: block_info
  ed_safe_head :: block_info
  ed_safe_epoch :: epoch
  ed_finalized_head :: block_info
  ed_finalized_epoch :: epoch

section \<open>Operations\<close>

definition engine_driver_new :: "'e \<Rightarrow> block_info \<Rightarrow> epoch \<Rightarrow> config \<Rightarrow> 'e engine_driver" where
  "engine_driver_new e finalized_head finalized_epoch config =
     \<lparr>ed_engine = e, ed_blocktime = cc_blocktime (cfg_chain config), ed_unsafe_head = finalized_head,
      ed_safe_head = finalized_head, ed_safe_epoch = finalized_epoch,
      ed_finalized_head = finalized_head, ed_finalized_epoch = finalized_epoch\<rparr>"

definition engine_call :: "('e, 'a) action \<Rightarrow> ('e engine_driver, 'a) action" where
  "engine_call = zoom ed_engine (\<lambda>e d. d\<lparr>ed_engine := e\<rparr>)"

definition create_forkchoice_state :: "'e engine_driver \<Rightarrow> forkchoice_state" where
  "create_forkchoice_state d =
     \<lparr>fcs_head_block_hash = bi_hash (ed_unsafe_head d), fcs_safe_block_hash = bi_hash (ed_safe_head d),
      fcs_finalized_block_hash = bi_hash (ed_finalized_head d)\<rparr>"

definition update_forkchoice :: "'e engine \<Rightarrow> ('e engine_driver, unit) action" where
  "update_forkchoice eng = with_state (\<lambda>d.
     let forkchoice = create_forkchoice_state d
     in bind_action (engine_call (eng_forkchoice_updated eng forkchoice None)) (\<lambda>update.
        if ps_status (fcu_payload_status update) \<noteq> Valid
        then bail ''could not accept new forkchoice''
        else return_action ()))"

definition push_payload :: "'e engine \<Rightarrow> execution_payload \<Rightarrow> ('e engine_driver, unit) action" where
  "push_payload eng payload =
     bind_action (engine_call (eng_new_payload eng payload)) (\<lambda>status.
     if ps_status status \<noteq> Valid \<and> ps_status status \<noteq> Accepted
     then bail ''invalid execution payload''
     else return_action ())"

definition build_payload :: "'e engine \<Rightarrow> payload_attributes \<Rightarrow> ('e engine_driver, execution_payload) action" where
  "build_payload eng attributes = with_state (\<lambda>d.
     let forkchoice = create_forkchoice_state d
     in bind_action (engine_call (eng_forkchoice_updated eng forkchoice (Some attributes))) (\<lambda>update.
        if ps_status (fcu_payload_status update) \<noteq> Valid
        then bail ''invalid payload attributes''
        else bind_action (lift_outcome (ok_or (fcu_payload_id update) ''engine did not return payload id'')) (\<lambda>id.
             engine_call (eng_get_payload eng id))))"

definition engine_update_safe_head :: "block_info \<Rightarrow> epoch \<Rightarrow> bool \<Rightarrow> 'e engine_driver \<Rightarrow> 'e engine_driver" where
  "engine_update_safe_head new_head new_epoch reorg_unsafe d =
     (let d1 = (if ed_safe_head d \<noteq> new_head
                then d\<lparr>ed_safe_head := new_head, ed_safe_epoch := new_epoch\<rparr> else d)
      in if reorg_unsafe \<or> bi_number (ed_unsafe_head d1) < bi_number (ed_safe_head d1)
         then d1\<lparr>ed_unsafe_head := new_head\<rparr> else d1)"

definition process_attributes :: "'e engine \<Rightarrow> payload_attributes \<Rightarrow> ('e engine_driver, unit) action" where
  "process_attributes eng attributes =
     bind_action (lift_outcome (unwrap_opt (pa_epoch attributes) ''called unwrap on a None value'')) (\<lambda>new_epoch.
     bind_action (build_payload eng attributes) (\<lambda>payload.
     let new_head = \<lparr>bi_hash = pl_block_hash payload, bi_number = pl_block_number payload,
                     bi_parent_hash = pl_parent_hash payload, bi_timestamp = pl_timestamp payload\<rparr>
     in bind_action (push_payload eng payload) (\<lambda>_.
        bind_action (modify (engine_update_safe_head new_head new_epoch True)) (\<lambda>_.
        update_forkchoice eng))))"

definition skip_attributes ::
  "'e engine \<Rightarrow> payload_attributes \<Rightarrow> eth_block \<Rightarrow> ('e engine_driver, unit) action" where
  "skip_attributes eng attributes block =
     bind_action (lift_outcome (unwrap_opt (pa_epoch attributes) ''called unwrap on a None value'')) (\<lambda>new_epoch.
     bind_action (lift_outcome (block_info_try_from block)) (\<lambda>new_head.
     bind_action (modify (engine_update_safe_head new_head new_epoch False)) (\<lambda>_.
     update_forkchoice eng)))"

text \<open>
  Signed 64-bit division truncates towards zero and panics on a zero divisor and on the one
  quotient that does not fit.
\<close>

definition i64_div :: "u64 \<Rightarrow> u64 \<Rightarrow> u64 outcome" where
  "i64_div a b =
     (if b = 0 then Panic DivideByZero
      else if sint a = - (2 ^ 63) \<and> sint b = - 1 then Panic (Explicit ''attempt to divide with overflow'')
      else Ok (word_of_int (sint a sdiv sint b)))"

definition block_at ::
  "('e \<Rightarrow> block_id \<Rightarrow> eth_block option outcome) \<Rightarrow> u64 \<Rightarrow> 'e engine_driver \<Rightarrow> eth_block option outcome" where
  "block_at get_block timestamp d =
     (let time_diff = timestamp - bi_timestamp (ed_finalized_head d)
      in and_then (i64_div time_diff (ed_blocktime d)) (\<lambda>blocks.
         let block_num = bi_number (ed_finalized_head d) + blocks
         in case get_block (ed_engine d) (BlockNumber block_num) of
              Ok block \<Rightarrow> Ok block
            | Err e \<Rightarrow> Ok None
            | Panic p \<Rightarrow> Panic p
            | Diverge \<Rightarrow> Diverge))"

text \<open>\<open>and_lazy b m\<close> is the operator \<open>&&\<close>: the right operand runs only if the left one holds.\<close>

definition and_lazy :: "bool \<Rightarrow> bool outcome \<Rightarrow> bool outcome" where
  "and_lazy b m = (if b then m else Ok False)"

definition should_skip :: "(bytes \<Rightarrow> h256) \<Rightarrow> eth_block \<Rightarrow> payload_attributes \<Rightarrow> bool outcome" where
  "should_skip keccak256 block attributes =
     and_then (unwrap_opt (pa_transactions attributes) ''called unwrap on a None value'') (\<lambda>transactions.
     let attributes_hashes = map (\<lambda>tx. keccak256 (raw_bytes tx)) transactions;
         block_hashes = map (\<lambda>tx. keccak256 (tx_raw tx)) (blk_transactions block)
     in and_lazy (attributes_hashes = block_hashes)
          (and_then (as_u64 (blk_timestamp block)) (\<lambda>timestamp.
           and_lazy (pa_timestamp attributes = timestamp)
          (and_then (unwrap_opt (blk_mix_hash block) ''called unwrap on a None value'') (\<lambda>mix_hash.
           and_lazy (pa_prev_randao attributes = mix_hash)
          (and_then (unwrap_opt (blk_author block) ''called unwrap on a None value'') (\<lambda>author.
           and_lazy (pa_suggested_fee_recipient attributes = author)
          (and_then (as_u64 (blk_gas_limit block)) (\<lambda>gas_limit.
           Ok (pa_gas_limit attributes = gas_limit))))))))))"

definition handle_attributes ::
  "(bytes \<Rightarrow> h256) \<Rightarrow> 'e engine \<Rightarrow> ('e \<Rightarrow> block_id \<Rightarrow> eth_block option outcome) \<Rightarrow>
   payload_attributes \<Rightarrow> ('e engine_driver, unit) action" where
  "handle_attributes keccak256 eng get_block attributes = with_state (\<lambda>d.
     bind_action (lift_outcome (block_at get_block (pa_timestamp attributes) d)) (\<lambda>found.
     case found of
       Some block \<Rightarrow>
         bind_action (lift_outcome (should_skip keccak256 block attributes)) (\<lambda>skip.
         if skip then skip_attributes eng attributes block
         else bind_action (modify (\<lambda>d. d\<lparr>ed_unsafe_head := ed_safe_head d\<rparr>)) (\<lambda>_.
              process_attributes eng attributes))
     | None \<Rightarrow> process_attributes eng attributes))"

definition handle_unsafe_payload :: "'e engine \<Rightarrow> execution_payload \<Rightarrow> ('e engine_driver, unit) action" where
  "handle_unsafe_payload eng payload =
     bind_action (push_payload eng payload) (\<lambda>_.
     bind_action (modify (\<lambda>d. d\<lparr>ed_unsafe_head := block_info_from_payload payload\<rparr>)) (\<lambda>_.
     update_forkchoice eng))"

definition engine_update_finalized :: "block_info \<Rightarrow> epoch \<Rightarrow> 'e engine_driver \<Rightarrow> 'e engine_driver" where
  "engine_update_finalized head epoch d = d\<lparr>ed_finalized_head := head, ed_finalized_epoch := epoch\<rparr>"

definition engine_reorg :: "'e engine_driver \<Rightarrow> 'e engine_driver" where
  "engine_reorg d =
     d\<lparr>ed_unsafe_head := ed_finalized_head d, ed_safe_head := ed_finalized_head d,
       ed_safe_epoch := ed_finalized_epoch d\<rparr>"

definition engine_ready :: "'e engine \<Rightarrow> 'e engine_driver \<Rightarrow> bool \<times> 'e engine_driver" where
  "engine_ready eng d =
     (case engine_call (eng_forkchoice_updated eng (create_forkchoice_state d) None) d of
        (r, d') \<Rightarrow> (is_ok r, d'))"

section \<open>Calls that leave the heads alone\<close>

definition same_heads :: "'e engine_driver \<Rightarrow> 'e engine_driver \<Rightarrow> bool" where
  "same_heads d d' \<longleftrightarrow> (\<exists>e. d' = d\<lparr>ed_engine := e\<rparr>)"

lemma preorder_same_heads [simp]: "preorder_rel same_heads"
  unfolding preorder_rel_def same_heads_def by (metis engine_driver.surjective engine_driver.update_convs(1))

lemma same_heads_refl [simp]: "same_heads d d"
  unfolding same_heads_def by (metis engine_driver.surjective engine_driver.update_convs(1))

lemma keeps_engine_call [keeps_intros]: "keeps same_heads (engine_call m)"
  by (auto simp: keeps_def engine_call_def zoom_def same_heads_def split: prod.splits)

lemma keeps_update_forkchoice: "keeps same_heads (update_forkchoice eng)"
  by (auto simp: update_forkchoice_def Let_def intro!: keeps_intros)

lemma keeps_push_payload: "keeps same_heads (push_payload eng payload)"
  by (auto simp: push_payload_def intro!: keeps_intros)

lemma keeps_build_payload: "keeps same_heads (build_payload eng attributes)"
  by (auto simp: build_payload_def Let_def intro!: keeps_intros)

lemmas heads_kept =
  keepsD [OF keeps_update_forkchoice] keepsD [OF keeps_push_payload] keepsD [OF keeps_build_payload]

section \<open>The machine of the heads\<close>

text \<open>
  The abstract state: the three heads, the epochs of two of them, and the blocks that have been
  the safe head since the last reorg. Its events are the reasons for which heads may move.
\<close>

record heads =
  ah_unsafe :: block_info
  ah_safe :: block_info
  ah_safe_epoch :: epoch
  ah_finalized :: block_info
  ah_finalized_epoch :: epoch
  ah_derived :: "(block_info \<times> epoch) list"

datatype head_event =
    UnsafeReset
  | Derived block_info epoch
  | Confirmed block_info epoch
  | Gossiped block_info
  | Finalized block_info epoch
  | Reorged

definition set_safe :: "block_info \<Rightarrow> epoch \<Rightarrow> heads \<Rightarrow> heads" where
  "set_safe b ep h =
     (let ep' = (if ah_safe h = b then ah_safe_epoch h else ep)
      in h\<lparr>ah_safe := b, ah_safe_epoch := ep', ah_derived := ah_derived h @ [(b, ep')]\<rparr>)"

inductive head_step :: "head_event \<Rightarrow> heads \<Rightarrow> heads \<Rightarrow> bool" where
  unsafe_reset: "head_step UnsafeReset h (h\<lparr>ah_unsafe := ah_safe h\<rparr>)"
| derived: "head_step (Derived b ep) h ((set_safe b ep h)\<lparr>ah_unsafe := b\<rparr>)"
| confirmed_ahead: "bi_number (ah_unsafe h) < bi_number b \<Longrightarrow>
    head_step (Confirmed b ep) h ((set_safe b ep h)\<lparr>ah_unsafe := b\<rparr>)"
| confirmed_behind: "bi_number b \<le> bi_number (ah_unsafe h) \<Longrightarrow>
    head_step (Confirmed b ep) h (set_safe b ep h)"
| gossiped: "bi_number (ah_unsafe h) < bi_number b \<Longrightarrow>
    head_step (Gossiped b) h (h\<lparr>ah_unsafe := b\<rparr>)"
| finalized: "(b, ep) \<in> set (ah_derived h) \<Longrightarrow>
    head_step (Finalized b ep) h (h\<lparr>ah_finalized := b, ah_finalized_epoch := ep\<rparr>)"
| reorged: "head_step Reorged h
    (h\<lparr>ah_unsafe := ah_finalized h, ah_safe := ah_finalized h, ah_safe_epoch := ah_finalized_epoch h,
       ah_derived := []\<rparr>)"

inductive_cases head_step_cases: "head_step e h h'"

inductive head_steps :: "head_event list \<Rightarrow> heads \<Rightarrow> heads \<Rightarrow> bool" where
  none: "head_steps [] h h"
| some: "head_step e h h1 \<Longrightarrow> head_steps es h1 h2 \<Longrightarrow> head_steps (e # es) h h2"

inductive_simps head_steps_simps [simp]: "head_steps [] h h'" "head_steps (e # es) h h'"

lemma head_steps_append:
  "head_steps es h h1 \<Longrightarrow> head_steps fs h1 h2 \<Longrightarrow> head_steps (es @ fs) h h2"
  by (induction es h h1 rule: head_steps.induct) (auto intro: head_steps.some)

text \<open>Along any run the safe head is never numbered above the unsafe head.\<close>

definition heads_ordered :: "heads \<Rightarrow> bool" where
  "heads_ordered h \<longleftrightarrow> bi_number (ah_safe h) \<le> bi_number (ah_unsafe h)"

lemma head_step_ordered: "head_step e h h' \<Longrightarrow> heads_ordered h \<Longrightarrow> heads_ordered h'"
  by (erule head_step_cases) (auto simp: heads_ordered_def set_safe_def Let_def)

lemma head_steps_ordered: "head_steps es h h' \<Longrightarrow> heads_ordered h \<Longrightarrow> heads_ordered h'"
  by (induction es h h' rule: head_steps.induct) (auto intro: head_step_ordered)

text \<open>Events of derivation keep the finalized head and only add to the blocks derived.\<close>

fun derivation_event :: "epoch \<Rightarrow> head_event \<Rightarrow> bool" where
  "derivation_event ep UnsafeReset = True"
| "derivation_event ep (Derived b ep') = (ep' = ep)"
| "derivation_event ep (Confirmed b ep') = (ep' = ep)"
| "derivation_event ep _ = False"

lemma derivation_keeps_finalized:
  assumes "head_steps es h h'" and "list_all (derivation_event ep) es"
  shows "ah_finalized h' = ah_finalized h \<and> ah_finalized_epoch h' = ah_finalized_epoch h \<and>
    set (ah_derived h) \<subseteq> set (ah_derived h')"
  using assms
proof (induction es h h' rule: head_steps.induct)
  case (some e h h1 es h2)
  have "ah_finalized h1 = ah_finalized h \<and> ah_finalized_epoch h1 = ah_finalized_epoch h \<and>
      set (ah_derived h) \<subseteq> set (ah_derived h1)"
    using some.hyps(1) some.prems by cases (auto simp: set_safe_def Let_def)
  with some show ?case by auto
qed simp

section \<open>The driver refines the machine\<close>

definition abs_heads :: "(block_info \<times> epoch) list \<Rightarrow> 'e engine_driver \<Rightarrow> heads" where
  "abs_heads ds d =
     \<lparr>ah_unsafe = ed_unsafe_head d, ah_safe = ed_safe_head d, ah_safe_epoch = ed_safe_epoch d,
      ah_finalized = ed_finalized_head d, ah_finalized_epoch = ed_finalized_epoch d, ah_derived = ds\<rparr>"

lemma abs_heads_same: "same_heads d d' \<Longrightarrow> abs_heads ds d' = abs_heads ds d"
  by (auto simp: same_heads_def abs_heads_def)

definition safe_pair :: "'e engine_driver \<Rightarrow> block_info \<times> epoch" where
  "safe_pair d = (ed_safe_head d, ed_safe_epoch d)"

lemma safe_pair_same: "same_heads d d' \<Longrightarrow> safe_pair d' = safe_pair d"
  by (auto simp: same_heads_def safe_pair_def)

lemma safe_head_updated [simp]: "ed_safe_head (engine_update_safe_head b ep reorg d) = b"
  by (simp add: engine_update_safe_head_def Let_def)

lemma update_safe_head_derived:
  "head_step (Derived b ep) (abs_heads ds d)
     (abs_heads (ds @ [safe_pair (engine_update_safe_head b ep True d)]) (engine_update_safe_head b ep True d))"
  using head_step.derived [of b ep "abs_heads ds d"]
  by (simp add: abs_heads_def safe_pair_def engine_update_safe_head_def set_safe_def Let_def split: if_splits)

lemma update_safe_head_confirmed:
  "head_step (Confirmed b ep) (abs_heads ds d)
     (abs_heads (ds @ [safe_pair (engine_update_safe_head b ep False d)]) (engine_update_safe_head b ep False d))"
proof (cases "bi_number (ed_unsafe_head d) < bi_number b")
  case True
  then show ?thesis using head_step.confirmed_ahead [of "abs_heads ds d" b ep]
    by (simp add: abs_heads_def safe_pair_def engine_update_safe_head_def set_safe_def Let_def split: if_splits)
next
  case False
  then have "bi_number b \<le> bi_number (ed_unsafe_head d)" by (rule leI)
  with False show ?thesis using head_step.confirmed_behind [of b "abs_heads ds d" ep]
    by (simp add: abs_heads_def safe_pair_def engine_update_safe_head_def set_safe_def Let_def split: if_splits)
qed

text \<open>
  The two ways to end an operation on attributes: before the heads are touched, which is a
  failure, or after the safe head has moved, whatever the engine answers to the last call.
\<close>

lemma process_attributes_exit:
  assumes "process_attributes eng pa d = (r, d')"
  shows "same_heads d d' \<and> \<not> is_ok r \<or>
    (\<exists>b ep d1 d2. pa_epoch pa = Some ep \<and> same_heads d d1 \<and> d2 = engine_update_safe_head b ep True d1 \<and>
       same_heads d2 d')"
  using assms unfolding process_attributes_def
proof (cases rule: bind_action_exit)
  case (continues ep s1)
  then have s1: "s1 = d" "pa_epoch pa = Some ep" by (auto simp: action_simps outcome_simps)
  from continues(2) show ?thesis
  proof (cases rule: bind_action_exit)
    case built: (continues payload d0)
    have d0: "same_heads d d0" using built(1) s1 heads_kept by metis
    from built(2) show ?thesis unfolding Let_def
    proof (cases rule: bind_action_exit)
      case pushed: (continues u d1)
      have "same_heads d0 d1" using pushed(1) heads_kept by metis
      with d0 have "same_heads d d1" using preorder_same_heads unfolding preorder_rel_def by blast
      moreover have "same_heads (engine_update_safe_head (block_info_from_payload payload) ep True d1) d'"
        using pushed(2) by (auto simp: block_info_from_payload_def intro: heads_kept(1))
      ultimately show ?thesis using s1 by blast
    next
      case (stops r0)
      then show ?thesis using d0 heads_kept preorder_same_heads unfolding preorder_rel_def by metis
    qed
  next
    case (stops r0)
    then show ?thesis using s1 heads_kept by metis
  qed
next
  case (stops r0)
  then show ?thesis using preorder_same_heads by (auto simp: action_simps preorder_rel_def)
qed

lemma skip_attributes_exit:
  assumes "skip_attributes eng pa block d = (r, d')"
  shows "same_heads d d' \<and> \<not> is_ok r \<or>
    (\<exists>b ep. pa_epoch pa = Some ep \<and> block_info_try_from block = Ok b \<and>
       same_heads (engine_update_safe_head b ep False d) d')"
  using assms unfolding skip_attributes_def
proof (cases rule: bind_action_exit)
  case (continues ep s1)
  then have s1: "s1 = d" "pa_epoch pa = Some ep" by (auto simp: action_simps outcome_simps)
  from continues(2) show ?thesis
  proof (cases rule: bind_action_exit)
    case (continues b d0)
    then show ?thesis using s1 by (auto simp: action_simps intro: heads_kept(1))
  next
    case (stops r0)
    then show ?thesis using s1 preorder_same_heads by (auto simp: action_simps preorder_rel_def)
  qed
next
  case (stops r0)
  then show ?thesis using preorder_same_heads by (auto simp: action_simps preorder_rel_def)
qed


text \<open>
  Refinement of one operation on attributes, on every exit: a run of derivation events, which
  on success has put the new safe head among the derived blocks.
\<close>

definition derivation_run :: "payload_attributes \<Rightarrow> 'e engine_driver \<Rightarrow> 'e engine_driver \<Rightarrow> bool \<Rightarrow> bool" where
  "derivation_run pa d d' success \<longleftrightarrow>
     (\<forall>ds. \<exists>es ds'. head_steps es (abs_heads ds d) (abs_heads ds' d') \<and>
        list_all (\<lambda>e. e = UnsafeReset \<or> (\<exists>ep. pa_epoch pa = Some ep \<and> derivation_event ep e)) es \<and>
        set ds \<subseteq> set ds' \<and> (success \<longrightarrow> safe_pair d' \<in> set ds'))"

lemma derivation_run_same: "same_heads d d' \<Longrightarrow> derivation_run pa d d' False"
  unfolding derivation_run_def
  by (intro allI, rule_tac x="[]" in exI, rule_tac x=ds in exI) (simp add: abs_heads_same)

lemma derivation_run_refl [simp]: "derivation_run pa d d False"
  by (simp add: derivation_run_same)

lemma derivation_run_step:
  assumes "\<And>ds. head_step e (abs_heads ds d) (abs_heads (ds @ [safe_pair d']) d')"
    and "pa_epoch pa = Some ep" and "derivation_event ep e"
  shows "derivation_run pa d d' success"
  unfolding derivation_run_def
  using assms by (intro allI, rule_tac x="[e]" in exI, rule_tac x="ds @ [safe_pair d']" in exI) auto

lemma derivation_run_heads:
  assumes "derivation_run pa d d' success" and "same_heads d0 d" and "same_heads d' d1"
  shows "derivation_run pa d0 d1 success"
  using assms unfolding derivation_run_def by (simp add: abs_heads_same safe_pair_same)

lemma derivation_run_after_reset:
  assumes "derivation_run pa (d\<lparr>ed_unsafe_head := ed_safe_head d\<rparr>) d' success"
  shows "derivation_run pa d d' success"
  unfolding derivation_run_def
proof
  fix ds
  obtain es ds' where run:
    "head_steps es (abs_heads ds (d\<lparr>ed_unsafe_head := ed_safe_head d\<rparr>)) (abs_heads ds' d')"
    "list_all (\<lambda>e. e = UnsafeReset \<or> (\<exists>ep. pa_epoch pa = Some ep \<and> derivation_event ep e)) es"
    "set ds \<subseteq> set ds' \<and> (success \<longrightarrow> safe_pair d' \<in> set ds')"
    using assms unfolding derivation_run_def by blast
  have "head_step UnsafeReset (abs_heads ds d) (abs_heads ds (d\<lparr>ed_unsafe_head := ed_safe_head d\<rparr>))"
    using head_step.unsafe_reset [of "abs_heads ds d"] by (simp add: abs_heads_def)
  with run show "\<exists>es ds'. head_steps es (abs_heads ds d) (abs_heads ds' d') \<and>
      list_all (\<lambda>e. e = UnsafeReset \<or> (\<exists>ep. pa_epoch pa = Some ep \<and> derivation_event ep e)) es \<and>
      set ds \<subseteq> set ds' \<and> (success \<longrightarrow> safe_pair d' \<in> set ds')"
    by (intro exI [where x="UnsafeReset # es"] exI [where x=ds']) auto
qed

lemma process_attributes_run:
  assumes "process_attributes eng pa d = (r, d')"
  shows "derivation_run pa d d' (is_ok r)"
  using process_attributes_exit [OF assms]
proof (elim disjE exE conjE)
  assume "same_heads d d'" and "\<not> is_ok r"
  then show ?thesis using derivation_run_same by simp
next
  fix b ep d1 d2
  assume *: "pa_epoch pa = Some ep" "same_heads d d1" "d2 = engine_update_safe_head b ep True d1" "same_heads d2 d'"
  then have "derivation_run pa d1 d2 (is_ok r)"
    by (auto intro: derivation_run_step [OF update_safe_head_derived])
  with * show ?thesis using derivation_run_heads by blast
qed

lemma skip_attributes_run:
  assumes "skip_attributes eng pa block d = (r, d')"
  shows "derivation_run pa d d' (is_ok r)"
  using skip_attributes_exit [OF assms]
proof (elim disjE exE conjE)
  assume "same_heads d d'" and "\<not> is_ok r"
  then show ?thesis using derivation_run_same by simp
next
  fix b ep
  assume *: "pa_epoch pa = Some ep" "same_heads (engine_update_safe_head b ep False d) d'"
  then have "derivation_run pa d (engine_update_safe_head b ep False d) (is_ok r)"
    by (auto intro: derivation_run_step [OF update_safe_head_confirmed])
  with * show ?thesis using derivation_run_heads same_heads_refl by blast
qed

lemma handle_attributes_run:
  assumes "handle_attributes k eng get_block pa d = (r, d')"
  shows "derivation_run pa d d' (is_ok r)"
proof -
  show ?thesis
  proof (cases "block_at get_block (pa_timestamp pa) d")
    case (Ok found)
    show ?thesis
    proof (cases found)
      case None
      then have "process_attributes eng pa d = (r, d')"
        using assms Ok by (simp add: handle_attributes_def with_state_def)
      then show ?thesis by (rule process_attributes_run)
    next
      case (Some block)
      then show ?thesis
        using assms Ok
        by (cases "should_skip k block pa")
          (auto simp: handle_attributes_def with_state_def bind_action_def lift_outcome_def modify_def
             intro: skip_attributes_run derivation_run_after_reset process_attributes_run derivation_run_same
             split: if_splits)
    qed
  qed (use assms in \<open>auto simp: handle_attributes_def with_state_def bind_action_def lift_outcome_def
      intro: derivation_run_same\<close>)
qed


section \<open>What a success guarantees\<close>

text \<open>The engine has answered \<open>Valid\<close> to the heads the driver keeps, and that was its last call.\<close>

definition forkchoice_agreed :: "'e engine \<Rightarrow> 'e engine_driver \<Rightarrow> bool" where
  "forkchoice_agreed eng d \<longleftrightarrow>
     (\<exists>e update. eng_forkchoice_updated eng (create_forkchoice_state d) None e = (Ok update, ed_engine d) \<and>
        ps_status (fcu_payload_status update) = Valid)"

lemma update_forkchoice_Ok:
  assumes "update_forkchoice eng d = (Ok u, d')"
  shows "forkchoice_agreed eng d'"
proof -
  obtain update e where
    call: "eng_forkchoice_updated eng (create_forkchoice_state d) None (ed_engine d) = (Ok update, e)"
    and "d' = d\<lparr>ed_engine := e\<rparr>" and "ps_status (fcu_payload_status update) = Valid"
    using assms by (auto simp: update_forkchoice_def engine_call_def action_simps Let_def split: if_splits)
  moreover from this have "create_forkchoice_state d' = create_forkchoice_state d"
    by (simp add: create_forkchoice_state_def)
  ultimately show ?thesis unfolding forkchoice_agreed_def by auto
qed

lemma update_safe_head_ordered:
  "bi_number (ed_safe_head (engine_update_safe_head b ep reorg d))
     \<le> bi_number (ed_unsafe_head (engine_update_safe_head b ep reorg d))"
  by (auto simp: engine_update_safe_head_def Let_def)

lemma update_safe_head_finalized [simp]:
  "ed_finalized_head (engine_update_safe_head b ep reorg d) = ed_finalized_head d"
  "ed_finalized_epoch (engine_update_safe_head b ep reorg d) = ed_finalized_epoch d"
  by (simp_all add: engine_update_safe_head_def Let_def)

definition settled :: "'e engine \<Rightarrow> 'e engine_driver \<Rightarrow> 'e engine_driver \<Rightarrow> bool" where
  "settled eng d d' \<longleftrightarrow>
     forkchoice_agreed eng d' \<and> bi_number (ed_safe_head d') \<le> bi_number (ed_unsafe_head d') \<and>
     ed_finalized_head d' = ed_finalized_head d \<and> ed_finalized_epoch d' = ed_finalized_epoch d"

lemma settled_after_update:
  assumes "same_heads d d1" and "update_forkchoice eng (engine_update_safe_head b ep reorg d1) = (Ok u, d')"
  shows "settled eng d d'"
proof -
  have "same_heads (engine_update_safe_head b ep reorg d1) d'" using assms(2) by (rule heads_kept(1))
  then obtain e where "d' = (engine_update_safe_head b ep reorg d1)\<lparr>ed_engine := e\<rparr>"
    by (auto simp: same_heads_def)
  moreover obtain e' where "d1 = d\<lparr>ed_engine := e'\<rparr>" using assms(1) by (auto simp: same_heads_def)
  ultimately show ?thesis using update_forkchoice_Ok [OF assms(2)] update_safe_head_ordered [of b ep reorg d1]
    by (simp add: settled_def)
qed

lemma process_attributes_Ok:
  assumes "process_attributes eng pa d = (Ok u, d')"
  obtains payload ep d1 d2 where "build_payload eng pa d = (Ok payload, d1)" and "pa_epoch pa = Some ep"
    and "same_heads d d2"
    and "update_forkchoice eng (engine_update_safe_head (block_info_from_payload payload) ep True d2) = (Ok (), d')"
proof -
  obtain ep payload d1 d2 where *: "pa_epoch pa = Some ep" "build_payload eng pa d = (Ok payload, d1)"
    "push_payload eng payload d1 = (Ok (), d2)"
    "update_forkchoice eng (engine_update_safe_head (block_info_from_payload payload) ep True d2) = (Ok (), d')"
    using assms
    by (auto simp: process_attributes_def action_simps outcome_simps Let_def block_info_from_payload_def)
  moreover have "same_heads d d2"
    using * heads_kept preorder_same_heads unfolding preorder_rel_def by metis
  ultimately show thesis using that by blast
qed

lemma handle_attributes_Ok:
  assumes "handle_attributes k eng get_block pa d = (Ok u, d')"
  obtains (skipped) block b ep where "block_at get_block (pa_timestamp pa) d = Ok (Some block)"
      "should_skip k block pa = Ok True" "pa_epoch pa = Some ep" "block_info_try_from block = Ok b"
      "update_forkchoice eng (engine_update_safe_head b ep False d) = (Ok (), d')"
  | (rebuilt) block where "block_at get_block (pa_timestamp pa) d = Ok (Some block)"
      "should_skip k block pa = Ok False"
      "process_attributes eng pa (d\<lparr>ed_unsafe_head := ed_safe_head d\<rparr>) = (Ok (), d')"
  | (built) "block_at get_block (pa_timestamp pa) d = Ok None" "process_attributes eng pa d = (Ok (), d')"
proof (cases "block_at get_block (pa_timestamp pa) d")
  case (Ok found)
  show thesis
  proof (cases found)
    case None
    then show thesis using assms Ok built by (simp add: handle_attributes_def action_simps)
  next
    case (Some block)
    then obtain skip where "should_skip k block pa = Ok skip"
      using assms Ok by (auto simp: handle_attributes_def action_simps)
    then show thesis using assms Ok Some skipped rebuilt
      by (cases skip)
        (simp_all add: handle_attributes_def skip_attributes_def action_simps outcome_simps, blast)
  qed
qed (use assms in \<open>simp_all add: handle_attributes_def action_simps\<close>)

section \<open>Properties\<close>

text \<open>
  C12: when attributes have been handled, whether a block was built or an existing one was
  confirmed, the engine has accepted as \<open>Valid\<close> exactly the three heads the driver keeps, in its last call;
  the safe head is not numbered above the unsafe head; the finalized head has not moved.
\<close>

theorem handle_attributes_settles:
  assumes "handle_attributes k eng get_block pa d = (Ok u, d')"
  shows "forkchoice_agreed eng d' \<and> bi_number (ed_safe_head d') \<le> bi_number (ed_unsafe_head d') \<and>
    ed_finalized_head d' = ed_finalized_head d \<and> ed_finalized_epoch d' = ed_finalized_epoch d"
  using assms
proof (cases rule: handle_attributes_Ok)
  case (skipped block b ep)
  then have "settled eng d d'" by (intro settled_after_update) auto
  then show ?thesis by (simp add: settled_def)
next
  case (rebuilt block)
  from rebuilt(3) show ?thesis
  proof (cases rule: process_attributes_Ok)
    case (1 payload ep d1 d2)
    then have "settled eng (d\<lparr>ed_unsafe_head := ed_safe_head d\<rparr>) d'" by (intro settled_after_update)
    then show ?thesis by (simp add: settled_def)
  qed
next
  case built
  from built(2) show ?thesis
  proof (cases rule: process_attributes_Ok)
    case (1 payload ep d1 d2)
    then have "settled eng d d'" by (intro settled_after_update)
    then show ?thesis by (simp add: settled_def)
  qed
qed

text \<open>
  C23: a block that the execution client already has is kept in place of building one exactly
  when it is the block the attributes describe: the same transactions in the same order, the same time,
  randomness, fee recipient and gas limit. (Equal hashes stand for equal transactions where
  the hash function does not collide on them.)
\<close>

theorem should_skip_iff:
  assumes "pa_transactions pa = Some txs"
    and "inj_on keccak256 (raw_bytes ` set txs \<union> tx_raw ` set (blk_transactions block))"
  shows "should_skip keccak256 block pa = Ok True \<longleftrightarrow>
    map raw_bytes txs = map tx_raw (blk_transactions block) \<and>
    as_u64 (blk_timestamp block) = Ok (pa_timestamp pa) \<and> blk_mix_hash block = Some (pa_prev_randao pa) \<and>
    blk_author block = Some (pa_suggested_fee_recipient pa) \<and> as_u64 (blk_gas_limit block) = Ok (pa_gas_limit pa)"
proof -
  have "map (\<lambda>tx. keccak256 (raw_bytes tx)) txs = map (\<lambda>tx. keccak256 (tx_raw tx)) (blk_transactions block) \<longleftrightarrow>
      map keccak256 (map raw_bytes txs) = map keccak256 (map tx_raw (blk_transactions block))"
    by (simp add: comp_def)
  also have "\<dots> \<longleftrightarrow> map raw_bytes txs = map tx_raw (blk_transactions block)"
    by (rule inj_on_map_eq_map) (use assms(2) in simp)
  finally show ?thesis using assms(1)
    by (auto simp: should_skip_def and_lazy_def Let_def outcome_simps split: if_splits)
qed


text \<open>Signed division of values below \<open>2 ^ 63\<close> is unsigned division.\<close>

lemma sint_small:
  assumes "unat x < 2 ^ 63"
  shows "sint (x :: u64) = uint x"
proof -
  have "uint x < 2 ^ 63"
    using assms by (simp only: uint_nat of_nat_less_iff [symmetric, where 'a=int] of_nat_power of_nat_numeral)
  moreover have "- (2 ^ 63) \<le> uint x" by (rule order_trans [OF _ uint_ge_0]) simp
  ultimately have "signed_take_bit 63 (uint x) = uint x" by (intro signed_take_bit_int_eq_self)
  then show ?thesis by (simp add: sint_uint)
qed

lemma i64_div_small:
  assumes "unat a < 2 ^ 63" and "unat b < 2 ^ 63" and "b \<noteq> 0"
  shows "i64_div a b = Ok (a div b)"
proof -
  have "sint a = uint a" "sint b = uint b" using assms(1,2) by (simp_all only: sint_small)
  moreover have "uint a sdiv uint b = uint a div uint b"
  proof -
    have "x sdiv y = x div y" if "0 \<le> x" and "0 \<le> y" for x y :: int
      using that by (auto simp: signed_divide_int_def sgn_if)
    then show ?thesis by simp
  qed
  moreover have "uint b \<noteq> - 1" using uint_ge_0 [of b] by linarith
  ultimately show ?thesis using assms(3) by (simp add: i64_div_def word_div_def)
qed

text \<open>
  For attributes whose time is \<open>k\<close> block times after the finalized head, the client is asked
  for the block \<open>k\<close> numbers after the finalized head, through signed 64-bit arithmetic; a failure of
  the request is taken as the absence of the block.
\<close>

lemma block_at_number:
  assumes "unat (bi_timestamp (ed_finalized_head d)) + k * unat (ed_blocktime d) < 2 ^ 63"
    and "ed_blocktime d \<noteq> 0" and "unat (ed_blocktime d) < 2 ^ 63"
  shows "block_at get_block (bi_timestamp (ed_finalized_head d) + of_nat k * ed_blocktime d) d =
    (case get_block (ed_engine d) (BlockNumber (bi_number (ed_finalized_head d) + of_nat k)) of
       Ok block \<Rightarrow> Ok block | Err e \<Rightarrow> Ok None | Panic p \<Rightarrow> Panic p | Diverge \<Rightarrow> Diverge)"
proof -
  have small: "k * unat (ed_blocktime d) < 2 ^ 63" using assms(1) by simp
  have pos: "0 < unat (ed_blocktime d)" using assms(2) by (simp add: unat_gt_0)
  then have "k \<le> k * unat (ed_blocktime d)" by simp
  then have "k < 2 ^ 63" using small by (rule order.strict_trans1)
  then have "k < 2 ^ 64" by simp
  then have k: "unat (of_nat k :: u64) = k" by (simp add: unat_of_nat take_bit_nat_eq_self)
  have "unat (of_nat k * ed_blocktime d) = k * unat (ed_blocktime d)"
    using small k by (simp add: unat_word_ariths(2) mod_less)
  moreover from this have "(of_nat k * ed_blocktime d) div ed_blocktime d = of_nat k"
    using pos k by (simp add: word_eq_iff_unsigned [where 'a=nat] unat_div)
  ultimately show ?thesis
    using small assms(2,3) by (simp add: block_at_def i64_div_small)
qed

text \<open>An engine that builds on the head it is given, as the engine API documents.\<close>

definition builds_on_head :: "'e engine \<Rightarrow> bool" where
  "builds_on_head eng \<longleftrightarrow>
     (\<forall>forkchoice pa e update e1 id payload e2.
        eng_forkchoice_updated eng forkchoice (Some pa) e = (Ok update, e1) \<longrightarrow>
        fcu_payload_id update = Some id \<longrightarrow> eng_get_payload eng id e1 = (Ok payload, e2) \<longrightarrow>
        pl_parent_hash payload = fcs_head_block_hash forkchoice \<and> pl_timestamp payload = pa_timestamp pa)"

lemma build_payload_extends:
  assumes "builds_on_head eng" and "build_payload eng pa d = (Ok payload, d')"
  shows "pl_parent_hash payload = bi_hash (ed_unsafe_head d) \<and> pl_timestamp payload = pa_timestamp pa"
proof -
  obtain update e1 id e2 where
    "eng_forkchoice_updated eng (create_forkchoice_state d) (Some pa) (ed_engine d) = (Ok update, e1)"
    "fcu_payload_id update = Some id" "eng_get_payload eng id e1 = (Ok payload, e2)"
    using assms(2)
    by (auto simp: build_payload_def engine_call_def action_simps outcome_simps Let_def split: if_splits)
  then show ?thesis using assms(1) unfolding builds_on_head_def
    by (metis create_forkchoice_state_def forkchoice_state.select_convs(1))
qed

lemma process_attributes_extends:
  assumes "builds_on_head eng" and "process_attributes eng pa d = (Ok u, d')"
  shows "bi_parent_hash (ed_safe_head d') = bi_hash (ed_unsafe_head d) \<and>
    bi_timestamp (ed_safe_head d') = pa_timestamp pa"
  using assms(2)
proof (cases rule: process_attributes_Ok)
  case (1 payload ep d1 d2)
  from heads_kept(1) [OF 1(4)] have "ed_safe_head d' = block_info_from_payload payload"
    by (auto simp: same_heads_def)
  then show ?thesis using build_payload_extends [OF assms(1) 1(1)] by (simp add: block_info_from_payload_def)
qed

text \<open>
  What the new safe head extends, for an engine that builds on the head it is given, as the
  engine API documents. If the client has a block at that height, the new safe head is that block or a block
  built on the old safe head. If the request for it fails or finds nothing, the block is built on the
  unsafe head, also when that is ahead of the safe head.
\<close>

lemma safe_head_extends:
  assumes "builds_on_head eng" and "handle_attributes k eng get_block pa d = (Ok u, d')"
    and "block_at get_block (pa_timestamp pa) d = Ok found"
  shows "case found of
      Some block \<Rightarrow>
        (if should_skip k block pa = Ok True then block_info_try_from block = Ok (ed_safe_head d')
         else bi_parent_hash (ed_safe_head d') = bi_hash (ed_safe_head d) \<and>
              bi_timestamp (ed_safe_head d') = pa_timestamp pa)
    | None \<Rightarrow> bi_parent_hash (ed_safe_head d') = bi_hash (ed_unsafe_head d) \<and>
              bi_timestamp (ed_safe_head d') = pa_timestamp pa"
  using assms(2)
proof (cases rule: handle_attributes_Ok)
  case (skipped block b ep)
  from heads_kept(1) [OF skipped(5)] have "ed_safe_head d' = b" by (auto simp: same_heads_def)
  with skipped assms(3) show ?thesis by simp
next
  case (rebuilt block)
  with process_attributes_extends [OF assms(1) rebuilt(3)] assms(3) show ?thesis by auto
next
  case built
  with process_attributes_extends [OF assms(1) built(2)] assms(3) show ?thesis by auto
qed


section \<open>Concrete runs\<close>

text \<open>An engine that accepts everything and builds a payload from its last order.\<close>

definition builder :: "(forkchoice_state \<times> payload_attributes) option engine" where
  "builder =
     (let valid = \<lparr>ps_status = Valid, ps_latest_valid_hash = None, ps_validation_error = None\<rparr>
      in \<lparr>eng_forkchoice_updated = (\<lambda>forkchoice attributes e.
            case attributes of
              Some pa \<Rightarrow> (Ok \<lparr>fcu_payload_status = valid, fcu_payload_id = Some 1\<rparr>, Some (forkchoice, pa))
            | None \<Rightarrow> (Ok \<lparr>fcu_payload_status = valid, fcu_payload_id = None\<rparr>, e)),
          eng_new_payload = (\<lambda>_ e. (Ok valid, e)),
          eng_get_payload = (\<lambda>_ e.
            case e of
              None \<Rightarrow> (Err (External ''unknown payload''), e)
            | Some (forkchoice, pa) \<Rightarrow>
                (Ok \<lparr>pl_parent_hash = fcs_head_block_hash forkchoice, pl_fee_recipient = pa_suggested_fee_recipient pa,
                     pl_state_root = 0, pl_receipts_root = 0, pl_logs_bloom = [], pl_prev_randao = pa_prev_randao pa,
                     pl_block_number = 101, pl_gas_limit = pa_gas_limit pa, pl_gas_used = 0,
                     pl_timestamp = pa_timestamp pa, pl_extra_data = [], pl_base_fee_per_gas = 0,
                     pl_block_hash = fcs_head_block_hash forkchoice + 1,
                     pl_transactions = (case pa_transactions pa of Some txs \<Rightarrow> txs | None \<Rightarrow> []),
                     pl_withdrawals = None, pl_blob_gas_used = None, pl_excess_blob_gas = None\<rparr>, e))\<rparr>)"

lemma builder_builds_on_head: "builds_on_head builder"
  by (auto simp: builds_on_head_def builder_def Let_def split: prod.splits)

definition sample_driver :: "(forkchoice_state \<times> payload_attributes) option engine_driver" where
  "sample_driver =
     engine_driver_new None \<lparr>bi_hash = 100, bi_number = 100, bi_parent_hash = 99, bi_timestamp = 200\<rparr>
       \<lparr>ep_number = 40, ep_hash = 7, ep_timestamp = 190\<rparr> (sample_config optimism_sepolia)"

definition sample_order :: payload_attributes where
  "sample_order =
     \<lparr>pa_timestamp = 202, pa_prev_randao = 5, pa_suggested_fee_recipient = 6,
      pa_transactions = Some [RawTransaction [1]], pa_no_tx_pool = True, pa_gas_limit = 30000000,
      pa_withdrawals = None, pa_epoch = Some \<lparr>ep_number = 40, ep_hash = 7, ep_timestamp = 190\<rparr>,
      pa_l1_inclusion_block = Some 41, pa_seq_number = Some 1\<rparr>"

definition built_driver :: "(forkchoice_state \<times> payload_attributes) option engine_driver" where
  "built_driver = snd (handle_attributes (\<lambda>_. 0) builder (\<lambda>_ _. Ok None) sample_order sample_driver)"

lemma sample_blocktime [simp]: "ed_blocktime sample_driver = 2"
  by (simp add: sample_driver_def engine_driver_new_def sample_config_def optimism_sepolia_def)

lemma sample_finalized [simp]:
  "ed_finalized_head sample_driver = \<lparr>bi_hash = 100, bi_number = 100, bi_parent_hash = 99, bi_timestamp = 200\<rparr>"
  by (simp add: sample_driver_def engine_driver_new_def)

lemma sample_run:
  "handle_attributes (\<lambda>_. 0) builder (\<lambda>_ _. Ok None) sample_order sample_driver = (Ok (), built_driver)"
proof -
  have "block_at (\<lambda>_ _. Ok None) 202 sample_driver = Ok None"
    by (simp add: block_at_def i64_div_small)
  then have "fst (handle_attributes (\<lambda>_. 0) builder (\<lambda>_ _. Ok None) sample_order sample_driver) = Ok ()"
    by (simp add: handle_attributes_def with_state_def bind_action_def lift_outcome_def sample_order_def
        process_attributes_def build_payload_def push_payload_def update_forkchoice_def engine_call_def
        zoom_def modify_def builder_def Let_def)
  then show ?thesis by (metis built_driver_def prod.collapse)
qed


theorem handle_attributes_settles_witness:
  "forkchoice_agreed builder built_driver \<and>
   bi_number (ed_safe_head built_driver) \<le> bi_number (ed_unsafe_head built_driver) \<and>
   ed_finalized_head built_driver = ed_finalized_head sample_driver"
  using handle_attributes_settles [OF sample_run] by simp

definition matching_block :: eth_block where
  "matching_block = (sample_l2_block 202 [])
     \<lparr>blk_mix_hash := Some 5, blk_author := Some 6,
      blk_transactions := [\<lparr>tx_hash = 0, tx_from = 0, tx_to = None, tx_type = None, tx_input = [],
        tx_blob_hashes = [], tx_raw = [1]\<rparr>]\<rparr>"

theorem should_skip_iff_witness: "should_skip (\<lambda>bs. of_nat (length bs)) matching_block sample_order = Ok True"
proof -
  have "inj_on (\<lambda>bs. of_nat (length bs))
      (raw_bytes ` set [RawTransaction [1]] \<union> tx_raw ` set (blk_transactions matching_block))"
    by (simp add: matching_block_def)
  then show ?thesis
    using should_skip_iff [of sample_order "[RawTransaction [1]]" "\<lambda>bs. of_nat (length bs)" matching_block]
    by (simp add: sample_order_def matching_block_def sample_l2_block_def as_u64_def)
qed

lemma block_at_number_witness:
  "block_at (\<lambda>_ block. Ok (if block = BlockNumber 103 then Some matching_block else None)) 206 sample_driver =
     Ok (Some matching_block)"
  using block_at_number [of sample_driver 3 "\<lambda>_ block. Ok (if block = BlockNumber 103 then Some matching_block else None)"]
  by simp

lemma safe_head_extends_witness:
  "bi_parent_hash (ed_safe_head built_driver) = 100 \<and> bi_timestamp (ed_safe_head built_driver) = 202"
proof -
  have "block_at (\<lambda>_ _. Ok None) (pa_timestamp sample_order) sample_driver = Ok None"
    by (simp add: block_at_def i64_div_small sample_order_def)
  from safe_head_extends [OF builder_builds_on_head sample_run this] show ?thesis
    by (simp add: sample_order_def sample_driver_def engine_driver_new_def)
qed


end
