(* ===== verification/Driver.thy ===== *)
theory Driver
  imports Chain_Watcher Engine_Driver Pipeline
begin

text \<open>
  \<^verbatim>\<open>src/src/driver/mod.rs\<close>: the driver, which takes updates of L1 from the chain watcher, feeds the pipeline, hands
  the attributes it derives to the engine driver, applies blocks received by gossip and advances
  finality.

  The driver's channels are the lists of what has not been received; \<open>dr_unsafe_block_signer\<close> is the value last
  sent to the block handler, and \<open>dr_signer_received\<close> tells whether its receiving end is alive. The
  start of the network service is the parameter \<open>service_start\<close>. The loop that drains the pipeline takes
  fuel; running out of it is the outcome \<open>Diverge\<close>. Metrics are not modelled.

  Shown: whatever arrives in whatever order, the heads only move along the abstract machine of
  \<^verbatim>\<open>Engine_Driver\<close>; finality advances to blocks of finalized L1 blocks; a reorg
  takes everything back to the finalized head.
\<close>

type_synonym unfinalized = "block_info \<times> epoch \<times> u64 \<times> u64"

record 'e driver =
  dr_pipeline :: pipeline
  dr_engine_driver :: "'e engine_driver"
  dr_unfinalized_blocks :: "unfinalized list"
  dr_finalized_l1_block_number :: u64
  dr_future_unsafe_blocks :: "execution_payload list"
  dr_state :: derive_state
  dr_chain_watcher :: chain_watcher
  dr_shutdown_recv :: bool
  dr_unsafe_block_recv :: "execution_payload list"
  dr_unsafe_block_signer :: address
  dr_signer_received :: bool
  dr_network_service :: bool
  dr_channel_timeout :: u64

section \<open>Operations\<close>

definition get_l1_start_block :: "u64 \<Rightarrow> u64 \<Rightarrow> u64" where
  "get_l1_start_block epoch_number channel_timeout = saturating_sub epoch_number channel_timeout"

definition from_config ::
  "(bytes \<Rightarrow> h256) \<Rightarrow> (block_id \<Rightarrow> eth_block option outcome) \<Rightarrow> 'e \<Rightarrow> config \<Rightarrow> bool \<Rightarrow> 'e driver outcome" where
  "from_config keccak256 get_block_with_txs engine config shutdown =
     and_then (get_head_info keccak256 get_block_with_txs config) (\<lambda>head.
     let finalized_head = hi_l2_block_info head;
         finalized_epoch = hi_l1_epoch head;
         finalized_seq = hi_sequence_number head;
         l1_start_block = get_l1_start_block (ep_number finalized_epoch) (cc_channel_timeout (cfg_chain config));
         chain_watcher = chain_watcher_new l1_start_block (bi_number finalized_head) config
     in and_then (state_new keccak256 finalized_head finalized_epoch get_block_with_txs config) (\<lambda>state.
        Ok \<lparr>dr_pipeline = pipeline_new state config finalized_seq,
            dr_engine_driver = engine_driver_new engine finalized_head finalized_epoch config,
            dr_unfinalized_blocks = [], dr_finalized_l1_block_number = 0, dr_future_unsafe_blocks = [],
            dr_state = state, dr_chain_watcher = chain_watcher, dr_shutdown_recv = shutdown,
            dr_unsafe_block_recv = [],
            dr_unsafe_block_signer = sc_unsafe_block_signer (cc_system_config (cfg_chain config)),
            dr_signer_received = True, dr_network_service = True,
            dr_channel_timeout = cc_channel_timeout (cfg_chain config)\<rparr>))"

text \<open>Calls on the parts of the driver.\<close>

definition on_engine :: "('e engine_driver, 'a) action \<Rightarrow> ('e driver, 'a) action" where
  "on_engine = zoom dr_engine_driver (\<lambda>ed d. d\<lparr>dr_engine_driver := ed\<rparr>)"

definition on_watcher :: "(chain_watcher, 'a) action \<Rightarrow> ('e driver, 'a) action" where
  "on_watcher = zoom dr_chain_watcher (\<lambda>cw d. d\<lparr>dr_chain_watcher := cw\<rparr>)"

definition send_signer :: "address \<Rightarrow> ('e driver, unit) action" where
  "send_signer signer = with_state (\<lambda>d.
     if dr_signer_received d then modify (\<lambda>d. d\<lparr>dr_unsafe_block_signer := signer\<rparr>)
     else lift_outcome (Err (External ''channel closed'')))"

definition update_state :: "(derive_state \<Rightarrow> derive_state outcome) \<Rightarrow> ('e driver, unit) action" where
  "update_state f = with_state (\<lambda>d.
     bind_action (lift_outcome (f (dr_state d))) (\<lambda>s. modify (\<lambda>d. d\<lparr>dr_state := s\<rparr>)))"

definition handle_new_block :: "l1_info \<Rightarrow> ('e driver, unit) action" where
  "handle_new_block l1_info =
     (let num = l1b_number (l1i_block_info l1_info)
      in bind_action (send_signer (sc_unsafe_block_signer (l1i_system_config l1_info))) (\<lambda>_.
         bind_action (modify (\<lambda>d. d\<lparr>dr_pipeline :=
             push_batcher_transactions (dr_pipeline d) (l1i_batcher_transactions l1_info) num\<rparr>)) (\<lambda>_.
         update_state (\<lambda>s. update_l1_info s l1_info))))"

definition handle_reorg :: "'e driver \<Rightarrow> 'e driver" where
  "handle_reorg d =
     (let ed = dr_engine_driver d;
          l1_start_block = get_l1_start_block (ep_number (ed_finalized_epoch ed)) (dr_channel_timeout d);
          state = state_purge (dr_state d) (ed_finalized_head ed) (ed_finalized_epoch ed)
      in d\<lparr>dr_unfinalized_blocks := [],
           dr_chain_watcher := chain_watcher_restart l1_start_block (bi_number (ed_finalized_head ed)) (dr_chain_watcher d),
           dr_state := state,
           dr_pipeline := pipeline_purge state (dr_pipeline d),
           dr_engine_driver := engine_reorg ed\<rparr>)"

definition handle_next_block_update :: "('e driver, unit) action" where
  "handle_next_block_update =
     bind_action (attempt (on_watcher try_recv_from_channel)) (\<lambda>received.
     case received of
       None \<Rightarrow> return_action ()
     | Some (NewBlock l1_info) \<Rightarrow> handle_new_block l1_info
     | Some Reorg \<Rightarrow> modify handle_reorg
     | Some (FinalityUpdate num) \<Rightarrow> modify (\<lambda>d. d\<lparr>dr_finalized_l1_block_number := num\<rparr>))"

definition update_state_head :: "'e driver \<Rightarrow> 'e driver" where
  "update_state_head d =
     d\<lparr>dr_state := update_safe_head (dr_state d) (ed_safe_head (dr_engine_driver d)) (ed_safe_epoch (dr_engine_driver d))\<rparr>"

definition push_unfinalized_block :: "u64 \<Rightarrow> u64 \<Rightarrow> 'e driver \<Rightarrow> 'e driver" where
  "push_unfinalized_block l1_inclusion_block seq_number d =
     (let new_safe_head = ed_safe_head (dr_engine_driver d);
          new_safe_epoch = ed_safe_epoch (dr_engine_driver d)
      in d\<lparr>dr_state := update_safe_head (dr_state d) new_safe_head new_safe_epoch,
           dr_unfinalized_blocks := dr_unfinalized_blocks d @
             [(new_safe_head, new_safe_epoch, l1_inclusion_block, seq_number)]\<rparr>)"

fun name_error :: "string \<Rightarrow> 'a outcome \<Rightarrow> 'a outcome" where
  "name_error msg (Err e) = Err (Eyre msg)"
| "name_error msg r = r"

definition map_err :: "string \<Rightarrow> ('s, 'a) action \<Rightarrow> ('s, 'a) action" where
  "map_err msg m = (\<lambda>s. case m s of (r, s') \<Rightarrow> (name_error msg r, s'))"

definition take_attributes :: "externals \<Rightarrow> ('e driver, payload_attributes option) action" where
  "take_attributes ex = with_state (\<lambda>d.
     bind_action (lift_outcome (pipeline_next ex (dr_state d) (dr_pipeline d))) (\<lambda>(x, p).
     bind_action (modify (\<lambda>d. d\<lparr>dr_pipeline := p\<rparr>)) (\<lambda>_. return_action x)))"

definition apply_attributes ::
  "externals \<Rightarrow> 'e engine \<Rightarrow> ('e \<Rightarrow> block_id \<Rightarrow> eth_block option outcome) \<Rightarrow> payload_attributes \<Rightarrow>
   ('e driver, unit) action" where
  "apply_attributes ex eng get_block next_attributes =
     bind_action (lift_outcome (ok_or (pa_l1_inclusion_block next_attributes) ''attributes without inclusion block'')) (\<lambda>incl.
     bind_action (lift_outcome (ok_or (pa_seq_number next_attributes) ''attributes without seq number'')) (\<lambda>seq.
     bind_action (map_err ''failed to handle attributes''
       (on_engine (handle_attributes (ex_keccak256 ex) eng get_block next_attributes))) (\<lambda>_.
     modify (push_unfinalized_block incl seq))))"

fun derive_blocks ::
  "nat \<Rightarrow> externals \<Rightarrow> 'e engine \<Rightarrow> ('e \<Rightarrow> block_id \<Rightarrow> eth_block option outcome) \<Rightarrow> ('e driver, unit) action" where
  "derive_blocks 0 ex eng get_block = lift_outcome Diverge"
| "derive_blocks (Suc fuel) ex eng get_block =
     bind_action (take_attributes ex) (\<lambda>x.
     case x of
       None \<Rightarrow> return_action ()
     | Some next_attributes \<Rightarrow>
         bind_action (apply_attributes ex eng get_block next_attributes) (\<lambda>_.
         derive_blocks fuel ex eng get_block))"

definition advance_safe_head ::
  "nat \<Rightarrow> externals \<Rightarrow> 'e engine \<Rightarrow> ('e \<Rightarrow> block_id \<Rightarrow> eth_block option outcome) \<Rightarrow> ('e driver, unit) action" where
  "advance_safe_head fuel ex eng get_block =
     bind_action handle_next_block_update (\<lambda>_.
     bind_action (modify update_state_head) (\<lambda>_.
     derive_blocks fuel ex eng get_block))"

text \<open>A payload worth keeping: ahead of the unsafe head, by less than 1024 blocks.\<close>

definition is_future :: "block_info \<Rightarrow> execution_payload \<Rightarrow> bool" where
  "is_future unsafe_head payload \<longleftrightarrow>
     bi_number unsafe_head < pl_block_number payload \<and> pl_block_number payload - bi_number unsafe_head < 1024"

definition collect_unsafe_blocks :: "'e driver \<Rightarrow> 'e driver" where
  "collect_unsafe_blocks d =
     d\<lparr>dr_unsafe_block_recv := [],
       dr_future_unsafe_blocks :=
         [p \<leftarrow> dr_future_unsafe_blocks d @ dr_unsafe_block_recv d. is_future (ed_unsafe_head (dr_engine_driver d)) p]\<rparr>"

definition advance_unsafe_head :: "'e engine \<Rightarrow> ('e driver, unit) action" where
  "advance_unsafe_head eng =
     bind_action (modify collect_unsafe_blocks) (\<lambda>_. with_state (\<lambda>d.
     case List.find (\<lambda>p. pl_parent_hash p = bi_hash (ed_unsafe_head (dr_engine_driver d))) (dr_future_unsafe_blocks d) of
       None \<Rightarrow> return_action ()
     | Some payload \<Rightarrow>
         bind_action (attempt (on_engine (handle_unsafe_payload eng payload))) (\<lambda>_. return_action ())))"

definition update_finalized :: "'e driver \<Rightarrow> 'e driver" where
  "update_finalized d =
     (let candidates = [(h, e, inclusion, seq) \<leftarrow> dr_unfinalized_blocks d.
            inclusion \<le> dr_finalized_l1_block_number d \<and> seq = 0];
          d1 = (if candidates = [] then d
                else case last candidates of
                       (head, epoch, _, _) \<Rightarrow>
                         d\<lparr>dr_engine_driver := engine_update_finalized head epoch (dr_engine_driver d)\<rparr>)
      in d1\<lparr>dr_unfinalized_blocks :=
             [(h, e, inclusion, seq) \<leftarrow> dr_unfinalized_blocks d1. dr_finalized_l1_block_number d1 < inclusion]\<rparr>)"

definition synced :: "'e driver \<Rightarrow> bool" where
  "synced d \<longleftrightarrow> dr_unfinalized_blocks d \<noteq> []"

definition try_start_networking :: "unit outcome \<Rightarrow> ('e driver, unit) action" where
  "try_start_networking service_start = with_state (\<lambda>d.
     if synced d \<and> dr_network_service d then
       bind_action (modify (\<lambda>d. d\<lparr>dr_network_service := False\<rparr>)) (\<lambda>_. lift_outcome service_start)
     else return_action ())"

definition advance ::
  "nat \<Rightarrow> externals \<Rightarrow> 'e engine \<Rightarrow> ('e \<Rightarrow> block_id \<Rightarrow> eth_block option outcome) \<Rightarrow> unit outcome \<Rightarrow>
   ('e driver, unit) action" where
  "advance fuel ex eng get_block service_start =
     bind_action (advance_safe_head fuel ex eng get_block) (\<lambda>_.
     bind_action (advance_unsafe_head eng) (\<lambda>_.
     bind_action (modify update_finalized) (\<lambda>_.
     try_start_networking service_start)))"

definition driver_start :: "'e driver \<Rightarrow> 'e driver" where
  "driver_start d = d\<lparr>dr_chain_watcher := chain_watcher_start (dr_chain_watcher d)\<rparr>"

section \<open>The driver refines the machine of the heads\<close>

text \<open>
  Simulation: the unfinalized blocks of the driver are among the blocks derived since the last reorg in the
  abstract machine, and every exit of an operation is matched by a run of the machine.
\<close>

definition covers :: "(block_info \<times> epoch) list \<Rightarrow> 'e driver \<Rightarrow> bool" where
  "covers ds d \<longleftrightarrow> list_all (\<lambda>(head, epoch, _, _). (head, epoch) \<in> set ds) (dr_unfinalized_blocks d)"

definition simulated :: "'e driver \<Rightarrow> 'e driver \<Rightarrow> bool" where
  "simulated d d' \<longleftrightarrow>
     (\<forall>ds. covers ds d \<longrightarrow>
        (\<exists>es ds'. head_steps es (abs_heads ds (dr_engine_driver d)) (abs_heads ds' (dr_engine_driver d')) \<and>
           covers ds' d'))"

lemma preorder_simulated [simp]: "preorder_rel simulated"
  unfolding preorder_rel_def
proof (intro conjI allI impI)
  fix s :: "'a driver"
  show "simulated s s" unfolding simulated_def using head_steps.none by blast
next
  fix s t u :: "'a driver"
  assume "simulated s t" and "simulated t u"
  then show "simulated s u" unfolding simulated_def by (meson head_steps_append)
qed

lemma simulated_same:
  assumes "dr_engine_driver d' = dr_engine_driver d" and "set (dr_unfinalized_blocks d') \<subseteq> set (dr_unfinalized_blocks d)"
  shows "simulated d d'"
proof -
  have "covers ds d'" if "covers ds d" for ds using that assms(2) by (auto simp: covers_def list_all_iff)
  then show ?thesis unfolding simulated_def assms(1) using head_steps.none by blast
qed

lemma simulated_step:
  assumes "\<And>ds. covers ds d \<Longrightarrow>
    head_step e (abs_heads ds (dr_engine_driver d)) (abs_heads (f ds) (dr_engine_driver d')) \<and> covers (f ds) d'"
  shows "simulated d d'"
  unfolding simulated_def using assms by (meson head_steps.none head_steps.some)

lemma covers_mono: "covers ds d \<Longrightarrow> set ds \<subseteq> set ds' \<Longrightarrow> covers ds' d"
  by (auto simp: covers_def list_all_iff)

lemma simulated_derivation:
  assumes "derivation_run pa (dr_engine_driver d) ed success"
  shows "simulated d (d\<lparr>dr_engine_driver := ed\<rparr>)"
  unfolding simulated_def
proof (intro allI impI)
  fix ds assume cov: "covers ds d"
  obtain es ds' where "head_steps es (abs_heads ds (dr_engine_driver d)) (abs_heads ds' ed)" "set ds \<subseteq> set ds'"
    using assms unfolding derivation_run_def by blast
  moreover have "covers ds' (d\<lparr>dr_engine_driver := ed\<rparr>)"
    using covers_mono [OF cov \<open>set ds \<subseteq> set ds'\<close>] by (simp add: covers_def)
  ultimately show "\<exists>es ds'. head_steps es (abs_heads ds (dr_engine_driver d))
      (abs_heads ds' (dr_engine_driver (d\<lparr>dr_engine_driver := ed\<rparr>))) \<and> covers ds' (d\<lparr>dr_engine_driver := ed\<rparr>)"
    by auto
qed

text \<open>After a success the new safe head is a derived block, so that it may be listed as unfinalized.\<close>

lemma simulated_derived_block:
  assumes "derivation_run pa (dr_engine_driver d) ed True"
  shows "simulated d (push_unfinalized_block incl seq (d\<lparr>dr_engine_driver := ed\<rparr>))"
  unfolding simulated_def
proof (intro allI impI)
  fix ds assume cov: "covers ds d"
  obtain es ds' where "head_steps es (abs_heads ds (dr_engine_driver d)) (abs_heads ds' ed)"
    and ds': "set ds \<subseteq> set ds'" "safe_pair ed \<in> set ds'"
    using assms unfolding derivation_run_def by blast
  moreover have "covers ds' (push_unfinalized_block incl seq (d\<lparr>dr_engine_driver := ed\<rparr>))"
    using covers_mono [OF cov ds'(1)] ds'(2)
    by (simp add: covers_def push_unfinalized_block_def safe_pair_def Let_def)
  ultimately show "\<exists>es ds'. head_steps es (abs_heads ds (dr_engine_driver d))
      (abs_heads ds' (dr_engine_driver (push_unfinalized_block incl seq (d\<lparr>dr_engine_driver := ed\<rparr>)))) \<and>
      covers ds' (push_unfinalized_block incl seq (d\<lparr>dr_engine_driver := ed\<rparr>))"
    by (auto simp: push_unfinalized_block_def Let_def)
qed

lemma apply_attributes_simulated: "keeps simulated (apply_attributes ex eng get_block pa)"
  unfolding keeps_def
proof
  fix d :: "'a driver"
  obtain r d' where run: "apply_attributes ex eng get_block pa d = (r, d')" by fastforce
  obtain q ed where h: "handle_attributes (ex_keccak256 ex) eng get_block pa (dr_engine_driver d) = (q, ed)" by fastforce
  note derived = handle_attributes_run [OF h]
  have "d' = d \<or> d' = d\<lparr>dr_engine_driver := ed\<rparr> \<or>
      is_ok q \<and> (\<exists>incl seq. d' = push_unfinalized_block incl seq (d\<lparr>dr_engine_driver := ed\<rparr>))"
    using run h by (cases "pa_l1_inclusion_block pa"; cases "pa_seq_number pa"; cases q)
      (auto simp: apply_attributes_def bind_action_def lift_outcome_def map_err_def on_engine_def zoom_def modify_def)
  then show "simulated d (snd (apply_attributes ex eng get_block pa d))"
    using derived run simulated_derivation simulated_derived_block preorder_simulated
    by (auto simp: preorder_rel_def)
qed


lemma on_watcher_simulated [keeps_intros]: "keeps simulated (on_watcher m)"
  by (auto simp: keeps_def on_watcher_def zoom_def intro!: simulated_same split: prod.splits)

lemma handle_new_block_simulated: "keeps simulated (handle_new_block info)"
  by (auto simp: handle_new_block_def Let_def send_signer_def update_state_def intro!: keeps_intros simulated_same)

lemma handle_reorg_simulated: "simulated d (handle_reorg d)"
proof (rule simulated_step [where e=Reorged and f="\<lambda>_. []"])
  show "head_step Reorged (abs_heads ds (dr_engine_driver d)) (abs_heads [] (dr_engine_driver (handle_reorg d))) \<and>
      covers [] (handle_reorg d)" for ds
    using head_step.reorged [of "abs_heads ds (dr_engine_driver d)"]
    by (simp add: handle_reorg_def Let_def abs_heads_def engine_reorg_def covers_def)
qed

lemma handle_next_block_update_simulated: "keeps simulated handle_next_block_update"
  unfolding handle_next_block_update_def
  by (auto intro!: keeps_intros handle_new_block_simulated handle_reorg_simulated simulated_same
      split: option.splits block_update.splits)

lemma take_attributes_simulated [keeps_intros]: "keeps simulated (take_attributes ex)"
  by (auto simp: take_attributes_def intro!: keeps_intros simulated_same split: prod.splits)

lemma derive_blocks_simulated: "keeps simulated (derive_blocks fuel ex eng get_block)"
  by (induction fuel) (auto intro!: keeps_intros apply_attributes_simulated split: option.splits)

lemma advance_safe_head_simulated: "keeps simulated (advance_safe_head fuel ex eng get_block)"
  unfolding advance_safe_head_def
  by (auto simp: update_state_head_def
      intro!: keeps_intros handle_next_block_update_simulated derive_blocks_simulated simulated_same)

text \<open>A payload received by gossip is applied only if it is numbered above the unsafe head.\<close>

lemma handle_unsafe_payload_exit:
  assumes "handle_unsafe_payload eng payload ed = (r, ed')"
  shows "same_heads ed ed' \<or> (\<exists>ed1. same_heads ed ed1 \<and>
    same_heads (ed1\<lparr>ed_unsafe_head := block_info_from_payload payload\<rparr>) ed')"
  using assms unfolding handle_unsafe_payload_def
proof (cases rule: bind_action_exit)
  case (continues u ed1)
  then show ?thesis using heads_kept(2) [OF continues(1)] heads_kept(1) by fastforce
next
  case (stops r0)
  then show ?thesis using heads_kept(2) by blast
qed

lemma gossip_simulated:
  assumes "bi_number (ed_unsafe_head (dr_engine_driver d)) < pl_block_number payload"
    and "handle_unsafe_payload eng payload (dr_engine_driver d) = (r, ed)"
  shows "simulated d (d\<lparr>dr_engine_driver := ed\<rparr>)"
  using handle_unsafe_payload_exit [OF assms(2)]
proof (elim disjE exE conjE)
  assume "same_heads (dr_engine_driver d) ed"
  then show ?thesis
    unfolding simulated_def by (auto simp: abs_heads_same covers_def intro: head_steps.none)
next
  fix ed1
  assume *: "same_heads (dr_engine_driver d) ed1" "same_heads (ed1\<lparr>ed_unsafe_head := block_info_from_payload payload\<rparr>) ed"
  show ?thesis
  proof (rule simulated_step [where e="Gossiped (block_info_from_payload payload)" and f="\<lambda>ds. ds"])
    fix ds assume "covers ds d"
    moreover have "head_step (Gossiped (block_info_from_payload payload)) (abs_heads ds (dr_engine_driver d))
        ((abs_heads ds (dr_engine_driver d))\<lparr>ah_unsafe := block_info_from_payload payload\<rparr>)"
      using assms(1) by (intro head_step.gossiped) (simp add: abs_heads_def block_info_from_payload_def)
    moreover have "abs_heads ds ed = (abs_heads ds (dr_engine_driver d))\<lparr>ah_unsafe := block_info_from_payload payload\<rparr>"
      using * by (auto simp: same_heads_def abs_heads_def)
    ultimately show "head_step (Gossiped (block_info_from_payload payload)) (abs_heads ds (dr_engine_driver d))
        (abs_heads ds (dr_engine_driver (d\<lparr>dr_engine_driver := ed\<rparr>))) \<and> covers ds (d\<lparr>dr_engine_driver := ed\<rparr>)"
      by (simp add: covers_def)
  qed
qed

lemma advance_unsafe_head_simulated: "keeps simulated (advance_unsafe_head eng)"
  unfolding keeps_def
proof
  fix d :: "'a driver"
  let ?d = "collect_unsafe_blocks d"
  let ?found = "List.find (\<lambda>p. pl_parent_hash p = bi_hash (ed_unsafe_head (dr_engine_driver ?d))) (dr_future_unsafe_blocks ?d)"
  have collected: "simulated d ?d" by (rule simulated_same) (simp_all add: collect_unsafe_blocks_def)
  have "simulated ?d (snd (advance_unsafe_head eng d))"
  proof (cases ?found)
    case None
    then have "snd (advance_unsafe_head eng d) = ?d"
      by (simp add: advance_unsafe_head_def with_state_def lift_outcome_def)
    then show ?thesis by (simp add: simulated_same)
  next
    case (Some payload)
    obtain r ed where h: "handle_unsafe_payload eng payload (dr_engine_driver ?d) = (r, ed)" by fastforce
    have "payload \<in> set (dr_future_unsafe_blocks ?d)" using Some by (auto simp: find_Some_iff)
    then have "bi_number (ed_unsafe_head (dr_engine_driver ?d)) < pl_block_number payload"
      by (auto simp: collect_unsafe_blocks_def is_future_def)
    then have "simulated ?d (?d\<lparr>dr_engine_driver := ed\<rparr>)" using h by (rule gossip_simulated)
    moreover have "snd (advance_unsafe_head eng d) = ?d\<lparr>dr_engine_driver := ed\<rparr>"
      using Some h by (cases r) (simp_all add: advance_unsafe_head_def with_state_def bind_action_def lift_outcome_def
          attempt_def on_engine_def zoom_def modify_def)
    ultimately show ?thesis by simp
  qed
  with collected show "simulated d (snd (advance_unsafe_head eng d))"
    using preorder_simulated unfolding preorder_rel_def by blast
qed


lemma update_finalized_simulated: "simulated d (update_finalized d)"
proof (cases "[(h, e, inclusion, seq) \<leftarrow> dr_unfinalized_blocks d. inclusion \<le> dr_finalized_l1_block_number d \<and> seq = 0] = []")
  case True
  then have "dr_engine_driver (update_finalized d) = dr_engine_driver d"
    "set (dr_unfinalized_blocks (update_finalized d)) \<subseteq> set (dr_unfinalized_blocks d)"
    by (auto simp: update_finalized_def Let_def)
  then show ?thesis by (rule simulated_same)
next
  case False
  then obtain head epoch inclusion seq where last:
    "last [(h, e, inclusion, seq) \<leftarrow> dr_unfinalized_blocks d. inclusion \<le> dr_finalized_l1_block_number d \<and> seq = 0] =
       (head, epoch, inclusion, seq)" by (metis prod_cases4)
  then have entry: "(head, epoch, inclusion, seq) \<in> set (dr_unfinalized_blocks d)"
    using last_in_set [OF False] by auto
  have upd: "dr_engine_driver (update_finalized d) = engine_update_finalized head epoch (dr_engine_driver d)"
    "set (dr_unfinalized_blocks (update_finalized d)) \<subseteq> set (dr_unfinalized_blocks d)"
    using False last by (auto simp: update_finalized_def Let_def)
  show ?thesis
  proof (rule simulated_step [where e="Finalized head epoch" and f="\<lambda>ds. ds"])
    fix ds assume "covers ds d"
    then have "(head, epoch) \<in> set ds" "covers ds (update_finalized d)"
      using entry upd(2) by (auto simp: covers_def list_all_iff)
    then show "head_step (Finalized head epoch) (abs_heads ds (dr_engine_driver d))
        (abs_heads ds (dr_engine_driver (update_finalized d))) \<and> covers ds (update_finalized d)"
      using head_step.finalized [of head epoch "abs_heads ds (dr_engine_driver d)"] upd(1)
      by (simp add: abs_heads_def engine_update_finalized_def)
  qed
qed

lemma try_start_networking_simulated: "keeps simulated (try_start_networking service_start)"
  by (auto simp: try_start_networking_def intro!: keeps_intros simulated_same)

lemma advance_simulated: "keeps simulated (advance fuel ex eng get_block service_start)"
  unfolding advance_def
  by (auto intro!: keeps_intros advance_safe_head_simulated advance_unsafe_head_simulated update_finalized_simulated
      try_start_networking_simulated)

section \<open>Runs of the driver\<close>

text \<open>
  A run interleaves the driver's own steps with what reaches its channels from the tasks
  around it: updates of the chain watcher, payloads of the block handler, the signal to shut down. The
  answers of the execution client and the fuel of a step may differ from step to step. A step that fails ends
  the process.
\<close>

inductive driver_step :: "externals \<Rightarrow> 'e engine \<Rightarrow> 'e driver \<Rightarrow> 'e driver \<Rightarrow> bool" for ex eng where
  started: "driver_step ex eng d (driver_start d)"
| advanced: "\<not> dr_shutdown_recv d \<Longrightarrow> advance fuel ex eng get_block service_start d = (Ok (), d') \<Longrightarrow>
    driver_step ex eng d d'"
| l1_update: "cw_block_update_receiver (dr_chain_watcher d) = Some updates \<Longrightarrow>
    driver_step ex eng d
      (d\<lparr>dr_chain_watcher := (dr_chain_watcher d)\<lparr>cw_block_update_receiver := Some (updates @ [update])\<rparr>\<rparr>)"
| gossip: "driver_step ex eng d (d\<lparr>dr_unsafe_block_recv := dr_unsafe_block_recv d @ [payload]\<rparr>)"
| shutdown: "driver_step ex eng d (d\<lparr>dr_shutdown_recv := True\<rparr>)"

inductive_cases driver_step_cases: "driver_step ex eng d d'"

lemma driver_step_simulated: "driver_step ex eng d d' \<Longrightarrow> simulated d d'"
proof (erule driver_step_cases)
  fix fuel get_block service_start
  assume "advance fuel ex eng get_block service_start d = (Ok (), d')"
  then show "simulated d d'" by (rule keepsD [OF advance_simulated])
qed (auto simp: driver_start_def intro!: simulated_same)

lemma driver_run_simulated: "(driver_step ex eng)\<^sup>*\<^sup>* d d' \<Longrightarrow> simulated d d'"
proof (induction rule: rtranclp_induct)
  case (step t u)
  then have "simulated t u" by (intro driver_step_simulated)
  with step.IH show ?case using preorder_simulated unfolding preorder_rel_def by blast
qed (simp add: simulated_same)

lemma from_config_engine:
  "from_config k get_block e config shutdown = Ok d \<Longrightarrow>
     dr_unfinalized_blocks d = [] \<and> ed_unsafe_head (dr_engine_driver d) = ed_finalized_head (dr_engine_driver d) \<and>
     ed_safe_head (dr_engine_driver d) = ed_finalized_head (dr_engine_driver d)"
  by (auto simp: from_config_def Let_def outcome_simps engine_driver_new_def)

text \<open>
  C2: refinement. In every run of the driver from its start, in whatever order updates of L1,
  reorgs, news of finality and gossiped payloads arrive and whatever the engine answers, the
  heads move along the abstract machine: derivation, confirmation, gossip above the unsafe head, finality of blocks
  derived since the last reorg, and reorgs back to the finalized head. So the safe
  head is never numbered above the unsafe head.
\<close>

theorem driver_refines_heads:
  assumes "from_config k get_block e config shutdown = Ok d" and "(driver_step ex eng)\<^sup>*\<^sup>* d d'"
  shows "\<exists>es ds. head_steps es (abs_heads [] (dr_engine_driver d)) (abs_heads ds (dr_engine_driver d')) \<and>
    covers ds d' \<and>
    bi_number (ed_safe_head (dr_engine_driver d')) \<le> bi_number (ed_unsafe_head (dr_engine_driver d'))"
proof -
  have "covers [] d" using from_config_engine [OF assms(1)] by (simp add: covers_def)
  then obtain es ds where run: "head_steps es (abs_heads [] (dr_engine_driver d)) (abs_heads ds (dr_engine_driver d'))"
    and "covers ds d'"
    using driver_run_simulated [OF assms(2)] unfolding simulated_def by blast
  moreover have "heads_ordered (abs_heads [] (dr_engine_driver d))"
    using from_config_engine [OF assms(1)] by (simp add: heads_ordered_def abs_heads_def)
  then have "heads_ordered (abs_heads ds (dr_engine_driver d'))" by (rule head_steps_ordered [OF run])
  ultimately show ?thesis by (auto simp: heads_ordered_def abs_heads_def)
qed


section \<open>Finality\<close>

abbreviation inclusion_of :: "unfinalized \<Rightarrow> u64" where "inclusion_of u \<equiv> fst (snd (snd u))"
abbreviation seq_of :: "unfinalized \<Rightarrow> u64" where "seq_of u \<equiv> snd (snd (snd u))"

lemma update_finalized_eq:
  "update_finalized d =
     (let fin = [u \<leftarrow> dr_unfinalized_blocks d. inclusion_of u \<le> dr_finalized_l1_block_number d \<and> seq_of u = 0]
      in (if fin = [] then d
          else d\<lparr>dr_engine_driver := engine_update_finalized (fst (last fin)) (fst (snd (last fin))) (dr_engine_driver d)\<rparr>)
         \<lparr>dr_unfinalized_blocks := [u \<leftarrow> dr_unfinalized_blocks d. dr_finalized_l1_block_number d < inclusion_of u]\<rparr>)"
  by (simp add: update_finalized_def Let_def case_prod_unfold)

lemma filter_above_sorted:
  "sorted_wrt (\<le>) (map inclusion_of us) \<Longrightarrow>
     us = [u \<leftarrow> us. inclusion_of u \<le> n] @ [u \<leftarrow> us. n < inclusion_of u]"
proof (induction us)
  case (Cons u us)
  show ?case
  proof (cases "inclusion_of u \<le> n")
    case True
    with Cons show ?thesis by (simp add: leD)
  next
    case False
    then have "\<forall>x \<in> set us. n < inclusion_of x"
      using Cons.prems by (auto simp: not_le intro: order.strict_trans2)
    then have "[u \<leftarrow> us. inclusion_of u \<le> n] = []" "[u \<leftarrow> us. n < inclusion_of u] = us"
      by (auto simp: filter_empty_conv filter_id_conv leD)
    with False show ?thesis by (simp add: not_le)
  qed
qed simp

text \<open>
  C15: finality consumes the oldest derived blocks. When blocks are derived in the order of the L1
  blocks they are included in, an update of finality splits the unfinalized blocks: those
  included in a finalized L1 block leave the list, the others stay, and the finalized head becomes
  the last one of the former that starts an epoch, or stays if there is none.
\<close>

theorem finality_consumes_prefix:
  assumes "sorted_wrt (\<le>) (map inclusion_of (dr_unfinalized_blocks d))"
  shows "\<exists>old. dr_unfinalized_blocks d = old @ dr_unfinalized_blocks (update_finalized d) \<and>
    list_all (\<lambda>u. inclusion_of u \<le> dr_finalized_l1_block_number d) old \<and>
    list_all (\<lambda>u. dr_finalized_l1_block_number d < inclusion_of u) (dr_unfinalized_blocks (update_finalized d)) \<and>
    (ed_finalized_head (dr_engine_driver (update_finalized d)), ed_finalized_epoch (dr_engine_driver (update_finalized d))) =
      (if [u \<leftarrow> old. seq_of u = 0] = []
       then (ed_finalized_head (dr_engine_driver d), ed_finalized_epoch (dr_engine_driver d))
       else (fst (last [u \<leftarrow> old. seq_of u = 0]), fst (snd (last [u \<leftarrow> old. seq_of u = 0]))))"
proof -
  let ?n = "dr_finalized_l1_block_number d" and ?us = "dr_unfinalized_blocks d"
  have split: "?us = [u \<leftarrow> ?us. inclusion_of u \<le> ?n] @ [u \<leftarrow> ?us. ?n < inclusion_of u]"
    using assms by (rule filter_above_sorted)
  have "[u \<leftarrow> [u \<leftarrow> ?us. inclusion_of u \<le> ?n]. seq_of u = 0] = [u \<leftarrow> ?us. inclusion_of u \<le> ?n \<and> seq_of u = 0]"
    by (simp add: conj_commute)
  then show ?thesis
    using split by (intro exI [where x="[u \<leftarrow> ?us. inclusion_of u \<le> ?n]"])
      (auto simp: update_finalized_eq Let_def engine_update_finalized_def list_all_iff)
qed

section \<open>Reorgs\<close>

text \<open>The driver never peeks into its pipeline, so no attributes are ever fetched ahead.\<close>

definition nothing_ahead :: "'e driver \<Rightarrow> bool" where
  "nothing_ahead d \<longleftrightarrow> pp_pending_attributes (dr_pipeline d) = None"

lemma pipeline_next_pending:
  "pp_pending_attributes p = None \<Longrightarrow> pipeline_next ex s p = Ok (x, p') \<Longrightarrow> pp_pending_attributes p' = None"
  by (auto simp: pipeline_next_def outcome_simps split: prod.splits)

lemma reorg_step:
  assumes "cw_block_update_receiver (dr_chain_watcher d) = Some (Reorg # updates)" and "nothing_ahead d"
  shows "\<exists>d'. advance_safe_head (Suc fuel) ex eng get_block d = (Ok (), d') \<and>
    dr_engine_driver d' = engine_reorg (dr_engine_driver d) \<and> dr_unfinalized_blocks d' = [] \<and>
    st_safe_head (dr_state d') = ed_finalized_head (dr_engine_driver d) \<and>
    st_safe_epoch (dr_state d') = ed_finalized_epoch (dr_engine_driver d) \<and>
    l1_info_by_number (dr_state d') n = None \<and>
    pp_pending_attributes (dr_pipeline d') = None \<and>
    stages_fresh (ep_hash (ed_finalized_epoch (dr_engine_driver d))) (pp_attributes (dr_pipeline d')) \<and>
    cw_block_update_receiver (dr_chain_watcher d') = Some [] \<and>
    cw_l1_start_block (dr_chain_watcher d') =
      saturating_sub (ep_number (ed_finalized_epoch (dr_engine_driver d))) (dr_channel_timeout d)"
proof -
  define d1 where "d1 = handle_reorg
    (d\<lparr>dr_chain_watcher := (dr_chain_watcher d)\<lparr>cw_block_update_receiver := Some updates\<rparr>\<rparr>)"
  define d2 where "d2 = update_state_head d1"
  let ?purged = "state_purge (dr_state d) (ed_finalized_head (dr_engine_driver d)) (ed_finalized_epoch (dr_engine_driver d))"
  have received: "handle_next_block_update d = (Ok (), d1)"
    using assms(1)
    by (simp add: handle_next_block_update_def attempt_def on_watcher_def zoom_def try_recv_from_channel_def
        with_state_def bind_action_def lift_outcome_def modify_def d1_def)
  have "epoch_by_number (dr_state d2) k = None" for k
    by (simp add: epoch_by_number_def l1_info_by_number_def d2_def update_state_head_def d1_def handle_reorg_def
        Let_def state_purge_def update_safe_head_def)
  moreover have "pp_attributes (dr_pipeline d2) = stages_purge ?purged (pp_attributes (dr_pipeline d))"
    by (simp add: d2_def update_state_head_def d1_def handle_reorg_def Let_def pipeline_purge_def)
  moreover have "ep_hash (st_safe_epoch ?purged) = ep_hash (ed_finalized_epoch (dr_engine_driver d))"
    by (simp add: state_purge_def update_safe_head_def Let_def)
  ultimately obtain at' where "stages_next ex (dr_state d2) (pp_attributes (dr_pipeline d2)) = Ok (None, at')"
    and fresh: "stages_fresh (ep_hash (ed_finalized_epoch (dr_engine_driver d))) at'"
    using stages_purged_quiet [of "dr_state d2" ex ?purged "pp_attributes (dr_pipeline d)"] by auto
  moreover have none: "pp_pending_attributes (dr_pipeline d2) = None"
    using assms(2) by (simp add: nothing_ahead_def d2_def update_state_head_def d1_def handle_reorg_def Let_def
        pipeline_purge_def)
  ultimately have "take_attributes ex d2 = (Ok None, d2\<lparr>dr_pipeline := (dr_pipeline d2)\<lparr>pp_attributes := at'\<rparr>\<rparr>)"
    by (simp add: take_attributes_def pipeline_next_def with_state_def bind_action_def lift_outcome_def modify_def)
  then have "advance_safe_head (Suc fuel) ex eng get_block d =
      (Ok (), d2\<lparr>dr_pipeline := (dr_pipeline d2)\<lparr>pp_attributes := at'\<rparr>\<rparr>)"
    by (simp add: advance_safe_head_def bind_action_def received modify_def lift_outcome_def d2_def [symmetric])
  then show ?thesis using fresh none
    by (simp add: d2_def update_state_head_def d1_def handle_reorg_def Let_def engine_reorg_def state_purge_def
        update_safe_head_def l1_info_by_number_def chain_watcher_restart_def get_l1_start_block_def)
qed

lemma nothing_ahead_simps [simp]:
  "nothing_ahead (d\<lparr>dr_state := a\<rparr>) = nothing_ahead d"
  "nothing_ahead (d\<lparr>dr_unfinalized_blocks := b\<rparr>) = nothing_ahead d"
  "nothing_ahead (d\<lparr>dr_unsafe_block_signer := c\<rparr>) = nothing_ahead d"
  "nothing_ahead (d\<lparr>dr_chain_watcher := cw\<rparr>) = nothing_ahead d"
  "nothing_ahead (d\<lparr>dr_engine_driver := ed\<rparr>) = nothing_ahead d"
  "nothing_ahead (d\<lparr>dr_finalized_l1_block_number := num\<rparr>) = nothing_ahead d"
  "nothing_ahead (d\<lparr>dr_future_unsafe_blocks := ps\<rparr>) = nothing_ahead d"
  "nothing_ahead (d\<lparr>dr_unsafe_block_recv := ps\<rparr>) = nothing_ahead d"
  "nothing_ahead (d\<lparr>dr_network_service := on\<rparr>) = nothing_ahead d"
  "nothing_ahead (d\<lparr>dr_shutdown_recv := on\<rparr>) = nothing_ahead d"
  "nothing_ahead (d\<lparr>dr_pipeline := (dr_pipeline d)\<lparr>pp_attributes := at\<rparr>\<rparr>) = nothing_ahead d"
  by (simp_all add: nothing_ahead_def)

lemma handle_reorg_ahead [simp]: "nothing_ahead (handle_reorg d) = nothing_ahead d"
  by (simp add: nothing_ahead_def handle_reorg_def Let_def pipeline_purge_def)

lemma take_attributes_ahead: "keeps (\<lambda>d d'. nothing_ahead d \<longrightarrow> nothing_ahead d') (take_attributes ex)"
proof -
  have "nothing_ahead (snd (take_attributes ex d))" if "nothing_ahead d" for d :: "'a driver"
    using that pipeline_next_pending [of "dr_pipeline d" ex "dr_state d"]
    by (cases "pipeline_next ex (dr_state d) (dr_pipeline d)")
      (auto simp: take_attributes_def nothing_ahead_def with_state_def bind_action_def lift_outcome_def modify_def)
  then show ?thesis by (simp add: keeps_def)
qed

lemma preorder_ahead [simp]: "preorder_rel (\<lambda>d d'. nothing_ahead d \<longrightarrow> nothing_ahead d')"
  by (simp add: preorder_rel_def)

lemma keeps_ahead_zoom [keeps_intros]:
  "keeps (\<lambda>d d'. nothing_ahead d \<longrightarrow> nothing_ahead d') (on_engine m)"
  "keeps (\<lambda>d d'. nothing_ahead d \<longrightarrow> nothing_ahead d') (on_watcher n)"
  by (auto simp: keeps_def on_engine_def on_watcher_def zoom_def nothing_ahead_def split: prod.splits)

lemma keeps_map_err [keeps_intros]: "keeps R m \<Longrightarrow> keeps R (map_err msg m)"
  by (auto simp: keeps_def map_err_def split: prod.splits) (metis snd_conv)

lemma derive_blocks_ahead:
  "keeps (\<lambda>d d'. nothing_ahead d \<longrightarrow> nothing_ahead d') (derive_blocks fuel ex eng get_block)"
proof (induction fuel)
  case (Suc fuel)
  have "keeps (\<lambda>d d'. nothing_ahead d \<longrightarrow> nothing_ahead d') (apply_attributes ex eng get_block pa)" for pa
    by (auto simp: apply_attributes_def push_unfinalized_block_def Let_def intro!: keeps_intros)
  with Suc show ?case by (auto intro!: keeps_intros take_attributes_ahead split: option.splits)
qed (auto intro!: keeps_intros)

lemma handle_next_block_update_ahead:
  "keeps (\<lambda>d d'. nothing_ahead d \<longrightarrow> nothing_ahead d') handle_next_block_update"
  unfolding handle_next_block_update_def handle_new_block_def send_signer_def update_state_def Let_def
  by (auto simp: push_batcher_transactions_def Let_def
      intro!: keeps_intros split: option.splits block_update.splits)

lemma advance_ahead: "keeps (\<lambda>d d'. nothing_ahead d \<longrightarrow> nothing_ahead d') (advance fuel ex eng get_block service_start)"
  unfolding advance_def advance_safe_head_def advance_unsafe_head_def try_start_networking_def
  by (auto simp: update_state_head_def collect_unsafe_blocks_def update_finalized_eq Let_def
      intro!: keeps_intros handle_next_block_update_ahead derive_blocks_ahead split: option.splits)

lemma driver_run_ahead: "(driver_step ex eng)\<^sup>*\<^sup>* d d' \<Longrightarrow> nothing_ahead d \<Longrightarrow> nothing_ahead d'"
proof (induction rule: rtranclp_induct)
  case (step t u)
  from step.hyps(2) show ?case
  proof cases
    case (advanced fuel get_block service_start)
    then show ?thesis using step keepsD [OF advance_ahead advanced(2)] by blast
  qed (use step in \<open>auto simp: driver_start_def\<close>)
qed

lemma from_config_ahead: "from_config k get_block e config shutdown = Ok d \<Longrightarrow> nothing_ahead d"
  by (auto simp: from_config_def Let_def outcome_simps nothing_ahead_def pipeline_new_def)


text \<open>
  C8: a reorg takes the driver back to its finalized head. When, in any
  run of the driver, the next update is a reorg, the
  step derives nothing; all heads and the derivation state are at the finalized
  head, no unfinalized block is left, the stages of the pipeline hold nothing, no attributes are waiting in it, its sequence number
  is zero in the finalized epoch, and the chain watcher has been restarted, with an empty channel, one
  channel timeout before the finalized epoch.
\<close>

theorem reorg_restarts_derivation:
  assumes "from_config k get_block e config shutdown = Ok d0" and "(driver_step ex eng)\<^sup>*\<^sup>* d0 d"
    and "cw_block_update_receiver (dr_chain_watcher d) = Some (Reorg # updates)"
  shows "\<exists>d'. advance_safe_head (Suc fuel) ex eng get_block' d = (Ok (), d') \<and>
    dr_engine_driver d' = engine_reorg (dr_engine_driver d) \<and> dr_unfinalized_blocks d' = [] \<and>
    st_safe_head (dr_state d') = ed_finalized_head (dr_engine_driver d) \<and>
    st_safe_epoch (dr_state d') = ed_finalized_epoch (dr_engine_driver d) \<and>
    l1_info_by_number (dr_state d') n = None \<and>
    pp_pending_attributes (dr_pipeline d') = None \<and>
    stages_fresh (ep_hash (ed_finalized_epoch (dr_engine_driver d))) (pp_attributes (dr_pipeline d')) \<and>
    cw_block_update_receiver (dr_chain_watcher d') = Some [] \<and>
    cw_l1_start_block (dr_chain_watcher d') =
      saturating_sub (ep_number (ed_finalized_epoch (dr_engine_driver d))) (dr_channel_timeout d)"
  using assms(3) driver_run_ahead [OF assms(2) from_config_ahead [OF assms(1)]] by (rule reorg_step)

section \<open>Concrete runs\<close>

lemma insert_l2_refs_unreachable: "insert_l2_refs k (\<lambda>_. Err e) config nums refs = Ok refs"
  by (induction nums arbitrary: refs) simp_all

definition fresh_driver :: "(forkchoice_state \<times> payload_attributes) option driver" where
  "fresh_driver = (case from_config (\<lambda>_. 0) (\<lambda>_. Err (External ''offline'')) None (sample_config optimism_sepolia) False of
     Ok d \<Rightarrow> d)"

lemma fresh_driver_run:
  "from_config (\<lambda>_. 0) (\<lambda>_. Err (External ''offline'')) None (sample_config optimism_sepolia) False = Ok fresh_driver"
proof -
  have "\<exists>d. from_config (\<lambda>_. 0) (\<lambda>_. Err (External ''offline'')) (None :: (forkchoice_state \<times> payload_attributes) option)
      (sample_config optimism_sepolia) False = Ok d"
    by (simp add: from_config_def get_head_info_def Let_def state_new_def l2_refs_def insert_l2_refs_unreachable
        checked_div_def sample_config_def optimism_sepolia_def)
  then show ?thesis by (auto simp: fresh_driver_def)
qed

definition reorged_driver :: "(forkchoice_state \<times> payload_attributes) option driver" where
  "reorged_driver = (driver_start fresh_driver)
     \<lparr>dr_chain_watcher := (dr_chain_watcher (driver_start fresh_driver))\<lparr>cw_block_update_receiver := Some ([] @ [Reorg])\<rparr>\<rparr>"

lemma reorged_driver_run: "(driver_step sample_externals builder)\<^sup>*\<^sup>* fresh_driver reorged_driver"
proof -
  have "driver_step sample_externals builder fresh_driver (driver_start fresh_driver)"
    by (rule driver_step.started)
  moreover have "driver_step sample_externals builder (driver_start fresh_driver) reorged_driver"
    unfolding reorged_driver_def
    by (rule driver_step.l1_update) (simp add: driver_start_def chain_watcher_start_def)
  ultimately show ?thesis by simp
qed

theorem driver_refines_heads_witness:
  "bi_number (ed_safe_head (dr_engine_driver reorged_driver)) \<le> bi_number (ed_unsafe_head (dr_engine_driver reorged_driver))"
  using driver_refines_heads [OF fresh_driver_run reorged_driver_run] by blast

theorem reorg_restarts_derivation_witness:
  "\<exists>d'. advance_safe_head (Suc 0) sample_externals builder (\<lambda>_ _. Ok None) reorged_driver = (Ok (), d') \<and>
     dr_unfinalized_blocks d' = [] \<and> cw_block_update_receiver (dr_chain_watcher d') = Some []"
proof -
  have "cw_block_update_receiver (dr_chain_watcher reorged_driver) = Some (Reorg # [])"
    by (simp add: reorged_driver_def)
  from reorg_restarts_derivation [OF fresh_driver_run reorged_driver_run this] show ?thesis by blast
qed

definition finalizing_driver :: "(forkchoice_state \<times> payload_attributes) option driver" where
  "finalizing_driver =
     (let b = (\<lambda>n. \<lparr>bi_hash = of_nat n, bi_number = of_nat n, bi_parent_hash = 0, bi_timestamp = 0\<rparr>);
          ep = \<lparr>ep_number = 3, ep_hash = 0, ep_timestamp = 0\<rparr>
      in fresh_driver\<lparr>dr_finalized_l1_block_number := 6,
           dr_unfinalized_blocks := [(b 1, ep, 5, 0), (b 2, ep, 6, 1), (b 3, ep, 9, 0)]\<rparr>)"

theorem finality_consumes_prefix_witness:
  "\<exists>old. dr_unfinalized_blocks finalizing_driver = old @ dr_unfinalized_blocks (update_finalized finalizing_driver) \<and>
     list_all (\<lambda>u. inclusion_of u \<le> 6) old"
proof -
  have "sorted_wrt (\<le>) (map inclusion_of (dr_unfinalized_blocks finalizing_driver))"
    by (simp add: finalizing_driver_def Let_def)
  from finality_consumes_prefix [OF this] show ?thesis
    by (auto simp: finalizing_driver_def Let_def)
qed

section \<open>Further facts of the driver's steps\<close>

text \<open>More fuel does not change the outcome of a loop that has ended.\<close>

lemma derive_blocks_more_fuel:
  "derive_blocks fuel ex eng get_block d = (r, d') \<Longrightarrow> r \<noteq> Diverge \<Longrightarrow>
     derive_blocks (fuel + extra) ex eng get_block d = (r, d')"
proof (induction fuel arbitrary: d)
  case (Suc fuel)
  obtain x d1 where t: "take_attributes ex d = (x, d1)" by fastforce
  show ?case
  proof (cases x)
    case (Ok y)
    show ?thesis
    proof (cases y)
      case (Some pa)
      obtain z d2 where "apply_attributes ex eng get_block pa d1 = (z, d2)" by fastforce
      then show ?thesis using Suc t Ok Some by (cases z) (auto simp: bind_action_def)
    qed (use Suc.prems t Ok in \<open>simp add: bind_action_def\<close>)
  qed (use Suc.prems t in \<open>simp_all add: bind_action_def\<close>)
qed (simp add: lift_outcome_def)

text \<open>
  A gossiped payload that the engine takes but then refuses as the head of the chain becomes the driver's unsafe head
  all the same: the error of the last call is dropped after the head has been set.
\<close>

theorem refused_payload_becomes_head:
  assumes "eng_new_payload eng payload (ed_engine (dr_engine_driver d)) = (Ok status, e1)" and "ps_status status = Valid"
    and "\<And>forkchoice. \<exists>e2. eng_forkchoice_updated eng forkchoice None e1 = (Ok refusal, e2)"
    and "ps_status (fcu_payload_status refusal) = Invalid"
    and "List.find (\<lambda>p. pl_parent_hash p = bi_hash (ed_unsafe_head (dr_engine_driver d)))
      (dr_future_unsafe_blocks (collect_unsafe_blocks d)) = Some payload"
  shows "\<exists>d'. advance_unsafe_head eng d = (Ok (), d') \<and>
    ed_unsafe_head (dr_engine_driver d') = block_info_from_payload payload"
proof -
  let ?ed = "(dr_engine_driver d)\<lparr>ed_engine := e1, ed_unsafe_head := block_info_from_payload payload\<rparr>"
  obtain e2 where refused: "eng_forkchoice_updated eng (create_forkchoice_state ?ed) None e1 = (Ok refusal, e2)"
    using assms(3) by blast
  have "handle_unsafe_payload eng payload (dr_engine_driver d) =
      (Err (Eyre ''could not accept new forkchoice''), ?ed\<lparr>ed_engine := e2\<rparr>)"
    using assms(1,2,4) refused
    by (simp add: handle_unsafe_payload_def push_payload_def update_forkchoice_def engine_call_def zoom_def bind_action_def
        lift_outcome_def modify_def with_state_def Let_def)
  moreover have "dr_engine_driver (collect_unsafe_blocks d) = dr_engine_driver d"
    by (simp add: collect_unsafe_blocks_def)
  ultimately show ?thesis using assms(5)
    by (simp add: advance_unsafe_head_def with_state_def bind_action_def lift_outcome_def attempt_def on_engine_def
        zoom_def modify_def)
qed


end
