(* ===== verification/Safe_Chain.thy ===== *)
theory Safe_Chain
  imports Derivation Driver
begin

text \<open>
  Driver and execution client together: derived attributes become the safe chain.

  The execution client is not part of this program. \<open>executes\<close> states what the engine API documents of a client that has the
  blocks \<open>known\<close> and executes on a block the attributes that are \<open>fit\<close> for it, to the block \<open>exec\<close>: it builds on the head it is given, takes the
  payload it has built, and has no blocks beyond those it knows. Which attributes are fit is the client's affair, except that
  their time is after that of the block, as the engine API requires; nothing is assumed of others.

  Shown: the body of the loop of \<^verbatim>\<open>Driver::advance_safe_head\<close> makes the client build one block for each of a list of attributes, in
  order, each on the one before, and records them. Whether the pipeline yields such attributes is another matter, see the
  theory L1_Safe_Chain.
\<close>

section \<open>The execution client\<close>

definition executes ::
  "'e engine \<Rightarrow> ('e \<Rightarrow> block_id \<Rightarrow> eth_block option outcome) \<Rightarrow> (block_info \<Rightarrow> payload_attributes \<Rightarrow> execution_payload) \<Rightarrow>
   (block_info \<Rightarrow> payload_attributes \<Rightarrow> bool) \<Rightarrow> ('e \<Rightarrow> h256 \<rightharpoonup> block_info) \<Rightarrow> bool" where
  "executes eng get_block exec fit known \<longleftrightarrow>
     (\<forall>h pa. fit h pa \<longrightarrow> bi_timestamp h < pa_timestamp pa) \<and>
     (\<forall>h pa. pl_parent_hash (exec h pa) = bi_hash h \<and> pl_block_number (exec h pa) = bi_number h + 1 \<and>
        pl_timestamp (exec h pa) = pa_timestamp pa) \<and>
     (\<forall>e fcs pa h. known e (fcs_head_block_hash fcs) = Some h \<and> fit h pa \<longrightarrow>
        (\<exists>update id e1 e2. eng_forkchoice_updated eng fcs (Some pa) e = (Ok update, e1) \<and>
           ps_status (fcu_payload_status update) = Valid \<and> fcu_payload_id update = Some id \<and>
           eng_get_payload eng id e1 = (Ok (exec h pa), e2) \<and> known e2 = known e)) \<and>
     (\<forall>e h pa. known e (bi_hash h) = Some h \<and> fit h pa \<longrightarrow>
        (\<exists>status e1. eng_new_payload eng (exec h pa) e = (Ok status, e1) \<and> ps_status status = Valid \<and>
           known e1 = (known e)(pl_block_hash (exec h pa) \<mapsto> block_info_from_payload (exec h pa)))) \<and>
     (\<forall>e fcs. known e (fcs_head_block_hash fcs) \<noteq> None \<longrightarrow>
        (\<exists>update e1. eng_forkchoice_updated eng fcs None e = (Ok update, e1) \<and>
           ps_status (fcu_payload_status update) = Valid \<and> known e1 = known e)) \<and>
     (\<forall>e n. (\<forall>b \<in> ran (known e). bi_number b < n) \<longrightarrow> get_block e (BlockNumber n) = Ok None)"

text \<open>The block that attributes become on a head.\<close>

definition executed :: "(block_info \<Rightarrow> payload_attributes \<Rightarrow> execution_payload) \<Rightarrow> block_info \<Rightarrow> payload_attributes \<Rightarrow> block_info" where
  "executed exec h pa = block_info_from_payload (exec h pa)"

lemma executed_hash [simp]: "bi_hash (executed exec h pa) = pl_block_hash (exec h pa)"
  by (simp add: executed_def block_info_from_payload_def)

lemma executed_simps:
  assumes "executes eng get_block exec fit known"
  shows "bi_number (executed exec h pa) = bi_number h + 1" "bi_timestamp (executed exec h pa) = pa_timestamp pa"
    "bi_parent_hash (executed exec h pa) = bi_hash h"
  using assms by (simp_all add: executes_def executed_def block_info_from_payload_def)

lemma process_attributes_executes:
  assumes "executes eng get_block exec fit known" "known (ed_engine d) (bi_hash (ed_unsafe_head d)) = Some (ed_unsafe_head d)"
    and "pa_epoch pa = Some epoch" "executed exec (ed_unsafe_head d) pa \<noteq> ed_safe_head d" "fit (ed_unsafe_head d) pa"
  shows "\<exists>e. process_attributes eng pa d = (Ok (), d\<lparr>ed_engine := e, ed_safe_head := executed exec (ed_unsafe_head d) pa,
        ed_safe_epoch := epoch, ed_unsafe_head := executed exec (ed_unsafe_head d) pa\<rparr>) \<and>
      known e = (known (ed_engine d))(bi_hash (executed exec (ed_unsafe_head d) pa) \<mapsto> executed exec (ed_unsafe_head d) pa)"
proof -
  let ?h = "ed_unsafe_head d" and ?p = "exec (ed_unsafe_head d) pa" and ?new = "executed exec (ed_unsafe_head d) pa"
  obtain update id e1 e2 where build: "eng_forkchoice_updated eng (create_forkchoice_state d) (Some pa) (ed_engine d) = (Ok update, e1)"
    "ps_status (fcu_payload_status update) = Valid" "fcu_payload_id update = Some id"
    "eng_get_payload eng id e1 = (Ok ?p, e2)" "known e2 = known (ed_engine d)"
    using assms(1,2,5) unfolding executes_def by (metis (no_types, lifting) create_forkchoice_state_def forkchoice_state.select_convs(1))
  obtain status e3 where push: "eng_new_payload eng ?p e2 = (Ok status, e3)" "ps_status status = Valid"
    "known e3 = (known (ed_engine d))(pl_block_hash ?p \<mapsto> ?new)"
    using assms(1,2,5) build(5) unfolding executes_def executed_def by metis
  let ?d3 = "engine_update_safe_head ?new epoch True (d\<lparr>ed_engine := e3\<rparr>)"
  have d3: "?d3 = d\<lparr>ed_engine := e3, ed_safe_head := ?new, ed_safe_epoch := epoch, ed_unsafe_head := ?new\<rparr>"
    using assms(4) by (simp add: engine_update_safe_head_def Let_def)
  have "known e3 (fcs_head_block_hash (create_forkchoice_state ?d3)) \<noteq> None"
    unfolding d3 using push(3) by (simp add: create_forkchoice_state_def)
  then obtain update' e4 where last: "eng_forkchoice_updated eng (create_forkchoice_state ?d3) None e3 = (Ok update', e4)"
    "ps_status (fcu_payload_status update') = Valid" "known e4 = known e3"
    using assms(1) unfolding executes_def by metis
  have "process_attributes eng pa d = (Ok (), ?d3\<lparr>ed_engine := e4\<rparr>)"
    using build push last d3 assms(3)
    by (simp add: process_attributes_def build_payload_def push_payload_def update_forkchoice_def engine_call_def zoom_def
        with_state_def bind_action_def lift_outcome_def modify_def Let_def executed_def block_info_from_payload_def)
  moreover have "known e4 = (known (ed_engine d))(bi_hash ?new \<mapsto> ?new)"
    using last(3) push(3) by simp
  ultimately show ?thesis unfolding d3 by (intro exI [of _ e4]) simp
qed

section \<open>One block\<close>

text \<open>
  The driver is level with the client: its safe head is also the unsafe head and the newest block of the client. \<open>room n d\<close>: the safe head
  is a whole number of block times after the finalized head, and \<open>n\<close> more blocks stay within the signed arithmetic on
  times and the width of numbers.
\<close>

definition level :: "('e \<Rightarrow> h256 \<rightharpoonup> block_info) \<Rightarrow> 'e driver \<Rightarrow> bool" where
  "level known d \<longleftrightarrow>
     (let ed = dr_engine_driver d; head = ed_safe_head ed
      in ed_unsafe_head ed = head \<and> st_safe_head (dr_state d) = head \<and> known (ed_engine ed) (bi_hash head) = Some head \<and>
         (\<forall>b \<in> ran (known (ed_engine ed)). bi_number b \<le> bi_number head))"

definition room :: "nat \<Rightarrow> 'e engine_driver \<Rightarrow> bool" where
  "room n ed \<longleftrightarrow> ed_blocktime ed \<noteq> 0 \<and>
     (\<exists>k. bi_number (ed_safe_head ed) = bi_number (ed_finalized_head ed) + of_nat k \<and>
        bi_timestamp (ed_safe_head ed) = bi_timestamp (ed_finalized_head ed) + of_nat k * ed_blocktime ed \<and>
        unat (bi_timestamp (ed_finalized_head ed)) + (k + n) * unat (ed_blocktime ed) < 2 ^ 63 \<and>
        unat (bi_number (ed_finalized_head ed)) + k + n < 2 ^ 64)"

lemma room_next_number:
  assumes "room (Suc n) ed"
  shows "bi_number (ed_safe_head ed) < bi_number (ed_safe_head ed) + 1"
proof -
  obtain k where k: "bi_number (ed_safe_head ed) = bi_number (ed_finalized_head ed) + of_nat k"
    "unat (bi_number (ed_finalized_head ed)) + k + Suc n < 2 ^ 64"
    using assms by (auto simp: room_def)
  then have "unat (bi_number (ed_safe_head ed)) = unat (bi_number (ed_finalized_head ed)) + k"
    by (simp add: unat_word_ariths(1) unat_of_nat take_bit_nat_eq_self)
  then have "unat (bi_number (ed_safe_head ed)) < unat (bi_number (ed_safe_head ed) + 1)"
    using k(2) by (simp add: unat_word_ariths(1))
  then show ?thesis by (simp add: word_less_nat_alt)
qed

lemma room_block_at:
  assumes "room (Suc n) ed" and "get_block (ed_engine ed) (BlockNumber (bi_number (ed_safe_head ed) + 1)) = Ok None"
  shows "block_at get_block (bi_timestamp (ed_safe_head ed) + ed_blocktime ed) ed = Ok None"
proof -
  obtain k where k: "bi_number (ed_safe_head ed) = bi_number (ed_finalized_head ed) + of_nat k"
    "bi_timestamp (ed_safe_head ed) = bi_timestamp (ed_finalized_head ed) + of_nat k * ed_blocktime ed"
    "unat (bi_timestamp (ed_finalized_head ed)) + (k + Suc n) * unat (ed_blocktime ed) < 2 ^ 63" and bt: "ed_blocktime ed \<noteq> 0"
    using assms(1) by (auto simp: room_def)
  have "Suc k * unat (ed_blocktime ed) \<le> (k + Suc n) * unat (ed_blocktime ed)" by (rule mult_le_mono1) simp
  then have small: "unat (bi_timestamp (ed_finalized_head ed)) + Suc k * unat (ed_blocktime ed) < 2 ^ 63" using k(3) by linarith
  then have "unat (ed_blocktime ed) < 2 ^ 63" by simp
  from block_at_number [OF small bt this, of get_block] show ?thesis
    using assms(2) k(1,2) by (simp add: algebra_simps)
qed

lemma room_mono: "room (Suc n) ed \<Longrightarrow> head = executed exec (ed_safe_head ed) pa \<Longrightarrow>
    bi_number head = bi_number (ed_safe_head ed) + 1 \<Longrightarrow> bi_timestamp head = bi_timestamp (ed_safe_head ed) + ed_blocktime ed \<Longrightarrow>
    room n (ed\<lparr>ed_engine := e, ed_safe_head := head, ed_safe_epoch := epoch, ed_unsafe_head := head\<rparr>)"
  unfolding room_def
  by (elim conjE exE, rule conjI, simp, rule_tac x="Suc k" in exI) (simp add: algebra_simps)

text \<open>The driver after a block has been built from attributes.\<close>

definition built ::
  "(block_info \<Rightarrow> payload_attributes \<Rightarrow> execution_payload) \<Rightarrow> payload_attributes \<Rightarrow> epoch \<Rightarrow> u64 \<Rightarrow> u64 \<Rightarrow> 'e \<Rightarrow> 'e driver \<Rightarrow> 'e driver" where
  "built exec pa epoch incl seq e d =
     (let ed = dr_engine_driver d; head = executed exec (ed_safe_head ed) pa
      in d\<lparr>dr_engine_driver := ed\<lparr>ed_engine := e, ed_safe_head := head, ed_safe_epoch := epoch, ed_unsafe_head := head\<rparr>,
           dr_state := update_safe_head (dr_state d) head epoch,
           dr_unfinalized_blocks := dr_unfinalized_blocks d @ [(head, epoch, incl, seq)]\<rparr>)"

lemma apply_attributes_builds:
  assumes ex: "executes eng get_block exec fit known" and "level known d" "room (Suc n) (dr_engine_driver d)"
    and pa: "pa_timestamp pa = bi_timestamp (ed_safe_head (dr_engine_driver d)) + ed_blocktime (dr_engine_driver d)"
      "pa_epoch pa = Some epoch" "pa_l1_inclusion_block pa = Some incl" "pa_seq_number pa = Some seq"
    and fit: "fit (ed_safe_head (dr_engine_driver d)) pa"
  shows "\<exists>e. apply_attributes exs eng get_block pa d = (Ok (), built exec pa epoch incl seq e d) \<and>
    level known (built exec pa epoch incl seq e d) \<and> room n (dr_engine_driver (built exec pa epoch incl seq e d))"
proof -
  let ?ed = "dr_engine_driver d"
  let ?h = "ed_safe_head ?ed" and ?new = "executed exec (ed_safe_head ?ed) pa"
  note new = executed_simps [OF ex, of ?h pa]
  have lvl: "ed_unsafe_head ?ed = ?h" "known (ed_engine ?ed) (bi_hash ?h) = Some ?h"
    "\<forall>b \<in> ran (known (ed_engine ?ed)). bi_number b \<le> bi_number ?h"
    using assms(2) by (simp_all add: level_def Let_def)
  have up: "bi_number ?h < bi_number ?h + 1" by (rule room_next_number [OF assms(3)])
  then have "\<forall>b \<in> ran (known (ed_engine ?ed)). bi_number b < bi_number ?h + 1" using lvl(3) by (meson order.strict_trans1)
  then have "get_block (ed_engine ?ed) (BlockNumber (bi_number ?h + 1)) = Ok None" using ex unfolding executes_def by metis
  then have none: "block_at get_block (pa_timestamp pa) ?ed = Ok None" unfolding pa(1) by (rule room_block_at [OF assms(3)])
  have "?new \<noteq> ?h" using new(1) up by (metis order.irrefl)
  then obtain e where e: "process_attributes eng pa ?ed = (Ok (), ?ed\<lparr>ed_engine := e, ed_safe_head := ?new,
        ed_safe_epoch := epoch, ed_unsafe_head := ?new\<rparr>)" "known e = (known (ed_engine ?ed))(bi_hash ?new \<mapsto> ?new)"
    using process_attributes_executes [OF ex, of ?ed pa epoch] lvl(1,2) pa(2) fit by auto
  have "apply_attributes exs eng get_block pa d = (Ok (), built exec pa epoch incl seq e d)"
    using none e(1) pa
    by (simp add: apply_attributes_def handle_attributes_def with_state_def bind_action_def lift_outcome_def map_err_def on_engine_def
        zoom_def modify_def push_unfinalized_block_def built_def Let_def)
  moreover have "level known (built exec pa epoch incl seq e d)"
  proof -
    have "bi_number b \<le> bi_number ?h + 1" if "b \<in> ran (known e)" for b
      using that e(2) lvl(3) new(1) up by (auto simp: ran_def split: if_splits)
    then show ?thesis using e(2) new(1) by (simp add: level_def built_def Let_def update_safe_head_def)
  qed
  moreover have "room n (dr_engine_driver (built exec pa epoch incl seq e d))"
    using room_mono [OF assms(3) refl new(1), where e=e and epoch=epoch] new(2) pa(1) by (simp add: built_def Let_def)
  ultimately show ?thesis by blast
qed

section \<open>The loop of the driver\<close>

text \<open>The derivation states and the entries of \<open>unfinalized_blocks\<close> while attributes are executed one after the other.\<close>

definition next_state ::
  "(block_info \<Rightarrow> payload_attributes \<Rightarrow> execution_payload) \<Rightarrow> derive_state \<Rightarrow> payload_attributes \<Rightarrow> derive_state" where
  "next_state exec state pa =
     update_safe_head state (executed exec (st_safe_head state) pa)
       (case pa_epoch pa of Some epoch \<Rightarrow> epoch | None \<Rightarrow> st_safe_epoch state)"

fun states_along ::
  "(block_info \<Rightarrow> payload_attributes \<Rightarrow> execution_payload) \<Rightarrow> derive_state \<Rightarrow> payload_attributes list \<Rightarrow> derive_state list" where
  "states_along exec state [] = [state]"
| "states_along exec state (pa # pas) = state # states_along exec (next_state exec state pa) pas"

fun blocks_along ::
  "(block_info \<Rightarrow> payload_attributes \<Rightarrow> execution_payload) \<Rightarrow> block_info \<Rightarrow> payload_attributes list \<Rightarrow> unfinalized list" where
  "blocks_along exec h [] = []"
| "blocks_along exec h (pa # pas) =
     (executed exec h pa, case pa_epoch pa of Some e \<Rightarrow> e | None \<Rightarrow> \<lparr>ep_number = 0, ep_hash = 0, ep_timestamp = 0\<rparr>,
      case pa_l1_inclusion_block pa of Some n \<Rightarrow> n | None \<Rightarrow> 0, case pa_seq_number pa of Some n \<Rightarrow> n | None \<Rightarrow> 0) #
     blocks_along exec (executed exec h pa) pas"

text \<open>Complete attributes, one block time apart.\<close>

fun spaced :: "u64 \<Rightarrow> u64 \<Rightarrow> payload_attributes list \<Rightarrow> bool" where
  "spaced blocktime time [] = True"
| "spaced blocktime time (pa # pas) \<longleftrightarrow> complete pa \<and> pa_timestamp pa = time + blocktime \<and> spaced blocktime (pa_timestamp pa) pas"

lemma states_along_ne [simp]: "states_along exec state pas \<noteq> []"
  by (cases pas) auto

text \<open>Attributes that the client can execute one after the other.\<close>

fun fits ::
  "(block_info \<Rightarrow> payload_attributes \<Rightarrow> execution_payload) \<Rightarrow> (block_info \<Rightarrow> payload_attributes \<Rightarrow> bool) \<Rightarrow> block_info \<Rightarrow>
   payload_attributes list \<Rightarrow> bool" where
  "fits exec fit h [] = True"
| "fits exec fit h (pa # pas) \<longleftrightarrow> fit h pa \<and> fits exec fit (executed exec h pa) pas"

text \<open>The body of the loop, for attributes one after the other.\<close>

primrec apply_all ::
  "externals \<Rightarrow> 'e engine \<Rightarrow> ('e \<Rightarrow> block_id \<Rightarrow> eth_block option outcome) \<Rightarrow> payload_attributes list \<Rightarrow> ('e driver, unit) action" where
  "apply_all ex eng get_block [] = return_action ()"
| "apply_all ex eng get_block (pa # pas) =
     bind_action (apply_attributes ex eng get_block pa) (\<lambda>_. apply_all ex eng get_block pas)"


section \<open>A sample\<close>

text \<open>A client that keeps its blocks and the last order to build.\<close>

type_synonym client = "block_info list \<times> (block_info \<times> payload_attributes) option"

definition client_known :: "client \<Rightarrow> h256 \<rightharpoonup> block_info" where
  "client_known e = map_of (map (\<lambda>b. (bi_hash b, b)) (fst e))"

definition client_exec :: "block_info \<Rightarrow> payload_attributes \<Rightarrow> execution_payload" where
  "client_exec h pa =
     \<lparr>pl_parent_hash = bi_hash h, pl_fee_recipient = pa_suggested_fee_recipient pa, pl_state_root = 0, pl_receipts_root = 0,
      pl_logs_bloom = [], pl_prev_randao = pa_prev_randao pa, pl_block_number = bi_number h + 1, pl_gas_limit = pa_gas_limit pa,
      pl_gas_used = 0, pl_timestamp = pa_timestamp pa, pl_extra_data = [], pl_base_fee_per_gas = 0, pl_block_hash = bi_hash h + 1,
      pl_transactions = (case pa_transactions pa of Some txs \<Rightarrow> txs | None \<Rightarrow> []),
      pl_withdrawals = None, pl_blob_gas_used = None, pl_excess_blob_gas = None\<rparr>"

definition client_fit :: "block_info \<Rightarrow> payload_attributes \<Rightarrow> bool" where
  "client_fit h pa \<longleftrightarrow> bi_timestamp h < pa_timestamp pa"

definition client_engine :: "client engine" where
  "client_engine =
     (let valid = \<lparr>ps_status = Valid, ps_latest_valid_hash = None, ps_validation_error = None\<rparr>
      in \<lparr>eng_forkchoice_updated = (\<lambda>fcs attributes e.
            case (client_known e (fcs_head_block_hash fcs), attributes) of
              (Some h, Some pa) \<Rightarrow>
                if client_fit h pa then (Ok \<lparr>fcu_payload_status = valid, fcu_payload_id = Some 1\<rparr>, (fst e, Some (h, pa)))
                else (Err (External ''invalid payload attributes''), e)
            | (Some h, None) \<Rightarrow> (Ok \<lparr>fcu_payload_status = valid, fcu_payload_id = None\<rparr>, e)
            | (None, _) \<Rightarrow> (Err (External ''unknown block''), e)),
          eng_new_payload = (\<lambda>payload e. (Ok valid, (block_info_from_payload payload # fst e, snd e))),
          eng_get_payload = (\<lambda>_ e. (case snd e of
             Some (h, pa) \<Rightarrow> Ok (client_exec h pa) | None \<Rightarrow> Err (External ''unknown payload''), e))\<rparr>)"

lemma client_executes: "executes client_engine (\<lambda>_ _. Ok None) client_exec client_fit client_known"
  by (auto simp: executes_def client_engine_def client_exec_def client_fit_def client_known_def block_info_from_payload_def Let_def)

definition start_head :: block_info where
  "start_head = \<lparr>bi_hash = 9, bi_number = 100, bi_parent_hash = 8, bi_timestamp = 200\<rparr>"

definition ready_driver :: "client driver" where
  "ready_driver =
     \<lparr>dr_pipeline = pipeline_new sample_state (sample_config optimism_sepolia) 0,
      dr_engine_driver = engine_driver_new ([start_head], None) start_head (epoch_of_info (sample_l1_info 16)) (sample_config optimism_sepolia),
      dr_unfinalized_blocks = [], dr_finalized_l1_block_number = 0, dr_future_unsafe_blocks = [], dr_state = state_at start_head,
      dr_chain_watcher = chain_watcher_new 10 100 (sample_config optimism_sepolia), dr_shutdown_recv = False,
      dr_unsafe_block_recv = [], dr_unsafe_block_signer = 0, dr_signer_received = True, dr_network_service = True,
      dr_channel_timeout = 300\<rparr>"

lemma ready_driver_level: "level client_known ready_driver" "room 2 (dr_engine_driver ready_driver)"
  by (simp_all add: ready_driver_def level_def room_def engine_driver_new_def client_known_def state_at_def start_head_def
      optimism_sepolia_def exI [of _ 0])

definition two_attributes :: "payload_attributes list" where
  "two_attributes = [sample_payload_attributes, sample_payload_attributes\<lparr>pa_timestamp := 204, pa_seq_number := Some 2\<rparr>]"


end
