(* ===== verification/Watcher_Task.thy ===== *)
theory Watcher_Task
  imports Chain_Watcher
begin

text \<open>
  The task that \<^verbatim>\<open>src/src/l1/chain_watcher.rs\<close> spawns in \<open>start_watcher\<close>: it repeats the step of the watcher for ever, and a step that
  fails is tried again. The list is that of what L1 answers in the iterations looked at, which may differ from one to the
  next. Shown: whatever fails in between, each L1 block from the start on is reported once, in order, and the
  news of finality rises.
\<close>

text \<open>
  The providers of both chains, which the watcher makes from the addresses of the configuration: the client of
  \<open>reqwest\<close> with its timeout in seconds, the parser of addresses and the retrying provider with its limits are calls of other crates.
\<close>

record ('client, 'url, 'provider) http_calls =
  hc_client_build :: "u64 \<Rightarrow> 'client outcome"
  hc_url_parse :: "string \<Rightarrow> 'url outcome"
  hc_provider :: "'url \<Rightarrow> 'client \<Rightarrow> nat \<Rightarrow> nat \<Rightarrow> 'provider"

definition generate_http_provider :: "('client, 'url, 'provider) http_calls \<Rightarrow> string \<Rightarrow> 'provider outcome" where
  "generate_http_provider hc url =
     and_then (unwrap_res (hc_client_build hc 5) ''called unwrap on an Err value'') (\<lambda>client.
     and_then (unwrap_res (hc_url_parse hc url) ''invalid rpc url'') (\<lambda>parsed.
     Ok (hc_provider hc parsed client 100 50)))"

lemma generate_http_provider_panics:
  "hc_client_build hc 5 = Ok client \<Longrightarrow> hc_url_parse hc url = Err e \<Longrightarrow>
   generate_http_provider hc url = Panic (UnwrapFailed ''invalid rpc url'')"
  by (simp add: generate_http_provider_def)

fun watcher_loop :: "l1_calls list \<Rightarrow> (inner_watcher, unit) action" where
  "watcher_loop [] = return_action ()"
| "watcher_loop (lc # lcs) = bind_action (attempt (try_ingest_block lc)) (\<lambda>_. watcher_loop lcs)"

fun is_finality :: "block_update \<Rightarrow> bool" where
  "is_finality (FinalityUpdate n) = True"
| "is_finality u = False"

fun finality_of :: "block_update \<Rightarrow> u64 list" where
  "finality_of (FinalityUpdate n) = [n]"
| "finality_of u = []"

definition block_updates :: "inner_watcher \<Rightarrow> block_update list" where
  "block_updates w = filter (\<lambda>u. \<not> is_finality u) (iw_sent w)"

definition finality_updates :: "inner_watcher \<Rightarrow> u64 list" where
  "finality_updates w = concat (map finality_of (iw_sent w))"

text \<open>Relative to the first block of the task.\<close>

definition in_order :: "u64 \<Rightarrow> inner_watcher \<Rightarrow> bool" where
  "in_order start w \<longleftrightarrow>
     iw_current_block w = start + of_nat (length (block_updates w)) \<and>
     (\<forall>i info. i < length (block_updates w) \<longrightarrow> block_updates w ! i = NewBlock info \<longrightarrow>
        l1b_number (l1i_block_info info) = start + of_nat i) \<and>
     sorted_wrt (<) (finality_updates w) \<and> list_all (\<lambda>n. n \<le> iw_finalized_block w) (finality_updates w)"

lemma in_order_same: "same_chain w w' \<Longrightarrow> in_order start w \<Longrightarrow> in_order start w'"
  by (simp add: same_chain_def in_order_def block_updates_def finality_updates_def)

lemma in_order_finality:
  assumes "in_order start w" "ingest_finality lc w = (r, w')"
  shows "in_order start w'"
proof -
  have "in_order start (w\<lparr>iw_finalized_block := f, iw_sent := iw_sent w @ [FinalityUpdate f], iw_unfinalized_blocks := bs\<rparr>)"
    if "iw_finalized_block w < f" for f bs
  proof -
    let ?w = "w\<lparr>iw_finalized_block := f, iw_sent := iw_sent w @ [FinalityUpdate f], iw_unfinalized_blocks := bs\<rparr>"
    have rise: "\<forall>n \<in> set (finality_updates w). n < f"
      using assms(1) that by (auto simp: in_order_def list_all_iff intro: order.strict_trans1)
    have "block_updates ?w = block_updates w" "finality_updates ?w = finality_updates w @ [f]"
      by (simp_all add: block_updates_def finality_updates_def)
    then show ?thesis using assms(1) rise
      by (auto simp: in_order_def sorted_wrt_append list_all_iff intro: order.strict_implies_order)
  qed
  with assms show ?thesis
    by (auto simp: ingest_finality_def with_state_def bind_action_def lift_outcome_def modify_def send_update_def Let_def
        split: if_splits outcome.splits)
qed

lemma in_order_send:
  assumes "in_order start w" "l1b_number (l1i_block_info info) = iw_current_block w"
  shows "in_order start (send_block info (push_unfinalized block info w))"
  using assms
  by (auto simp: in_order_def send_block_def push_unfinalized_def send_update_def block_updates_def finality_updates_def Let_def
      nth_append less_Suc_eq)

lemma in_order_next:
  assumes "in_order start w" "serves_numbers lc" "ingest_next lc w = (r, w')"
  shows "in_order start w'"
  using assms(3) unfolding ingest_next_def
proof (cases rule: bind_action_exit)
  case (continues x w1)
  obtain block info where x: "x = (block, info)" by fastforce
  have "in_order start w1" using in_order_same [OF keepsD [OF keeps_fetch_l1_info continues(1)] assms(1)] .
  then show ?thesis
    using continues x fetch_l1_info_number [OF assms(2)] by (auto simp: action_simps intro!: in_order_send)
next
  case stops
  then show ?thesis using in_order_same [OF _ assms(1)] keepsD [OF keeps_fetch_l1_info] by blast
qed

lemma in_order_step:
  assumes "in_order start w" "serves_numbers lc" "try_ingest_block lc w = (r, w')"
  shows "in_order start w'"
  using assms(3) unfolding try_ingest_block_def
proof (cases rule: bind_action_exit)
  case stops
  then show ?thesis using in_order_finality [OF assms(1)] by blast
next
  case (continues u w1)
  have w1: "in_order start w1" using in_order_finality [OF assms(1) continues(1)] .
  from continues(2) show ?thesis
  proof (cases rule: bind_action_exit)
    case stops
    then show ?thesis using in_order_same [OF _ w1] keepsD [OF keeps_ingest_head] by blast
  next
    case (continues u w2)
    have w2: "in_order start w2" using in_order_same [OF keepsD [OF keeps_ingest_head continues(1)] w1] .
    then show ?thesis using continues(2) in_order_next [OF w2 assms(2)]
      by (auto simp: with_state_def lift_outcome_def split: if_splits)
  qed
qed

text \<open>
  C20: The watcher's task, whatever fails on the way and however L1 moves, reports the blocks from the one it starts at without gap or
  repetition: its i-th report of a block is of the i-th block after the start, or of a reorg in
  its place. The finalized numbers it reports rise strictly.
\<close>

theorem watcher_reports_in_order:
  assumes "iw_sent w = []" "\<forall>lc \<in> set lcs. serves_numbers lc" "watcher_loop lcs w = (r, w')"
  shows "iw_current_block w' = iw_current_block w + of_nat (length (block_updates w')) \<and>
    (\<forall>i < length (block_updates w'). \<forall>info. block_updates w' ! i = NewBlock info \<longrightarrow>
       l1b_number (l1i_block_info info) = iw_current_block w + of_nat i) \<and>
    sorted_wrt (<) (finality_updates w')"
proof -
  have "in_order start w'" if "in_order start w" for start
    using assms(2,3) that
  proof (induction lcs arbitrary: w)
    case (Cons lc lcs)
    obtain q w1 where step: "try_ingest_block lc w = (q, w1)" by fastforce
    then have w1: "in_order start w1" using in_order_step Cons.prems(1,3) by auto
    have "w' = w1 \<or> watcher_loop lcs w1 = (r, w')"
      using Cons.prems(2) step by (cases q) (auto simp: attempt_def bind_action_def)
    then show ?case using Cons.IH [of w1] Cons.prems(1) w1 by auto
  qed (simp add: lift_outcome_def)
  moreover have "in_order (iw_current_block w) w" using assms(1) by (simp add: in_order_def block_updates_def finality_updates_def)
  ultimately show ?thesis unfolding in_order_def by blast
qed

theorem watcher_reports_in_order_witness:
  "block_updates (snd (watcher_loop [sample_l1] sample_watcher)) = [Reorg] \<and>
   iw_current_block (snd (watcher_loop [sample_l1] sample_watcher)) = 101"
proof -
  define w' where "w' = snd (watcher_loop [sample_l1] sample_watcher)"
  have "w' = snd (try_ingest_block sample_l1 sample_watcher)"
    using sample_ingest
    by (simp add: w'_def attempt_def bind_action_def lift_outcome_def split: prod.splits outcome.splits)
  then have sent: "block_updates w' = [Reorg]" using sample_ingest by (simp add: block_updates_def)
  have "serves_numbers sample_l1" by (simp add: serves_numbers_def sample_l1_def sample_l1_block_def)
  then have "iw_current_block w' = iw_current_block sample_watcher + of_nat (length (block_updates w'))"
    using watcher_reports_in_order [of sample_watcher "[sample_l1]" "fst (watcher_loop [sample_l1] sample_watcher)" w']
    by (simp add: w'_def) (simp add: sample_watcher_def)
  then show ?thesis using sent by (simp add: w'_def) (simp add: sample_watcher_def)
qed

end
