(* ===== verification/L1_Feed.thy ===== *)
theory L1_Feed
  imports Safe_Chain Watcher_Task
begin

text \<open>
  The chain watcher's task of \<^verbatim>\<open>src/src/l1/chain_watcher.rs\<close> and the driver of \<^verbatim>\<open>src/src/driver/mod.rs\<close> together, joined by the channel of
  updates. The driver starts the task and, on a reorg, stops it and starts another one further back. \<open>fd_taken\<close> records the
  updates that the driver has taken since the task was last started; no step depends on it.

  Shown: however the two interleave and whatever requests fail, the driver takes L1 blocks without gap or repetition from the block that the task
  was started at, none of them after a reorg that it has not dealt with, and its view of L1 is the newest block taken.
\<close>

record 'e feed =
  fd_driver :: "'e driver"
  fd_task :: "inner_watcher option"
  fd_taken :: "block_update list"

abbreviation feed_watcher :: "'e feed \<Rightarrow> chain_watcher" where
  "feed_watcher s \<equiv> dr_chain_watcher (fd_driver s)"

text \<open>The driver has advanced to \<open>d\<close>, taking the first update of the channel if there is one; a reorg has replaced the task.\<close>

definition after_advance :: "'e driver \<Rightarrow> 'e feed \<Rightarrow> 'e feed" where
  "after_advance d s =
     (case cw_block_update_receiver (feed_watcher s) of
        Some (Reorg # us) \<Rightarrow> s\<lparr>fd_driver := d, fd_task := None, fd_taken := []\<rparr>
      | Some (u # us) \<Rightarrow> s\<lparr>fd_driver := d, fd_taken := fd_taken s @ [u]\<rparr>
      | _ \<Rightarrow> s\<lparr>fd_driver := d\<rparr>)"

text \<open>An iteration of the task has changed it to \<open>w'\<close>; what it has sent is in the channel.\<close>

definition after_iteration :: "inner_watcher \<Rightarrow> inner_watcher \<Rightarrow> 'e feed \<Rightarrow> 'e feed" where
  "after_iteration w w' s =
     s\<lparr>fd_driver := (fd_driver s)\<lparr>dr_chain_watcher := (feed_watcher s)\<lparr>cw_block_update_receiver :=
         map_option (\<lambda>us. us @ drop (length (iw_sent w)) (iw_sent w')) (cw_block_update_receiver (feed_watcher s))\<rparr>\<rparr>,
       fd_task := Some w'\<rparr>"

inductive feed_step :: "externals \<Rightarrow> 'e engine \<Rightarrow> 'e feed \<Rightarrow> 'e feed \<Rightarrow> bool" for ex eng where
  feed_started: "feed_step ex eng s (s\<lparr>fd_driver := driver_start (fd_driver s), fd_task := None, fd_taken := []\<rparr>)"
| feed_created: "fd_task s = None \<Longrightarrow> cw_running (feed_watcher s) \<Longrightarrow>
    inner_watcher_new l2_get_block (cw_config (feed_watcher s)) (cw_l1_start_block (feed_watcher s))
      (cw_l2_start_block (feed_watcher s)) = Ok w \<Longrightarrow>
    feed_step ex eng s (s\<lparr>fd_task := Some w\<rparr>)"
| feed_iterated: "fd_task s = Some w \<Longrightarrow> serves_numbers lc \<Longrightarrow> try_ingest_block lc w = (r, w') \<Longrightarrow>
    feed_step ex eng s (after_iteration w w' s)"
| feed_advanced: "\<not> dr_shutdown_recv (fd_driver s) \<Longrightarrow>
    advance fuel ex eng get_block started (fd_driver s) = (Ok (), d) \<Longrightarrow> feed_step ex eng s (after_advance d s)"
| feed_gossip: "feed_step ex eng s (s\<lparr>fd_driver := (fd_driver s)\<lparr>dr_unsafe_block_recv := dr_unsafe_block_recv (fd_driver s) @ [p]\<rparr>\<rparr>)"
| feed_shutdown: "feed_step ex eng s (s\<lparr>fd_driver := (fd_driver s)\<lparr>dr_shutdown_recv := True\<rparr>\<rparr>)"

inductive_cases feed_step_cases: "feed_step ex eng s s'"

fun block_of :: "block_update \<Rightarrow> l1_info list" where
  "block_of (NewBlock info) = [info]"
| "block_of u = []"

definition blocks_taken :: "'e feed \<Rightarrow> l1_info list" where
  "blocks_taken s = concat (map block_of (fd_taken s))"

definition finality_taken :: "'e feed \<Rightarrow> u64 list" where
  "finality_taken s = concat (map finality_of (fd_taken s))"

section \<open>What the parts do to the channel\<close>

text \<open>The rest of an iteration of the driver leaves the watcher and the view of L1 alone.\<close>

definition same_l1 :: "'e driver \<Rightarrow> 'e driver \<Rightarrow> bool" where
  "same_l1 d d' \<longleftrightarrow> dr_chain_watcher d' = dr_chain_watcher d \<and>
     dr_finalized_l1_block_number d' = dr_finalized_l1_block_number d \<and>
     st_current_epoch_num (dr_state d') = st_current_epoch_num (dr_state d)"

lemma preorder_same_l1 [simp]: "preorder_rel same_l1"
  by (simp add: preorder_rel_def same_l1_def)

lemma same_l1_simps [simp]:
  "same_l1 d d" "same_l1 d (d\<lparr>dr_engine_driver := a\<rparr>)" "same_l1 d (d\<lparr>dr_unfinalized_blocks := b\<rparr>)"
  "same_l1 d (d\<lparr>dr_pipeline := p\<rparr>)" "same_l1 d (d\<lparr>dr_network_service := on\<rparr>)"
  "same_l1 d (update_finalized d)" "same_l1 d (collect_unsafe_blocks d)"
  "same_l1 d (push_unfinalized_block incl sq d)" "same_l1 d (update_state_head d)"
  by (auto simp: same_l1_def update_finalized_def collect_unsafe_blocks_def update_safe_head_def
      push_unfinalized_block_def update_state_head_def Let_def split: prod.splits)

lemma keeps_l1_engine [keeps_intros]: "keeps same_l1 (on_engine m)"
  by (auto simp: keeps_def on_engine_def zoom_def split: prod.splits)

lemma derive_blocks_l1 [keeps_intros]: "keeps same_l1 (derive_blocks fuel ex eng get_block)"
proof (induction fuel)
  case (Suc fuel)
  have "keeps same_l1 (take_attributes ex)"
    unfolding take_attributes_def by (auto intro!: keeps_intros split: prod.splits)
  moreover have "keeps same_l1 (apply_attributes ex eng get_block pa)" for pa
    by (auto simp: apply_attributes_def intro!: keeps_intros)
  ultimately show ?case using Suc by (auto intro!: keeps_intros split: option.splits)
qed (auto intro!: keeps_intros)

lemma advance_l1:
  assumes "advance fuel ex eng get_block started d = (Ok (), d')"
  obtains d1 where "handle_next_block_update d = (Ok (), d1)" "same_l1 d1 d'"
proof -
  obtain r d1 where h: "handle_next_block_update d = (r, d1)" by fastforce
  let ?rest = "bind_action (bind_action (modify update_state_head) (\<lambda>_. derive_blocks fuel ex eng get_block)) (\<lambda>_.
     bind_action (advance_unsafe_head eng) (\<lambda>_. bind_action (modify update_finalized) (\<lambda>_. try_start_networking started)))"
  have "keeps same_l1 (advance_unsafe_head eng)" "keeps same_l1 (try_start_networking started)"
    unfolding advance_unsafe_head_def try_start_networking_def by (auto intro!: keeps_intros split: option.splits)
  then have keeps: "keeps same_l1 ?rest" by (auto intro!: keeps_intros)
  have "r = Ok ()" "?rest d1 = (Ok (), d')"
    using assms h by (auto simp: advance_def advance_safe_head_def bind_action_def split: outcome.splits prod.splits)
  then show ?thesis using that h keepsD [OF keeps] by blast
qed

lemma update_l1_info_current: "update_l1_info s info = Ok s' \<Longrightarrow> st_current_epoch_num s' = l1b_number (l1i_block_info info)"
  by (auto simp: update_l1_info_def state_prune_def outcome_simps Let_def split: prod.splits)

text \<open>An iteration of the driver, by the update it takes.\<close>

lemma take_nothing:
  assumes "handle_next_block_update d = (Ok (), d1)"
    and "cw_block_update_receiver (dr_chain_watcher d) = None \<or> cw_block_update_receiver (dr_chain_watcher d) = Some []"
  shows "d1 = d"
  using assms
  by (auto simp: handle_next_block_update_def attempt_def on_watcher_def zoom_def try_recv_from_channel_def bind_action_def
      with_state_def lift_outcome_def)

lemma take_update:
  assumes "handle_next_block_update d = (Ok (), d1)" "cw_block_update_receiver (dr_chain_watcher d) = Some (u # us)"
  shows "case u of
      NewBlock info \<Rightarrow> dr_chain_watcher d1 = (dr_chain_watcher d)\<lparr>cw_block_update_receiver := Some us\<rparr> \<and>
        dr_finalized_l1_block_number d1 = dr_finalized_l1_block_number d \<and>
        st_current_epoch_num (dr_state d1) = l1b_number (l1i_block_info info)
    | FinalityUpdate n \<Rightarrow> dr_chain_watcher d1 = (dr_chain_watcher d)\<lparr>cw_block_update_receiver := Some us\<rparr> \<and>
        dr_finalized_l1_block_number d1 = n \<and> st_current_epoch_num (dr_state d1) = st_current_epoch_num (dr_state d)
    | Reorg \<Rightarrow> cw_running (dr_chain_watcher d1) \<and> cw_block_update_receiver (dr_chain_watcher d1) = Some []"
proof -
  have "attempt (on_watcher try_recv_from_channel) d =
      (Ok (Some u), d\<lparr>dr_chain_watcher := (dr_chain_watcher d)\<lparr>cw_block_update_receiver := Some us\<rparr>\<rparr>)"
    using assms(2) by (simp add: attempt_def on_watcher_def zoom_def try_recv_from_channel_def bind_action_def with_state_def
        lift_outcome_def modify_def)
  then show ?thesis using assms(1)
    by (cases u) (auto simp: handle_next_block_update_def bind_action_def handle_new_block_def send_signer_def update_state_def
        with_state_def lift_outcome_def modify_def handle_reorg_def chain_watcher_restart_def Let_def update_l1_info_current
        split: outcome.splits if_splits)
qed

text \<open>The task only adds to what it has sent.\<close>

definition sends_more :: "inner_watcher \<Rightarrow> inner_watcher \<Rightarrow> bool" where
  "sends_more w w' \<longleftrightarrow> (\<exists>us. iw_sent w' = iw_sent w @ us)"

lemma preorder_sends_more [simp]: "preorder_rel sends_more"
  by (auto simp: preorder_rel_def sends_more_def)

lemma keeps_sends_more: "keeps sends_more (try_ingest_block lc)"
proof -
  have "same_chain v v' \<Longrightarrow> sends_more v v'" for v v' by (simp add: same_chain_def sends_more_def)
  then have "keeps sends_more (fetch_l1_info lc)" "keeps sends_more (ingest_head lc)"
    using keeps_fetch_l1_info keeps_ingest_head unfolding keeps_def by blast+
  moreover have "sends_more v (send_block info (push_unfinalized b info v))" for v b info
    by (simp add: sends_more_def send_block_def push_unfinalized_def send_update_def Let_def)
  ultimately show ?thesis
    by (auto simp: try_ingest_block_def ingest_finality_def ingest_next_def send_update_def Let_def sends_more_def
        intro!: keeps_intros split: prod.splits)
qed

lemmas try_ingest_block_sends = keepsD [OF keeps_sends_more]

section \<open>The invariant\<close>

definition channel_inv :: "chain_watcher \<Rightarrow> inner_watcher option \<Rightarrow> block_update list \<Rightarrow> bool" where
  "channel_inv cw task taken \<longleftrightarrow>
     (case task of
        None \<Rightarrow> taken = [] \<and> (cw_block_update_receiver cw = Some [] \<or> cw_block_update_receiver cw = None \<and> \<not> cw_running cw)
      | Some w \<Rightarrow> (\<exists>us. cw_block_update_receiver cw = Some us \<and> iw_sent w = taken @ us) \<and> in_order (cw_l1_start_block cw) w)"

definition view_inv :: "'e feed \<Rightarrow> bool" where
  "view_inv s \<longleftrightarrow> Reorg \<notin> set (fd_taken s) \<and>
     (blocks_taken s \<noteq> [] \<longrightarrow> st_current_epoch_num (dr_state (fd_driver s)) = l1b_number (l1i_block_info (last (blocks_taken s)))) \<and>
     (finality_taken s \<noteq> [] \<longrightarrow> dr_finalized_l1_block_number (fd_driver s) = last (finality_taken s))"

definition feed_inv :: "'e feed \<Rightarrow> bool" where
  "feed_inv s \<longleftrightarrow> channel_inv (feed_watcher s) (fd_task s) (fd_taken s) \<and> view_inv s"

lemma created_in_order: "inner_watcher_new l2 config start l2_start = Ok w \<Longrightarrow> iw_sent w = [] \<and> in_order start w"
  by (auto simp: inner_watcher_new_def outcome_simps in_order_def block_updates_def finality_updates_def split: if_splits)

lemma inv_iterated:
  assumes "feed_inv s" "fd_task s = Some w" "serves_numbers lc" "try_ingest_block lc w = (r, w')"
  shows "feed_inv (after_iteration w w' s)"
proof -
  obtain vs where "iw_sent w' = iw_sent w @ vs" using try_ingest_block_sends [OF assms(4)] by (auto simp: sends_more_def)
  moreover have "in_order (cw_l1_start_block (feed_watcher s)) w'"
    using assms(1,2) in_order_step [OF _ assms(3,4)] by (simp add: feed_inv_def channel_inv_def)
  ultimately show ?thesis using assms(1,2)
    by (auto simp: feed_inv_def channel_inv_def view_inv_def after_iteration_def blocks_taken_def finality_taken_def)
qed

lemma inv_advanced:
  assumes "feed_inv s" "advance fuel ex eng get_block started (fd_driver s) = (Ok (), d)"
  shows "feed_inv (after_advance d s)"
proof -
  obtain d1 where h: "handle_next_block_update (fd_driver s) = (Ok (), d1)" and same: "same_l1 d1 d"
    using advance_l1 [OF assms(2)] by blast
  consider "cw_block_update_receiver (feed_watcher s) = None \<or> cw_block_update_receiver (feed_watcher s) = Some []"
    | u us where "cw_block_update_receiver (feed_watcher s) = Some (u # us)"
    by (metis list.exhaust option.exhaust)
  then show ?thesis
  proof cases
    case 1
    then have "same_l1 (fd_driver s) d" using take_nothing [OF h] same by simp
    then show ?thesis using assms(1) 1
      by (auto simp: feed_inv_def view_inv_def after_advance_def blocks_taken_def finality_taken_def same_l1_def)
  next
    case (2 u us)
    obtain w where task: "fd_task s = Some w" "iw_sent w = fd_taken s @ u # us" "in_order (cw_l1_start_block (feed_watcher s)) w"
      using assms(1) 2 by (auto simp: feed_inv_def channel_inv_def split: option.splits)
    show ?thesis using take_update [OF h 2] same assms(1) task 2
      by (cases u) (auto simp: feed_inv_def view_inv_def channel_inv_def after_advance_def blocks_taken_def finality_taken_def same_l1_def)
  qed
qed

lemma feed_step_inv:
  assumes "feed_step ex eng s s'" "feed_inv s"
  shows "feed_inv s'"
  using assms(1)
proof cases
  case feed_started
  then show ?thesis
    by (simp add: feed_inv_def channel_inv_def view_inv_def blocks_taken_def finality_taken_def driver_start_def chain_watcher_start_def)
next
  case (feed_created l2_get_block w)
  then show ?thesis using assms(2) created_in_order
    by (fastforce simp: feed_inv_def channel_inv_def view_inv_def blocks_taken_def finality_taken_def)
next
  case (feed_iterated w lc r w')
  then show ?thesis using inv_iterated [OF assms(2)] by blast
next
  case (feed_advanced fuel get_block started d)
  then show ?thesis using inv_advanced [OF assms(2)] by blast
qed (use assms(2) in \<open>auto simp: feed_inv_def view_inv_def blocks_taken_def finality_taken_def\<close>)

lemma feed_run_inv: "(feed_step ex eng)\<^sup>*\<^sup>* s s' \<Longrightarrow> feed_inv s \<Longrightarrow> feed_inv s'"
  by (induction rule: rtranclp_induct) (auto intro: feed_step_inv)

lemma block_updates_taken:
  "Reorg \<notin> set us \<Longrightarrow> filter (\<lambda>u. \<not> is_finality u) us = map NewBlock (concat (map block_of us))"
proof (induction us)
  case (Cons u us)
  then show ?case by (cases u) auto
qed simp

lemma taken_numbers:
  assumes "feed_inv s" "i < length (blocks_taken s)"
  shows "l1b_number (l1i_block_info (blocks_taken s ! i)) = cw_l1_start_block (feed_watcher s) + of_nat i"
proof (cases "fd_task s")
  case None
  then show ?thesis using assms by (simp add: feed_inv_def channel_inv_def blocks_taken_def)
next
  case (Some w)
  then obtain us where us: "iw_sent w = fd_taken s @ us" and order: "in_order (cw_l1_start_block (feed_watcher s)) w"
    using assms(1) by (auto simp: feed_inv_def channel_inv_def)
  have "block_updates w = map NewBlock (blocks_taken s) @ filter (\<lambda>u. \<not> is_finality u) us"
    using assms(1) us block_updates_taken [of "fd_taken s"] by (simp add: block_updates_def blocks_taken_def feed_inv_def view_inv_def)
  then have "i < length (block_updates w)" "block_updates w ! i = NewBlock (blocks_taken s ! i)"
    using assms(2) by (simp_all add: nth_append)
  then show ?thesis using order by (simp add: in_order_def)
qed

lemma taken_finality:
  assumes "feed_inv s"
  shows "sorted_wrt (<) (finality_taken s)"
proof (cases "fd_task s")
  case (Some w)
  then obtain us where "iw_sent w = fd_taken s @ us" "in_order (cw_l1_start_block (feed_watcher s)) w"
    using assms by (auto simp: feed_inv_def channel_inv_def)
  then show ?thesis by (auto simp: in_order_def finality_updates_def finality_taken_def sorted_wrt_append)
qed (use assms in \<open>simp add: feed_inv_def channel_inv_def finality_taken_def\<close>)

section \<open>Property\<close>

text \<open>
  C16: composition of the chain watcher and the driver. In every run of the two, however they interleave, whatever fails and however
  often a reorg restarts the watcher, the L1 blocks that the driver has taken since the last start are numbered without gap or
  repetition from the block that the watcher was started at, no reorg is skipped over, the derivation state's current L1 block is the last one taken, and
  the finalized L1 number is the last and highest one reported.
\<close>

theorem l1_blocks_reach_driver:
  assumes "(feed_step ex eng)\<^sup>*\<^sup>* s s'" "fd_task s = None" "fd_taken s = []" "feed_watcher s = chain_watcher_new l1_start l2_start config"
  shows "Reorg \<notin> set (fd_taken s') \<and>
    (\<forall>i < length (blocks_taken s').
       l1b_number (l1i_block_info (blocks_taken s' ! i)) = cw_l1_start_block (feed_watcher s') + of_nat i) \<and>
    (blocks_taken s' \<noteq> [] \<longrightarrow>
       st_current_epoch_num (dr_state (fd_driver s')) = l1b_number (l1i_block_info (last (blocks_taken s')))) \<and>
    sorted_wrt (<) (finality_taken s') \<and>
    (finality_taken s' \<noteq> [] \<longrightarrow> dr_finalized_l1_block_number (fd_driver s') = last (finality_taken s'))"
proof -
  have "feed_inv s"
    using assms(2-4)
    by (simp add: feed_inv_def channel_inv_def view_inv_def blocks_taken_def finality_taken_def chain_watcher_new_def)
  then have "feed_inv s'" by (rule feed_run_inv [OF assms(1)])
  then show ?thesis using taken_numbers taken_finality by (auto simp: feed_inv_def view_inv_def)
qed

section \<open>A concrete run\<close>

text \<open>An iteration of the driver that derives nothing: the pipeline is empty and no block is forced.\<close>

lemma advance_idle:
  assumes "handle_next_block_update d = (Ok (), d1)" "pipeline_idle config (dr_pipeline d1)"
    and "empty_input (dr_state (update_state_head d1)) config = None"
    and "dr_unsafe_block_recv d1 = []" "dr_future_unsafe_blocks d1 = []" "dr_unfinalized_blocks d1 = []"
  shows "\<exists>d'. advance (Suc 0) ex eng get_block started d = (Ok (), d')"
proof -
  obtain p where "pipeline_next ex (dr_state (update_state_head d1)) (dr_pipeline d1) = Ok (None, p)"
    using next_idle [OF assms(2,3)] by blast
  then have "take_attributes ex (update_state_head d1) = (Ok None, (update_state_head d1)\<lparr>dr_pipeline := p\<rparr>)"
    by (simp add: take_attributes_def with_state_def bind_action_def lift_outcome_def modify_def update_state_head_def)
  then have "advance_safe_head (Suc 0) ex eng get_block d = (Ok (), (update_state_head d1)\<lparr>dr_pipeline := p\<rparr>)"
    by (simp add: advance_safe_head_def bind_action_def assms(1) modify_def lift_outcome_def)
  then show ?thesis using assms(4-6)
    by (simp add: advance_def bind_action_def advance_unsafe_head_def collect_unsafe_blocks_def update_state_head_def with_state_def
        lift_outcome_def modify_def update_finalized_def try_start_networking_def synced_def Let_def split: prod.splits)
qed

definition feed_l1 :: l1_calls where
  "feed_l1 = sample_l1\<lparr>lc_get_block := (\<lambda>b. Ok (Some (sample_l1_block (if b = BlockFinalized then 0 else 5000000) 0 []))),
     lc_get_block_with_txs := (\<lambda>b. case b of BlockNumber n \<Rightarrow> Ok (Some (sample_l1_block n 7 [])) | _ \<Rightarrow> Ok None)\<rparr>"

definition feed_task :: inner_watcher where
  "feed_task = (case inner_watcher_new (\<lambda>_. Ok None) (sample_config optimism_sepolia) 4071108 0 of Ok w \<Rightarrow> w)"

lemma feed_task_new: "inner_watcher_new (\<lambda>_. Ok None) (sample_config optimism_sepolia) 4071108 0 = Ok feed_task"
  by (simp add: feed_task_def inner_watcher_new_def sample_config_def optimism_sepolia_def)

lemma feed_task_fields:
  "iw_sent feed_task = []" "iw_current_block feed_task = 4071108" "iw_head_block feed_task = 0" "iw_finalized_block feed_task = 0"
  "iw_unfinalized_blocks feed_task = []" "iw_deposits feed_task = (\<lambda>_. None)" "iw_next_system_config feed_task = (4071108, None)"
  "iw_config feed_task = sample_config optimism_sepolia"
  by (simp_all add: feed_task_def inner_watcher_new_def sample_config_def optimism_sepolia_def)

lemma feed_iteration:
  "\<exists>info w. try_ingest_block feed_l1 feed_task = (Ok (), w) \<and> iw_sent w = [NewBlock info] \<and>
     l1b_number (l1i_block_info info) = 4071108 \<and> l1i_batcher_transactions info = []"
proof -
  let ?w = "feed_task\<lparr>iw_head_block := 5000000\<rparr>"
  have fin: "ingest_finality feed_l1 feed_task = (Ok (), feed_task)"
    by (simp add: ingest_finality_def get_finalized_def block_number_of_def feed_l1_def feed_task_fields
        sample_l1_block_def sample_config_def with_state_def bind_action_def lift_outcome_def Let_def)
  have head: "ingest_head feed_l1 feed_task = (Ok (), ?w)"
    by (simp add: ingest_head_def get_head_def block_number_of_def feed_l1_def sample_l1_block_def feed_task_fields
        with_state_def bind_action_def lift_outcome_def modify_def)
  obtain v where conf: "update_system_config feed_l1 ?w = (Ok (), v)" and v: "same_chain ?w v" "iw_deposits v = (\<lambda>_. None)"
    "iw_config v = sample_config optimism_sepolia" "iw_head_block v = 5000000"
    by (simp add: update_system_config_def fetch_system_config_def activate_system_config_def first_update_def same_chain_def
        feed_l1_def sample_l1_def feed_task_fields with_state_def bind_action_def lift_outcome_def modify_def Let_def)
  have cur: "iw_current_block v = 4071108" "iw_head_block v = 5000000" "iw_sent v = []" "iw_unfinalized_blocks v = []" "iw_finalized_block v = 0"
    using v(1,4) by (simp_all add: same_chain_def feed_task_fields)
  have "\<exists>m. get_deposits feed_l1 4071108 v = (Ok [], v\<lparr>iw_deposits := m\<rparr>)"
    using v cur by (simp add: get_deposits_def Let_def with_state_def bind_action_def lift_outcome_def modify_def feed_l1_def sample_l1_def
        fold_deposits in_range_inclusive) blast
  then obtain m where deps: "get_deposits feed_l1 4071108 v = (Ok [], v\<lparr>iw_deposits := m\<rparr>)" ..
  have block: "watcher_get_block feed_l1 4071108 = Ok (sample_l1_block 4071108 7 [])"
    by (simp add: watcher_get_block_def feed_l1_def)
  have bat: "get_batcher_transactions feed_l1 (sample_l1_block 4071108 7 []) u = (Ok [], u)" for u
    by (simp add: get_batcher_transactions_def sample_l1_block_def with_state_def lift_outcome_def)
  obtain bi where bi: "l1_block_info_try_from (sample_l1_block 4071108 7 []) = Ok bi" "l1b_number bi = 4071108"
    by (simp add: l1_block_info_try_from_def sample_l1_block_def sample_l2_block_def as_u64_def)
  obtain info where fetch: "fetch_l1_info feed_l1 ?w = (Ok (sample_l1_block 4071108 7 [], info), v\<lparr>iw_deposits := m\<rparr>)"
    and info: "l1i_block_info info = bi" "l1i_batcher_transactions info = []"
    using cur by (simp add: fetch_l1_info_def bind_action_def conf with_state_def block deps bat bi lift_outcome_def Let_def)
  have "try_ingest_block feed_l1 feed_task = ingest_next feed_l1 ?w"
    by (simp add: try_ingest_block_def fin head bind_action_run with_state_def feed_task_fields)
  also have "\<dots> = (Ok (), send_block info (push_unfinalized (sample_l1_block 4071108 7 []) info (v\<lparr>iw_deposits := m\<rparr>)))"
    by (simp add: ingest_next_def bind_action_def fetch modify_def)
  finally show ?thesis using cur info bi(2)
    by (simp add: push_unfinalized_def send_block_def send_update_def check_reorg_def Let_def)
qed

definition feed_initial :: "(forkchoice_state \<times> payload_attributes) option feed" where
  "feed_initial = \<lparr>fd_driver = fresh_driver, fd_task = None, fd_taken = []\<rparr>"

text \<open>A driver that starts while L2 is out of reach starts at the genesis of its chain.\<close>

lemma offline_driver:
  fixes config
  defines "chain \<equiv> cfg_chain config"
  assumes "from_config k (\<lambda>_. Err e) eng config False = Ok d"
  shows "dr_chain_watcher d = chain_watcher_new
      (get_l1_start_block (ep_number (cc_l1_start_epoch chain)) (cc_channel_timeout chain)) (bi_number (cc_l2_genesis chain)) config"
    "dr_signer_received d \<and> \<not> dr_shutdown_recv d \<and> pipeline_idle config (dr_pipeline d)"
    "dr_unsafe_block_recv d = [] \<and> dr_future_unsafe_blocks d = [] \<and> dr_unfinalized_blocks d = []"
    "state_inv (dr_state d) \<and> st_l1_hashes (dr_state d) = [] \<and> st_config (dr_state d) = config"
    "ed_safe_epoch (dr_engine_driver d) = cc_l1_start_epoch chain"
proof -
  obtain state where st: "state_new k (cc_l2_genesis chain) (cc_l1_start_epoch chain) (\<lambda>_. Err e) config = Ok state"
    and d: "d = \<lparr>dr_pipeline = pipeline_new state config 0,
            dr_engine_driver = engine_driver_new eng (cc_l2_genesis chain) (cc_l1_start_epoch chain) config,
            dr_unfinalized_blocks = [], dr_finalized_l1_block_number = 0, dr_future_unsafe_blocks = [],
            dr_state = state, dr_chain_watcher = chain_watcher_new
              (get_l1_start_block (ep_number (cc_l1_start_epoch chain)) (cc_channel_timeout chain)) (bi_number (cc_l2_genesis chain)) config,
            dr_shutdown_recv = False, dr_unsafe_block_recv = [],
            dr_unsafe_block_signer = sc_unsafe_block_signer (cc_system_config chain),
            dr_signer_received = True, dr_network_service = True, dr_channel_timeout = cc_channel_timeout chain\<rparr>"
    using assms(2) by (auto simp: from_config_def get_head_info_def genesis_head_def outcome_simps Let_def chain_def)
  have "st_l1_hashes state = []" "st_config state = config"
    using st by (auto simp: state_new_def outcome_simps Let_def bt_empty_def)
  then show "dr_chain_watcher d = chain_watcher_new
      (get_l1_start_block (ep_number (cc_l1_start_epoch chain)) (cc_channel_timeout chain)) (bi_number (cc_l2_genesis chain)) config"
    "dr_signer_received d \<and> \<not> dr_shutdown_recv d \<and> pipeline_idle config (dr_pipeline d)"
    "dr_unsafe_block_recv d = [] \<and> dr_future_unsafe_blocks d = [] \<and> dr_unfinalized_blocks d = []"
    "state_inv (dr_state d) \<and> st_l1_hashes (dr_state d) = [] \<and> st_config (dr_state d) = config"
    "ed_safe_epoch (dr_engine_driver d) = cc_l1_start_epoch chain"
    using state_inv_new [OF st] by (simp_all add: d pipeline_idle_new engine_driver_new_def)
qed

lemma fresh_driver_watcher: "dr_chain_watcher fresh_driver = chain_watcher_new 4071108 0 (sample_config optimism_sepolia)"
  unfolding offline_driver(1) [OF fresh_driver_run]
  by (simp add: get_l1_start_block_def saturating_sub_def sample_config_def optimism_sepolia_def)

lemma idle_push_nothing: "pipeline_idle config p \<Longrightarrow> pipeline_idle config (push_batcher_transactions p [] l1)"
  using holds_post [of config 0 "[]" "[]" "[]" "[]" p "[]" l1] post_pending [of p "(l1, [])"]
  by (simp add: pipeline_idle_def queue_idle_def post_frames_def)

text \<open>The first block, when no deposit of the next epoch can be known: taken, and nothing is derived.\<close>

lemma fresh_driver_takes:
  assumes "l1b_number (l1i_block_info info) = 4071108" "l1i_batcher_transactions info = []"
    and "d = fresh_driver\<lparr>dr_chain_watcher := cw\<rparr>" "cw_block_update_receiver cw = Some [NewBlock info]"
  shows "\<exists>d'. advance (Suc 0) sample_externals builder (\<lambda>_ _. Ok None) started d = (Ok (), d')"
proof -
  let ?config = "sample_config optimism_sepolia" and ?s = "dr_state fresh_driver"
  note fresh = offline_driver [OF fresh_driver_run]
  have fields: "st_l1_hashes ?s = []" "st_config ?s = ?config" "state_inv ?s" "dr_signer_received fresh_driver"
    using fresh by simp_all
  have "fresh_l1 ?s info" "cc_blocktime (cfg_chain (st_config ?s)) \<noteq> 0"
    by (simp_all add: fields fresh_l1_def) (simp add: sample_config_def optimism_sepolia_def)
  from update_l1_info_Ok [OF fields(3) this] obtain s' where s': "update_l1_info ?s info = Ok s'"
    "\<forall>n. n \<noteq> 4071108 \<longrightarrow> l1_info_by_number s' n = None"
    using assms(1) by (auto simp: l1_info_by_number_def fields)
  let ?d1 = "d\<lparr>dr_chain_watcher := cw\<lparr>cw_block_update_receiver := Some []\<rparr>,
    dr_unsafe_block_signer := sc_unsafe_block_signer (l1i_system_config info),
    dr_pipeline := push_batcher_transactions (dr_pipeline fresh_driver) [] 4071108, dr_state := s'\<rparr>"
  have "handle_next_block_update d = (Ok (), ?d1)"
    using assms fields s'(1)
    by (simp add: handle_next_block_update_def attempt_def on_watcher_def zoom_def try_recv_from_channel_def bind_action_def
        with_state_def lift_outcome_def handle_new_block_def send_signer_def update_state_def modify_def Let_def)
  moreover have "epoch_by_number (dr_state (update_state_head ?d1)) 4071409 = None"
    using s'(2) by (simp add: epoch_by_number_def update_state_head_def update_safe_head_def l1_info_by_number_def)
  moreover have "ep_number (ed_safe_epoch (dr_engine_driver fresh_driver)) = 4071408"
    using fresh(5) by (simp add: sample_config_def optimism_sepolia_def)
  ultimately show ?thesis using fresh assms(3)
    by (intro advance_idle [where config="?config" and ?d1.0="?d1"])
      (auto simp: empty_input_def update_state_head_def update_safe_head_def idle_push_nothing Let_def)
qed

text \<open>The run: the driver starts the task, the task sends its first block, the driver takes it.\<close>

lemma feed_run:
  "\<exists>s info. (feed_step sample_externals builder)\<^sup>*\<^sup>* feed_initial s \<and> fd_taken s = [NewBlock info]"
proof -
  let ?step = "feed_step sample_externals builder"
  define s1 where "s1 = feed_initial\<lparr>fd_driver := driver_start (fd_driver feed_initial), fd_task := None, fd_taken := []\<rparr>"
  define s2 where "s2 = s1\<lparr>fd_task := Some feed_task\<rparr>"
  obtain info w where w: "try_ingest_block feed_l1 feed_task = (Ok (), w)" "iw_sent w = [NewBlock info]"
    "l1b_number (l1i_block_info info) = 4071108" "l1i_batcher_transactions info = []"
    using feed_iteration by blast
  define s3 where "s3 = after_iteration feed_task w s2"
  have watcher: "feed_watcher s1 = chain_watcher_start (chain_watcher_new 4071108 0 (sample_config optimism_sepolia))"
    by (simp add: s1_def feed_initial_def driver_start_def fresh_driver_watcher)
  have step1: "?step feed_initial s1" unfolding s1_def by (rule feed_started)
  have step2: "?step s1 s2" unfolding s2_def
    by (rule feed_created [where l2_get_block="\<lambda>_. Ok None"])
      (simp_all add: watcher chain_watcher_start_def chain_watcher_new_def feed_task_new, simp add: s1_def)
  have "serves_numbers feed_l1" by (simp add: serves_numbers_def feed_l1_def sample_l1_block_def)
  then have step3: "?step s2 s3" unfolding s3_def by (intro feed_iterated [OF _ _ w(1)]) (simp_all add: s2_def)
  have channel: "cw_block_update_receiver (feed_watcher s3) = Some [NewBlock info]"
    by (simp add: s3_def after_iteration_def s2_def watcher chain_watcher_start_def w(2) feed_task_fields)
  have d3: "fd_driver s3 = fresh_driver\<lparr>dr_chain_watcher := feed_watcher s3\<rparr>"
    by (simp add: s3_def after_iteration_def s2_def s1_def feed_initial_def driver_start_def)
  obtain d where advanced: "advance (Suc 0) sample_externals builder (\<lambda>_ _. Ok None) (Ok ()) (fd_driver s3) = (Ok (), d)"
    using fresh_driver_takes [OF w(3,4) d3 channel] by blast
  have "\<not> dr_shutdown_recv (fd_driver s3)"
    using offline_driver(2) [OF fresh_driver_run] by (subst d3) simp
  then have step4: "?step s3 (after_advance d s3)" using advanced by (rule feed_advanced)
  have "?step\<^sup>*\<^sup>* feed_initial (after_advance d s3)"
    by (intro converse_rtranclp_into_rtranclp [where r="?step", OF step1] converse_rtranclp_into_rtranclp [where r="?step", OF step2]
        converse_rtranclp_into_rtranclp [where r="?step", OF step3] r_into_rtranclp [where r="?step", OF step4])
  moreover have "fd_taken (after_advance d s3) = [NewBlock info]"
    by (simp add: after_advance_def channel) (simp add: s3_def after_iteration_def s2_def s1_def)
  ultimately show ?thesis by blast
qed

theorem l1_blocks_reach_driver_witness:
  "\<exists>s info. (feed_step sample_externals builder)\<^sup>*\<^sup>* feed_initial s \<and> blocks_taken s = [info] \<and>
     st_current_epoch_num (dr_state (fd_driver s)) = l1b_number (l1i_block_info info)"
proof -
  obtain s info where run: "(feed_step sample_externals builder)\<^sup>*\<^sup>* feed_initial s" "fd_taken s = [NewBlock info]"
    using feed_run by blast
  moreover have "blocks_taken s = [info]" using run(2) by (simp add: blocks_taken_def)
  ultimately show ?thesis
    using l1_blocks_reach_driver [OF run(1), of 4071108 0 "sample_config optimism_sepolia"]
    by (auto simp: feed_initial_def fresh_driver_watcher)
qed

end
