(* ===== verification/Span_Derivation.thy ===== *)
theory Span_Derivation
  imports Safe_Chain
begin

text \<open>
  The stages of the pipeline as the inverse of span batching, the format of the Delta upgrade: from a channel with one span batch, cut into frames and posted
  in L1 blocks, come the inputs of the batch's blocks after the safe head, in order.

  The columns of the batch are those of \<open>span_batch_bytes\<close>, whose layout the decoder of \<^verbatim>\<open>src/src/derive/stages/span_batch.rs\<close> reads;
  the encoders of the libraries are arguments, with \<open>channel_codec\<close> and \<open>span_encodable\<close> as what is assumed of them.
  The last sections say exactly what the check of a span batch in \<^verbatim>\<open>src/src/derive/stages/batches.rs\<close> requires, and
  show by two examples what it lets through: a batch between the times of blocks, and one that has nothing new.
\<close>

section \<open>A span batch in a channel\<close>

record span_content =
  sc_rel_timestamp :: u64
  sc_l1_origin_num :: u64
  sc_parent_check :: bytes
  sc_l1_origin_check :: bytes
  sc_origin_bits :: "bool list"
  sc_counts :: "u64 list"
  sc_txs :: "span_tx list"

definition span_bytes :: "(u64 \<Rightarrow> bytes) \<Rightarrow> (tx_data \<Rightarrow> bytes) \<Rightarrow> span_content \<Rightarrow> bytes" where
  "span_bytes enc_v enc_td c = span_batch_bytes enc_v enc_td (sc_rel_timestamp c) (sc_l1_origin_num c) (sc_parent_check c)
     (sc_l1_origin_check c) (sc_origin_bits c) (sc_counts c) (sc_txs c)"

definition span_of :: "codec \<Rightarrow> u64 \<Rightarrow> u64 \<Rightarrow> span_content \<Rightarrow> span_batch" where
  "span_of cod chain_id l1 c =
     \<lparr>sp_rel_timestamp = sc_rel_timestamp c, sp_l1_origin_num = sc_l1_origin_num c, sp_parent_check = sc_parent_check c,
      sp_l1_origin_check = sc_l1_origin_check c, sp_block_count = of_nat (length (sc_origin_bits c)),
      sp_origin_bits = sc_origin_bits c, sp_block_tx_counts = sc_counts c,
      sp_transactions = map (span_tx_raw cod chain_id) (sc_txs c), sp_l1_inclusion_block = l1\<rparr>"

definition span_encodable :: "codec \<Rightarrow> (u64 \<Rightarrow> bytes) \<Rightarrow> (tx_data \<Rightarrow> bytes) \<Rightarrow> span_content \<Rightarrow> bool" where
  "span_encodable cod enc_v enc_td c \<longleftrightarrow>
     varint_roundtrip cod enc_v \<and> (\<forall>t \<in> set (sc_txs c). rlp_tx_data cod (stx_data t) (enc_td (stx_data t))) \<and>
     length (sc_parent_check c) = 20 \<and> length (sc_l1_origin_check c) = 20 \<and>
     length (sc_origin_bits c) + 7 < 2 ^ 64 \<and> length (sc_counts c) = length (sc_origin_bits c) \<and>
     length (sc_txs c) + 7 < 2 ^ 64 \<and> sum_list (map unat (sc_counts c)) = length (sc_txs c)"

definition encode_span_channel :: "channel_encoder \<Rightarrow> bytes \<Rightarrow> bytes" where
  "encode_span_channel ce content = ce_zlib ce (ce_string ce (1 # content))"

text \<open>The blocks of the batch that are to come in a derivation state.\<close>

definition span_inputs :: "derive_state \<Rightarrow> config \<Rightarrow> span_batch \<Rightarrow> u64 block_input list" where
  "span_inputs state config b = filter_inputs state (map (span_block b config) [0..<unat (sp_block_count b)])"

lemma span_encodable_count: "span_encodable cod enc_v enc_td c \<Longrightarrow> unat (sp_block_count (span_of cod chain_id l1 c)) = length (sc_origin_bits c)"
  by (simp add: span_encodable_def span_of_def unat_of_nat take_bit_nat_eq_self)

lemma span_of_wf: "span_encodable cod enc_v enc_td c \<Longrightarrow> span_wf (span_of cod chain_id l1 c)"
  using span_encodable_count [of cod enc_v enc_td c chain_id l1]
  by (simp add: span_wf_def) (simp add: span_encodable_def span_of_def)

lemma sum_list_of_unat: "(of_nat (sum_list (map unat ws)) :: u64) = sum_list ws"
  by (induction ws) simp_all

lemma span_bytes_decode:
  assumes "span_encodable cod enc_v enc_td c"
  shows "span_batch_decode cod (span_bytes enc_v enc_td c) l1 chain_id = Ok (span_of cod chain_id l1 c)"
proof -
  have "sum_list (sc_counts c) = of_nat (length (sc_txs c))"
    using assms sum_list_of_unat [of "sc_counts c"] by (simp add: span_encodable_def)
  then show ?thesis using assms unfolding span_bytes_def span_of_def span_encodable_def
    by (intro span_batch_decode_bytes) auto
qed

lemma decode_span_channel:
  assumes "channel_codec cod ce" "ch_data ch = encode_span_channel ce content"
    and "span_batch_decode cod content (ch_l1_inclusion_block ch) chain_id = Ok b"
  shows "decode_batches cod ch chain_id = Ok [Span b]"
proof -
  let ?s = "ce_string ce (1 # content)"
  obtain h where str: "cod_rlp_as_bytes cod ?s = Some (1 # content)"
      "cod_rlp_payload_info cod ?s = Some (h, Suc (length content))" "length ?s = h + Suc (length content)"
    using assms(1) unfolding channel_codec_def by (metis append_Nil2 length_Cons)
  then have "decode_batches_from cod ch chain_id ?s 0 [] = Ok [Span b]"
    using assms(3) by (subst decode_batches_from.simps) (simp add: slice_from_def rlp_try_def index_def)
  then show ?thesis using assms(1,2) by (simp add: decode_batches_def encode_span_channel_def channel_codec_def)
qed

section \<open>Calls of the stages\<close>

text \<open>The stages hold nothing but the inputs of blocks that are ready to be served.\<close>

definition pending :: "config \<Rightarrow> u64 block_input list \<Rightarrow> batcher_transactions channels batches \<Rightarrow> bool" where
  "pending config is q \<longleftrightarrow> bs_pending_inputs q = is \<and> queue_idle config (q\<lparr>bs_pending_inputs := []\<rparr>)"

lemma pending_Nil: "pending config [] q \<Longrightarrow> queue_idle config q"
  by (simp add: pending_def queue_idle_def holds_def Let_def)

lemma next_delivers_span:
  assumes "holds config cid ds gs [f] [] q" "channel_posted config cid ds (gs @ [f])"
    and "\<not> all_seen ds gs" "all_seen ds (gs @ [f])"
    and "channel_codec cod ce" "concat ds = encode_span_channel ce content"
    and dec: "span_batch_decode cod content (fr_l1_inclusion_block f) (cc_l2_chain_id (cfg_chain config)) = Ok b" "span_wf b"
    and "span_batch_status state config b = Ok Accept" "span_inputs state config b = i # is"
  shows "\<exists>q'. next_input cod state q = Ok (Some i, q') \<and> pending config is q'"
proof -
  let ?ch = "\<lparr>ch_id = cid, ch_data = concat ds, ch_l1_inclusion_block = fr_l1_inclusion_block f\<rparr>"
  let ?t = "batch_timestamp config (Span b)"
  obtain it pcs where ch: "channels_next batcher_transactions_next (bs_channel_iter q) =
      Ok (Some ?ch, (bs_channel_iter q)\<lparr>chs_batcher_tx_iter := it, chs_pending_channels := pcs\<rparr>)"
    "collecting cid ds [] ((bs_channel_iter q)\<lparr>chs_batcher_tx_iter := it, chs_pending_channels := pcs\<rparr>)"
    "bts_safe it" "bts_backlog it = []"
    using channels_next_frame [of cid ds gs "bs_channel_iter q" f "[]" config] assms(1-4) by (auto simp: holds_def Let_def)
  let ?c = "(bs_channel_iter q)\<lparr>chs_batcher_tx_iter := it, chs_pending_channels := pcs\<rparr>"
  have q: "bs_config q = config" "bs_pending_inputs q = []" "bs_batches q = []" using assms(1) by (simp_all add: holds_def Let_def)
  have batches: "decode_batches cod ?ch (cc_l2_chain_id (cfg_chain config)) = Ok [Span b]"
    using assms(5,6) dec(1) by (intro decode_span_channel) auto
  have "select_batch state config [(?t, Span b)] = Ok (Some (Span b), [])"
    using select_batch_Cons [of config ?t "Span b" "[]" state] assms(9) by (simp add: batch_status_def queue_inv_def)
  moreover have "as_inputs config (Span b) = Ok (map (span_block b config) [0..<unat (sp_block_count b)])"
    by (simp add: as_inputs_def span_block_inputs_wf [OF dec(2)])
  ultimately have "next_input cod state q = Ok (Some i, q\<lparr>bs_channel_iter := ?c, bs_batches := [], bs_pending_inputs := is\<rparr>)"
    using assms(10) q ch(1) batches
    by (simp add: batches_next_def try_next_def derive_next_def insert_batches_def span_inputs_def)
  then show ?thesis using assms(1) ch by (simp add: holds_def Let_def pending_def queue_idle_def collecting_def)
qed

lemma next_pending: "pending config (i # is) q \<Longrightarrow> \<exists>q'. next_input cod state q = Ok (Some i, q') \<and> pending config is q'"
  by (simp add: batches_next_def try_next_def pending_def queue_idle_def holds_def Let_def)

section \<open>Runs\<close>

lemma run_pending:
  assumes "pending config is q" "length states = length is"
  shows "\<exists>q'. input_run cod states q = Ok (map Some is, q') \<and> queue_idle config q'"
  using assms
proof (induction "is" arbitrary: q states)
  case Nil
  then show ?case using pending_Nil by auto
next
  case (Cons i "is")
  obtain state states' where st: "states = state # states'" using Cons.prems(2) by (cases states) auto
  obtain q1 where "next_input cod state q = Ok (Some i, q1)" "pending config is q1" using next_pending [OF Cons.prems(1)] by blast
  with Cons.IH [of q1 states'] Cons.prems(2) st show ?case by auto
qed

text \<open>What a batcher does with a span batch, and when its blocks can be derived.\<close>

definition span_frames ::
  "codec \<Rightarrow> config \<Rightarrow> channel_encoder \<Rightarrow> (u64 \<Rightarrow> bytes) \<Rightarrow> (tx_data \<Rightarrow> bytes) \<Rightarrow> span_content \<Rightarrow> u128 \<Rightarrow> bytes list \<Rightarrow>
   frame list \<Rightarrow> frame \<Rightarrow> bool" where
  "span_frames cod config ce enc_v enc_td c cid ds fs f \<longleftrightarrow>
     channel_codec cod ce \<and> span_encodable cod enc_v enc_td c \<and>
     concat ds = encode_span_channel ce (span_bytes enc_v enc_td c) \<and>
     channel_posted config cid ds (fs @ [f]) \<and> all_seen ds (fs @ [f]) \<and> \<not> all_seen ds fs"

definition span_posted ::
  "codec \<Rightarrow> config \<Rightarrow> channel_encoder \<Rightarrow> (u64 \<Rightarrow> bytes) \<Rightarrow> (tx_data \<Rightarrow> bytes) \<Rightarrow> span_content \<Rightarrow> u128 \<Rightarrow> bytes list \<Rightarrow>
   (u64 \<times> frame list) list \<Rightarrow> frame list \<Rightarrow> frame \<Rightarrow> bool" where
  "span_posted cod config ce enc_v enc_td c cid ds posts fs f \<longleftrightarrow>
     span_frames cod config ce enc_v enc_td c cid ds fs f \<and>
     (\<forall>(l1, gs) \<in> set posts. \<forall>f \<in> set gs. fr_l1_inclusion_block f = l1) \<and> concat (map snd posts) = fs @ [f]"

definition span_at :: "codec \<Rightarrow> config \<Rightarrow> span_content \<Rightarrow> frame \<Rightarrow> span_batch" where
  "span_at cod config c f = span_of cod (cc_l2_chain_id (cfg_chain config)) (fr_l1_inclusion_block f) c"

lemma run_delivers_span:
  assumes "holds config cid ds fs [f] [] q" "span_frames cod config ce enc_v enc_td c cid ds fs f"
    and "span_batch_status state config (span_at cod config c f) = Ok Accept" "span_inputs state config (span_at cod config c f) = i # is"
    and "length states = length is"
  shows "\<exists>q'. input_run cod (state # states) q = Ok (map Some (i # is), q') \<and> queue_idle config q'"
proof -
  have enc: "channel_codec cod ce" "span_encodable cod enc_v enc_td c" "concat ds = encode_span_channel ce (span_bytes enc_v enc_td c)"
    and posted: "channel_posted config cid ds (fs @ [f])" "\<not> all_seen ds fs" "all_seen ds (fs @ [f])"
    using assms(2) unfolding span_frames_def by blast+
  have dec: "span_batch_decode cod (span_bytes enc_v enc_td c) (fr_l1_inclusion_block f) (cc_l2_chain_id (cfg_chain config)) =
      Ok (span_at cod config c f)" "span_wf (span_at cod config c f)"
    unfolding span_at_def by (rule span_bytes_decode [OF enc(2)], rule span_of_wf [OF enc(2)])
  obtain q2 where q2: "next_input cod state q = Ok (Some i, q2)" "pending config is q2"
    using next_delivers_span [OF assms(1) posted enc(1,3) dec assms(3,4)] by blast
  then show ?thesis using run_pending [OF q2(2) assms(5), of cod] by auto
qed

section \<open>Posted span batches\<close>

text \<open>
  C5: The lower stages invert span batching. A batcher that encodes a span batch, compresses it as a channel, cuts it into frames
  and posts them in any order, over several L1 blocks, finds that the batch queue yields nothing until the last missing frame is read, and then, one
  block per call, exactly the inputs of the blocks of the batch that come after the safe head of that moment, with the transactions rebuilt from the
  columns; nothing is left behind in the stages.
\<close>

theorem posted_span_batch_comes_out:
  assumes "pipeline_idle config p" "span_posted cod config ce enc_v enc_td c cid ds posts fs f"
    and "length waits = length fs" "\<forall>state \<in> set waits. empty_input state config = None"
    and "span_batch_status state config (span_at cod config c f) = Ok Accept"
    and "span_inputs state config (span_at cod config c f) = i # is" "length states = length is"
  shows "\<exists>q. input_run cod (waits @ state # states) (queue_of (foldl post_frames p posts)) =
      Ok (replicate (length fs) None @ map Some (i # is), q) \<and> queue_idle config q"
proof -
  have posted: "span_frames cod config ce enc_v enc_td c cid ds fs f"
    "\<forall>(l1, gs) \<in> set posts. \<forall>f \<in> set gs. fr_l1_inclusion_block f = l1" "concat (map snd posts) = fs @ [f]"
    using assms(2) unfolding span_posted_def by blast+
  then have channel: "channel_posted config cid ds (fs @ [f])" "\<not> all_seen ds fs" unfolding span_frames_def by blast+
  have "queue_idle config (queue_of p)" using assms(1) by (simp add: pipeline_idle_def)
  then obtain q1 where q1: "input_run cod waits (queue_of (foldl post_frames p posts)) = Ok (replicate (length fs) None, q1)"
    "holds config cid ds fs [f] [] q1"
    using inputs_until_last [OF _ posted(2,3) channel assms(3,4)] by blast
  obtain q2 where "input_run cod (state # states) q1 = Ok (map Some (i # is), q2)" "queue_idle config q2"
    using run_delivers_span [OF q1(2) posted(1) assms(5-7)] by blast
  with input_run_append [OF q1(1)] show ?thesis by blast
qed

section \<open>Which blocks come after the safe head\<close>

text \<open>The batch has block number \<open>k\<close> right after the safe head, and its times stay within 64 bits.\<close>

definition aligned :: "derive_state \<Rightarrow> config \<Rightarrow> span_batch \<Rightarrow> nat \<Rightarrow> bool" where
  "aligned state config b k \<longleftrightarrow>
     (let start = unat (sp_rel_timestamp b + bi_timestamp (cc_l2_genesis (cfg_chain config)));
          blocktime = unat (cc_blocktime (cfg_chain config))
      in 0 < blocktime \<and> start + unat (sp_block_count b) * blocktime < 2 ^ 64 \<and>
         unat (bi_timestamp (st_safe_head state)) + blocktime = start + k * blocktime)"

lemma aligned_times:
  assumes "aligned state config b k" "j < unat (sp_block_count b)"
  shows "unat (bin_timestamp (span_block b config j)) =
    unat (sp_rel_timestamp b + bi_timestamp (cc_l2_genesis (cfg_chain config))) + j * unat (cc_blocktime (cfg_chain config))"
proof -
  let ?start = "sp_rel_timestamp b + bi_timestamp (cc_l2_genesis (cfg_chain config))" and ?bt = "cc_blocktime (cfg_chain config)"
  have "j * unat ?bt \<le> unat (sp_block_count b) * unat ?bt" using assms(2) by (intro mult_le_mono1) simp
  moreover have "unat ?start + unat (sp_block_count b) * unat ?bt < 2 ^ 64" using assms(1) by (simp only: aligned_def Let_def)
  ultimately have "unat ?start + j * unat ?bt < 2 ^ 64" by linarith
  moreover have "bin_timestamp (span_block b config j) = of_nat (unat ?start + j * unat ?bt)" by (simp add: span_block_def)
  ultimately show ?thesis by (simp only: unat_of_nat) (simp add: take_bit_nat_eq_self)
qed

lemma filter_upt_ge: "k \<le> n \<Longrightarrow> filter (\<lambda>j. k \<le> j) [0..<n] = [k..<n]"
  by (induction n) (auto simp: le_Suc_eq)

lemma aligned_span_inputs:
  assumes "aligned state config b k" "k \<le> unat (sp_block_count b)"
  shows "span_inputs state config b = map (span_block b config) [k..<unat (sp_block_count b)]"
proof -
  let ?bt = "unat (cc_blocktime (cfg_chain config))" and ?n = "unat (sp_block_count b)"
  have "bi_timestamp (st_safe_head state) < bin_timestamp (span_block b config j) \<longleftrightarrow> k \<le> j" if "j < ?n" for j
  proof -
    have "k * ?bt < Suc j * ?bt \<longleftrightarrow> k < Suc j" using assms(1) by (simp only: aligned_def Let_def mult_less_cancel2) simp
    then show ?thesis
      using aligned_times [OF assms(1) that] assms(1) by (auto simp: word_less_nat_alt aligned_def Let_def)
  qed
  then have "filter (\<lambda>j. bi_timestamp (st_safe_head state) < bin_timestamp (span_block b config j)) [0..<?n] = filter (\<lambda>j. k \<le> j) [0..<?n]"
    by (intro filter_cong) auto
  then show ?thesis
    using filter_upt_ge [OF assms(2)] by (simp add: span_inputs_def filter_inputs_def filter_map o_def)
qed

lemma aligned_next_time:
  assumes "aligned state config b k"
  shows "bi_timestamp (st_safe_head state) + cc_blocktime (cfg_chain config) = bin_timestamp (span_block b config k)"
proof -
  let ?start = "sp_rel_timestamp b + bi_timestamp (cc_l2_genesis (cfg_chain config))" and ?bt = "cc_blocktime (cfg_chain config)"
  have "(of_nat (unat (bi_timestamp (st_safe_head state)) + unat ?bt) :: u64) = of_nat (unat ?start + k * unat ?bt)"
    using assms by (simp only: aligned_def Let_def)
  then show ?thesis by (simp add: span_block_def)
qed

section \<open>A sample\<close>

text \<open>A chain after Delta, whose blocks have twice their number as their time; its blocks 99 and 100 are known, 100 is safe.\<close>

definition delta_config :: config where
  "delta_config = sample_config (optimism_sepolia\<lparr>cc_delta_time := 0, cc_blocktime := 2, cc_max_seq_drift := 100,
     cc_l2_genesis := \<lparr>bi_hash = 0, bi_number = 0, bi_parent_hash = 0, bi_timestamp = 0\<rparr>\<rparr>)"

definition sample_block :: "u64 \<Rightarrow> block_info" where
  "sample_block n = \<lparr>bi_hash = ucast n, bi_number = n, bi_parent_hash = ucast (n - 1), bi_timestamp = 2 * n\<rparr>"

definition delta_state :: "u64 \<Rightarrow> derive_state" where
  "delta_state n = (state_at (sample_block n))
     \<lparr>st_config := delta_config, st_l2_refs := map (\<lambda>k. (k, (sample_block k, epoch_of_info (sample_l1_info 16)))) [99, 100]\<rparr>"

text \<open>Three blocks, the first of which is the safe head; the second has a transaction, the third begins an epoch.\<close>

definition span_sample :: span_content where
  "span_sample =
     \<lparr>sc_rel_timestamp = 200, sc_l1_origin_num = 17, sc_parent_check = hash_prefix 99, sc_l1_origin_check = hash_prefix 1017,
      sc_origin_bits = [False, False, True], sc_counts = [0, 1, 0], sc_txs = [sample_span_tx]\<rparr>"

definition span_channel :: "bytes list" where
  "span_channel = (let data = encode_span_channel plain_encoder (span_bytes (to_be_bytes 8) (\<lambda>_. [0]) span_sample) in [take 100 data, drop 100 data])"

definition span_frame :: "nat \<Rightarrow> u64 \<Rightarrow> frame" where
  "span_frame i l1 = \<lparr>fr_channel_id = 5, fr_frame_number = of_nat i, fr_frame_data_len = of_nat (length (span_channel ! i)),
     fr_frame_data = span_channel ! i, fr_is_last = (i = 1), fr_l1_inclusion_block = l1\<rparr>"

definition span_blocks :: "u64 block_input list" where
  "span_blocks =
     [\<lparr>bin_timestamp = 202, bin_epoch = 16,
       bin_transactions = [span_tx_raw plain_codec (cc_l2_chain_id (cfg_chain delta_config)) sample_span_tx], bin_l1_inclusion_block = 20\<rparr>,
      \<lparr>bin_timestamp = 204, bin_epoch = 17, bin_transactions = [], bin_l1_inclusion_block = 20\<rparr>]"

lemma delta_config_chain [simp]:
  "cc_delta_time (cfg_chain delta_config) = 0" "cc_blocktime (cfg_chain delta_config) = 2"
  "cc_l2_genesis (cfg_chain delta_config) = \<lparr>bi_hash = 0, bi_number = 0, bi_parent_hash = 0, bi_timestamp = 0\<rparr>"
  "cc_seq_window_size (cfg_chain delta_config) = 3600" "cc_max_seq_drift (cfg_chain delta_config) = 100"
  "cc_channel_timeout (cfg_chain delta_config) = 300" "cc_max_channel_size (cfg_chain delta_config) = 100000000"
  by (simp_all add: delta_config_def optimism_sepolia_def)

lemma span_sample_encodable: "span_encodable plain_codec (to_be_bytes 8) (\<lambda>_. [0]) span_sample"
proof -
  have "varint_roundtrip plain_codec (to_be_bytes 8)"
    using varint_roundtrip_sample by (simp add: varint_roundtrip_def plain_codec_def)
  moreover have "rlp_tx_data plain_codec (stx_data sample_span_tx) [0]"
    by (simp add: rlp_tx_data_def rlp_spans_def sample_span_tx_def plain_codec_def) (simp add: sample_codec_def)
  ultimately show ?thesis by (simp add: span_encodable_def span_sample_def hash_prefix_def)
qed

lemma span_at_sample:
  "span_at plain_codec delta_config span_sample (span_frame 0 20) =
     \<lparr>sp_rel_timestamp = 200, sp_l1_origin_num = 17, sp_parent_check = hash_prefix 99, sp_l1_origin_check = hash_prefix 1017,
      sp_block_count = 3, sp_origin_bits = [False, False, True], sp_block_tx_counts = [0, 1, 0],
      sp_transactions = [span_tx_raw plain_codec (cc_l2_chain_id (cfg_chain delta_config)) sample_span_tx], sp_l1_inclusion_block = 20\<rparr>"
  by (simp add: span_at_def span_of_def span_sample_def span_frame_def plain_externals_def)


lemma delta_state_fields [simp]:
  "st_safe_head (delta_state n) = sample_block n" "st_safe_epoch (delta_state n) = epoch_of_info (sample_l1_info 16)"
  "st_config (delta_state n) = delta_config" "st_current_epoch_num (delta_state n) = 20"
  by (simp_all add: delta_state_def state_at_def)

lemma delta_state_l1:
  "l1_info_by_number (delta_state n) 16 = Some (sample_l1_info 16)" "l1_info_by_number (delta_state n) 17 = Some (sample_l1_info 17)"
  "l1_info_by_number (delta_state n) 18 = None"
  by (simp_all add: l1_info_by_number_def delta_state_def state_at_def bt_get_def)

lemma delta_state_l2:
  "l2_info_by_timestamp (delta_state n) 198 = Ok (Some (sample_block 99, epoch_of_info (sample_l1_info 16)))"
  "l2_info_by_timestamp (delta_state n) 199 = Ok (Some (sample_block 99, epoch_of_info (sample_l1_info 16)))"
  "l2_info_by_timestamp (delta_state n) 200 = Ok (Some (sample_block 100, epoch_of_info (sample_l1_info 16)))"
  "l2_info_by_timestamp (delta_state n) 201 = Ok (Some (sample_block 100, epoch_of_info (sample_l1_info 16)))"
  by (simp_all add: l2_info_by_timestamp_def checked_div_def Let_def) (simp_all add: delta_state_def bt_get_def)

lemma sample_epoch [simp]:
  "ep_number (epoch_of_info (sample_l1_info n)) = n" "ep_timestamp (epoch_of_info (sample_l1_info n)) = 12 * n"
  "ep_hash (epoch_of_info (sample_l1_info n)) = 1000 + ucast n"
  by (simp_all add: epoch_of_info_def sample_l1_info_def)

lemma sample_block_fields [simp]: "bi_hash (sample_block n) = ucast n" "bi_number (sample_block n) = n" "bi_timestamp (sample_block n) = 2 * n"
  by (simp_all add: sample_block_def)

lemma state_inv_delta_state: "state_inv (delta_state n)"
  using state_inv_state_at [of "sample_block n"] by (simp add: state_inv_def l1_consistent_def delta_state_def bt_inv_def)

lemmas span_sample_simps = delta_state_l1 delta_state_l2 span_block_def epoch_by_number_def start_epoch_num_def origin_bit_sum_def
  index_def set_bits_def txs_before_def

lemma upt_samples [simp]: "[0..<3] = [0, 1, 2 :: nat]" "[0..<2] = [0, 1 :: nat]"
  by (simp_all add: upt_rec)

lemma span_sample_inputs:
  "span_inputs (delta_state 100) delta_config (span_at plain_codec delta_config span_sample (span_frame 0 20)) = span_blocks"
  by (simp add: span_inputs_def span_at_sample span_blocks_def filter_inputs_def span_sample_simps)

lemma span_sample_accepted:
  "span_batch_status (delta_state 100) delta_config (span_at plain_codec delta_config span_sample (span_frame 0 20)) = Ok Accept"
proof -
  have "span_wf (span_at plain_codec delta_config span_sample (span_frame 0 20))"
    by (simp add: span_at_sample span_wf_def)
  from span_block_inputs_wf [OF this] show ?thesis
    by (simp add: span_batch_status_def span_at_sample span_sample_simps Let_def)
qed

lemma span_channel_length [simp]: "span_channel \<noteq> []" "length span_channel = 2" "length (span_channel ! 0) = 100"
  "length (span_channel ! Suc 0) = length (encode_span_channel plain_encoder (span_bytes (to_be_bytes 8) (\<lambda>_. [0]) span_sample)) - 100"
  "concat span_channel = encode_span_channel plain_encoder (span_bytes (to_be_bytes 8) (\<lambda>_. [0]) span_sample)"
  by (simp_all add: span_channel_def encode_span_channel_def plain_encoder_def span_bytes_def span_batch_bytes_def span_sample_def hash_prefix_def Let_def)

lemma encode_bits_short: "bs \<noteq> [] \<Longrightarrow> length bs \<le> 8 \<Longrightarrow> length (encode_bits bs) = 1"
  by (simp add: encode_bits.simps [of bs] encode_bits.simps [of "[]"])

lemma span_data_short: "length (encode_span_channel plain_encoder (span_bytes (to_be_bytes 8) (\<lambda>_. [0]) span_sample)) < 1000"
  by (simp add: encode_span_channel_def plain_encoder_def span_bytes_def span_batch_bytes_def span_sample_def hash_prefix_def
      encode_bitlist_def span_txs_bytes_def sample_span_tx_def encode_bits_short)

lemma span_frame_of: "frame_of 5 span_channel (span_frame 0 l1)" "frame_of 5 span_channel (span_frame (Suc 0) l1)"
  using span_data_short by (simp_all add: frame_of_def span_frame_def frame_wf_def unat_of_nat take_bit_nat_eq_self)

lemma span_sample_posted:
  "span_posted plain_codec delta_config plain_encoder (to_be_bytes 8) (\<lambda>_. [0]) span_sample 5 span_channel
     [(19, [span_frame (Suc 0) 19]), (20, [span_frame 0 20])] [span_frame (Suc 0) 19] (span_frame 0 20)"
proof -
  have nums: "fr_frame_number (span_frame (Suc 0) 19) = 1" "fr_frame_number (span_frame 0 20) = 0"
    "fr_l1_inclusion_block (span_frame (Suc 0) 19) = 19" "fr_l1_inclusion_block (span_frame 0 20) = 20"
    by (simp_all add: span_frame_def)
  have "channel_posted delta_config 5 span_channel ([span_frame (Suc 0) 19] @ [span_frame 0 20])"
    using span_frame_of span_data_short by (auto simp: channel_posted_def within_timeout_def nums)
  moreover have "all_seen span_channel ([span_frame (Suc 0) 19] @ [span_frame 0 20])" "\<not> all_seen span_channel [span_frame (Suc 0) 19]"
    by (simp_all add: all_seen_def frame_numbers_def nums lessThan_nat_numeral lessThan_Suc insert_commute)
  ultimately show ?thesis
    using span_sample_encodable plain_channel_codec by (simp add: span_posted_def span_frames_def nums plain_externals_def)
qed

theorem posted_span_batch_comes_out_witness:
  "\<exists>q. input_run plain_codec [delta_state 100, delta_state 100, delta_state 101]
      (queue_of (foldl post_frames (pipeline_new sample_state delta_config 0) [(19, [span_frame (Suc 0) 19]), (20, [span_frame 0 20])])) =
    Ok (None # map Some span_blocks, q)"
proof -
  have "empty_input (delta_state 100) delta_config = None"
    by (simp add: empty_input_def epoch_by_number_def delta_state_l1 Let_def)
  then show ?thesis
    using posted_span_batch_comes_out [OF pipeline_idle_new span_sample_posted, of "[delta_state 100]" "delta_state 100" _ _ "[delta_state 101]"
        sample_state 0] span_sample_accepted span_sample_inputs
    by (auto simp: span_blocks_def)
qed

text \<open>A driver on this chain.\<close>

definition delta_driver :: "client driver" where
  "delta_driver = ready_driver
     \<lparr>dr_pipeline := pipeline_new sample_state delta_config 0, dr_state := delta_state 100,
      dr_engine_driver := engine_driver_new ([sample_block 100], None) (sample_block 100) (epoch_of_info (sample_l1_info 16)) delta_config\<rparr>"

lemma l1_info_update_safe_head: "l1_info_by_number (update_safe_head state head epoch) n = l1_info_by_number state n"
  by (simp add: l1_info_by_number_def update_safe_head_def Let_def)

section \<open>What the check of span batches requires\<close>

text \<open>A block is not older than its origin and does not drift too far from it; an empty one may, until the next epoch must be adopted.\<close>

definition in_drift :: "derive_state \<Rightarrow> config \<Rightarrow> bool \<Rightarrow> u64 block_input \<Rightarrow> bool" where
  "in_drift state config new_epoch i \<longleftrightarrow>
     (\<exists>origin. epoch_by_number state (bin_epoch i) = Some origin \<and> ep_timestamp origin \<le> bin_timestamp i \<and>
        (ep_timestamp origin + cc_max_seq_drift (cfg_chain config) < bin_timestamp i \<longrightarrow>
           bin_transactions i = [] \<and>
           (new_epoch \<or> (\<exists>e. epoch_by_number state (bin_epoch i + 1) = Some e \<and> bin_timestamp i < ep_timestamp e))))"

text \<open>A block that overlaps the safe chain has the epoch of the block there.\<close>

definition overlaps_well :: "derive_state \<Rightarrow> config \<Rightarrow> u64 block_input \<Rightarrow> bool" where
  "overlaps_well state config i \<longleftrightarrow>
     (bin_timestamp i < bi_timestamp (st_safe_head state) + cc_blocktime (cfg_chain config) \<longrightarrow>
        (\<exists>block e. l2_info_by_timestamp state (bin_timestamp i) = Ok (Some (block, e)) \<and> ep_number e = bin_epoch i))"

lemma span_drift_check_passes:
  "i + length inputs \<le> length (sp_origin_bits b) \<Longrightarrow>
   span_drift_check state config b i inputs = Ok None \<longleftrightarrow>
     (\<forall>j < length inputs. in_drift state config (sp_origin_bits b ! (i + j)) (inputs ! j))"
proof (induction inputs arbitrary: i)
  case (Cons input inputs)
  have "span_drift_check state config b i (input # inputs) = Ok None \<longleftrightarrow>
      in_drift state config (sp_origin_bits b ! i) input \<and> span_drift_check state config b (i + 1) inputs = Ok None"
    using Cons.prems
    by (cases "epoch_by_number state (bin_epoch input)"; cases "epoch_by_number state (bin_epoch input + 1)")
      (auto simp: in_drift_def index_def Let_def not_less not_le)
  then show ?case using Cons.IH [of "i + 1"] Cons.prems by (simp add: All_less_Suc2)
qed simp

lemma span_overlap_check_passes:
  "span_overlap_check state (bi_timestamp (st_safe_head state) + cc_blocktime (cfg_chain config)) inputs = Ok None \<longleftrightarrow>
     (\<forall>i \<in> set inputs. overlaps_well state config i)"
proof (induction inputs)
  case (Cons input inputs)
  then show ?case
    by (cases "l2_info_by_timestamp state (bin_timestamp input)") (auto simp: overlaps_well_def split: option.splits)
qed simp

lemma span_checks_not_Accept:
  "span_drift_check state config b i inputs \<noteq> Ok (Some Accept)" "span_overlap_check state t inputs \<noteq> Ok (Some Accept)"
proof -
  show "span_drift_check state config b i inputs \<noteq> Ok (Some Accept)"
    by (induction inputs arbitrary: i) (auto simp: outcome_simps Let_def split: if_splits option.splits)
  show "span_overlap_check state t inputs \<noteq> Ok (Some Accept)"
    by (induction inputs) (auto simp: outcome_simps split: if_splits option.splits)
qed

text \<open>The checks in their order: the batch passes if it passes them all.\<close>

lemma passes_checks:
  assumes "drift \<noteq> Ok (Some Accept)" "overlap \<noteq> Ok (Some Accept)"
  shows "(if A then Ok Drop else if B then Ok Future else
      case origin of None \<Rightarrow> Ok Undecided | Some x \<Rightarrow>
        if D x then Ok Drop else and_then parent (\<lambda>prev. case prev of None \<Rightarrow> Ok Drop | Some (p, e) \<Rightarrow>
          if H p then Ok Drop else if W then Ok Drop else if N p then Ok Drop else
          case last_epoch of None \<Rightarrow> Ok Drop | Some l \<Rightarrow>
            if C l then Ok Drop else if F e then Ok Drop else
            and_then drift (\<lambda>r. case r of Some status \<Rightarrow> Ok status | None \<Rightarrow>
            and_then overlap (\<lambda>r. case r of Some status \<Rightarrow> Ok status | None \<Rightarrow> Ok Accept)))) = Ok Accept \<longleftrightarrow>
    \<not> A \<and> \<not> B \<and> (\<exists>x. origin = Some x \<and> \<not> D x) \<and> (\<exists>p e. parent = Ok (Some (p, e)) \<and> \<not> H p \<and> \<not> N p \<and> \<not> F e) \<and> \<not> W \<and>
    (\<exists>l. last_epoch = Some l \<and> \<not> C l) \<and> drift = Ok None \<and> overlap = Ok None"
proof (cases "A \<or> B \<or> origin = None")
  case False
  then obtain x where x: "origin = Some x" "\<not> A" "\<not> B" by auto
  show ?thesis
  proof (cases "\<exists>p e. parent = Ok (Some (p, e))")
    case True
    then obtain p e where "parent = Ok (Some (p, e))" by blast
    then show ?thesis using x assms
      by (cases last_epoch; cases drift; cases overlap) (auto split: option.splits)
  next
    case False
    then show ?thesis using x by (cases parent) (auto split: option.splits)
  qed
qed auto

text \<open>
  C11: A span batch is accepted exactly if it ends at the next block or later and starts there or before, its first epoch is not before the Delta upgrade,
  the block before its first one is known and has the hash it claims, it was included in the sequencing window of its first epoch, which is neither
  before the epoch of that block nor above the number of that block by more than one, its last epoch is known and has the hash
  it claims, every block is within the drift that its epoch allows, and every block that overlaps the safe chain has the epoch
  of the block there.
\<close>

theorem span_batch_accept_iff:
  fixes state config b
  defines "start \<equiv> sp_rel_timestamp b + bi_timestamp (cc_l2_genesis (cfg_chain config))"
    and "blocktime \<equiv> cc_blocktime (cfg_chain config)"
  defines "after \<equiv> bi_timestamp (st_safe_head state) + blocktime"
    and "blocks \<equiv> map (span_block b config) [0..<unat (sp_block_count b)]"
  assumes "span_wf b" "sp_block_count b \<noteq> 0"
  shows "span_batch_status state config b = Ok Accept \<longleftrightarrow>
    after \<le> start + sp_block_count b * blocktime \<and> start \<le> after \<and>
    (\<exists>origin. (if bin_epoch (hd blocks) = ep_number (st_safe_epoch state) + 1 then epoch_by_number state (bin_epoch (hd blocks))
        else Some (st_safe_epoch state)) = Some origin \<and> cc_delta_time (cfg_chain config) \<le> ep_timestamp origin) \<and>
    (\<exists>parent e. l2_info_by_timestamp state (start - blocktime) = Ok (Some (parent, e)) \<and> hash_prefix (bi_hash parent) = sp_parent_check b \<and>
       bin_epoch (hd blocks) \<le> bi_number parent + 1 \<and> ep_number e \<le> bin_epoch (hd blocks)) \<and>
    sp_l1_inclusion_block b \<le> bin_epoch (hd blocks) + cc_seq_window_size (cfg_chain config) \<and>
    (\<exists>e. epoch_by_number state (sp_l1_origin_num b) = Some e \<and> hash_prefix (ep_hash e) = sp_l1_origin_check b) \<and>
    (\<forall>j < length blocks. in_drift state config (sp_origin_bits b ! j) (blocks ! j)) \<and>
    (\<forall>i \<in> set blocks. overlaps_well state config i)"
proof -
  let ?epoch = "bin_epoch (hd blocks)" and ?chain = "cfg_chain config"
  have first: "start_epoch_num b = Ok ?epoch"
    using span_block_inputs_correct [OF assms(5,6), of config] span_block_inputs_wf [OF assms(5), of config] by (auto simp: blocks_def)
  have inputs: "span_block_inputs b config = Ok blocks" unfolding blocks_def by (rule span_block_inputs_wf [OF assms(5)])
  have "length (sp_origin_bits b) = length blocks" using assms(5) by (simp add: span_wf_def blocks_def)
  then have drift: "span_drift_check state config b 0 blocks = Ok None \<longleftrightarrow>
      (\<forall>j < length blocks. in_drift state config (sp_origin_bits b ! j) (blocks ! j))"
    using span_drift_check_passes [of 0 blocks b state config] by simp
  have "span_batch_status state config b = Ok Accept \<longleftrightarrow>
    \<not> start + sp_block_count b * blocktime < after \<and> \<not> after < start \<and>
    (\<exists>origin. (if ?epoch = ep_number (st_safe_epoch state) + 1 then epoch_by_number state (ep_number (st_safe_epoch state) + 1)
        else Some (st_safe_epoch state)) = Some origin \<and> \<not> ep_timestamp origin < cc_delta_time ?chain) \<and>
    (\<exists>p e. l2_info_by_timestamp state (start - blocktime) = Ok (Some (p, e)) \<and> \<not> hash_prefix (bi_hash p) \<noteq> sp_parent_check b \<and>
       \<not> bi_number p + 1 < ?epoch \<and> \<not> ?epoch < ep_number e) \<and>
    \<not> ?epoch + cc_seq_window_size ?chain < sp_l1_inclusion_block b \<and>
    (\<exists>e. epoch_by_number state (sp_l1_origin_num b) = Some e \<and> \<not> sp_l1_origin_check b \<noteq> hash_prefix (ep_hash e)) \<and>
    span_drift_check state config b 0 blocks = Ok None \<and> span_overlap_check state after blocks = Ok None"
    unfolding span_batch_status_def Let_def first inputs and_then.simps start_def after_def blocktime_def
    by (rule passes_checks [OF span_checks_not_Accept])
  then show ?thesis
    unfolding drift after_def blocktime_def span_overlap_check_passes by (auto simp: not_less)
qed

theorem span_batch_accept_iff_witness:
  "let b = span_at plain_codec delta_config span_sample (span_frame 0 20);
       blocks = map (span_block b delta_config) [0..<3]
   in (\<forall>j < 3. in_drift (delta_state 100) delta_config (sp_origin_bits b ! j) (blocks ! j)) \<and>
      (\<forall>i \<in> set blocks. overlaps_well (delta_state 100) delta_config i)"
proof -
  let ?b = "span_at plain_codec delta_config span_sample (span_frame 0 20)"
  have "span_wf ?b" "sp_block_count ?b \<noteq> 0" "unat (sp_block_count ?b) = 3" by (simp_all add: span_at_sample span_wf_def)
  with span_batch_accept_iff [of ?b "delta_state 100" delta_config] span_sample_accepted show ?thesis
    by (simp only: Let_def length_map length_upt) simp
qed

section \<open>What the check of span batches lets through\<close>

text \<open>
  Nothing compares the start of a span batch with the times of blocks: the parent is found by a division that rounds down. A batch that
  starts at an odd time is accepted on a chain with a block every two seconds, and yields a block one second after the safe head.
\<close>

definition odd_span :: span_batch where
  "odd_span =
     \<lparr>sp_rel_timestamp = 201, sp_l1_origin_num = 16, sp_parent_check = hash_prefix 99, sp_l1_origin_check = hash_prefix 1016,
      sp_block_count = 1, sp_origin_bits = [False], sp_block_tx_counts = [0], sp_transactions = [], sp_l1_inclusion_block = 20\<rparr>"

lemma misaligned_span_accepted:
  "bi_timestamp (st_safe_head (delta_state 100)) = 200 \<and> cc_blocktime (cfg_chain delta_config) = 2 \<and>
   span_batch_status (delta_state 100) delta_config odd_span = Ok Accept \<and>
   map bin_timestamp (span_inputs (delta_state 100) delta_config odd_span) = [201]"
proof -
  have "span_wf odd_span" by (simp add: odd_span_def span_wf_def)
  from span_block_inputs_wf [OF this] show ?thesis
    by (simp add: span_batch_status_def odd_span_def span_inputs_def filter_inputs_def span_sample_simps Let_def)
qed

text \<open>
  The end of a span batch is computed as one block time after its last block. A batch that ends with the safe head is therefore accepted instead of
  dropped; it has no new block, so the call that takes it from the queue yields nothing, although the queue may hold the batch that comes next.
\<close>

definition past_span :: span_batch where
  "past_span = odd_span\<lparr>sp_rel_timestamp := 200\<rparr>"

lemma past_span_accepted:
  assumes "200 \<notin> fst ` set later"
  shows "span_batch_status (delta_state 100) delta_config past_span = Ok Accept \<and>
   batches_next cod (\<lambda>it. Ok (None, it)) (delta_state 100)
     \<lparr>bs_batches = (200, Span past_span) # later, bs_pending_inputs = [], bs_channel_iter = (), bs_config = delta_config\<rparr> =
   Ok (None, \<lparr>bs_batches = later, bs_pending_inputs = [], bs_channel_iter = (), bs_config = delta_config\<rparr>)"
proof -
  have "span_wf past_span" by (simp add: past_span_def odd_span_def span_wf_def)
  from span_block_inputs_wf [OF this] have
    status: "span_batch_status (delta_state 100) delta_config past_span = Ok Accept" and
    inputs: "as_inputs delta_config (Span past_span) = Ok [span_block past_span delta_config 0]"
    by (simp_all add: span_batch_status_def past_span_def odd_span_def as_inputs_def span_sample_simps Let_def)
  moreover have "batch_timestamp delta_config (Span past_span) = 200"
    by (simp add: batch_timestamp_def past_span_def odd_span_def)
  ultimately have "select_batch (delta_state 100) delta_config ((200, Span past_span) # later) =
      Ok (Some (Span past_span), later)"
    using assms by (subst select_batch.simps) (auto simp: batch_status_def bt_remove_def filter_id_conv)
  then show ?thesis using status inputs
    by (simp add: batches_next_def try_next_def derive_next_def filter_inputs_def span_block_def past_span_def odd_span_def)
qed

end
