(* ===== verification/L1_Safe_Chain.thy ===== *)
theory L1_Safe_Chain
  imports Span_Derivation
begin

text \<open>
  From L1 blocks to the first block to derive: the driver of \<^verbatim>\<open>src/src/driver/mod.rs\<close> with a channel of updates in which the watcher has put L1 blocks
  that carry the frames of a channel. Iterations of the driver's loop take the blocks one by one, push their data into
  the pipeline and keep the frames read so far. The iteration that reads the last frame has a block to derive, and panics: the gas
  limit of its attributes is converted with \<^verbatim>\<open>to_be_bytes::<8>\<close> of a 256-bit integer, which \<^verbatim>\<open>ruint\<close> documents to
  panic (\<open>exact_width\<close>, \<^verbatim>\<open>src/src/derive/stages/attributes.rs\<close> line 106).

  An iteration reads at most one frame, so several frames in one L1 block take several iterations; \<open>gathering\<close> says what the driver holds between
  iterations. The results are stated for channels of single batches and for channels with a span batch.
\<close>

section \<open>An iteration\<close>

text \<open>The first part of an iteration: an update is taken, and the derivation state gets the safe head.\<close>

definition receive :: "('e driver, unit) action" where
  "receive = bind_action handle_next_block_update (\<lambda>_. modify update_state_head)"

lemma advance_safe_head_receive:
  "advance_safe_head fuel ex eng get_block = bind_action receive (\<lambda>_. derive_blocks fuel ex eng get_block)"
  by (simp add: fun_eq_iff advance_safe_head_def receive_def bind_action_def split: prod.splits outcome.splits)

text \<open>The derivation state after an L1 block has been taken.\<close>

definition taken :: "'e engine_driver \<Rightarrow> derive_state \<Rightarrow> l1_info \<Rightarrow> derive_state" where
  "taken ed s info =
     (case update_l1_info s info of
        Ok s' \<Rightarrow> update_safe_head s' (ed_safe_head ed) (ed_safe_epoch ed)
      | _ \<Rightarrow> s)"

lemma update_l1_info_total:
  "cc_blocktime (cfg_chain (st_config s)) \<noteq> 0 \<Longrightarrow> \<exists>s'. update_l1_info s info = Ok s' \<and> st_config s' = st_config s \<and>
     st_current_epoch_num s' = l1b_number (l1i_block_info info)"
  by (simp add: update_l1_info_def state_prune_def checked_div_def Let_def split: prod.splits)

lemma receive_block:
  assumes "cw_block_update_receiver (dr_chain_watcher d) = Some (NewBlock info # us)" "dr_signer_received d"
    and "cc_blocktime (cfg_chain (st_config (dr_state d))) \<noteq> 0"
  shows "receive d = (Ok (), d
    \<lparr>dr_chain_watcher := (dr_chain_watcher d)\<lparr>cw_block_update_receiver := Some us\<rparr>,
     dr_unsafe_block_signer := sc_unsafe_block_signer (l1i_system_config info),
     dr_pipeline := push_batcher_transactions (dr_pipeline d) (l1i_batcher_transactions info) (l1b_number (l1i_block_info info)),
     dr_state := taken (dr_engine_driver d) (dr_state d) info\<rparr>)"
proof -
  obtain s' where "update_l1_info (dr_state d) info = Ok s'" using update_l1_info_total [OF assms(3)] by blast
  then show ?thesis using assms(1,2)
    by (simp add: receive_def handle_next_block_update_def attempt_def on_watcher_def zoom_def try_recv_from_channel_def bind_action_def
        with_state_def lift_outcome_def handle_new_block_def send_signer_def update_state_def modify_def Let_def taken_def update_state_head_def)
qed

lemma receive_nothing:
  "cw_block_update_receiver (dr_chain_watcher d) = Some [] \<Longrightarrow> receive d = (Ok (), update_state_head d)"
  by (simp add: receive_def handle_next_block_update_def attempt_def on_watcher_def zoom_def try_recv_from_channel_def bind_action_def
      with_state_def lift_outcome_def modify_def)

text \<open>No gossip is waiting, and no block is about to be finalized.\<close>

definition quiet :: "'e driver \<Rightarrow> bool" where
  "quiet d \<longleftrightarrow> dr_signer_received d \<and> dr_unsafe_block_recv d = [] \<and> dr_future_unsafe_blocks d = [] \<and>
     list_all (\<lambda>(_, _, inclusion, _). dr_finalized_l1_block_number d < inclusion) (dr_unfinalized_blocks d)"

definition networked :: "'e driver \<Rightarrow> 'e driver" where
  "networked d = (if synced d \<and> dr_network_service d then d\<lparr>dr_network_service := False\<rparr> else d)"

lemma networked_simps [simp]:
  "dr_engine_driver (networked d) = dr_engine_driver d" "dr_state (networked d) = dr_state d" "dr_pipeline (networked d) = dr_pipeline d"
  "dr_unfinalized_blocks (networked d) = dr_unfinalized_blocks d" "dr_chain_watcher (networked d) = dr_chain_watcher d"
  "quiet (networked d) = quiet d"
  by (simp_all add: networked_def quiet_def level_def)

lemma update_finalized_quiet: "quiet d \<Longrightarrow> update_finalized d = d"
proof -
  assume "quiet d"
  then have "[(h, e, inclusion, seq) \<leftarrow> dr_unfinalized_blocks d. inclusion \<le> dr_finalized_l1_block_number d \<and> seq = 0] = []"
    "[(h, e, inclusion, seq) \<leftarrow> dr_unfinalized_blocks d. dr_finalized_l1_block_number d < inclusion] = dr_unfinalized_blocks d"
    by (auto simp: quiet_def list_all_iff filter_empty_conv filter_id_conv)
  then show ?thesis by (simp add: update_finalized_def)
qed

lemma advance_quiet:
  assumes "advance_safe_head fuel ex eng get_block d = (Ok (), d1)" "quiet d1"
  shows "advance fuel ex eng get_block (Ok ()) d = (Ok (), networked d1)"
proof -
  have "collect_unsafe_blocks d1 = d1" using assms(2) by (simp add: collect_unsafe_blocks_def quiet_def)
  then have "advance_unsafe_head eng d1 = (Ok (), d1)"
    using assms(2) by (simp add: advance_unsafe_head_def bind_action_def modify_def with_state_def lift_outcome_def quiet_def)
  then show ?thesis
    using assms(1) update_finalized_quiet [OF assms(2)]
    by (simp add: advance_def bind_action_def modify_def try_start_networking_def with_state_def lift_outcome_def networked_def)
qed

lemma advance_waits:
  assumes "receive d = (Ok (), d1)" "quiet d1" "pipeline_next ex (dr_state d1) (dr_pipeline d1) = Ok (None, p)"
  shows "advance (Suc fuel) ex eng get_block (Ok ()) d = (Ok (), networked (d1\<lparr>dr_pipeline := p\<rparr>))"
proof (rule advance_quiet)
  show "advance_safe_head (Suc fuel) ex eng get_block d = (Ok (), d1\<lparr>dr_pipeline := p\<rparr>)"
    using assms(1,3)
    by (simp add: advance_safe_head_receive bind_action_def take_attributes_def with_state_def lift_outcome_def modify_def)
  show "quiet (d1\<lparr>dr_pipeline := p\<rparr>)" using assms(2) by (simp add: quiet_def)
qed


section \<open>Gathering the frames of a channel\<close>

lemma next_nothing:
  assumes "holds config cid ds gs [] [] q" "empty_input state config = None"
  shows "\<exists>q'. next_input cod state q = Ok (None, q') \<and> holds config cid ds gs [] [] q'"
proof -
  let ?c = "bs_channel_iter q"
  obtain it where "channels_next batcher_transactions_next ?c = Ok (None, ?c\<lparr>chs_batcher_tx_iter := it\<rparr>)" "bts_safe it" "bts_backlog it = []"
    using batcher_transactions_next_safe [of "chs_batcher_tx_iter ?c"] assms(1)
    by (auto simp: channels_next_def process_frames_def fill_bank_def collecting_def holds_def Let_def)
  then show ?thesis using assms
    by (simp add: holds_def Let_def batches_next_def try_next_def derive_next_def select_batch.simps collecting_def)
qed

lemma channel_posted_prefix: "channel_posted config cid ds (fs @ hs) \<Longrightarrow> channel_posted config cid ds fs"
  by (auto simp: channel_posted_def sorted_append dest: within_timeout_prefix)

text \<open>The L1 blocks in the channel of updates, each with the frames it carries, within the sequencing window of an epoch.\<close>

definition carrying :: "config \<Rightarrow> epoch \<Rightarrow> (l1_info \<times> frame list) list \<Rightarrow> bool" where
  "carrying config epoch posts \<longleftrightarrow>
     (\<forall>(info, fs) \<in> set posts.
        l1i_batcher_transactions info = map (\<lambda>f. 0 # frame_bytes f) fs \<and>
        (\<forall>f \<in> set fs. fr_l1_inclusion_block f = l1b_number (l1i_block_info info)) \<and>
        l1b_number (l1i_block_info info) \<le> ep_number epoch + cc_seq_window_size (cfg_chain config))"

definition frames_of :: "(l1_info \<times> frame list) list \<Rightarrow> frame list" where
  "frames_of posts = concat (map snd posts)"

text \<open>Between iterations: the frames \<open>gs\<close> have been read, \<open>fs\<close> are in the pipeline, and the blocks of \<open>posts\<close> are still to be taken.\<close>

definition gathering ::
  "config \<Rightarrow> u128 \<Rightarrow> bytes list \<Rightarrow> frame list \<Rightarrow> frame list \<Rightarrow>
   (l1_info \<times> frame list) list \<Rightarrow> 'e driver \<Rightarrow> bool" where
  "gathering config cid ds gs fs posts d \<longleftrightarrow>
     quiet d \<and> pp_pending_attributes (dr_pipeline d) = None \<and> holds config cid ds gs fs [] (queue_of (dr_pipeline d)) \<and>
     cw_block_update_receiver (dr_chain_watcher d) = Some (map (\<lambda>(info, _). NewBlock info) posts) \<and>
     cc_blocktime (cfg_chain (st_config (dr_state d))) \<noteq> 0 \<and>
     carrying config (ed_safe_epoch (dr_engine_driver d)) posts \<and> channel_posted config cid ds (gs @ fs @ frames_of posts) \<and>
     st_current_epoch_num (dr_state d) \<le> ep_number (ed_safe_epoch (dr_engine_driver d)) + cc_seq_window_size (cfg_chain config)"

text \<open>What an iteration that derives nothing leaves alone.\<close>

definition same_chain :: "'e driver \<Rightarrow> 'e driver \<Rightarrow> bool" where
  "same_chain d d' \<longleftrightarrow> dr_engine_driver d' = dr_engine_driver d \<and> dr_unfinalized_blocks d' = dr_unfinalized_blocks d \<and>
     dr_finalized_l1_block_number d' = dr_finalized_l1_block_number d"

definition state_settled :: "'e driver \<Rightarrow> bool" where
  "state_settled d \<longleftrightarrow> dr_state (update_state_head d) = dr_state d"

lemma bt_insert_twice: "bt_insert k v (bt_insert k v m) = bt_insert k v m"
  by (induction k v m rule: bt_insert.induct) auto

lemma update_safe_head_twice: "update_safe_head (update_safe_head s h e) h e = update_safe_head s h e"
  by (simp add: update_safe_head_def Let_def bt_insert_twice)

lemma receive_gathers:
  assumes "gathering config cid ds gs fs ((info, hs) # posts) d"
  shows "\<exists>d1. receive d = (Ok (), d1) \<and> gathering config cid ds gs (fs @ hs) posts d1 \<and> same_chain d d1 \<and>
    state_settled d1 \<and> dr_state d1 = taken (dr_engine_driver d) (dr_state d) info"
proof -
  let ?ed = "dr_engine_driver d" and ?l1 = "l1b_number (l1i_block_info info)"
  have g: "quiet d" "pp_pending_attributes (dr_pipeline d) = None" "holds config cid ds gs fs [] (queue_of (dr_pipeline d))"
    "cw_block_update_receiver (dr_chain_watcher d) = Some (NewBlock info # map (\<lambda>(info, _). NewBlock info) posts)"
    "cc_blocktime (cfg_chain (st_config (dr_state d))) \<noteq> 0" "carrying config (ed_safe_epoch ?ed) ((info, hs) # posts)"
    "channel_posted config cid ds (gs @ fs @ hs @ frames_of posts)"
    using assms by (simp_all add: gathering_def frames_of_def)
  obtain s' where s': "update_l1_info (dr_state d) info = Ok s'" "st_config s' = st_config (dr_state d)" "st_current_epoch_num s' = ?l1"
    using update_l1_info_total [OF g(5)] by blast
  have wf: "\<forall>f \<in> set hs. frame_wf f \<and> fr_l1_inclusion_block f = ?l1"
    using g(6,7) by (auto simp: carrying_def channel_posted_def frame_of_def)
  have push: "push_batcher_transactions (dr_pipeline d) (l1i_batcher_transactions info) ?l1 = post_frames (dr_pipeline d) (?l1, hs)"
    using g(6) by (simp add: carrying_def post_frames_def)
  have "holds config cid ds gs (fs @ hs) [] (queue_of (post_frames (dr_pipeline d) (?l1, hs)))" by (rule holds_post [OF g(3) wf])
  moreover have "carrying config (ed_safe_epoch ?ed) posts" "?l1 \<le> ep_number (ed_safe_epoch ?ed) + cc_seq_window_size (cfg_chain config)"
    using g(6) by (simp_all add: carrying_def)
  moreover have "dr_signer_received d" using g(1) by (simp add: quiet_def)
  ultimately show ?thesis
    using receive_block [OF g(4) _ g(5)] g(1,2,5,7) s'
    by (simp add: push gathering_def quiet_def same_chain_def state_settled_def update_state_head_def taken_def update_safe_head_twice Let_def)
      (simp add: update_safe_head_def Let_def)
qed

lemma receive_settled:
  assumes "gathering config cid ds gs fs [] d" "state_settled d"
  shows "receive d = (Ok (), d)"
  using assms receive_nothing [of d] by (simp add: gathering_def state_settled_def update_state_head_def)


lemma empty_input_in_window:
  "st_current_epoch_num state \<le> ep_number (st_safe_epoch state) + cc_seq_window_size (cfg_chain config) \<Longrightarrow> empty_input state config = None"
  by (auto simp: empty_input_def Let_def split: option.splits)

lemma gathering_no_empty_input:
  assumes "gathering config cid ds gs fs posts d" "state_settled d"
  shows "empty_input (dr_state d) config = None"
proof (rule empty_input_in_window)
  have "st_safe_epoch (dr_state d) = ed_safe_epoch (dr_engine_driver d)"
    using arg_cong [OF assms(2) [unfolded state_settled_def], of st_safe_epoch] by (simp add: update_state_head_def update_safe_head_def Let_def)
  then show "st_current_epoch_num (dr_state d) \<le> ep_number (st_safe_epoch (dr_state d)) + cc_seq_window_size (cfg_chain config)"
    using assms(1) by (simp add: gathering_def)
qed

lemma all_seen_prefix:
  "channel_posted config cid ds (gs @ fs) \<Longrightarrow> \<not> all_seen ds (gs @ fs) \<Longrightarrow> \<not> all_seen ds gs"
  using all_seen_more [of ds gs fs cid] by (auto simp: channel_posted_def)

text \<open>An iteration that reads a frame other than the last one, or none.\<close>

lemma iteration_waits:
  assumes "receive d = (Ok (), d1)" "gathering config cid ds gs fs posts d1" "state_settled d1"
    and "fs \<noteq> [] \<Longrightarrow> \<not> all_seen ds (gs @ [hd fs])"
  shows "\<exists>d2 gs'. advance (Suc fuel) ex eng get_block (Ok ()) d = (Ok (), d2) \<and> gathering config cid ds gs' (tl fs) posts d2 \<and>
    gs' @ tl fs = gs @ fs \<and> same_chain d1 d2 \<and> state_settled d2 \<and> dr_state d2 = dr_state d1"
proof -
  have none: "empty_input (dr_state d1) config = None" by (rule gathering_no_empty_input [OF assms(2,3)])
  have g: "quiet d1" "pp_pending_attributes (dr_pipeline d1) = None" "holds config cid ds gs fs [] (queue_of (dr_pipeline d1))"
    "channel_posted config cid ds ((gs @ fs) @ frames_of posts)"
    using assms(2) by (simp_all add: gathering_def)
  obtain q gs' where q: "next_input (ex_codec ex) (dr_state d1) (queue_of (dr_pipeline d1)) = Ok (None, q)"
    "holds config cid ds gs' (tl fs) [] q" "gs' @ tl fs = gs @ fs"
  proof (cases fs)
    case Nil
    then show ?thesis using next_nothing [OF _ none, of cid ds gs "queue_of (dr_pipeline d1)" "ex_codec ex"] g(3) that by auto
  next
    case (Cons f fs')
    have posted: "channel_posted config cid ds (gs @ f # fs')" using channel_posted_prefix [OF g(4)] Cons by simp
    have "\<not> all_seen ds (gs @ [f])" using assms(4) Cons by simp
    moreover have "channel_posted config cid ds (gs @ [f])" using channel_posted_prefix [of config cid ds "gs @ [f]" fs'] posted by simp
    ultimately have "\<not> all_seen ds gs" using all_seen_prefix [of config cid ds gs "[f]"] by simp
    then show ?thesis
      using next_waits [OF _ posted _ \<open>\<not> all_seen ds (gs @ [f])\<close> none] g(3) that [of _ "gs @ [f]"] Cons by fastforce
  qed
  let ?p = "(dr_pipeline d1)\<lparr>pp_attributes := (pp_attributes (dr_pipeline d1))\<lparr>at_block_input_iter := q\<rparr>\<rparr>"
  have "gathering config cid ds gs' (tl fs) posts (networked (d1\<lparr>dr_pipeline := ?p\<rparr>))"
  proof -
    have "channel_posted config cid ds (gs' @ tl fs @ frames_of posts)" using g(4) q(3) by (metis append.assoc)
    moreover have "quiet (d1\<lparr>dr_pipeline := ?p\<rparr>)" using assms(2) by (simp add: gathering_def quiet_def)
    ultimately show ?thesis using assms(2) q(2) by (simp add: gathering_def)
  qed
  moreover have "same_chain d1 (networked (d1\<lparr>dr_pipeline := ?p\<rparr>))" by (simp add: same_chain_def networked_def)
  moreover have "state_settled (networked (d1\<lparr>dr_pipeline := ?p\<rparr>))" "dr_state (networked (d1\<lparr>dr_pipeline := ?p\<rparr>)) = dr_state d1"
    using assms(3) by (simp_all add: state_settled_def update_state_head_def)
  ultimately show ?thesis using advance_waits [OF assms(1) g(1) pipeline_next_nothing [OF g(2) q(1)]] q(3) by blast
qed

primrec advances ::
  "nat \<Rightarrow> nat \<Rightarrow> externals \<Rightarrow> 'e engine \<Rightarrow> ('e \<Rightarrow> block_id \<Rightarrow> eth_block option outcome) \<Rightarrow> ('e driver, unit) action" where
  "advances 0 fuel ex eng get_block = return_action ()"
| "advances (Suc n) fuel ex eng get_block =
     bind_action (advance fuel ex eng get_block (Ok ())) (\<lambda>_. advances n fuel ex eng get_block)"

lemma advances_Suc: "advance fuel ex eng get_block (Ok ()) d = (Ok (), d1) \<Longrightarrow> advances (Suc n) fuel ex eng get_block d = advances n fuel ex eng get_block d1"
  by (simp add: bind_action_def)

lemma advances_snoc:
  "advances n fuel ex eng get_block d = (Ok (), d1) \<Longrightarrow> advance fuel ex eng get_block (Ok ()) d1 = (Ok (), d2) \<Longrightarrow>
   advances (Suc n) fuel ex eng get_block d = (Ok (), d2)"
proof (induction n arbitrary: d)
  case (Suc n)
  obtain d0 where d0: "advance fuel ex eng get_block (Ok ()) d = (Ok (), d0)" "advances n fuel ex eng get_block d0 = (Ok (), d1)"
    using Suc.prems(1) by (auto simp: action_simps)
  then show ?case using Suc.IH [OF d0(2) Suc.prems(2)] advances_Suc [OF d0(1), of "Suc n"] by simp
qed (simp add: bind_action_def lift_outcome_def)

lemma same_chain_trans: "same_chain d d1 \<Longrightarrow> same_chain d1 d2 \<Longrightarrow> same_chain d d2"
  by (simp add: same_chain_def)


lemma receive_gathering:
  assumes "gathering config cid ds gs fs posts d" "posts = [] \<Longrightarrow> state_settled d"
  shows "\<exists>d1. receive d = (Ok (), d1) \<and> gathering config cid ds gs (fs @ frames_of (take 1 posts)) (tl posts) d1 \<and>
    same_chain d d1 \<and> state_settled d1 \<and> dr_state d1 = foldl (taken (dr_engine_driver d)) (dr_state d) (map fst (take 1 posts))"
proof (cases posts)
  case Nil
  then show ?thesis using assms receive_settled [of config cid ds gs fs d] by (simp add: frames_of_def same_chain_def)
next
  case (Cons post posts')
  then show ?thesis using receive_gathers [of config cid ds gs fs "fst post" "snd post" posts' d] assms(1)
    by (auto simp: frames_of_def)
qed

lemma frames_of_take_tl: "frames_of (take 1 posts) @ frames_of (tl posts) = frames_of posts"
  by (cases posts) (simp_all add: frames_of_def)

lemma frames_of_last: "posts \<noteq> [] \<Longrightarrow> snd (last posts) \<noteq> [] \<Longrightarrow> frames_of posts \<noteq> []"
  unfolding frames_of_def using last_in_set by fastforce

lemma unread_rest:
  assumes "\<not> (posts = [] \<and> length fs = 1)" "posts \<noteq> [] \<Longrightarrow> snd (last posts) \<noteq> []" "fs @ frames_of posts \<noteq> []"
  shows "tl fs @ frames_of posts \<noteq> []"
proof (cases "posts = []")
  case True
  then have "fs \<noteq> []" using assms(3) by (simp add: frames_of_def)
  then show ?thesis using assms(1) True by (cases fs) auto
qed (use assms(2) frames_of_last in auto)

lemma not_yet_seen:
  assumes "channel_posted config cid ds (hs @ [f])" "gs @ fs @ frames_of posts = hs @ [f]" "tl fs @ frames_of posts \<noteq> []"
    and "\<not> all_seen ds hs" "fs \<noteq> []"
  shows "\<not> all_seen ds (gs @ [hd fs])"
proof -
  have "(gs @ [hd fs]) @ tl fs @ frames_of posts = hs @ [f]" using assms(2,5) by (cases fs) auto
  with assms(3) have "hs = (gs @ [hd fs]) @ butlast (tl fs @ frames_of posts)" by (metis butlast_append butlast_snoc)
  then show ?thesis using all_seen_prefix channel_posted_prefix [OF assms(1)] assms(4) by metis
qed

text \<open>Iterations up to the one in which the last frame has been pushed and is about to be read.\<close>

lemma iterations_gather:
  assumes "gathering config cid ds gs fs posts d" "posts = [] \<Longrightarrow> state_settled d" "posts \<noteq> [] \<Longrightarrow> snd (last posts) \<noteq> []"
    and "gs @ fs @ frames_of posts = hs @ [f]" "fs @ frames_of posts \<noteq> []" "\<not> all_seen ds hs"
  shows "\<exists>n d0 d1. advances n (Suc fuel) ex eng get_block d = (Ok (), d0) \<and> receive d0 = (Ok (), d1) \<and>
    gathering config cid ds hs [f] [] d1 \<and> same_chain d d1 \<and>
    dr_state d1 = foldl (taken (dr_engine_driver d)) (dr_state d) (map fst posts)"
  using assms
proof (induction "length posts + length (fs @ frames_of posts)" arbitrary: gs fs posts d rule: less_induct)
  case less
  obtain fs1 posts1 where new: "fs1 = fs @ frames_of (take 1 posts)" "posts1 = tl posts" by simp
  obtain d1 where d1: "receive d = (Ok (), d1)" "gathering config cid ds gs fs1 posts1 d1" "same_chain d d1"
    "state_settled d1" "dr_state d1 = foldl (taken (dr_engine_driver d)) (dr_state d) (map fst (take 1 posts))"
    using receive_gathering [OF less.prems(1,2)] unfolding new by blast
  have split: "fs1 @ frames_of posts1 = fs @ frames_of posts" by (simp only: new append.assoc frames_of_take_tl)
  have last: "posts1 \<noteq> [] \<Longrightarrow> snd (last posts1) \<noteq> []" using less.prems(3) by (cases posts) (auto simp: new)
  show ?case
  proof (cases "posts1 = [] \<and> length fs1 = 1")
    case True
    then have "gs @ fs1 = hs @ [f]" using less.prems(4) split by (simp add: frames_of_def)
    moreover obtain g where "fs1 = [g]" using True by (auto simp: length_Suc_conv)
    ultimately have "gs = hs" "fs1 = [f]" by simp_all
    moreover have "take 1 posts = posts" using True new(2) by (cases posts) auto
    ultimately show ?thesis using d1 True by (intro exI [of _ 0] exI [of _ d] exI [of _ d1]) (simp add: lift_outcome_def)
  next
    case False
    have rest: "tl fs1 @ frames_of posts1 \<noteq> []" using unread_rest [OF False last] less.prems(5) split by simp
    have "channel_posted config cid ds (hs @ [f])" "gs @ fs1 @ frames_of posts1 = hs @ [f]"
      using less.prems(1,4) split by (simp_all add: gathering_def)
    then have "\<not> all_seen ds (gs @ [hd fs1])" if "fs1 \<noteq> []" using that not_yet_seen [OF _ _ rest less.prems(6)] by blast
    then obtain d2 gs' where d2: "advance (Suc fuel) ex eng get_block (Ok ()) d = (Ok (), d2)"
      "gathering config cid ds gs' (tl fs1) posts1 d2" "gs' @ tl fs1 = gs @ fs1" "same_chain d1 d2" "state_settled d2"
      "dr_state d2 = dr_state d1"
      using iteration_waits [OF d1(1,2,4)] by blast
    have "gs' @ tl fs1 @ frames_of posts1 = hs @ [f]" using d2(3) less.prems(4) split by (metis append.assoc)
    moreover have "length posts1 + length (tl fs1 @ frames_of posts1) < length posts + length (fs @ frames_of posts)"
      using less.prems(5) split new by (cases posts; cases fs) (auto simp: frames_of_def)
    ultimately obtain n d0 d3 where d3: "advances n (Suc fuel) ex eng get_block d2 = (Ok (), d0)" "receive d0 = (Ok (), d3)"
      "gathering config cid ds hs [f] [] d3" "same_chain d2 d3"
      "dr_state d3 = foldl (taken (dr_engine_driver d2)) (dr_state d2) (map fst posts1)"
      using less.hyps [OF _ d2(2) d2(5) last _ rest less.prems(6)] by blast
    have "dr_engine_driver d2 = dr_engine_driver d" using d1(3) d2(4) by (simp add: same_chain_def)
    then have "dr_state d3 = foldl (taken (dr_engine_driver d)) (dr_state d) (map fst posts)"
      using d3(5) d2(6) d1(5) new(2) by (cases posts) simp_all
    moreover have "same_chain d d3" using d1(3) d2(4) d3(4) same_chain_trans by blast
    ultimately show ?thesis using d3 advances_Suc [OF d2(1), of n] by metis
  qed
qed


section \<open>From L1 blocks to the first block\<close>

text \<open>The driver ends with a panic in the iteration that has an input for the last stage.\<close>

lemma advance_panics:
  assumes "exact_width ex" "receive d = (Ok (), d1)" "pp_pending_attributes (dr_pipeline d1) = None"
    and "next_input (ex_codec ex) (dr_state d1) (queue_of (dr_pipeline d1)) = Ok (Some i, q)"
  shows "\<exists>msg. advance (Suc fuel) ex eng get_block (Ok ()) d = (Panic msg, d1)"
proof -
  obtain msg where "pipeline_next ex (dr_state d1) (dr_pipeline d1) = Panic msg"
    using pipeline_next_panics [OF assms(1,3,4)] by (cases "pipeline_next ex (dr_state d1) (dr_pipeline d1)") auto
  then have "advance_safe_head (Suc fuel) ex eng get_block d = (Panic msg, d1)"
    using assms(2) by (simp add: advance_safe_head_receive bind_action_def take_attributes_def with_state_def lift_outcome_def)
  then show ?thesis by (simp add: advance_def bind_action_def)
qed

lemma iterations_panic:
  assumes "exact_width ex" "gathering config cid ds [] [] posts d"
    and "posts \<noteq> []" "snd (last posts) \<noteq> []" "frames_of posts = fs @ [f]" "\<not> all_seen ds fs"
    and delivers: "\<And>q. holds config cid ds fs [f] [] q \<Longrightarrow>
      \<exists>i q'. next_input (ex_codec ex) (foldl (taken (dr_engine_driver d)) (dr_state d) (map fst posts)) q = Ok (Some i, q')"
  shows "\<exists>n d1 msg d2. advances n (Suc fuel) ex eng get_block d = (Ok (), d1) \<and>
    advance (Suc fuel) ex eng get_block (Ok ()) d1 = (Panic msg, d2) \<and> same_chain d d2"
proof -
  obtain n d0 d1 where it: "advances n (Suc fuel) ex eng get_block d = (Ok (), d0)" "receive d0 = (Ok (), d1)"
    and g: "gathering config cid ds fs [f] [] d1" "same_chain d d1"
    "dr_state d1 = foldl (taken (dr_engine_driver d)) (dr_state d) (map fst posts)"
    using iterations_gather [OF assms(2) _ _ _ _ assms(6), of f fuel ex eng get_block] assms(3-5) by auto
  have "pp_pending_attributes (dr_pipeline d1) = None" "holds config cid ds fs [f] [] (queue_of (dr_pipeline d1))"
    using g(1) by (simp_all add: gathering_def)
  then show ?thesis using advance_panics [OF assms(1) it(2)] delivers it(1) g(2,3) by metis
qed

text \<open>A driver with nothing in its pipeline, and L1 blocks in its channel of updates.\<close>

definition ready :: "config \<Rightarrow> (l1_info \<times> frame list) list \<Rightarrow> 'e driver \<Rightarrow> bool" where
  "ready config posts d \<longleftrightarrow>
     quiet d \<and> pipeline_idle config (dr_pipeline d) \<and>
     cw_block_update_receiver (dr_chain_watcher d) = Some (map (\<lambda>(info, _). NewBlock info) posts) \<and>
     cc_blocktime (cfg_chain (st_config (dr_state d))) \<noteq> 0 \<and>
     carrying config (ed_safe_epoch (dr_engine_driver d)) posts \<and> posts \<noteq> [] \<and> snd (last posts) \<noteq> [] \<and>
     st_current_epoch_num (dr_state d) \<le> ep_number (ed_safe_epoch (dr_engine_driver d)) + cc_seq_window_size (cfg_chain config)"

lemma ready_gathering:
  assumes "ready config posts d" "channel_posted config cid ds (frames_of posts)"
  shows "gathering config cid ds [] [] posts d"
  using assms holds_nothing [of config cid ds "[]" "[]" "queue_of (dr_pipeline d)"]
  by (simp add: ready_def gathering_def pipeline_idle_def queue_idle_def)

text \<open>
  C4: The first block to derive stops the driver. Take a driver with an empty pipeline, and L1 blocks in the channel
  of updates that carry the frames of a channel, in any order and any number per block, within the sequencing window of the safe epoch. If
  the first batch of the channel is acceptable in the derivation state that the L1 blocks lead to, and \<^verbatim>\<open>to_be_bytes\<close> behaves as \<^verbatim>\<open>ruint\<close>
  documents, then some number of
  iterations of the driver's loop succeed, and the next one panics, whatever the execution client is. Up to and with the panic no block has been built: heads, blocks
  awaiting finality and the client are as they were.
\<close>

theorem l1_blocks_stop_driver:
  fixes d posts
  defines "state \<equiv> foldl (taken (dr_engine_driver d)) (dr_state d) (map fst posts)"
  assumes "exact_width ex" "ready config posts d" "frames_of posts = fs @ [f]"
    and "channel_codec (ex_codec ex) ce" "channel_posted config cid ds (fs @ [f])" "all_seen ds (fs @ [f])" "\<not> all_seen ds fs"
    and "concat ds = encode_channel ce (b # bs)" "\<forall>c \<in> set (b # bs). sb_l1_inclusion_block c = fr_l1_inclusion_block f"
    and "sorted_wrt (<) (map sb_timestamp (b # bs))" "acceptable config (state, b)"
  shows "\<exists>n d1 msg d2. advances n (Suc fuel) ex eng get_block d = (Ok (), d1) \<and>
    advance (Suc fuel) ex eng get_block (Ok ()) d1 = (Panic msg, d2) \<and> same_chain d d2"
proof (rule iterations_panic [OF assms(2) _ _ _ assms(4,8)])
  show "gathering config cid ds [] [] posts d" using ready_gathering [OF assms(3)] assms(4,6) by metis
  show "posts \<noteq> []" "snd (last posts) \<noteq> []" using assms(3) by (simp_all add: ready_def)
  fix q
  assume "holds config cid ds fs [f] [] q"
  from next_delivers [OF this assms(6,8,7,5,9-12)]
  show "\<exists>i q'. next_input (ex_codec ex) (foldl (taken (dr_engine_driver d)) (dr_state d) (map fst posts)) q = Ok (Some i, q')"
    unfolding state_def by blast
qed

text \<open>
  The same for the blocks of a span batch, if it is accepted and block \<open>k\<close> of it comes right after the safe head.
\<close>

lemma l1_span_stops_driver:
  fixes d posts c f
  defines "state \<equiv> foldl (taken (dr_engine_driver d)) (dr_state d) (map fst posts)"
  assumes "exact_width ex" "ready config posts d" "frames_of posts = fs @ [f]"
    and "span_frames (ex_codec ex) config ce enc_v enc_td c cid ds fs f"
    and "span_batch_status state config (span_at (ex_codec ex) config c f) = Ok Accept"
    and "aligned state config (span_at (ex_codec ex) config c f) k" "k < unat (sp_block_count (span_at (ex_codec ex) config c f))"
  shows "\<exists>n d1 msg d2. advances n (Suc fuel) ex eng get_block d = (Ok (), d1) \<and>
    advance (Suc fuel) ex eng get_block (Ok ()) d1 = (Panic msg, d2) \<and> same_chain d d2"
proof -
  let ?b = "span_at (ex_codec ex) config c f"
  have posted: "channel_posted config cid ds (fs @ [f])" "\<not> all_seen ds fs" using assms(5) unfolding span_frames_def by blast+
  obtain "is" where inputs: "span_inputs state config ?b = span_block ?b config k # is"
    using aligned_span_inputs [OF assms(7)] assms(8) by (simp add: upt_conv_Cons)
  show ?thesis
  proof (rule iterations_panic [OF assms(2) _ _ _ assms(4) posted(2)])
    show "gathering config cid ds [] [] posts d" using ready_gathering [OF assms(3)] assms(4) posted(1) by metis
    show "posts \<noteq> []" "snd (last posts) \<noteq> []" using assms(3) by (simp_all add: ready_def)
    fix q
    assume "holds config cid ds fs [f] [] q"
    from run_delivers_span [OF this assms(5,6) inputs, of "replicate (length is) state"]
    show "\<exists>i q'. next_input (ex_codec ex) (foldl (taken (dr_engine_driver d)) (dr_state d) (map fst posts)) q = Ok (Some i, q')"
      unfolding state_def by (auto simp: outcome_simps)
  qed
qed

section \<open>A sample\<close>

text \<open>Two L1 blocks, each with one frame, the second frame of the channel first.\<close>

definition l1_block_with :: "u64 \<Rightarrow> frame list \<Rightarrow> l1_info" where
  "l1_block_with n fs = (sample_l1_info n)\<lparr>l1i_batcher_transactions := map (\<lambda>f. 0 # frame_bytes f) fs\<rparr>"

definition sample_posts :: "(nat \<Rightarrow> u64 \<Rightarrow> frame) \<Rightarrow> (l1_info \<times> frame list) list" where
  "sample_posts frame_at = map (\<lambda>(n, fs). (l1_block_with n fs, fs)) [(19, [frame_at (Suc 0) 19]), (20, [frame_at 0 20])]"

definition with_l1_blocks :: "config \<Rightarrow> derive_state \<Rightarrow> (l1_info \<times> frame list) list \<Rightarrow> 'e driver \<Rightarrow> 'e driver" where
  "with_l1_blocks config state posts d = d
     \<lparr>dr_pipeline := pipeline_new sample_state config 0, dr_state := state\<lparr>st_current_epoch_num := 18\<rparr>,
      dr_chain_watcher := (dr_chain_watcher d)\<lparr>cw_running := True, cw_block_update_receiver := Some (map (\<lambda>(info, _). NewBlock info) posts)\<rparr>\<rparr>"

lemma prune_l1_0: "prune_l1 0 hashes infos = (hashes, infos)"
  by (subst prune_l1.simps) (auto split: option.splits)

lemma l1_block_with_fields:
  "l1b_number (l1i_block_info (l1_block_with n fs)) = n" "l1b_hash (l1i_block_info (l1_block_with n fs)) = 1000 + ucast n"
  "l1i_batcher_transactions (l1_block_with n fs) = map (\<lambda>f. 0 # frame_bytes f) fs"
  by (simp_all add: l1_block_with_def sample_l1_info_def)

lemma sample_posts_carried:
  assumes "\<And>i l1. fr_l1_inclusion_block (frame_at i l1) = l1" "20 \<le> ep_number epoch + cc_seq_window_size (cfg_chain config)"
  shows "carrying config epoch (sample_posts frame_at)"
proof -
  have "(19 :: u64) \<le> 20" by simp
  then have "19 \<le> ep_number epoch + cc_seq_window_size (cfg_chain config)" using assms(2) by (rule order.trans)
  then show ?thesis using assms by (simp add: carrying_def sample_posts_def l1_block_with_fields)
qed

definition l1_state :: "derive_state \<Rightarrow> (u64, block_info \<times> epoch) btree \<Rightarrow> (l1_info \<times> frame list) list \<Rightarrow> derive_state" where
  "l1_state state refs posts = state
     \<lparr>st_current_epoch_num := 20, st_l2_refs := refs,
      st_l1_hashes := [(16, 1016), (17, 1017), (19, 1019), (20, 1020)],
      st_l1_info := [(1016, sample_l1_info 16), (1017, sample_l1_info 17), (1019, fst (posts ! 0)), (1020, fst (posts ! 1))]\<rparr>"

lemma sample_posts_taken:
  fixes frame_at
  defines "posts \<equiv> sample_posts frame_at"
  shows "foldl (taken (dr_engine_driver ready_driver)) ((state_at start_head)\<lparr>st_current_epoch_num := 18\<rparr>) (map fst posts) =
    l1_state (state_at start_head) [(100, (start_head, epoch_of_info (sample_l1_info 16)))] posts"
  unfolding posts_def
  by (simp add: sample_posts_def taken_def update_l1_info_def state_prune_def l1_block_with_fields state_at_def sample_state_def
      optimism_sepolia_def epoch_of_info_def sample_l1_info_def saturating_sub_def checked_div_def prune_l1_0 prune_l2.simps start_head_def
      update_safe_head_def ready_driver_def engine_driver_new_def l1_state_def Let_def)


lemma sample_epoch_base_fee: "l1b_number (l1i_block_info (sample_l1_info n)) = n" "l1b_hash (l1i_block_info (sample_l1_info n)) = 1000 + ucast n"
  by (simp_all add: sample_l1_info_def)

lemma l1_state_l1:
  "l1_info_by_number (l1_state state refs posts) 16 = Some (sample_l1_info 16)"
  "l1_info_by_number (l1_state state refs posts) 17 = Some (sample_l1_info 17)"
  by (simp_all add: l1_info_by_number_def l1_state_def bt_get_def)

definition sample_l1_driver :: "client driver" where
  "sample_l1_driver = with_l1_blocks (sample_config optimism_sepolia) (state_at start_head) (sample_posts cut_frame) ready_driver"

lemma sample_l1_driver_ready: "ready (sample_config optimism_sepolia) (sample_posts cut_frame) sample_l1_driver"
proof -
  have "carrying (sample_config optimism_sepolia) (epoch_of_info (sample_l1_info 16)) (sample_posts cut_frame)"
    by (rule sample_posts_carried) (simp_all add: cut_frame_def optimism_sepolia_def)
  then show ?thesis
    by (simp add: ready_def sample_l1_driver_def with_l1_blocks_def quiet_def pipeline_idle_new)
      (simp add: ready_driver_def engine_driver_new_def state_at_def sample_state_def optimism_sepolia_def sample_posts_def)
qed

lemma state_heads:
  "st_safe_head (l1_state state refs posts) = st_safe_head state" "st_safe_epoch (l1_state state refs posts) = st_safe_epoch state"
  "st_safe_head (state_at head) = head" "st_safe_epoch (state_at head) = epoch_of_info (sample_l1_info 16)"
  by (simp_all add: l1_state_def state_at_def)

text \<open>The libraries of the sample, with \<^verbatim>\<open>to_be_bytes\<close> as \<^verbatim>\<open>ruint\<close> has it.\<close>

definition ruint_externals :: externals where
  "ruint_externals = plain_externals\<lparr>ex_to_be_bytes :=
     (\<lambda>n w. if n = 32 then Ok (to_be_bytes 32 w) else Panic (Explicit ''BYTES must be equal to Self::BYTES''))\<rparr>"

lemma ruint_externals_simps: "exact_width ruint_externals" "ex_codec ruint_externals = plain_codec"
  by (simp_all add: exact_width_def ruint_externals_def plain_externals_def)

lemma l1_state_acceptable:
  "acceptable (sample_config optimism_sepolia)
     (l1_state (state_at start_head) [(100, (start_head, epoch_of_info (sample_l1_info 16)))] (sample_posts cut_frame), hd (batches_of two_blocks))"
  by (simp add: two_blocks_def state_heads l1_state_l1 epoch_by_number_def single_batch_status_def has_invalid_transactions_def start_head_def
      optimism_sepolia_def Let_def)

theorem l1_blocks_stop_driver_witness:
  "\<exists>n d1 msg d2. advances n 1 ruint_externals client_engine (\<lambda>_ _. Ok None) sample_l1_driver = (Ok (), d1) \<and>
     advance 1 ruint_externals client_engine (\<lambda>_ _. Ok None) (Ok ()) d1 = (Panic msg, d2) \<and> dr_unfinalized_blocks d2 = []"
proof -
  let ?config = "sample_config optimism_sepolia" and ?posts = "sample_posts cut_frame"
  let ?state = "foldl (taken (dr_engine_driver sample_l1_driver)) (dr_state sample_l1_driver) (map fst ?posts)"
  have d: "dr_engine_driver sample_l1_driver = dr_engine_driver ready_driver"
    "dr_state sample_l1_driver = (state_at start_head)\<lparr>st_current_epoch_num := 18\<rparr>" "dr_unfinalized_blocks sample_l1_driver = []"
    by (simp_all add: sample_l1_driver_def with_l1_blocks_def ready_driver_def)
  have state: "?state = l1_state (state_at start_head) [(100, (start_head, epoch_of_info (sample_l1_info 16)))] ?posts"
    unfolding d by (rule sample_posts_taken)
  have nums: "fr_frame_number (cut_frame (Suc 0) 19) = 1" "fr_frame_number (cut_frame 0 20) = 0"
    "fr_l1_inclusion_block (cut_frame (Suc 0) 19) = 19" "fr_l1_inclusion_block (cut_frame 0 20) = 20"
    by (simp_all add: cut_frame_def)
  obtain b bs where bs: "batches_of two_blocks = b # bs" by (simp add: two_blocks_def)
  have "channel_posted ?config 5 cut_channel ([cut_frame (Suc 0) 19] @ [cut_frame 0 20])"
    using cut_frame_of by (auto simp: channel_posted_def within_timeout_def nums optimism_sepolia_def)
  moreover have "all_seen cut_channel ([cut_frame (Suc 0) 19] @ [cut_frame 0 20])" "\<not> all_seen cut_channel [cut_frame (Suc 0) 19]"
    by (simp_all add: all_seen_def frame_numbers_def nums lessThan_nat_numeral lessThan_Suc insert_commute)
  moreover have "concat cut_channel = encode_channel plain_encoder (b # bs)" by (simp add: cut_channel_def bs Let_def)
  moreover have "\<forall>c \<in> set (b # bs). sb_l1_inclusion_block c = fr_l1_inclusion_block (cut_frame 0 20)"
    "sorted_wrt (<) (map sb_timestamp (b # bs))" unfolding bs [symmetric] by (simp_all add: two_blocks_def nums)
  moreover have "frames_of ?posts = [cut_frame (Suc 0) 19] @ [cut_frame 0 20]" by (simp add: frames_of_def sample_posts_def)
  moreover have "acceptable ?config (?state, b)" using l1_state_acceptable unfolding state bs by simp
  moreover have "channel_codec (ex_codec ruint_externals) plain_encoder" by (simp add: ruint_externals_simps plain_channel_codec)
  ultimately obtain n d1 msg d2 where
    "advances n (Suc 0) ruint_externals client_engine (\<lambda>_ _. Ok None) sample_l1_driver = (Ok (), d1)"
    "advance (Suc 0) ruint_externals client_engine (\<lambda>_ _. Ok None) (Ok ()) d1 = (Panic msg, d2)" "same_chain sample_l1_driver d2"
    using l1_blocks_stop_driver [OF ruint_externals_simps(1) sample_l1_driver_ready, of "[cut_frame (Suc 0) 19]" "cut_frame 0 20"
        plain_encoder 5 cut_channel b bs 0 client_engine "\<lambda>_ _. Ok None"] by blast
  then show ?thesis by (simp add: same_chain_def d) blast
qed

text \<open>The same for the sample of a span batch.\<close>

definition delta_refs :: "(u64, block_info \<times> epoch) btree" where
  "delta_refs = map (\<lambda>k. (k, (sample_block k, epoch_of_info (sample_l1_info 16)))) [99, 100]"

lemma delta_posts_taken:
  fixes frame_at
  defines "posts \<equiv> sample_posts frame_at"
  shows "foldl (taken (dr_engine_driver delta_driver)) ((delta_state 100)\<lparr>st_current_epoch_num := 18\<rparr>) (map fst posts) =
    l1_state (delta_state 100) delta_refs posts"
proof -
  have "st_l1_hashes (delta_state 100) = [(16, 1016), (17, 1017)]"
    "st_l1_info (delta_state 100) = [(1016, sample_l1_info 16), (1017, sample_l1_info 17)]" "st_l2_refs (delta_state 100) = delta_refs"
    by (simp_all add: delta_state_def state_at_def delta_refs_def)
  then show ?thesis
    unfolding posts_def
    by (simp add: sample_posts_def taken_def update_l1_info_def state_prune_def l1_block_with_fields saturating_sub_def checked_div_def
        prune_l1_0 prune_l2.simps update_safe_head_def delta_driver_def engine_driver_new_def l1_state_def delta_refs_def Let_def)
qed

lemma delta_l1_state_l2:
  "l2_info_by_timestamp (l1_state (delta_state 100) delta_refs posts) 198 = Ok (Some (sample_block 99, epoch_of_info (sample_l1_info 16)))"
  "l2_info_by_timestamp (l1_state (delta_state 100) delta_refs posts) 200 = Ok (Some (sample_block 100, epoch_of_info (sample_l1_info 16)))"
  by (simp_all add: l2_info_by_timestamp_def l1_state_def checked_div_def delta_refs_def bt_get_def Let_def)

lemma delta_l1_state_accepts:
  "span_batch_status (l1_state (delta_state 100) delta_refs posts) delta_config (span_at plain_codec delta_config span_sample (span_frame 0 20)) =
   Ok Accept"
proof -
  have "span_wf (span_at plain_codec delta_config span_sample (span_frame 0 20))" by (simp add: span_at_sample span_wf_def)
  moreover have "l1_info_by_number (l1_state (delta_state 100) delta_refs posts) 18 = None"
    by (simp add: l1_info_by_number_def l1_state_def bt_get_def)
  ultimately show ?thesis using span_block_inputs_wf
    by (simp add: span_batch_status_def span_at_sample span_sample_simps delta_l1_state_l2 l1_state_l1 state_heads Let_def)
qed

definition delta_l1_driver :: "client driver" where
  "delta_l1_driver = with_l1_blocks delta_config (delta_state 100) (sample_posts span_frame) delta_driver"

lemma delta_l1_driver_ready: "ready delta_config (sample_posts span_frame) delta_l1_driver"
proof -
  have "carrying delta_config (epoch_of_info (sample_l1_info 16)) (sample_posts span_frame)"
    by (rule sample_posts_carried) (simp_all add: span_frame_def)
  then show ?thesis
    by (simp add: ready_def delta_l1_driver_def with_l1_blocks_def quiet_def pipeline_idle_new)
      (simp add: delta_driver_def ready_driver_def engine_driver_new_def sample_posts_def)
qed

lemma delta_driver_stops:
  "\<exists>n d1 msg d2. advances n 1 ruint_externals client_engine (\<lambda>_ _. Ok None) delta_l1_driver = (Ok (), d1) \<and>
     advance 1 ruint_externals client_engine (\<lambda>_ _. Ok None) (Ok ()) d1 = (Panic msg, d2)"
proof -
  let ?posts = "sample_posts span_frame" and ?f = "span_frame 0 20"
  let ?state = "foldl (taken (dr_engine_driver delta_l1_driver)) (dr_state delta_l1_driver) (map fst ?posts)"
  let ?b = "span_at plain_codec delta_config span_sample ?f"
  have d: "dr_engine_driver delta_l1_driver = dr_engine_driver delta_driver"
    "dr_state delta_l1_driver = (delta_state 100)\<lparr>st_current_epoch_num := 18\<rparr>"
    by (simp_all add: delta_l1_driver_def with_l1_blocks_def delta_driver_def)
  have state: "?state = l1_state (delta_state 100) delta_refs ?posts"
    unfolding d by (rule delta_posts_taken)
  have "span_frames plain_codec delta_config plain_encoder (to_be_bytes 8) (\<lambda>_. [0]) span_sample 5 span_channel [span_frame (Suc 0) 19] ?f"
    using span_sample_posted unfolding span_posted_def by blast
  moreover have "frames_of ?posts = [span_frame (Suc 0) 19] @ [?f]" by (simp add: frames_of_def sample_posts_def)
  moreover have "aligned ?state delta_config ?b 1" "1 < unat (sp_block_count ?b)"
    unfolding state by (simp_all add: aligned_def span_at_sample state_heads)
  moreover have "span_batch_status ?state delta_config ?b = Ok Accept" unfolding state by (rule delta_l1_state_accepts)
  ultimately show ?thesis
    using l1_span_stops_driver [OF ruint_externals_simps(1) delta_l1_driver_ready, of "[span_frame (Suc 0) 19]" ?f
        plain_encoder "to_be_bytes 8" "\<lambda>_. [0]" span_sample 5 span_channel 1 0 client_engine "\<lambda>_ _. Ok None"]
    unfolding ruint_externals_simps(2) by auto
qed

end
