(* ===== verification/Node.thy ===== *)
theory Node
  imports Discovery L1_Feed L1_Safe_Chain
begin

text \<open>
  The tasks of a running node together: the driver of \<^verbatim>\<open>src/src/driver/mod.rs\<close> and the network task of
  \<^verbatim>\<open>src/src/network/service/mod.rs\<close>, joined by the two channels that \<open>Driver::from_config\<close> opens between them: the blocks that the block
  handler forwards to the driver, and the signer that the driver announces to the block handler.

  The network task runs once the driver has taken the service to start it. \<open>nd_heard\<close> records what the network task has been
  given so far, each with the signer that the driver announced at that moment; no step depends on it.
  Shown: every run of the node is one of the driver, and what gossip moves the unsafe head to is a block of a message that the
  node has received, signed for its chain by the signer of that moment and recent by the clock of that moment.
\<close>

record ('e, 'id) node =
  nd_driver :: "'e driver"
  nd_network :: "(block_handler, 'id) network"
  nd_heard :: "('id selected \<times> address) list"

text \<open>The driver has changed to \<open>d\<close>, and the handlers see the signer it announces.\<close>

definition announce :: "'e driver \<Rightarrow> ('e, 'id) node \<Rightarrow> ('e, 'id) node" where
  "announce d s = s\<lparr>nd_driver := d,
     nd_network := (nd_network s)\<lparr>nw_handlers :=
       map (\<lambda>h. h\<lparr>bh_unsafe_signer_recv := dr_unsafe_block_signer d\<rparr>) (nw_handlers (nd_network s))\<rparr>\<rparr>"

definition deliver :: "('e, 'id) node \<Rightarrow> ('e, 'id) node" where
  "deliver s =
     (let handlers = nw_handlers (nd_network s); d = nd_driver s
      in s\<lparr>nd_driver := d\<lparr>dr_unsafe_block_recv := dr_unsafe_block_recv d @ concat (map bh_block_sender handlers)\<rparr>,
           nd_network := (nd_network s)\<lparr>nw_handlers := map (\<lambda>h. h\<lparr>bh_block_sender := []\<rparr>) handlers\<rparr>\<rparr>)"

inductive node_step ::
  "externals \<Rightarrow> 'e engine \<Rightarrow> 'sig gossip_externals \<Rightarrow> ('e, 'id) node \<Rightarrow> ('e, 'id) node \<Rightarrow> bool" for ex eng ge where
  node_started: "node_step ex eng ge s (announce (driver_start (nd_driver s)) s)"
| node_advanced: "\<not> dr_shutdown_recv (nd_driver s) \<Longrightarrow>
    advance fuel ex eng get_block started (nd_driver s) = (Ok (), d') \<Longrightarrow> node_step ex eng ge s (announce d' s)"
| node_l1_update: "cw_block_update_receiver (dr_chain_watcher (nd_driver s)) = Some updates \<Longrightarrow>
    node_step ex eng ge s (s\<lparr>nd_driver := (nd_driver s)\<lparr>dr_chain_watcher :=
      (dr_chain_watcher (nd_driver s))\<lparr>cw_block_update_receiver := Some (updates @ [update])\<rparr>\<rparr>\<rparr>)"
| node_shutdown: "node_step ex eng ge s (s\<lparr>nd_driver := (nd_driver s)\<lparr>dr_shutdown_recv := True\<rparr>\<rparr>)"
| node_network: "\<not> dr_network_service (nd_driver s) \<Longrightarrow> (\<And>now e. x = Behaviour now e \<Longrightarrow> clock_in_range now) \<Longrightarrow>
    service_iteration handler_topics (block_handle ge) x (nd_network s) = (Ok (), n) \<Longrightarrow>
    node_step ex eng ge s (s\<lparr>nd_network := n, nd_heard := nd_heard s @ [(x, dr_unsafe_block_signer (nd_driver s))]\<rparr>)"
| node_deliver: "node_step ex eng ge s (deliver s)"

inductive_cases node_step_cases: "node_step ex eng ge s s'"

section \<open>Runs of the node are runs of the driver\<close>

lemma gossip_many:
  "(driver_step ex eng)\<^sup>*\<^sup>* d (d\<lparr>dr_unsafe_block_recv := dr_unsafe_block_recv d @ ps\<rparr>)"
proof (induction ps rule: rev_induct)
  case (snoc p ps)
  have "driver_step ex eng (d\<lparr>dr_unsafe_block_recv := dr_unsafe_block_recv d @ ps\<rparr>)
      (d\<lparr>dr_unsafe_block_recv := dr_unsafe_block_recv d @ ps @ [p]\<rparr>)"
    using driver_step.gossip [of ex eng "d\<lparr>dr_unsafe_block_recv := dr_unsafe_block_recv d @ ps\<rparr>" p] by simp
  with snoc show ?case by (rule rtranclp.rtrancl_into_rtrancl)
qed simp

lemma node_step_driver: "node_step ex eng ge s s' \<Longrightarrow> (driver_step ex eng)\<^sup>*\<^sup>* (nd_driver s) (nd_driver s')"
  by (erule node_step_cases)
    (auto simp: announce_def deliver_def Let_def intro: r_into_rtranclp driver_step.intros gossip_many)

lemma node_run_driver: "(node_step ex eng ge)\<^sup>*\<^sup>* s s' \<Longrightarrow> (driver_step ex eng)\<^sup>*\<^sup>* (nd_driver s) (nd_driver s')"
  by (induction rule: rtranclp_induct) (auto dest: node_step_driver intro: rtranclp_trans)

section \<open>What gossip offers the driver\<close>

definition offers :: "'e driver \<Rightarrow> execution_payload set" where
  "offers d = set (dr_unsafe_block_recv d) \<union> set (dr_future_unsafe_blocks d)"

definition offers_less :: "'e driver \<Rightarrow> 'e driver \<Rightarrow> bool" where
  "offers_less d d' \<longleftrightarrow> offers d' \<subseteq> offers d"

lemma preorder_offers [simp]: "preorder_rel offers_less"
  by (auto simp: preorder_rel_def offers_less_def)

lemma offers_less_simps [simp]:
  "offers_less d d" "offers_less d (d\<lparr>dr_state := a\<rparr>)" "offers_less d (d\<lparr>dr_unfinalized_blocks := b\<rparr>)"
  "offers_less d (d\<lparr>dr_unsafe_block_signer := c\<rparr>)" "offers_less d (d\<lparr>dr_pipeline := p\<rparr>)"
  "offers_less d (d\<lparr>dr_finalized_l1_block_number := num\<rparr>)" "offers_less d (d\<lparr>dr_network_service := on\<rparr>)"
  "offers_less d (update_finalized d)" "offers_less d (collect_unsafe_blocks d)" "offers_less d (handle_reorg d)"
  "offers_less d (push_unfinalized_block incl sq d)" "offers_less d (update_state_head d)"
  by (auto simp: offers_less_def offers_def update_finalized_def collect_unsafe_blocks_def handle_reorg_def
      push_unfinalized_block_def update_state_head_def Let_def split: prod.splits)

lemma keeps_offers_zoom [keeps_intros]: "keeps offers_less (on_engine m)" "keeps offers_less (on_watcher n)"
  by (auto simp: keeps_def on_engine_def on_watcher_def zoom_def offers_less_def offers_def split: prod.splits)

lemma take_attributes_offers [keeps_intros]: "keeps offers_less (take_attributes ex)"
  unfolding take_attributes_def by (auto intro!: keeps_intros split: prod.splits)

lemma derive_blocks_offers [keeps_intros]: "keeps offers_less (derive_blocks fuel ex eng get_block)"
proof (induction fuel)
  case (Suc fuel)
  have "keeps offers_less (apply_attributes ex eng get_block pa)" for pa
    by (auto simp: apply_attributes_def intro!: keeps_intros)
  with Suc show ?case by (auto intro!: keeps_intros split: option.splits)
qed (auto intro!: keeps_intros)

lemma handle_next_block_update_offers [keeps_intros]: "keeps offers_less handle_next_block_update"
  unfolding handle_next_block_update_def handle_new_block_def send_signer_def update_state_def Let_def
  by (auto simp: Let_def intro!: keeps_intros split: option.splits block_update.splits)

lemma advance_offers: "keeps offers_less (advance fuel ex eng get_block started)"
  unfolding advance_def advance_safe_head_def advance_unsafe_head_def try_start_networking_def
  by (auto intro!: keeps_intros split: option.splits)

section \<open>Gossip is authentic\<close>

text \<open>\<open>payload\<close> is the block of one of the messages heard: signed by the signer of its arrival, and recent then.\<close>

definition authentic ::
  "'sig gossip_externals \<Rightarrow> u64 \<Rightarrow> ('id selected \<times> address) list \<Rightarrow> execution_payload \<Rightarrow> bool" where
  "authentic ge chain_id heard payload \<longleftrightarrow>
     (\<exists>now source i msg sig block signer. (Behaviour now (Gossipsub (GossipMessage source i msg)), signer) \<in> set heard \<and>
        carries ge chain_id msg sig block payload \<and> sequencer_signed ge chain_id signer sig block \<and>
        recent now (pl_timestamp payload))"

definition handler_authentic ::
  "'sig gossip_externals \<Rightarrow> u64 \<Rightarrow> address \<Rightarrow> ('id selected \<times> address) list \<Rightarrow> block_handler \<Rightarrow> bool" where
  "handler_authentic ge chain_id signer heard h \<longleftrightarrow>
     handler_inv h \<and> bh_chain_id h = chain_id \<and> bh_unsafe_signer_recv h = signer \<and>
     (\<forall>p \<in> set (bh_block_sender h). authentic ge chain_id heard p)"

definition node_inv :: "'sig gossip_externals \<Rightarrow> u64 \<Rightarrow> ('e, 'id) node \<Rightarrow> bool" where
  "node_inv ge chain_id s \<longleftrightarrow>
     (\<forall>h \<in> set (nw_handlers (nd_network s)).
        handler_authentic ge chain_id (dr_unsafe_block_signer (nd_driver s)) (nd_heard s) h) \<and>
     (\<forall>p \<in> offers (nd_driver s). authentic ge chain_id (nd_heard s) p)"

lemma authentic_mono: "authentic ge c heard p \<Longrightarrow> authentic ge c (heard @ more_heard) p"
  unfolding authentic_def by (simp only: set_append Un_iff) blast

lemma handler_authentic_mono:
  "handler_authentic ge c signer heard h \<Longrightarrow> handler_authentic ge c signer (heard @ more_heard) h"
  by (auto simp: handler_authentic_def intro: authentic_mono)

lemma handler_inv_signer [simp]: "handler_inv (h\<lparr>bh_unsafe_signer_recv := a\<rparr>) = handler_inv h"
  "handler_inv (h\<lparr>bh_block_sender := ps\<rparr>) = handler_inv h"
  by (simp_all add: handler_inv_def)

lemma announce_inv:
  assumes "node_inv ge c s" "offers_less (nd_driver s) d"
  shows "node_inv ge c (announce d s)"
  using assms by (fastforce simp: node_inv_def handler_authentic_def announce_def offers_less_def)

lemma deliver_inv:
  assumes "node_inv ge c s"
  shows "node_inv ge c (deliver s)"
  using assms by (auto simp: node_inv_def handler_authentic_def deliver_def offers_def Let_def)

lemma block_handle_authentic:
  assumes "handler_authentic ge c signer heard h" "clock_in_range now" "block_handle ge now msg h = (r, h')"
  shows "handler_authentic ge c signer (heard @ [(Behaviour now (Gossipsub (GossipMessage source i msg)), signer)]) h'"
    (is "handler_authentic ge c signer ?heard h'")
proof -
  have same: "handler_inv h'" "bh_chain_id h' = bh_chain_id h" "bh_unsafe_signer_recv h' = bh_unsafe_signer_recv h"
    using assms(1,3) by (auto simp: handler_authentic_def elim: block_handle_cases)
  have "authentic ge c ?heard p" if p: "p \<in> set (bh_block_sender h')" for p
  proof (cases "p \<in> set (bh_block_sender h)")
    case True
    then show ?thesis using assms(1) by (simp add: handler_authentic_def authentic_mono)
  next
    case False
    have h: "handler_inv h" "bh_chain_id h = c" "bh_unsafe_signer_recv h = signer"
      using assms(1) by (simp_all add: handler_authentic_def)
    show ?thesis using block_handle_forwards [OF h(1) assms(2,3) p] False unfolding authentic_def h(2,3)
      by (simp only: set_append list.set Un_iff insert_iff) blast
  qed
  then show ?thesis using same assms(1) by (simp add: handler_authentic_def)
qed

lemma network_inv:
  assumes "node_inv ge c s" "\<And>now e. x = Behaviour now e \<Longrightarrow> clock_in_range now"
    and "service_iteration handler_topics (block_handle ge) x (nd_network s) = (r, n)"
  shows "node_inv ge c (s\<lparr>nd_network := n, nd_heard := nd_heard s @ [(x, dr_unsafe_block_signer (nd_driver s))]\<rparr>)"
    (is "node_inv ge c (s\<lparr>nd_network := n, nd_heard := ?heard\<rparr>)")
proof -
  let ?signer = "dr_unsafe_block_signer (nd_driver s)"
  have old: "\<forall>h \<in> set (nw_handlers (nd_network s)). handler_authentic ge c ?signer ?heard h"
    using assms(1) by (simp add: node_inv_def handler_authentic_mono)
  have "\<forall>h \<in> set (nw_handlers n). handler_authentic ge c ?signer ?heard h"
    using assms(3)
  proof (cases rule: block_gossip.iteration_cases)
    case (2 now source i msg k r' h')
    then have "handler_authentic ge c ?signer (nd_heard s) (nw_handlers (nd_network s) ! k)"
      using assms(1) by (simp add: node_inv_def)
    then have "handler_authentic ge c ?signer ?heard h'"
      unfolding 2(1) by (rule block_handle_authentic [OF _ assms(2) [OF 2(1)] 2(4)])
    then show ?thesis using old 2(5) set_update_subset_insert [of "nw_handlers (nd_network s)" k h'] by auto
  qed (use old in simp)
  then show ?thesis using assms(1) by (simp add: node_inv_def authentic_mono)
qed

lemma node_step_inv:
  assumes "node_step ex eng ge s s'" "node_inv ge c s"
  shows "node_inv ge c s'"
  using assms(1)
proof cases
  case node_started
  then show ?thesis using announce_inv [OF assms(2)] by (simp add: driver_start_def offers_less_def offers_def)
next
  case (node_advanced fuel get_block started d')
  then show ?thesis using announce_inv [OF assms(2)] keepsD [OF advance_offers] by blast
next
  case (node_network x n)
  then show ?thesis using network_inv [OF assms(2)] by blast
next
  case node_deliver
  then show ?thesis using deliver_inv [OF assms(2)] by simp
qed (use assms(2) in \<open>auto simp: node_inv_def offers_def\<close>)

lemma node_run_inv: "(node_step ex eng ge)\<^sup>*\<^sup>* s s' \<Longrightarrow> node_inv ge c s \<Longrightarrow> node_inv ge c s'"
  by (induction rule: rtranclp_induct) (auto intro: node_step_inv)

lemma find_in_set: "List.find P xs = Some x \<Longrightarrow> x \<in> set xs"
  by (auto simp: find_Some_iff)

lemma unsafe_head_moves:
  assumes "advance_unsafe_head eng d = (r, d')"
  shows "ed_unsafe_head (dr_engine_driver d') = ed_unsafe_head (dr_engine_driver d) \<or>
    (\<exists>p \<in> offers d. ed_unsafe_head (dr_engine_driver d') = block_info_from_payload p)"
proof -
  let ?d = "collect_unsafe_blocks d"
  have same: "dr_engine_driver ?d = dr_engine_driver d" by (simp add: collect_unsafe_blocks_def)
  show ?thesis
  proof (cases "List.find (\<lambda>p. pl_parent_hash p = bi_hash (ed_unsafe_head (dr_engine_driver ?d))) (dr_future_unsafe_blocks ?d)")
    case None
    then show ?thesis using assms same by (simp add: advance_unsafe_head_def with_state_def lift_outcome_def)
  next
    case (Some p)
    obtain q ed where call: "handle_unsafe_payload eng p (dr_engine_driver d) = (q, ed)" by fastforce
    then have "d' = ?d\<lparr>dr_engine_driver := ed\<rparr>"
      using assms Some same
      by (cases q) (auto simp: advance_unsafe_head_def with_state_def lift_outcome_def attempt_def on_engine_def zoom_def bind_action_def modify_def)
    moreover have "p \<in> offers d"
      using find_in_set [OF Some] by (auto simp: collect_unsafe_blocks_def offers_def)
    ultimately show ?thesis using handle_unsafe_payload_exit [OF call] by (auto simp: same_heads_def)
  qed
qed

text \<open>
  C6: composition of the driver, the block handler and the network. In every run of a node on its chain, gossip moves the unsafe head
  only to the block of a message that the node has received, on the topic of a format of that chain: the block was recent by the
  clock of its arrival and bears the signature of the signer that the driver announced at that time.
\<close>

theorem unsafe_head_follows_signed_blocks:
  assumes "from_config k get_block e config shutdown_signal = Ok d"
    and "starts_with_blocks (cc_l2_chain_id (cfg_chain config)) (dr_unsafe_block_signer d) n"
    and "(node_step ex eng ge)\<^sup>*\<^sup>* \<lparr>nd_driver = d, nd_network = n, nd_heard = []\<rparr> s"
    and "advance_unsafe_head eng (nd_driver s) = (r, d')"
  shows "ed_unsafe_head (dr_engine_driver d') = ed_unsafe_head (dr_engine_driver (nd_driver s)) \<or>
    (\<exists>p. authentic ge (cc_l2_chain_id (cfg_chain config)) (nd_heard s) p \<and>
       ed_unsafe_head (dr_engine_driver d') = block_info_from_payload p)"
proof -
  have "offers d = {}" using assms(1) by (auto simp: from_config_def outcome_simps Let_def offers_def)
  then have "node_inv ge (cc_l2_chain_id (cfg_chain config)) \<lparr>nd_driver = d, nd_network = n, nd_heard = []\<rparr>"
    using starts_with_blocks_network(1) [OF assms(2)]
    by (simp add: node_inv_def handler_authentic_def handler_inv_new) (simp add: block_handler_new_def)
  then have "node_inv ge (cc_l2_chain_id (cfg_chain config)) s" by (rule node_run_inv [OF assms(3)])
  then show ?thesis using unsafe_head_moves [OF assms(4)] unfolding node_inv_def by blast
qed


section \<open>A run that starts the network\<close>

lemma network_exists: "\<exists>n :: (block_handler, nat) network. starts_with_blocks chain_id signer n"
proof -
  have "\<exists>n :: (block_handler, nat) network. service_start handler_topics sample_swarm
      (add_handler (block_handler_new chain_id signer) (service_new (SocketAddr (V4 0) 9876) chain_id)) = Ok n"
    by (simp add: service_start_def create_swarm_def behaviour_new_def service_new_def add_handler_def set_keypair_def
        network_address_from_socket_def sample_swarm_def handler_topics_def Let_def)
  then show ?thesis unfolding starts_with_blocks_def by blast
qed

text \<open>
  The network starts once a block has been derived. On a chain without a sequencing window every L1 block after the safe epoch forces the driver
  to derive, so two L1 blocks without any data are enough for the first block; the conversion of the gas limit is one
  that returns. Then a message comes in, is delivered, and moves the unsafe head.
\<close>

definition eager_config :: config where
  "eager_config = (sample_config optimism_sepolia)\<lparr>cfg_chain := optimism_sepolia\<lparr>cc_seq_window_size := 0\<rparr>\<rparr>"

definition genesis :: block_info where
  "genesis = cc_l2_genesis optimism_sepolia"

definition eager_driver :: "client driver" where
  "eager_driver = (case from_config (\<lambda>_. 0) (\<lambda>_. Err (External ''offline'')) ([genesis], None) eager_config False of Ok d \<Rightarrow> d)"

lemma eager_chain [simp]:
  "cc_l2_genesis (cfg_chain eager_config) = genesis" "cc_l1_start_epoch (cfg_chain eager_config) = cc_l1_start_epoch optimism_sepolia"
  "cc_blocktime (cfg_chain eager_config) = 2" "cc_seq_window_size (cfg_chain eager_config) = 0" "cc_l2_chain_id (cfg_chain eager_config) = 11155420"
  "ep_number (cc_l1_start_epoch optimism_sepolia) = 4071408" "bi_number genesis = 0" "bi_timestamp genesis = 1691802540"
  by (simp_all add: eager_config_def genesis_def optimism_sepolia_def)

lemma eager_driver_run: "from_config (\<lambda>_. 0) (\<lambda>_. Err (External ''offline'')) ([genesis], None) eager_config False = Ok eager_driver"
  and eager_driver_engine: "dr_engine_driver eager_driver = engine_driver_new ([genesis], None) genesis (cc_l1_start_epoch optimism_sepolia) eager_config"
  and eager_driver_fields: "dr_finalized_l1_block_number eager_driver = 0" "dr_network_service eager_driver"
    "st_safe_epoch (dr_state eager_driver) = cc_l1_start_epoch optimism_sepolia" "st_l1_hashes (dr_state eager_driver) = []"
proof -
  have "\<exists>d. from_config (\<lambda>_. 0) (\<lambda>_. Err (External ''offline'')) (([genesis], None) :: client) eager_config False = Ok d \<and>
      dr_engine_driver d = engine_driver_new ([genesis], None) genesis (cc_l1_start_epoch optimism_sepolia) eager_config \<and>
      dr_finalized_l1_block_number d = 0 \<and> dr_network_service d \<and> st_safe_epoch (dr_state d) = cc_l1_start_epoch optimism_sepolia \<and>
      st_l1_hashes (dr_state d) = []"
    by (simp add: from_config_def get_head_info_def genesis_head_def Let_def state_new_def l2_refs_def insert_l2_refs_unreachable
        checked_div_def bt_empty_def) 
  then show "from_config (\<lambda>_. 0) (\<lambda>_. Err (External ''offline'')) ([genesis], None) eager_config False = Ok eager_driver"
    "dr_engine_driver eager_driver = engine_driver_new ([genesis], None) genesis (cc_l1_start_epoch optimism_sepolia) eager_config"
    "dr_finalized_l1_block_number eager_driver = 0" "dr_network_service eager_driver"
    "st_safe_epoch (dr_state eager_driver) = cc_l1_start_epoch optimism_sepolia" "st_l1_hashes (dr_state eager_driver) = []"
    by (auto simp: eager_driver_def)
qed

lemma taken_lookup:
  assumes "state_inv s" "fresh_l1 s info" "cc_blocktime (cfg_chain (st_config s)) \<noteq> 0"
  shows "state_inv (taken ed s info)" "st_current_epoch_num (taken ed s info) = l1b_number (l1i_block_info info)"
    "l1_info_by_number (taken ed s info) n = (if n < l1_bound s then None
       else if n = l1b_number (l1i_block_info info) then Some info else l1_info_by_number s n)"
    "st_safe_head (taken ed s info) = ed_safe_head ed" "st_safe_epoch (taken ed s info) = ed_safe_epoch ed"
    "st_config (taken ed s info) = st_config s"
proof -
  obtain s' where "update_l1_info s info = Ok s'" "state_inv s'" "st_current_epoch_num s' = l1b_number (l1i_block_info info)"
    "\<forall>n. l1_info_by_number s' n = (if n < l1_bound s then None
       else if n = l1b_number (l1i_block_info info) then Some info else l1_info_by_number s n)" "st_config s' = st_config s"
    using update_l1_info_Ok [OF assms] by blast
  then show "state_inv (taken ed s info)" "st_current_epoch_num (taken ed s info) = l1b_number (l1i_block_info info)"
    "l1_info_by_number (taken ed s info) n = (if n < l1_bound s then None
       else if n = l1b_number (l1i_block_info info) then Some info else l1_info_by_number s n)"
    "st_safe_head (taken ed s info) = ed_safe_head ed" "st_safe_epoch (taken ed s info) = ed_safe_epoch ed"
    "st_config (taken ed s info) = st_config s"
    by (simp_all add: taken_def state_inv_update_safe_head l1_info_update_safe_head) (simp_all add: update_safe_head_def Let_def)
qed

text \<open>Calls of an idle pipeline: nothing, or the empty block that the state forces.\<close>

lemma idle_next:
  assumes "pipeline_idle config p" "empty_input state config = None"
  shows "\<exists>q. pipeline_next ex state p = Ok (None, p\<lparr>pp_attributes := (pp_attributes p)\<lparr>at_block_input_iter := q\<rparr>\<rparr>) \<and> queue_idle config q"
proof -
  have "holds config 0 [] [] [] [] (queue_of p)" using assms(1) by (simp add: pipeline_idle_def queue_idle_def)
  from next_nothing [OF this assms(2), of "ex_codec ex"] obtain q where
    "next_input (ex_codec ex) state (queue_of p) = Ok (None, q)" "queue_idle config q" by (auto simp: queue_idle_def)
  then show ?thesis using pipeline_next_nothing [of p ex state q] assms(1) by (auto simp: pipeline_idle_def)
qed

lemma forced_next:
  assumes "queue_idle config q" "empty_input state config = Some i"
  shows "\<exists>q'. next_input cod state q = Ok (Some i, q') \<and> queue_idle config q'"
proof -
  let ?c = "bs_channel_iter q"
  obtain it where "channels_next batcher_transactions_next ?c = Ok (None, ?c\<lparr>chs_batcher_tx_iter := it\<rparr>)" "bts_safe it" "bts_backlog it = []"
    using batcher_transactions_next_safe [of "chs_batcher_tx_iter ?c"] assms(1)
    by (auto simp: channels_next_def process_frames_def fill_bank_def collecting_def holds_def queue_idle_def Let_def)
  then show ?thesis using assms
    by (simp add: queue_idle_def holds_def Let_def batches_next_def try_next_def derive_next_def select_batch.simps collecting_def)
qed

lemma attributes_next_iter:
  assumes "attributes_next ex input_of state s = Ok (x, s')" "input_of (at_block_input_iter s) = Ok (y, it)"
  shows "at_block_input_iter s' = it"
  using assms by (auto simp: attributes_next_def derive_attributes_def outcome_simps Let_def update_sequence_number_def
      split: option.splits if_splits)

lemma forced_attributes:
  assumes "pipeline_idle config p" "empty_input state config = Some i" "state_inv state"
    and "l1_info_by_number state (bin_epoch i) = Some info"
  shows "\<exists>pa p'. pipeline_next plain_externals state p = Ok (Some pa, p') \<and> pipeline_idle config p' \<and> pa_timestamp pa = bin_timestamp i \<and>
    pa_epoch pa = Some (epoch_of_info info) \<and> pa_l1_inclusion_block pa = Some (bin_l1_inclusion_block i) \<and> pa_seq_number pa \<noteq> None"
proof -
  let ?next = "next_input plain_codec state"
  obtain q where q: "?next (queue_of p) = Ok (Some i, q)" "queue_idle config q"
    using forced_next [OF _ assms(2)] assms(1) by (auto simp: pipeline_idle_def)
  have bytes: "ex_to_be_bytes plain_externals 8 w = Ok (to_be_bytes 8 w)" for w
    by (simp add: plain_externals_def sample_externals_def)
  from attributes_next_succeeds [where next_input = ?next and ex = plain_externals, OF assms(3) q(1) assms(4) bytes]
  obtain pa at where at: "attributes_next plain_externals ?next state (pp_attributes p) = Ok (Some pa, at)"
    and pa: "pa_epoch pa = Some (epoch_of_info info)" "pa_timestamp pa = bin_timestamp i" "pa_l1_inclusion_block pa = Some (bin_l1_inclusion_block i)"
    by blast
  have "ex_codec plain_externals = plain_codec" by (simp add: plain_externals_def)
  then have nxt: "pipeline_next plain_externals state p = Ok (Some pa, p\<lparr>pp_attributes := at\<rparr>)"
    using assms(1) at by (simp add: pipeline_next_stages pipeline_idle_def)
  have "pa_seq_number pa \<noteq> None"
    using pipeline_next_typed [of p plain_externals state "Some pa"] nxt assms(1) by (simp add: pipeline_idle_def well_typed_def complete_def)
  with nxt pa show ?thesis using attributes_next_iter [OF at q(1)] q(2) assms(1) by (auto simp: pipeline_idle_def)
qed

definition node_info :: "u64 \<Rightarrow> u64 \<Rightarrow> l1_info" where
  "node_info n ts = (sample_l1_info n)\<lparr>l1i_block_info := (l1i_block_info (sample_l1_info n))\<lparr>l1b_timestamp := ts\<rparr>,
     l1i_system_config := (cc_system_config optimism)\<lparr>sc_unsafe_block_signer := 7\<rparr>\<rparr>"

lemma node_info_fields [simp]:
  "l1b_number (l1i_block_info (node_info n ts)) = n" "l1b_timestamp (l1i_block_info (node_info n ts)) = ts"
  "l1b_hash (l1i_block_info (node_info n ts)) = 1000 + ucast n" "l1i_batcher_transactions (node_info n ts) = []"
  "sc_unsafe_block_signer (l1i_system_config (node_info n ts)) = 7"
  by (simp_all add: node_info_def sample_l1_info_def)

text \<open>The driver with the first of the two L1 blocks in its channel, and what it is after an iteration.\<close>

definition first_info :: l1_info where
  "first_info = node_info 4071408 1691802540"

definition second_info :: l1_info where
  "second_info = node_info 4071409 1691802543"

definition informed :: "l1_info \<Rightarrow> client driver \<Rightarrow> client driver" where
  "informed info d = d\<lparr>dr_chain_watcher := (dr_chain_watcher d)\<lparr>cw_block_update_receiver := Some [NewBlock info]\<rparr>\<rparr>"

definition received :: "l1_info \<Rightarrow> client driver \<Rightarrow> client driver" where
  "received info d = d
    \<lparr>dr_chain_watcher := (dr_chain_watcher d)\<lparr>cw_block_update_receiver := Some []\<rparr>,
     dr_unsafe_block_signer := 7, dr_pipeline := push_batcher_transactions (dr_pipeline d) [] (l1b_number (l1i_block_info info)),
     dr_state := taken (dr_engine_driver d) (dr_state d) info\<rparr>"

lemma receive_informed:
  assumes "info \<in> {first_info, second_info}" "dr_signer_received d" "cc_blocktime (cfg_chain (st_config (dr_state d))) \<noteq> 0"
  shows "receive (informed info d) = (Ok (), received info d)"
  using assms receive_block [of "informed info d" info "[]"]
  by (auto simp: informed_def received_def first_info_def second_info_def)

definition after_first :: "client driver" where
  "after_first =
     (let d = received first_info (driver_start eager_driver)
      in d\<lparr>dr_pipeline := (case pipeline_next plain_externals (dr_state d) (dr_pipeline d) of Ok (_, p) \<Rightarrow> p)\<rparr>)"

lemma eager_offline:
  "dr_signer_received eager_driver" "\<not> dr_shutdown_recv eager_driver" "pipeline_idle eager_config (dr_pipeline eager_driver)"
  "dr_unsafe_block_recv eager_driver = []" "dr_future_unsafe_blocks eager_driver = []" "dr_unfinalized_blocks eager_driver = []"
  "state_inv (dr_state eager_driver)" "st_config (dr_state eager_driver) = eager_config"
  using offline_driver [OF eager_driver_run] by simp_all

lemma l1_bound_eager: "st_safe_epoch s = cc_l1_start_epoch optimism_sepolia \<Longrightarrow> st_config s = eager_config \<Longrightarrow> l1_bound s = 4071408"
  by (simp add: l1_bound_def saturating_sub_def)

lemma driver_start_fields [simp]:
  "dr_engine_driver (driver_start d) = dr_engine_driver d" "dr_state (driver_start d) = dr_state d" "dr_pipeline (driver_start d) = dr_pipeline d"
  "dr_unsafe_block_recv (driver_start d) = dr_unsafe_block_recv d" "dr_future_unsafe_blocks (driver_start d) = dr_future_unsafe_blocks d"
  "dr_unfinalized_blocks (driver_start d) = dr_unfinalized_blocks d" "dr_signer_received (driver_start d) = dr_signer_received d"
  "dr_shutdown_recv (driver_start d) = dr_shutdown_recv d" "dr_finalized_l1_block_number (driver_start d) = dr_finalized_l1_block_number d"
  "dr_network_service (driver_start d) = dr_network_service d" "dr_unsafe_block_signer (driver_start d) = dr_unsafe_block_signer d"
  by (simp_all add: driver_start_def)

lemma first_state:
  defines "s \<equiv> taken (dr_engine_driver eager_driver) (dr_state eager_driver) first_info"
  shows "state_inv s" "st_current_epoch_num s = 4071408" "l1_info_by_number s 4071408 = Some first_info"
    "n \<noteq> 4071408 \<Longrightarrow> l1_info_by_number s n = None" "st_safe_epoch s = cc_l1_start_epoch optimism_sepolia" "st_config s = eager_config"
    "empty_input s eager_config = None" "st_safe_head s = genesis"
proof -
  have "fresh_l1 (dr_state eager_driver) first_info" by (simp add: fresh_l1_def eager_driver_fields)
  from taken_lookup [OF eager_offline(7) this, of "dr_engine_driver eager_driver"]
  have t: "state_inv s" "st_current_epoch_num s = 4071408" "st_safe_epoch s = cc_l1_start_epoch optimism_sepolia" "st_config s = eager_config"
      "st_safe_head s = genesis"
    and look: "l1_info_by_number s n = (if n < 4071408 then None else if n = 4071408 then Some first_info else l1_info_by_number (dr_state eager_driver) n)" for n
    by (simp_all add: s_def eager_offline eager_driver_fields l1_bound_eager eager_driver_engine engine_driver_new_def first_info_def)
  have none: "l1_info_by_number (dr_state eager_driver) n = None" for n by (simp add: l1_info_by_number_def eager_driver_fields)
  show "state_inv s" "st_current_epoch_num s = 4071408" "l1_info_by_number s 4071408 = Some first_info"
    "n \<noteq> 4071408 \<Longrightarrow> l1_info_by_number s n = None" "st_safe_epoch s = cc_l1_start_epoch optimism_sepolia" "st_config s = eager_config"
    "st_safe_head s = genesis"
    using t by (simp_all add: look none)
  show "empty_input s eager_config = None" using t by (simp add: empty_input_def epoch_by_number_def look none)
qed

lemma first_iteration:
  shows "advance (Suc 0) plain_externals client_engine (\<lambda>_ _. Ok None) (Ok ()) (informed first_info (driver_start eager_driver)) = (Ok (), after_first)"
    and "pipeline_idle eager_config (dr_pipeline after_first)" "dr_network_service after_first"
    and "dr_state after_first = taken (dr_engine_driver eager_driver) (dr_state eager_driver) first_info"
    and "dr_engine_driver after_first = dr_engine_driver eager_driver" "quiet after_first" "dr_unfinalized_blocks after_first = []"
    and "\<not> dr_shutdown_recv after_first" "dr_finalized_l1_block_number after_first = 0"
proof -
  let ?d = "driver_start eager_driver"
  let ?d1 = "received first_info ?d"
  have idle: "pipeline_idle eager_config (dr_pipeline ?d1)"
    using idle_push_nothing [OF eager_offline(3)] by (simp add: received_def)
  have st: "dr_state ?d1 = taken (dr_engine_driver eager_driver) (dr_state eager_driver) first_info" by (simp add: received_def)
  obtain q where q: "pipeline_next plain_externals (dr_state ?d1) (dr_pipeline ?d1) =
      Ok (None, (dr_pipeline ?d1)\<lparr>pp_attributes := (pp_attributes (dr_pipeline ?d1))\<lparr>at_block_input_iter := q\<rparr>\<rparr>)" "queue_idle eager_config q"
    using idle_next [OF idle] first_state(7) st by auto
  have quiet: "quiet ?d1" by (simp add: quiet_def received_def eager_offline)
  have rec: "receive (informed first_info ?d) = (Ok (), ?d1)"
    by (rule receive_informed) (simp_all add: eager_offline)
  have after: "after_first = ?d1\<lparr>dr_pipeline := (dr_pipeline ?d1)\<lparr>pp_attributes := (pp_attributes (dr_pipeline ?d1))\<lparr>at_block_input_iter := q\<rparr>\<rparr>\<rparr>"
    using q(1) by (simp add: after_first_def Let_def)
  show "advance (Suc 0) plain_externals client_engine (\<lambda>_ _. Ok None) (Ok ()) (informed first_info ?d) = (Ok (), after_first)"
    unfolding advance_waits [OF rec quiet q(1)] by (simp add: after networked_def synced_def received_def eager_offline)
  show "pipeline_idle eager_config (dr_pipeline after_first)" "dr_state after_first = taken (dr_engine_driver eager_driver) (dr_state eager_driver) first_info"
    "dr_engine_driver after_first = dr_engine_driver eager_driver" "quiet after_first" "dr_unfinalized_blocks after_first = []"
    "\<not> dr_shutdown_recv after_first" "dr_finalized_l1_block_number after_first = 0" "dr_network_service after_first"
    using idle q(2) quiet st by (simp_all add: after pipeline_idle_def quiet_def) (simp_all add: received_def eager_offline eager_driver_fields)
qed

lemma second_fresh: "fresh_l1 (dr_state after_first) second_info"
proof -
  let ?s = "dr_state after_first"
  have inv: "bt_inv (st_l1_hashes ?s)" "l1_consistent (st_l1_hashes ?s) (st_l1_info ?s)"
    using first_state(1) by (simp_all add: first_iteration(4) state_inv_def)
  have "n = 4071409" if mem: "(n, 1000 + ucast (4071409 :: u64)) \<in> set (st_l1_hashes ?s)" for n
  proof -
    have get: "bt_get (st_l1_hashes ?s) n = Some (1000 + ucast (4071409 :: u64))" using inv(1) mem by (simp add: bt_get_Some_iff)
    then obtain info where info: "bt_get (st_l1_info ?s) (1000 + ucast (4071409 :: u64)) = Some info"
      "l1b_hash (l1i_block_info info) = 1000 + ucast (4071409 :: u64)"
      using inv(2) unfolding l1_consistent_def by blast
    then have "l1_info_by_number ?s n = Some info" using get by (simp add: l1_info_by_number_def)
    then have "info = first_info" using first_state(3,4) by (cases "n = 4071408") (simp_all add: first_iteration(4))
    then show ?thesis using info(2) by (simp add: first_info_def)
  qed
  then show ?thesis by (auto simp: fresh_l1_def list_all_iff second_info_def)
qed

lemma second_state:
  defines "s \<equiv> taken (dr_engine_driver eager_driver) (dr_state after_first) second_info"
  shows "state_inv s" "st_current_epoch_num s = 4071409" "l1_info_by_number s 4071408 = Some first_info"
    "l1_info_by_number s 4071409 = Some second_info"
    "st_safe_epoch s = cc_l1_start_epoch optimism_sepolia" "st_safe_head s = genesis"
proof -
  note st = first_iteration(4)
  from taken_lookup [OF _ second_fresh, of "dr_engine_driver eager_driver"] first_state
  have t: "state_inv s" "st_current_epoch_num s = 4071409" "st_safe_epoch s = cc_l1_start_epoch optimism_sepolia" "st_safe_head s = genesis"
    and look: "l1_info_by_number s n = (if n < 4071408 then None else if n = 4071409 then Some second_info else l1_info_by_number (dr_state after_first) n)" for n
    by (simp_all add: s_def st l1_bound_eager eager_driver_engine engine_driver_new_def second_info_def)
  then show "state_inv s" "st_current_epoch_num s = 4071409" "l1_info_by_number s 4071408 = Some first_info"
    "l1_info_by_number s 4071409 = Some second_info"
    "st_safe_epoch s = cc_l1_start_epoch optimism_sepolia" "st_safe_head s = genesis"
    using first_state(3) by (simp_all add: st)
qed

lemma second_iteration:
  "\<exists>d'. advance (Suc (Suc 0)) plain_externals client_engine (\<lambda>_ _. Ok None) (Ok ()) (informed second_info after_first) = (Ok (), d') \<and>
     \<not> dr_network_service d' \<and> dr_unsafe_block_signer d' = 7 \<and> quiet d' \<and> level client_known d' \<and>
     bi_number (ed_safe_head (dr_engine_driver d')) = 1 \<and> bi_hash (ed_safe_head (dr_engine_driver d')) = bi_hash genesis + 1"
proof -
  let ?d1 = "received second_info after_first" and ?N = "(\<lambda>_ _. Ok None) :: client \<Rightarrow> block_id \<Rightarrow> eth_block option outcome"
  let ?s = "taken (dr_engine_driver eager_driver) (dr_state after_first) second_info"
  let ?i = "\<lparr>bin_timestamp = 1691802542, bin_epoch = 4071408, bin_transactions = [], bin_l1_inclusion_block = 4071409\<rparr> :: u64 block_input"
  note s = second_state
  have st: "dr_state ?d1 = ?s" by (simp add: received_def first_iteration(5))
  have idle: "pipeline_idle eager_config (dr_pipeline ?d1)"
    using idle_push_nothing [OF first_iteration(2)] by (simp add: received_def)
  have "empty_input ?s eager_config = Some ?i" by (simp add: empty_input_def epoch_by_number_def s epoch_of_info_def Let_def) (simp add: second_info_def)
  moreover have "l1_info_by_number ?s (bin_epoch ?i) = Some first_info" by (simp add: s)
  ultimately obtain pa p where p: "pipeline_next plain_externals ?s (dr_pipeline ?d1) = Ok (Some pa, p)" "pipeline_idle eager_config p"
    and pa: "pa_timestamp pa = 1691802542" "pa_epoch pa = Some (epoch_of_info first_info)" "pa_l1_inclusion_block pa = Some 4071409"
      "pa_seq_number pa \<noteq> None"
    using forced_attributes [OF idle _ s(1)] by fastforce
  obtain sq where sq: "pa_seq_number pa = Some sq" using pa(4) by blast
  let ?d2 = "?d1\<lparr>dr_pipeline := p\<rparr>"
  have ed: "dr_engine_driver ?d2 = engine_driver_new ([genesis], None) genesis (cc_l1_start_epoch optimism_sepolia) eager_config"
    by (simp add: received_def first_iteration(5) eager_driver_engine)
  have "level client_known ?d2" using st s(6) by (simp add: level_def ed) (simp add: engine_driver_new_def client_known_def)
  moreover have "room (Suc 0) (dr_engine_driver ?d2)" by (simp add: ed room_def engine_driver_new_def exI [of _ 0])
  ultimately obtain e where app: "apply_attributes plain_externals client_engine ?N pa ?d2 =
      (Ok (), built client_exec pa (epoch_of_info first_info) 4071409 sq e ?d2)"
    "level client_known (built client_exec pa (epoch_of_info first_info) 4071409 sq e ?d2)"
    using apply_attributes_builds [OF client_executes, of ?d2 0 pa "epoch_of_info first_info" 4071409 sq plain_externals] pa sq
    by (auto simp: ed engine_driver_new_def client_fit_def)
  let ?d3 = "built client_exec pa (epoch_of_info first_info) 4071409 sq e ?d2"
  have head: "ed_safe_head (dr_engine_driver ?d3) = executed client_exec genesis pa"
    by (simp add: built_def Let_def ed) (simp add: engine_driver_new_def)
  have "dr_state ?d3 = update_safe_head ?s (executed client_exec genesis pa) (epoch_of_info first_info)"
    using st by (simp add: built_def Let_def ed) (simp add: engine_driver_new_def)
  moreover have "bi_timestamp (executed client_exec genesis pa) = 1691802542" by (simp add: executed_simps [OF client_executes] pa)
  moreover have "epoch_by_number (update_safe_head ?s h ep) 4071409 = Some (epoch_of_info second_info)" for h ep
    by (simp add: epoch_by_number_def l1_info_update_safe_head s)
  moreover have "st_current_epoch_num (update_safe_head ?s h ep) = 4071409" "st_safe_head (update_safe_head ?s h ep) = h"
    "st_safe_epoch (update_safe_head ?s h ep) = ep" for h ep
    by (simp_all add: update_safe_head_def s Let_def)
  moreover have "ep_number (epoch_of_info first_info) = 4071408" "ep_number (epoch_of_info second_info) = 4071409"
    "ep_timestamp (epoch_of_info second_info) = 1691802543"
    by (simp_all add: epoch_of_info_def first_info_def second_info_def)
  ultimately have "empty_input (dr_state ?d3) eager_config = None" by (simp add: empty_input_def)
  moreover have p3: "dr_pipeline ?d3 = p" by (simp add: built_def Let_def)
  ultimately obtain q where q: "pipeline_next plain_externals (dr_state ?d3) (dr_pipeline ?d3) =
      Ok (None, p\<lparr>pp_attributes := (pp_attributes p)\<lparr>at_block_input_iter := q\<rparr>\<rparr>)"
    using idle_next [OF p(2)] by metis
  let ?d4 = "?d3\<lparr>dr_pipeline := p\<lparr>pp_attributes := (pp_attributes p)\<lparr>at_block_input_iter := q\<rparr>\<rparr>\<rparr>"
  have rec: "receive (informed second_info after_first) = (Ok (), ?d1)"
    using first_iteration(6) first_state(6) by (intro receive_informed) (simp_all add: quiet_def first_iteration(4))
  have "advance_safe_head (Suc (Suc 0)) plain_externals client_engine ?N (informed second_info after_first) = (Ok (), ?d4)"
    using p(1) app(1) q st
    by (simp add: advance_safe_head_receive rec bind_action_run take_attributes_def with_state_def lift_outcome_def bind_action_def modify_def)
  moreover have quiet: "quiet ?d4" using first_iteration(6,7,9) by (simp add: quiet_def built_def received_def Let_def)
  ultimately have "advance (Suc (Suc 0)) plain_externals client_engine ?N (Ok ()) (informed second_info after_first) = (Ok (), networked ?d4)"
    by (rule advance_quiet)
  moreover have "\<not> dr_network_service (networked ?d4)" by (simp add: networked_def synced_def built_def Let_def)
  moreover have "dr_unsafe_block_signer (networked ?d4) = 7" by (simp add: networked_def built_def received_def Let_def)
  moreover have "bi_number (executed client_exec genesis pa) = 1" "bi_hash (executed client_exec genesis pa) = bi_hash genesis + 1"
    by (simp_all add: executed_simps [OF client_executes]) (simp add: client_exec_def)
  ultimately show ?thesis using quiet app(2) head by (intro exI [of _ "networked ?d4"]) (simp add: level_def)
qed

text \<open>The message: its block follows the first derived one.\<close>

definition node_gossip :: "bytes gossip_externals" where
  "node_gossip = sample_gossip\<lparr>ge_deserialize_v1 := (\<lambda>bs. Ok ((sample_ssz 1000 3)\<lparr>ssz_parent_hash := to_be_bytes 32 (bi_hash genesis + 1)\<rparr>))\<rparr>"

definition node_message :: message where
  "node_message = \<lparr>msg_topic = blocks_topic 11155420 ''0'', msg_data = replicate 65 0 @ [3]\<rparr>"

definition node_event :: "nat selected" where
  "node_event = Behaviour 1030 (Gossipsub (GossipMessage 1 [] node_message))"

lemma node_payload:
  "\<exists>payload. payload_from_v1 ((sample_ssz 1000 3)\<lparr>ssz_parent_hash := to_be_bytes 32 (bi_hash genesis + 1)\<rparr>) = Ok payload \<and>
     pl_timestamp payload = 1000 \<and> pl_parent_hash payload = bi_hash genesis + 1 \<and> pl_block_number payload = 5"
  by (simp add: payload_from_v1_def convert_payload_def convert_hash_def convert_address_def from_slice_def
      sample_ssz_def convert_uint_eq as_u64_def)

lemma node_message_accepted:
  assumes "handler_inv h" "bh_chain_id h = 11155420" "bh_unsafe_signer_recv h = 7"
  shows "\<exists>payload. block_handle node_gossip 1030 node_message h = (Ok message_acceptance.Accept, send_payload payload h) \<and>
    pl_parent_hash payload = bi_hash genesis + 1 \<and> pl_block_number payload = 5"
proof -
  obtain payload where p: "payload_from_v1 ((sample_ssz 1000 3)\<lparr>ssz_parent_hash := to_be_bytes 32 (bi_hash genesis + 1)\<rparr>) = Ok payload"
    "pl_timestamp payload = 1000" "pl_parent_hash payload = bi_hash genesis + 1" "pl_block_number payload = 5"
    using node_payload by blast
  have "carries node_gossip 11155420 node_message (replicate 65 0) [3] payload"
    "sequencer_signed node_gossip 11155420 7 (replicate 65 0) [3]"
    using p(1) by (simp_all add: carries_def sequencer_signed_def node_gossip_def sample_gossip_def node_message_def)
  moreover have "recent 1030 (pl_timestamp payload)" "clock_in_range 1030" by (simp_all add: p(2) recent_def clock_in_range_def)
  ultimately obtain env where "decode_message node_gossip h node_message = Some (Ok env)" "block_valid node_gossip 1030 h env" "env_payload env = payload"
    using decode_message_valid_iff [OF assms(1), of 1030 node_gossip node_message payload] assms(2,3) by auto
  then have "block_handle node_gossip 1030 node_message h = (Ok message_acceptance.Accept, send_payload payload h)" unfolding block_handle_Accept_iff by blast
  then show ?thesis using p(3,4) by blast
qed

lemma node_iteration:
  assumes "nw_handlers n = [h]" "handler_inv h" "bh_chain_id h = 11155420" "bh_unsafe_signer_recv h = 7" "bh_block_sender h = []" "bh_receiver_alive h"
  shows "\<exists>n' h' payload. service_iteration handler_topics (block_handle node_gossip) node_event n = (Ok (), n') \<and>
    nw_handlers n' = [h'] \<and> bh_block_sender h' = [payload] \<and> pl_parent_hash payload = bi_hash genesis + 1 \<and> pl_block_number payload = 5"
proof -
  obtain payload where p: "block_handle node_gossip 1030 node_message h = (Ok message_acceptance.Accept, send_payload payload h)"
    "pl_parent_hash payload = bi_hash genesis + 1" "pl_block_number payload = 5"
    using node_message_accepted [OF assms(2-4)] by blast
  have "msg_topic node_message \<in> set (handler_topics h)"
    using assms(2,3) by (simp add: handler_inv_def handler_topics_def node_message_def)
  then have "list_position (\<lambda>h. msg_topic node_message \<in> set (handler_topics h)) (nw_handlers n) = Some 0"
    by (simp add: list_position_Some assms(1))
  then show ?thesis using p assms(1,5,6)
    by (simp add: service_iteration_def node_event_def event_handle_def with_state_def zoom_def bind_action_def modify_def send_payload_def)
qed

lemma advance_takes:
  assumes "level client_known d" "bi_number (ed_safe_head (dr_engine_driver d)) = 1"
    "bi_hash (ed_safe_head (dr_engine_driver d)) = bi_hash genesis + 1" "quiet d"
    and "pl_parent_hash p = bi_hash genesis + 1" "pl_block_number p = 5"
  shows "\<exists>r d'. advance_unsafe_head client_engine (d\<lparr>dr_unsafe_block_recv := [p]\<rparr>) = (r, d') \<and> bi_number (ed_unsafe_head (dr_engine_driver d')) = 5"
proof -
  let ?ed = "dr_engine_driver d"
  have h: "bi_number (ed_unsafe_head ?ed) = 1" "bi_hash (ed_unsafe_head ?ed) = bi_hash genesis + 1"
    using assms(1-3) by (simp_all add: level_def Let_def)
  have "dr_future_unsafe_blocks (collect_unsafe_blocks (d\<lparr>dr_unsafe_block_recv := [p]\<rparr>)) = [p]"
    using assms(4,6) h by (simp add: collect_unsafe_blocks_def quiet_def is_future_def)
  moreover obtain q ed where call: "handle_unsafe_payload client_engine p ?ed = (q, ed)" by fastforce
  moreover have "bi_number (ed_unsafe_head ed) = 5"
  proof -
    have "ed_unsafe_head ed = block_info_from_payload p"
      using call by (auto simp: handle_unsafe_payload_def push_payload_def engine_call_def client_engine_def zoom_def bind_action_def modify_def
          lift_outcome_def update_forkchoice_def with_state_def Let_def split: option.splits prod.splits if_splits)
    then show ?thesis using assms(6) by (simp add: block_info_from_payload_def)
  qed
  ultimately show ?thesis using h assms(5)
    by (cases q) (simp_all add: advance_unsafe_head_def bind_action_def modify_def with_state_def lift_outcome_def attempt_def on_engine_def
        zoom_def collect_unsafe_blocks_def)
qed

theorem unsafe_head_follows_signed_blocks_witness:
  "\<exists>(n :: (block_handler, nat) network) s r d' p.
     (node_step plain_externals client_engine node_gossip)\<^sup>*\<^sup>* \<lparr>nd_driver = eager_driver, nd_network = n, nd_heard = []\<rparr> s \<and>
     advance_unsafe_head client_engine (nd_driver s) = (r, d') \<and> bi_number (ed_unsafe_head (dr_engine_driver (nd_driver s))) = 1 \<and>
     bi_number (ed_unsafe_head (dr_engine_driver d')) = 5 \<and>
     authentic node_gossip 11155420 (nd_heard s) p \<and> ed_unsafe_head (dr_engine_driver d') = block_info_from_payload p"
proof -
  let ?signer = "dr_unsafe_block_signer eager_driver" and ?step = "node_step plain_externals client_engine node_gossip"
  obtain n :: "(block_handler, nat) network" where n: "starts_with_blocks (cc_l2_chain_id (cfg_chain eager_config)) ?signer n"
    using network_exists by blast
  let ?s0 = "\<lparr>nd_driver = eager_driver, nd_network = n, nd_heard = []\<rparr>"
  let ?s1 = "announce (driver_start eager_driver) ?s0"
  let ?s2 = "?s1\<lparr>nd_driver := informed first_info (driver_start eager_driver)\<rparr>"
  let ?s3 = "announce after_first ?s2"
  let ?s4 = "?s3\<lparr>nd_driver := informed second_info after_first\<rparr>"
  obtain d where d: "advance (Suc (Suc 0)) plain_externals client_engine (\<lambda>_ _. Ok None) (Ok ()) (informed second_info after_first) = (Ok (), d)"
     "\<not> dr_network_service d" "dr_unsafe_block_signer d = 7" "quiet d" "level client_known d"
     "bi_number (ed_safe_head (dr_engine_driver d)) = 1" "bi_hash (ed_safe_head (dr_engine_driver d)) = bi_hash genesis + 1"
    using second_iteration by blast
  let ?s5 = "announce d ?s4"
  have "?step ?s0 ?s1" using node_step.node_started [of plain_externals client_engine node_gossip ?s0] by simp
  moreover have "?step ?s1 ?s2"
    using node_step.node_l1_update [of ?s1 "[]" plain_externals client_engine node_gossip "NewBlock first_info"]
    by (simp add: announce_def informed_def) (simp add: driver_start_def chain_watcher_start_def)
  moreover have "?step ?s2 ?s3"
    using node_step.node_advanced [of ?s2 "Suc 0" plain_externals client_engine "\<lambda>_ _. Ok None" "Ok ()" after_first] first_iteration(1) eager_offline(2)
    by (simp add: informed_def)
  moreover have "?step ?s3 ?s4"
    using node_step.node_l1_update [of ?s3 "[]" plain_externals client_engine node_gossip "NewBlock second_info"]
    by (simp add: announce_def informed_def) (simp add: after_first_def received_def Let_def)
  moreover have "?step ?s4 ?s5"
    using node_step.node_advanced [of ?s4 "Suc (Suc 0)" plain_externals client_engine "\<lambda>_ _. Ok None" "Ok ()" d] d(1) first_iteration(8)
    by (simp add: informed_def)
  ultimately have to5: "?step\<^sup>*\<^sup>* ?s0 ?s5" by (meson converse_rtranclp_into_rtranclp rtranclp.rtrancl_refl)
  let ?h = "(block_handler_new 11155420 ?signer)\<lparr>bh_unsafe_signer_recv := 7\<rparr>"
  have h5: "nw_handlers (nd_network ?s5) = [?h]" "nd_driver ?s5 = d" "nd_heard ?s5 = []"
    using starts_with_blocks_network(1) [OF n] d(3) by (simp_all add: announce_def)
  obtain m h' p where m: "service_iteration handler_topics (block_handle node_gossip) node_event (nd_network ?s5) = (Ok (), m)"
    "nw_handlers m = [h']" "bh_block_sender h' = [p]" "pl_parent_hash p = bi_hash genesis + 1" "pl_block_number p = 5"
    using node_iteration [OF h5(1)] handler_inv_new by (auto simp: block_handler_new_def)
  let ?s6 = "?s5\<lparr>nd_network := m, nd_heard := nd_heard ?s5 @ [(node_event, dr_unsafe_block_signer (nd_driver ?s5))]\<rparr>"
  have "?step ?s5 ?s6"
    by (rule node_step.node_network [OF _ _ m(1)]) (use d(2) h5(2) in \<open>auto simp: node_event_def clock_in_range_def\<close>)
  moreover have "?step ?s6 (deliver ?s6)" by (rule node_step.node_deliver)
  ultimately have run: "?step\<^sup>*\<^sup>* ?s0 (deliver ?s6)" using to5 by (meson rtranclp.rtrancl_into_rtrancl)
  have "nd_driver (deliver ?s6) = d\<lparr>dr_unsafe_block_recv := [p]\<rparr>"
    using m(2,3) h5(2) d(4) by (simp add: deliver_def Let_def quiet_def)
  then obtain r d' where adv: "advance_unsafe_head client_engine (nd_driver (deliver ?s6)) = (r, d')"
    "bi_number (ed_unsafe_head (dr_engine_driver d')) = 5" "bi_number (ed_unsafe_head (dr_engine_driver (nd_driver (deliver ?s6)))) = 1"
    using advance_takes [OF d(5-7,4) m(4,5)] d(5,6) by (auto simp: level_def Let_def)
  then show ?thesis
    using unsafe_head_follows_signed_blocks [OF eager_driver_run n run adv(1)] run by fastforce
qed

end
