(* ===== verification/Engine_Api.thy ===== *)
theory Engine_Api
  imports Text_Format Effects Engine_Types
begin

text \<open>
  \<^verbatim>\<open>src/src/engine/auth.rs\<close>, \<^verbatim>\<open>src/src/engine/types.rs\<close> and \<^verbatim>\<open>src/src/engine/api.rs\<close>: the client of the execution engine's
  authenticated JSON-RPC interface.

  Sending a request, the JSON codecs, the codec of the \<open>hex\<close> crate and the signing of a token are the fields of
  \<open>api_externals\<close>; the state \<open>'s\<close> is that of the world the client talks to, its clock included. The crate
  that repeats a failing request is the argument \<open>retry\<close> of a call, with its documented behaviour as \<open>retries_errors\<close>.
  Text is ASCII: the whitespace \<open>trim\<close> removes is that of ASCII.

  Shown: secrets and transactions round-trip through their notations; the address parsed is the one built, and which
  addresses are cut short; every request is authenticated with a token of the moment it is sent, and a call makes at most six.
\<close>

section \<open>Secrets and claims\<close>

datatype jwt_secret = JwtSecret (secret_bytes: bytes)

definition JWT_SECRET_LEN :: nat where "JWT_SECRET_LEN = 64"

definition JWT_MAX_IAT_DIFF :: u64 where "JWT_MAX_IAT_DIFF = 60"

definition is_whitespace :: "char \<Rightarrow> bool" where
  "is_whitespace c \<longleftrightarrow> of_char c \<in> {9, 10, 11, 12, 13, 32 :: nat}"

definition trim :: "string \<Rightarrow> string" where
  "trim s = rev (dropWhile is_whitespace (rev (dropWhile is_whitespace s)))"

definition strip_prefix :: "string \<Rightarrow> string \<Rightarrow> string option" where
  "strip_prefix p s = (if take (length p) s = p then Some (drop (length p) s) else None)"

definition unwrap_or :: "'a option \<Rightarrow> 'a \<Rightarrow> 'a" where
  "unwrap_or m d = (case m of Some x \<Rightarrow> x | None \<Rightarrow> d)"

definition jwt_secret_from_hex :: "(string \<Rightarrow> bytes outcome) \<Rightarrow> string \<Rightarrow> jwt_secret outcome" where
  "jwt_secret_from_hex hex_decode hex =
     (let hex = trim hex;
          hex = unwrap_or (case strip_prefix ''0x'' hex of Some h \<Rightarrow> Some h | None \<Rightarrow> strip_prefix ''0X'' hex) hex
      in if length hex \<noteq> JWT_SECRET_LEN
         then Err (Eyre (''Invalid JWT secret key length. Expected '' @ show_nat JWT_SECRET_LEN @
                '' characters, got '' @ show_nat (length hex) @ ''.''))
         else and_then (hex_decode hex) (\<lambda>hex_bytes.
              if length hex_bytes = 32 then Ok (JwtSecret hex_bytes) else Panic (UnwrapFailed ''is expected len'')))"

definition jwt_secret_random :: "(bytes \<Rightarrow> string) \<Rightarrow> (string \<Rightarrow> bytes outcome) \<Rightarrow> bytes \<Rightarrow> jwt_secret outcome" where
  "jwt_secret_random hex_encode hex_decode random_bytes =
     unwrap_res (jwt_secret_from_hex hex_decode (hex_encode random_bytes)) ''called unwrap on an Err value''"

definition jwt_secret_equal :: "(bytes \<Rightarrow> string) \<Rightarrow> jwt_secret \<Rightarrow> string \<Rightarrow> bool" where
  "jwt_secret_equal hex_encode self token \<longleftrightarrow> hex_encode (secret_bytes self) = token"

text \<open>The secret is not shown when it is printed for debugging: the field is the literal text.\<close>

definition jwt_secret_fmt :: "jwt_secret \<Rightarrow> string" where
  "jwt_secret_fmt self = ''JwtSecret('' @ [CHR 0x22] @ ''{{}}'' @ [CHR 0x22] @ '')''"

text \<open>A transaction printed for debugging, and in JSON, from \<^verbatim>\<open>src/src/common/mod.rs\<close>.\<close>

definition raw_transaction_fmt :: "(bytes \<Rightarrow> string) \<Rightarrow> raw_transaction \<Rightarrow> string" where
  "raw_transaction_fmt hex_encode self = ''0x'' @ hex_encode (raw_bytes self)"

definition raw_transaction_serialize :: "(bytes \<Rightarrow> string) \<Rightarrow> raw_transaction \<Rightarrow> string" where
  "raw_transaction_serialize hex_encode self = ''0x'' @ hex_encode (raw_bytes self)"

definition raw_transaction_deserialize :: "(string \<Rightarrow> bytes outcome) \<Rightarrow> string \<Rightarrow> raw_transaction outcome" where
  "raw_transaction_deserialize hex_decode tx =
     (let tx = unwrap_or (strip_prefix ''0x'' tx) tx
      in and_then (hex_decode tx) (\<lambda>bs. Ok (RawTransaction bs)))"

record claims =
  cl_iat :: u64
  cl_exp :: u64

definition generate_claims :: "u64 \<Rightarrow> claims" where
  "generate_claims now_secs = \<lparr>cl_iat = now_secs, cl_exp = now_secs + 60\<rparr>"

definition abs_diff :: "u64 \<Rightarrow> u64 \<Rightarrow> u64" where
  "abs_diff a b = (if a \<le> b then b - a else a - b)"

definition claims_valid :: "u64 \<Rightarrow> claims \<Rightarrow> bool" where
  "claims_valid now_secs self \<longleftrightarrow> abs_diff now_secs (cl_iat self) \<le> JWT_MAX_IAT_DIFF"

section \<open>Constants\<close>

definition DEFAULT_AUTH_PORT :: u16 where "DEFAULT_AUTH_PORT = 8551"
definition STATIC_ID :: u32 where "STATIC_ID = 1"
definition JSONRPC_VERSION :: string where "JSONRPC_VERSION = ''2.0''"
definition ENGINE_NEW_PAYLOAD_V2 :: string where "ENGINE_NEW_PAYLOAD_V2 = ''engine_newPayloadV2''"
definition ENGINE_GET_PAYLOAD_V2 :: string where "ENGINE_GET_PAYLOAD_V2 = ''engine_getPayloadV2''"
definition ENGINE_FORKCHOICE_UPDATED_V2 :: string where "ENGINE_FORKCHOICE_UPDATED_V2 = ''engine_forkchoiceUpdatedV2''"

section \<open>The client\<close>

text \<open>The JSON values that the client builds itself; \<open>JOther\<close> are the ones serialized by serde.\<close>

datatype 'j json = JNull | JString string | JNumber int | JArray "'j json list" | JOther 'j

record http_request =
  rq_url :: string
  rq_authorization :: string
  rq_body :: "string \<rightharpoonup> string json"

record engine_api_error_payload =
  ae_code :: int
  ae_message :: string
  ae_data :: "string json option"

record 'p engine_api_response =
  ar_jsonrpc :: string
  ar_id :: u64
  ar_result :: "'p option"
  ar_error :: "engine_api_error_payload option"

record get_payload_response =
  gp_execution_payload :: execution_payload

record 's api_externals =
  ax_hex_decode :: "string \<Rightarrow> bytes outcome"
  ax_hex_encode :: "bytes \<Rightarrow> string"
  ax_jwt_encode :: "bytes \<Rightarrow> claims \<Rightarrow> string outcome"
  ax_now :: "'s \<Rightarrow> u64"
  ax_send :: "http_request \<Rightarrow> ('s, bytes) action"
  ax_attributes_to_value :: "payload_attributes \<Rightarrow> string json outcome"
  ax_forkchoice_to_value :: "forkchoice_state \<Rightarrow> string json outcome"
  ax_payload_to_value :: "execution_payload \<Rightarrow> string json outcome"
  ax_parse_forkchoice :: "bytes \<Rightarrow> fork_choice_update engine_api_response outcome"
  ax_parse_status :: "bytes \<Rightarrow> payload_status engine_api_response outcome"
  ax_parse_payload :: "bytes \<Rightarrow> get_payload_response engine_api_response outcome"
  ax_parse_value :: "bytes \<Rightarrow> string json engine_api_response outcome"

record engine_api =
  api_base_url :: string
  api_port :: u16
  api_client :: "unit option"
  api_secret :: jwt_secret

definition is_decimal_digit :: "char \<Rightarrow> bool" where
  "is_decimal_digit c \<longleftrightarrow> 48 \<le> (of_char c :: nat) \<and> (of_char c :: nat) < 58"

text \<open>\<open>str::parse::<u16>\<close>: an optional sign, then at least one digit, of a number in range.\<close>

definition parse_u16 :: "string \<Rightarrow> u16 option" where
  "parse_u16 s =
     (let digits = (case s of c # cs \<Rightarrow> if c = CHR ''+'' then cs else s | [] \<Rightarrow> [])
      in if digits \<noteq> [] \<and> list_all is_decimal_digit digits \<and> read_base 10 digits < 2 ^ 16
         then Some (of_nat (read_base 10 digits)) else None)"

fun join :: "string \<Rightarrow> string list \<Rightarrow> string" where
  "join sep [] = []"
| "join sep [p] = p"
| "join sep (p # ps) = p @ sep @ join sep ps"

definition engine_api_new :: "(string \<Rightarrow> bytes outcome) \<Rightarrow> string \<Rightarrow> string \<Rightarrow> engine_api outcome" where
  "engine_api_new hex_decode base_url secret_str =
     and_then (unwrap_res (jwt_secret_from_hex hex_decode secret_str) ''called unwrap on an Err value'') (\<lambda>secret.
     let parts = split_at (CHR '':'') base_url
     in and_then (index parts (length parts - 1)) (\<lambda>last_part.
        let port = unwrap_or (parse_u16 last_part) DEFAULT_AUTH_PORT
        in and_then (if length parts \<le> 2 then index parts 0 else Ok (join '':'' parts)) (\<lambda>base_url.
           Ok \<lparr>api_base_url = base_url, api_port = port, api_client = Some (), api_secret = secret\<rparr>)))"

definition auth_url_from_addr :: "string \<Rightarrow> u16 option \<Rightarrow> string" where
  "auth_url_from_addr addr port =
     (let stripped = unwrap_or (strip_prefix ''http://'' addr) addr;
          stripped = unwrap_or (strip_prefix ''https://'' addr) stripped;
          port = unwrap_or port DEFAULT_AUTH_PORT
      in ''http://'' @ stripped @ '':'' @ show_nat (unat port))"

definition check_secret :: "(bytes \<Rightarrow> string) \<Rightarrow> engine_api \<Rightarrow> string \<Rightarrow> bool" where
  "check_secret hex_encode self secret = jwt_secret_equal hex_encode (api_secret self) secret"

definition engine_api_from_env :: "(string \<Rightarrow> bytes outcome) \<Rightarrow> (string \<rightharpoonup> string) \<Rightarrow> engine_api outcome" where
  "engine_api_from_env hex_decode env =
     and_then (case env ''ENGINE_API_URL'' of Some u \<Rightarrow> Ok u
               | None \<Rightarrow> Panic (Explicit ''ENGINE_API_URL environment variable not set'')) (\<lambda>base_url.
     and_then (case env ''JWT_SECRET'' of Some k \<Rightarrow> Ok k
               | None \<Rightarrow> Panic (Explicit ''JWT_SECRET environment variable not set'')) (\<lambda>secret_key.
     engine_api_new hex_decode (auth_url_from_addr base_url None) secret_key))"

definition base_body :: "string \<rightharpoonup> string json" where
  "base_body = [''jsonrpc'' \<mapsto> JString JSONRPC_VERSION, ''id'' \<mapsto> JNumber (uint STATIC_ID)]"

definition attempt_post ::
  "'s api_externals \<Rightarrow> (bytes \<Rightarrow> 'p engine_api_response outcome) \<Rightarrow> engine_api \<Rightarrow> (string \<rightharpoonup> string json) \<Rightarrow>
   ('s, 'p engine_api_response) action" where
  "attempt_post ax parse self body = with_state (\<lambda>s.
     let claims = generate_claims (ax_now ax s)
     in bind_action (lift_outcome (case ax_jwt_encode ax (secret_bytes (api_secret self)) claims of
            Err _ \<Rightarrow> Err (Eyre ''EngineApi failed to encode jwt with claims!'') | r \<Rightarrow> r)) (\<lambda>jwt.
        bind_action (ax_send ax \<lparr>rq_url = api_base_url self, rq_authorization = ''Bearer '' @ jwt, rq_body = body\<rparr>) (\<lambda>response.
        lift_outcome (parse response))))"

definition post ::
  "(nat \<Rightarrow> ('s, 'p engine_api_response) action \<Rightarrow> ('s, 'p engine_api_response) action) \<Rightarrow> 's api_externals \<Rightarrow>
   (bytes \<Rightarrow> 'p engine_api_response outcome) \<Rightarrow> engine_api \<Rightarrow> string \<Rightarrow> string json list \<Rightarrow> ('s, 'p) action" where
  "post retry ax parse self method params =
     (let body = base_body(''method'' \<mapsto> JString method, ''params'' \<mapsto> JArray params)
      in bind_action (lift_outcome (ok_or (api_client self) ''Driver missing http client'')) (\<lambda>_.
         bind_action (retry 5 (attempt_post ax parse self body)) (\<lambda>res.
         case ar_result res of
           Some r \<Rightarrow> return_action r
         | None \<Rightarrow>
             (case ar_error res of
                Some err \<Rightarrow> bail (''Engine API POST error: '' @ ae_message err)
              | None \<Rightarrow> bail ''Failed to parse Engine API response''))))"

definition is_available ::
  "(nat \<Rightarrow> ('s, string json engine_api_response) action \<Rightarrow> ('s, string json engine_api_response) action) \<Rightarrow>
   's api_externals \<Rightarrow> engine_api \<Rightarrow> ('s, bool) action" where
  "is_available retry ax self = (\<lambda>s.
     case post retry ax (ax_parse_value ax) self ''eth_chainId'' [] s of
       (Ok _, s') \<Rightarrow> (Ok True, s')
     | (Err _, s') \<Rightarrow> (Ok False, s')
     | (Panic p, s') \<Rightarrow> (Panic p, s')
     | (Diverge, s') \<Rightarrow> (Diverge, s'))"

definition api_forkchoice_updated ::
  "(nat \<Rightarrow> ('s, fork_choice_update engine_api_response) action \<Rightarrow> ('s, fork_choice_update engine_api_response) action) \<Rightarrow>
   's api_externals \<Rightarrow> engine_api \<Rightarrow> forkchoice_state \<Rightarrow> payload_attributes option \<Rightarrow> ('s, fork_choice_update) action" where
  "api_forkchoice_updated retry ax self forkchoice_state payload_attributes =
     bind_action (case payload_attributes of
         Some payload_attributes \<Rightarrow> lift_outcome (ax_attributes_to_value ax payload_attributes)
       | None \<Rightarrow> return_action JNull) (\<lambda>payload_attributes_param.
     bind_action (lift_outcome (ax_forkchoice_to_value ax forkchoice_state)) (\<lambda>forkchoice_state_param.
     post retry ax (ax_parse_forkchoice ax) self ENGINE_FORKCHOICE_UPDATED_V2
       [forkchoice_state_param, payload_attributes_param]))"

definition api_new_payload ::
  "(nat \<Rightarrow> ('s, payload_status engine_api_response) action \<Rightarrow> ('s, payload_status engine_api_response) action) \<Rightarrow>
   's api_externals \<Rightarrow> engine_api \<Rightarrow> execution_payload \<Rightarrow> ('s, payload_status) action" where
  "api_new_payload retry ax self execution_payload =
     bind_action (lift_outcome (ax_payload_to_value ax execution_payload)) (\<lambda>payload_param.
     post retry ax (ax_parse_status ax) self ENGINE_NEW_PAYLOAD_V2 [payload_param])"

definition pad_left :: "nat \<Rightarrow> string \<Rightarrow> string" where
  "pad_left n s = replicate (n - length s) (CHR ''0'') @ s"

definition api_get_payload ::
  "(nat \<Rightarrow> ('s, get_payload_response engine_api_response) action \<Rightarrow> ('s, get_payload_response engine_api_response) action) \<Rightarrow>
   's api_externals \<Rightarrow> engine_api \<Rightarrow> u64 \<Rightarrow> ('s, execution_payload) action" where
  "api_get_payload retry ax self payload_id =
     (let encoded = show_hex (unat payload_id);
          padded = ''0x'' @ pad_left 16 encoded
      in bind_action (post retry ax (ax_parse_payload ax) self ENGINE_GET_PAYLOAD_V2 [JString padded]) (\<lambda>res.
         return_action (gp_execution_payload res)))"

definition engine_api_calls ::
  "(nat \<Rightarrow> ('s, fork_choice_update engine_api_response) action \<Rightarrow> ('s, fork_choice_update engine_api_response) action) \<Rightarrow>
   (nat \<Rightarrow> ('s, payload_status engine_api_response) action \<Rightarrow> ('s, payload_status engine_api_response) action) \<Rightarrow>
   (nat \<Rightarrow> ('s, get_payload_response engine_api_response) action \<Rightarrow> ('s, get_payload_response engine_api_response) action) \<Rightarrow>
   's api_externals \<Rightarrow> engine_api \<Rightarrow> 's engine" where
  "engine_api_calls retry_update retry_status retry_payload ax self =
     \<lparr>eng_forkchoice_updated = api_forkchoice_updated retry_update ax self,
      eng_new_payload = api_new_payload retry_status ax self,
      eng_get_payload = api_get_payload retry_payload ax self\<rparr>"

section \<open>Secrets\<close>

definition hex_codec :: "(bytes \<Rightarrow> string) \<Rightarrow> (string \<Rightarrow> bytes outcome) \<Rightarrow> bool" where
  "hex_codec hex_encode hex_decode \<longleftrightarrow>
     (\<forall>bs. hex_decode (hex_encode bs) = Ok bs \<and> length (hex_encode bs) = 2 * length bs \<and>
        (\<forall>c \<in> set (hex_encode bs). \<exists>d < 16. c = digit_char d))"

lemma digit_char_not:
  assumes "d < 16"
  shows "\<not> is_whitespace (digit_char d)" "digit_char d \<noteq> CHR ''x''" "digit_char d \<noteq> CHR ''X''"
  using digit_char_range [OF assms] by (auto simp: is_whitespace_def)

lemma dropWhile_whitespace:
  "list_all is_whitespace l \<Longrightarrow> s \<noteq> [] \<Longrightarrow> \<not> is_whitespace (hd s) \<Longrightarrow> dropWhile is_whitespace (l @ s) = s"
  by (induction l) (auto simp: neq_Nil_conv)

lemma trim_padded:
  assumes "list_all is_whitespace l" "list_all is_whitespace r" "s \<noteq> []" "\<not> is_whitespace (hd s)" "\<not> is_whitespace (last s)"
  shows "trim (l @ s @ r) = s"
proof -
  have "dropWhile is_whitespace (l @ s @ r) = s @ r"
    using assms by (intro dropWhile_whitespace) auto
  moreover have "dropWhile is_whitespace (rev (s @ r)) = rev s"
    using assms dropWhile_whitespace [of "rev r" "rev s"] by (simp add: list_all_rev hd_rev)
  ultimately show ?thesis by (simp add: trim_def)
qed

lemma strip_hex_prefix:
  assumes "p \<in> {[], ''0x'', ''0X''}" "2 \<le> length h" "\<forall>c \<in> set h. \<exists>d < 16. c = digit_char d"
  shows "unwrap_or (case strip_prefix ''0x'' (p @ h) of Some h \<Rightarrow> Some h | None \<Rightarrow> strip_prefix ''0X'' (p @ h)) (p @ h) = h"
proof -
  obtain a b t where h: "h = a # b # t" using assms(2) by (cases h rule: remdups_adj.cases) auto
  have "b \<noteq> CHR ''x'' \<and> b \<noteq> CHR ''X''" using assms(3) h digit_char_not by (metis list.set_intros)
  then show ?thesis using assms(1) by (auto simp: strip_prefix_def unwrap_or_def h)
qed

lemma jwt_secret_from_digits:
  assumes codec: "hex_codec hex_encode hex_decode" and bs: "length bs = 32" and p: "p \<in> {[], ''0x'', ''0X''}"
    and l: "list_all is_whitespace l" and r: "list_all is_whitespace r"
  shows "jwt_secret_from_hex hex_decode (l @ (p @ hex_encode bs) @ r) = Ok (JwtSecret bs)"
proof -
  let ?h = "hex_encode bs"
  have h: "length ?h = 64" "hex_decode ?h = Ok bs" "\<forall>c \<in> set ?h. \<exists>d < 16. c = digit_char d"
    using codec bs by (simp_all add: hex_codec_def)
  then have ne: "?h \<noteq> []" by auto
  have "\<not> is_whitespace (last ?h)" "\<not> is_whitespace (hd ?h)"
    using h(3) digit_char_not(1) last_in_set [OF ne] hd_in_set [OF ne] by metis+
  then have "trim (l @ (p @ ?h) @ r) = p @ ?h"
    using p ne l r by (intro trim_padded) (auto simp: is_whitespace_def)
  moreover note strip_hex_prefix [OF p _ h(3)]
  ultimately show ?thesis
    using h bs by (simp add: jwt_secret_from_hex_def JWT_SECRET_LEN_def)
qed

text \<open>
  A secret of 32 bytes is read back from its hexadecimal digits, with or without a prefix and surrounded by any
  whitespace; what is then recognised as the secret is the digits alone.
\<close>

lemma jwt_secret_roundtrip:
  assumes "hex_codec hex_encode hex_decode" "length bs = 32" "p \<in> {[], ''0x'', ''0X''}"
    "list_all is_whitespace l" "list_all is_whitespace r"
  shows "\<exists>secret. jwt_secret_from_hex hex_decode (l @ (p @ hex_encode bs) @ r) = Ok secret \<and>
    (\<forall>token. jwt_secret_equal hex_encode secret token \<longleftrightarrow> token = hex_encode bs)"
  using jwt_secret_from_digits [OF assms] by (auto simp: jwt_secret_equal_def)

text \<open>A transaction is read back from its JSON form, and from its digits without the prefix.\<close>

lemma raw_transaction_roundtrip:
  assumes "hex_codec hex_encode hex_decode"
  shows "raw_transaction_deserialize hex_decode (raw_transaction_serialize hex_encode tx) = Ok tx"
    and "raw_transaction_deserialize hex_decode (hex_encode (raw_bytes tx)) = Ok tx"
proof -
  have h: "hex_decode (hex_encode (raw_bytes tx)) = Ok (raw_bytes tx)" "\<forall>c \<in> set (hex_encode (raw_bytes tx)). c \<noteq> CHR ''x''"
    using assms digit_char_not(2) unfolding hex_codec_def by (blast, metis)
  have "strip_prefix ''0x'' (hex_encode (raw_bytes tx)) = None"
    using h(2) by (cases "hex_encode (raw_bytes tx)" rule: remdups_adj.cases) (auto simp: strip_prefix_def)
  then show "raw_transaction_deserialize hex_decode (hex_encode (raw_bytes tx)) = Ok tx"
    using h(1) by (simp add: raw_transaction_deserialize_def unwrap_or_def)
  show "raw_transaction_deserialize hex_decode (raw_transaction_serialize hex_encode tx) = Ok tx"
    using h(1) by (simp add: raw_transaction_deserialize_def raw_transaction_serialize_def strip_prefix_def unwrap_or_def)
qed

lemma claims_valid_iff:
  "claims_valid now c \<longleftrightarrow> unat now \<le> unat (cl_iat c) + 60 \<and> unat (cl_iat c) \<le> unat now + 60"
proof -
  have "unat (abs_diff now (cl_iat c)) = (if now \<le> cl_iat c then unat (cl_iat c) - unat now else unat now - unat (cl_iat c))"
    by (simp add: abs_diff_def unat_sub_no_wrap)
  then show ?thesis by (auto simp: claims_valid_def JWT_MAX_IAT_DIFF_def word_le_nat_alt split: if_splits)
qed

section \<open>Addresses\<close>

lemma colon_no_digit: "CHR '':'' \<notin> set (show_nat n)"
  by (rule no_separator_in_number) simp_all

lemma strip_prefix_append [simp]: "strip_prefix p (p @ s) = Some s"
  by (simp add: strip_prefix_def)

lemma strip_prefix_no_colon: "CHR '':'' \<in> set p \<Longrightarrow> CHR '':'' \<notin> set s \<Longrightarrow> strip_prefix p s = None"
  using in_set_takeD [of "CHR '':''" "length p" s] by (auto simp: strip_prefix_def)

lemma parse_u16_show [simp]: "parse_u16 (show_nat (unat (w :: u16))) = Some w"
proof -
  have digits: "\<exists>d < 10. c = digit_char d" if "c \<in> set (show_nat (unat w))" for c
    using set_show_base [OF _ that] by simp
  then have "list_all is_decimal_digit (show_nat (unat w))"
    by (force simp: list_all_iff is_decimal_digit_def digit_char_def)
  moreover have "show_nat (unat w) \<noteq> []" by (subst show_base.simps) simp
  moreover have "hd (show_nat (unat w)) \<noteq> CHR ''+''"
    using no_separator_in_number [of "CHR ''+''" 10 "unat w"] hd_in_set [OF calculation(2)] by auto
  moreover have "unat w < 2 ^ 16" using unsigned_less [of w] by simp
  moreover have "(case show_nat (unat w) of c # cs \<Rightarrow> if c = CHR ''+'' then cs else show_nat (unat w) | [] \<Rightarrow> []) = show_nat (unat w)"
    using calculation(2,3) by (cases "show_nat (unat w)") auto
  ultimately show ?thesis unfolding parse_u16_def by (simp add: Let_def)
qed

lemma split_url:
  assumes "CHR '':'' \<notin> set host"
  shows "split_at (CHR '':'') (''http://'' @ host @ '':'' @ show_nat n) = [''http'', ''//'' @ host, show_nat n]"
    "split_at (CHR '':'') (''http://'' @ host) = [''http'', ''//'' @ host]"
  using split_at_append [of "CHR '':''" "''//'' @ host" "show_nat n"] assms
  by (simp_all add: split_at_no_sep colon_no_digit)

lemma auth_url_of_host:
  assumes "CHR '':'' \<notin> set host" "addr \<in> {host, ''http://'' @ host, ''https://'' @ host}"
  shows "auth_url_from_addr addr (Some port) = ''http://'' @ host @ '':'' @ show_nat (unat port)"
proof -
  have "strip_prefix ''https://'' (''http://'' @ host) = None" "strip_prefix ''http://'' (''https://'' @ host) = None"
    by (simp_all add: strip_prefix_def)
  moreover have "strip_prefix ''https://'' host = None" "strip_prefix ''http://'' host = None"
    using assms(1) by (simp_all add: strip_prefix_no_colon)
  moreover note strip_prefix_append [of "''http://''" host] strip_prefix_append [of "''https://''" host]
  ultimately show ?thesis using assms(2)
    unfolding auth_url_from_addr_def unwrap_or_def Let_def by (elim insertE emptyE; hypsubst) simp_all
qed

text \<open>
  The address built for a host is parsed into itself and its port. An address that names no port
  loses everything after its scheme.
\<close>

lemma engine_url_parsed:
  assumes "jwt_secret_from_hex hex_decode secret_str = Ok secret" "CHR '':'' \<notin> set host"
    "addr \<in> {host, ''http://'' @ host, ''https://'' @ host}"
  shows "engine_api_new hex_decode (auth_url_from_addr addr (Some port)) secret_str =
      Ok \<lparr>api_base_url = ''http://'' @ host @ '':'' @ show_nat (unat port), api_port = port, api_client = Some (),
          api_secret = secret\<rparr> \<and>
    map_outcome (\<lambda>url. and_then (engine_api_new hex_decode url secret_str) (\<lambda>api. Ok (api_base_url api)))
      [''http://'' @ host, ''https://'' @ host] = Ok [''http'', ''https'']"
proof
  have "auth_url_from_addr addr (Some port) = ''http://'' @ host @ '':'' @ show_nat (unat port)"
    using assms(2,3) by (rule auth_url_of_host)
  then show "engine_api_new hex_decode (auth_url_from_addr addr (Some port)) secret_str =
      Ok \<lparr>api_base_url = ''http://'' @ host @ '':'' @ show_nat (unat port), api_port = port, api_client = Some (),
          api_secret = secret\<rparr>"
    using assms(1) split_url(1) [OF assms(2), of "unat port"]
    by (simp add: engine_api_new_def index_def unwrap_or_def)
next
  show "map_outcome (\<lambda>url. and_then (engine_api_new hex_decode url secret_str) (\<lambda>api. Ok (api_base_url api)))
      [''http://'' @ host, ''https://'' @ host] = Ok [''http'', ''https'']"
    using assms(1) split_at_no_sep [of "CHR '':''" "''//'' @ host"] assms(2)
    by (simp add: engine_api_new_def index_def)
qed

section \<open>Requests\<close>

definition retries_errors :: "(nat \<Rightarrow> ('s, 'a) action \<Rightarrow> ('s, 'a) action) \<Rightarrow> bool" where
  "retries_errors retry \<longleftrightarrow> (\<forall>m. retry 0 m = m) \<and>
     (\<forall>n m s. retry (Suc n) m s = (case m s of (Err e, s') \<Rightarrow> retry n m s' | r \<Rightarrow> r))"

text \<open>Requests as the other side sees them, with the time at which they were sent.\<close>

definition logs_requests :: "'s api_externals \<Rightarrow> ('s \<Rightarrow> (u64 \<times> http_request) list) \<Rightarrow> bool" where
  "logs_requests ax sent \<longleftrightarrow> (\<forall>rq s r s'. ax_send ax rq s = (r, s') \<longrightarrow> sent s' = sent s @ [(ax_now ax s, rq)])"

definition authorised :: "'s api_externals \<Rightarrow> engine_api \<Rightarrow> string \<Rightarrow> u64 \<times> http_request \<Rightarrow> bool" where
  "authorised ax self method = (\<lambda>(now, rq). rq_url rq = api_base_url self \<and>
     (\<exists>jwt. ax_jwt_encode ax (secret_bytes (api_secret self)) \<lparr>cl_iat = now, cl_exp = now + 60\<rparr> = Ok jwt \<and>
        rq_authorization rq = ''Bearer '' @ jwt) \<and>
     rq_body rq ''jsonrpc'' = Some (JString ''2.0'') \<and> rq_body rq ''id'' = Some (JNumber 1) \<and>
     rq_body rq ''method'' = Some (JString method))"

definition grows :: "('s \<Rightarrow> 'q list) \<Rightarrow> ('q \<Rightarrow> bool) \<Rightarrow> nat \<Rightarrow> 's \<Rightarrow> 's \<Rightarrow> bool" where
  "grows sent P n s s' \<longleftrightarrow> (\<exists>qs. sent s' = sent s @ qs \<and> length qs \<le> n \<and> list_all P qs)"

definition sends :: "('s \<Rightarrow> 'q list) \<Rightarrow> ('q \<Rightarrow> bool) \<Rightarrow> nat \<Rightarrow> ('s, 'a) action \<Rightarrow> bool" where
  "sends sent P n m \<longleftrightarrow> (\<forall>s r s'. m s = (r, s') \<longrightarrow> grows sent P n s s')"

lemma grows_refl [simp]: "grows sent P n s s"
  by (simp add: grows_def)

lemma grows_trans: "grows sent P a s t \<Longrightarrow> grows sent P b t u \<Longrightarrow> grows sent P (a + b) s u"
  unfolding grows_def by (elim exE, rule_tac x = "qs @ qsa" in exI) simp

lemma grows_mono: "grows sent P a s t \<Longrightarrow> a \<le> b \<Longrightarrow> grows sent P b s t"
  by (auto simp: grows_def)

lemma sends_lift: "sends sent P n (lift_outcome m)"
  by (simp add: sends_def lift_outcome_def)

lemma sends_bind:
  assumes "sends sent P a m" "\<And>x. sends sent P b (f x)"
  shows "sends sent P (a + b) (bind_action m f)"
  unfolding sends_def
proof (intro allI impI)
  fix s r s'
  assume run: "bind_action m f s = (r, s')"
  obtain q t where m: "m s = (q, t)" by fastforce
  then have t: "grows sent P a s t" using assms(1) by (simp add: sends_def)
  show "grows sent P (a + b) s s'"
  proof (cases q)
    case (Ok x)
    then have "f x t = (r, s')" using run m by (simp add: bind_action_def)
    then have "grows sent P b t s'" using assms(2) [of x] by (simp add: sends_def)
    then show ?thesis by (rule grows_trans [OF t])
  qed (use grows_mono [OF t, of "a + b"] run m in \<open>simp_all add: bind_action_def\<close>)
qed

lemma sends_retry:
  assumes "retries_errors retry" "sends sent P 1 m"
  shows "sends sent P (Suc n) (retry n m)"
proof (induction n)
  case 0
  then show ?case using assms by (simp add: retries_errors_def)
next
  case (Suc n)
  show ?case
    unfolding sends_def
  proof (intro allI impI)
    fix s r s'
    assume run: "retry (Suc n) m s = (r, s')"
    obtain q t where m: "m s = (q, t)" by fastforce
    then have t: "grows sent P 1 s t" using assms(2) by (simp add: sends_def)
    show "grows sent P (Suc (Suc n)) s s'"
    proof (cases q)
      case (Err e)
      then have "retry n m t = (r, s')" using run m assms(1) by (simp add: retries_errors_def)
      then have "grows sent P (Suc n) t s'" using Suc by (simp add: sends_def)
      then show ?thesis using grows_trans [OF t] by simp
    qed (use grows_mono [OF t, of "Suc (Suc n)"] run m assms(1) in \<open>simp_all add: retries_errors_def\<close>)
  qed
qed

lemma sends_attempt:
  assumes "logs_requests ax sent" "body ''jsonrpc'' = Some (JString ''2.0'')" "body ''id'' = Some (JNumber 1)"
    "body ''method'' = Some (JString method)"
  shows "sends sent (authorised ax self method) 1 (attempt_post ax parse self body)"
  unfolding sends_def
proof (intro allI impI)
  fix s r s'
  assume run: "attempt_post ax parse self body s = (r, s')"
  show "grows sent (authorised ax self method) 1 s s'"
  proof (cases "ax_jwt_encode ax (secret_bytes (api_secret self)) (generate_claims (ax_now ax s))")
    case (Ok jwt)
    let ?rq = "\<lparr>rq_url = api_base_url self, rq_authorization = ''Bearer '' @ jwt, rq_body = body\<rparr>"
    obtain q t where send: "ax_send ax ?rq s = (q, t)" by fastforce
    then have "s' = t" using run Ok
      by (auto simp: attempt_post_def with_state_def bind_action_def lift_outcome_def Let_def split: outcome.splits)
    moreover have "authorised ax self method (ax_now ax s, ?rq)"
      using assms(2-4) Ok by (auto simp: authorised_def generate_claims_def)
    ultimately show ?thesis using assms(1) send by (auto simp: logs_requests_def grows_def)
  qed (use run in \<open>auto simp: attempt_post_def with_state_def bind_action_def lift_outcome_def\<close>)
qed

lemma sends_post:
  assumes "logs_requests ax sent" "retries_errors retry"
  shows "sends sent (authorised ax self method) 6 (post retry ax parse self method params)"
proof -
  have "sends sent (authorised ax self method) (Suc 5)
      (retry 5 (attempt_post ax parse self (base_body(''method'' \<mapsto> JString method, ''params'' \<mapsto> JArray params))))"
    using assms by (intro sends_retry sends_attempt) (simp_all add: base_body_def JSONRPC_VERSION_def STATIC_ID_def)
  then have "sends sent (authorised ax self method) (0 + (6 + 0)) (post retry ax parse self method params)"
    unfolding post_def Let_def
    by (intro sends_bind sends_lift) (simp_all add: sends_lift split: option.splits)
  then show ?thesis by simp
qed

text \<open>
  C25: Whatever call the driver makes to the engine, the client sends it at most six requests, all to the configured
  address, each with a token signed from the configured secret for the second in which it is sent, and
  each naming version 2 of the method.
\<close>

theorem engine_requests_authorised:
  assumes "logs_requests ax sent" "retries_errors retry_update" "retries_errors retry_status" "retries_errors retry_payload"
    and eng_def: "eng = engine_api_calls retry_update retry_status retry_payload ax self"
  shows "sends sent (authorised ax self ''engine_forkchoiceUpdatedV2'') 6 (eng_forkchoice_updated eng fcs attributes) \<and>
    sends sent (authorised ax self ''engine_newPayloadV2'') 6 (eng_new_payload eng payload) \<and>
    sends sent (authorised ax self ''engine_getPayloadV2'') 6 (eng_get_payload eng payload_id)"
proof (intro conjI)
  note bind0 = sends_bind [where a = 0 and b = 6, simplified]
  show "sends sent (authorised ax self ''engine_forkchoiceUpdatedV2'') 6 (eng_forkchoice_updated eng fcs attributes)"
    unfolding eng_def engine_api_calls_def
    by (simp add: api_forkchoice_updated_def ENGINE_FORKCHOICE_UPDATED_V2_def)
      (intro bind0 sends_post [OF assms(1,2)]; simp add: sends_lift split: option.splits)
  show "sends sent (authorised ax self ''engine_newPayloadV2'') 6 (eng_new_payload eng payload)"
    unfolding eng_def engine_api_calls_def
    by (simp add: api_new_payload_def ENGINE_NEW_PAYLOAD_V2_def)
      (intro bind0 sends_post [OF assms(1,3)]; simp add: sends_lift)
  show "sends sent (authorised ax self ''engine_getPayloadV2'') 6 (eng_get_payload eng payload_id)"
    unfolding eng_def engine_api_calls_def
    by (simp add: api_get_payload_def ENGINE_GET_PAYLOAD_V2_def)
      (rule sends_bind [where a = 6 and b = 0, simplified], rule sends_post [OF assms(1,4)], rule sends_lift)
qed

section \<open>A sample\<close>

primrec retry_simply :: "nat \<Rightarrow> ('s, 'a) action \<Rightarrow> ('s, 'a) action" where
  "retry_simply 0 m = m"
| "retry_simply (Suc n) m = (\<lambda>s. case m s of (Err e, s') \<Rightarrow> retry_simply n m s' | r \<Rightarrow> r)"

lemma retries_errors_simply: "retries_errors retry_simply"
  by (simp add: retries_errors_def)

definition hex_encode_simply :: "bytes \<Rightarrow> string" where
  "hex_encode_simply bs = concat (map (\<lambda>b. [digit_char (unat b div 16), digit_char (unat b mod 16)]) bs)"

fun hex_decode_simply :: "string \<Rightarrow> bytes outcome" where
  "hex_decode_simply [] = Ok []"
| "hex_decode_simply [c] = Err (External ''odd length'')"
| "hex_decode_simply (a # b # cs) =
     and_then (hex_decode_simply cs) (\<lambda>bs. Ok (of_nat (16 * char_digit a + char_digit b) # bs))"

lemma hex_codec_simply: "hex_codec hex_encode_simply hex_decode_simply"
  unfolding hex_codec_def
proof (intro allI conjI)
  fix bs
  have div16: "unat (b :: u8) div 16 < 16" for b
  proof -
    have "unat b < 2 ^ LENGTH(8)" by (rule unsigned_less)
    then show ?thesis by (simp add: less_mult_imp_div_less)
  qed
  show "hex_decode_simply (hex_encode_simply bs) = Ok bs"
    by (induction bs) (simp_all add: hex_encode_simply_def div16 del: of_nat_add of_nat_mult)
  show "length (hex_encode_simply bs) = 2 * length bs"
    by (induction bs) (simp_all add: hex_encode_simply_def)
  show "\<forall>c \<in> set (hex_encode_simply bs). \<exists>d < 16. c = digit_char d"
    unfolding hex_encode_simply_def by auto (metis div16, metis mod_less_divisor zero_less_numeral)
qed

lemma jwt_secret_roundtrip_witness:
  "\<exists>secret. jwt_secret_from_hex hex_decode_simply ('' '' @ (''0x'' @ hex_encode_simply (replicate 32 7)) @ ''\<newline>'') = Ok secret \<and>
     \<not> jwt_secret_equal hex_encode_simply secret (''0x'' @ hex_encode_simply (replicate 32 7))"
proof -
  obtain secret where secret: "jwt_secret_from_hex hex_decode_simply ('' '' @ (''0x'' @ hex_encode_simply (replicate 32 7)) @ ''\<newline>'') = Ok secret"
    "\<forall>token. jwt_secret_equal hex_encode_simply secret token \<longleftrightarrow> token = hex_encode_simply (replicate 32 7)"
    using jwt_secret_roundtrip [OF hex_codec_simply, of "replicate 32 7" "''0x''" "'' ''" "''\<newline>''"]
    by (auto simp: is_whitespace_def)
  have "''0x'' @ hex_encode_simply (replicate 32 7) \<noteq> hex_encode_simply (replicate 32 7)" by simp
  then show ?thesis using secret by metis
qed

definition sample_secret :: string where
  "sample_secret = hex_encode_simply (replicate 32 7)"

lemma sample_secret_read: "jwt_secret_from_hex hex_decode_simply sample_secret = Ok (JwtSecret (replicate 32 7))"
  using jwt_secret_from_digits [OF hex_codec_simply, of "replicate 32 7" "[]" "[]" "[]"] by (simp add: sample_secret_def)

lemma engine_url_parsed_witness:
  "\<exists>api. engine_api_new hex_decode_simply (auth_url_from_addr ''https://localhost'' (Some 8551)) sample_secret = Ok api \<and>
     api_base_url api = ''http://localhost:8551'' \<and> api_port api = 8551"
proof -
  have "show_nat 8551 = ''8551''" by (simp add: show_base.simps digit_char_def char_of_def bit_0)
  then show ?thesis
    using engine_url_parsed [OF sample_secret_read, of "''localhost''" "''https://localhost''" 8551] by simp
qed

definition sample_api :: engine_api where
  "sample_api = \<lparr>api_base_url = ''http://localhost:8551'', api_port = 8551, api_client = Some (), api_secret = JwtSecret (replicate 32 7)\<rparr>"

text \<open>A world that counts seconds and answers nothing.\<close>

definition deaf_world :: "(u64 \<times> http_request) list api_externals" where
  "deaf_world = \<lparr>ax_hex_decode = hex_decode_simply, ax_hex_encode = hex_encode_simply, ax_jwt_encode = (\<lambda>k c. Ok ''jwt''),
     ax_now = (\<lambda>sent. of_nat (length sent)), ax_send = (\<lambda>rq sent. (Err (External ''timeout''), sent @ [(of_nat (length sent), rq)])),
     ax_attributes_to_value = (\<lambda>a. Ok JNull), ax_forkchoice_to_value = (\<lambda>f. Ok JNull), ax_payload_to_value = (\<lambda>p. Ok JNull),
     ax_parse_forkchoice = (\<lambda>b. Err (External ''json'')), ax_parse_status = (\<lambda>b. Err (External ''json'')),
     ax_parse_payload = (\<lambda>b. Err (External ''json'')), ax_parse_value = (\<lambda>b. Err (External ''json''))\<rparr>"

theorem engine_requests_authorised_witness:
  "\<exists>sent'. eng_get_payload (engine_api_calls retry_simply retry_simply retry_simply deaf_world sample_api) 5 [] =
      (Err (External ''timeout''), sent') \<and> length sent' \<le> 6 \<and>
      list_all (authorised deaf_world sample_api ''engine_getPayloadV2'') sent'"
proof -
  let ?eng = "engine_api_calls retry_simply retry_simply retry_simply deaf_world sample_api"
  have logs: "logs_requests deaf_world (\<lambda>sent. sent)" by (simp add: logs_requests_def deaf_world_def)
  obtain r sent' where run: "eng_get_payload ?eng 5 [] = (r, sent')" by fastforce
  moreover from run have "r = Err (External ''timeout'')"
    by (simp add: engine_api_calls_def api_get_payload_def post_def attempt_post_def deaf_world_def sample_api_def
        bind_action_def lift_outcome_def with_state_def Let_def numeral_eq_Suc)
  moreover have "sends (\<lambda>sent. sent) (authorised deaf_world sample_api ''engine_getPayloadV2'') 6 (eng_get_payload ?eng 5)"
    using engine_requests_authorised [OF logs retries_errors_simply retries_errors_simply retries_errors_simply refl, of sample_api]
    by blast
  ultimately show ?thesis unfolding sends_def grows_def by (metis append_Nil)
qed

end
