(* ===== verification/Runner.thy ===== *)
theory Runner
  imports Driver Engine_Api
begin

text \<open>
  \<^verbatim>\<open>src/src/runner/mod.rs\<close> and the main loop of \<^verbatim>\<open>src/src/driver/mod.rs\<close>: how a node starts, synchronises to a checkpoint and
  hands over to the driver.

  Ending the process is the value \<open>ProcessExit\<close> of an action. The providers of the runner are the fields of
  \<open>runner_calls\<close>, actions on a world \<open>'s\<close> that is also the state of the engine. The loops that wait
  take fuel, and running out of it is \<open>Diverge\<close>; the loop that looks for an epoch boundary needs none. An iteration of the driver's loop is a
  \<open>round\<close>, which says what other tasks have done to the driver's channels before it; the list of rounds is as
  long as the part of the run that is looked at.

  Shown: without a checkpoint hash the runner uses the newest block or stops, it never reaches an earlier one; the driver
  starts only once the execution client has the checkpoint; the main loop
  ends only by a signal or an error and moves the heads along the abstract machine.
\<close>

datatype 'a control = Continue 'a | ProcessExit nat

definition then_control :: "('s, 'a control) action \<Rightarrow> ('a \<Rightarrow> ('s, 'b control) action) \<Rightarrow> ('s, 'b control) action" where
  "then_control m f = bind_action m (\<lambda>c. case c of Continue x \<Rightarrow> f x | ProcessExit n \<Rightarrow> return_action (ProcessExit n))"

section \<open>The main loop of the driver\<close>

record 'e round =
  rd_before :: "'e driver \<Rightarrow> 'e driver"
  rd_fuel :: nat
  rd_get_block :: "'e \<Rightarrow> block_id \<Rightarrow> eth_block option outcome"
  rd_service_start :: "unit outcome"

definition shutdown :: "('e driver, unit control) action" where
  "shutdown = return_action (ProcessExit 0)"

definition driver_check_shutdown :: "('e driver, unit control) action" where
  "driver_check_shutdown = with_state (\<lambda>d. if dr_shutdown_recv d then shutdown else return_action (Continue ()))"

fun await_engine_ready :: "'e engine \<Rightarrow> ('e driver \<Rightarrow> 'e driver) list \<Rightarrow> ('e driver, unit control) action" where
  "await_engine_ready eng [] = lift_outcome Diverge"
| "await_engine_ready eng (sleep # rest) =
     bind_action (zoom dr_engine_driver (\<lambda>ed d. d\<lparr>dr_engine_driver := ed\<rparr>)
         (\<lambda>ed. case engine_ready eng ed of (ready, ed') \<Rightarrow> (Ok ready, ed'))) (\<lambda>ready.
     if ready then return_action (Continue ())
     else then_control driver_check_shutdown (\<lambda>_.
          bind_action (modify sleep) (\<lambda>_. await_engine_ready eng rest)))"

fun driver_loop :: "externals \<Rightarrow> 'e engine \<Rightarrow> 'e round list \<Rightarrow> ('e driver, unit control) action" where
  "driver_loop ex eng [] = lift_outcome Diverge"
| "driver_loop ex eng (rd # rds) =
     bind_action (modify (rd_before rd)) (\<lambda>_.
     then_control driver_check_shutdown (\<lambda>_.
     bind_action (attempt (advance (rd_fuel rd) ex eng (rd_get_block rd) (rd_service_start rd))) (\<lambda>advanced.
     case advanced of
       Some _ \<Rightarrow> driver_loop ex eng rds
     | None \<Rightarrow> then_control shutdown (\<lambda>_. driver_loop ex eng rds))))"

definition driver_run ::
  "externals \<Rightarrow> 'e engine \<Rightarrow> ('e driver \<Rightarrow> 'e driver) list \<Rightarrow> 'e round list \<Rightarrow> ('e driver, unit control) action" where
  "driver_run ex eng waits rounds =
     then_control (await_engine_ready eng waits) (\<lambda>_.
     bind_action (modify driver_start) (\<lambda>_.
     driver_loop ex eng rounds))"

section \<open>The runner\<close>

record runner =
  rn_config :: config
  rn_sync_mode :: sync_mode
  rn_checkpoint_hash :: "string option"

definition runner_from_config :: "config \<Rightarrow> runner" where
  "runner_from_config config = \<lparr>rn_config = config, rn_sync_mode = Full, rn_checkpoint_hash = None\<rparr>"

definition with_sync_mode :: "sync_mode \<Rightarrow> runner \<Rightarrow> runner" where
  "with_sync_mode sync_mode self = self\<lparr>rn_sync_mode := sync_mode\<rparr>"

definition with_checkpoint_hash :: "string option \<Rightarrow> runner \<Rightarrow> runner" where
  "with_checkpoint_hash checkpoint_hash self = self\<lparr>rn_checkpoint_hash := checkpoint_hash\<rparr>"

definition TRUSTED_PEER_ENODE :: string where
  "TRUSTED_PEER_ENODE = ''enode://e85ba0beec172b17f53b373b0ab72238754259aa39f1ae5290e3244e0120882f4cf95acd203661a27c8618b27ca014d4e193266cb3feae43655ed55358eedb06@3.86.143.120:30303?discport=21693''"

record 's runner_calls =
  rc_shutdown_recv :: "'s \<Rightarrow> bool"
  rc_provider_try_from :: "string \<Rightarrow> unit outcome"
  rc_parse_hash :: "string \<Rightarrow> h256 option"
  rc_keccak256 :: "bytes \<Rightarrow> h256"
  rc_checkpoint_block_with_txs :: "block_id \<Rightarrow> ('s, eth_block option) action"
  rc_checkpoint_block_number :: "('s, u64) action"
  rc_checkpoint_block :: "block_id \<Rightarrow> ('s, eth_block option) action"
  rc_l2_block :: "block_id \<Rightarrow> ('s, eth_block option) action"
  rc_l2_block_number :: "('s, u64) action"
  rc_l2_add_peer :: "string \<Rightarrow> ('s, unit) action"
  rc_sleep :: "('s, unit) action"

record 's retry_policies =
  rp_update :: "nat \<Rightarrow> ('s, fork_choice_update engine_api_response) action \<Rightarrow> ('s, fork_choice_update engine_api_response) action"
  rp_status :: "nat \<Rightarrow> ('s, payload_status engine_api_response) action \<Rightarrow> ('s, payload_status engine_api_response) action"
  rp_payload :: "nat \<Rightarrow> ('s, get_payload_response engine_api_response) action \<Rightarrow> ('s, get_payload_response engine_api_response) action"
  rp_value :: "nat \<Rightarrow> ('s, string json engine_api_response) action \<Rightarrow> ('s, string json engine_api_response) action"

definition is_epoch_boundary :: "(bytes \<Rightarrow> h256) \<Rightarrow> eth_block \<Rightarrow> config \<Rightarrow> bool outcome" where
  "is_epoch_boundary keccak256 l2_block config =
     and_then (try_from_l2_block keccak256 config l2_block) (\<lambda>head_info.
     let sequence_number = hi_sequence_number head_info
     in Ok (sequence_number = 0))"

definition check_shutdown :: "'s runner_calls \<Rightarrow> ('s, unit control) action" where
  "check_shutdown rc = with_state (\<lambda>s. return_action (if rc_shutdown_recv rc s then ProcessExit 0 else Continue ()))"

definition expect :: "string \<Rightarrow> 'a option \<Rightarrow> ('s, 'a) action" where
  "expect msg m = lift_outcome (unwrap_opt m msg)"

text \<open>
  The search for an epoch boundary. The block it tests is the one fetched before the loop; the number counts down,
  and subtracting from zero panics in the number type of \<open>ethers\<close>.
\<close>

fun seek_boundary :: "'s runner_calls \<Rightarrow> config \<Rightarrow> eth_block \<Rightarrow> nat \<Rightarrow> ('s, nat control) action" where
  "seek_boundary rc config l2_block block_number =
     bind_action (lift_outcome (is_epoch_boundary (rc_keccak256 rc) l2_block config)) (\<lambda>boundary.
     if boundary then return_action (Continue block_number)
     else then_control (check_shutdown rc) (\<lambda>_.
       if block_number = 0 then lift_outcome (Panic (Explicit ''arithmetic operation overflow''))
       else seek_boundary rc config l2_block (block_number - 1)))"

declare seek_boundary.simps [simp del]

definition checkpoint_block_of_hash :: "'s runner_calls \<Rightarrow> config \<Rightarrow> string \<Rightarrow> ('s, eth_block control) action" where
  "checkpoint_block_of_hash rc config checkpoint =
     bind_action (expect ''invalid checkpoint block hash provided'' (rc_parse_hash rc checkpoint)) (\<lambda>block_hash.
     bind_action (rc_checkpoint_block_with_txs rc (BlockHash block_hash)) (\<lambda>found.
     bind_action (lift_outcome (ok_or found ''could not find block'')) (\<lambda>l2_block.
     bind_action (lift_outcome (is_epoch_boundary (rc_keccak256 rc) l2_block config)) (\<lambda>boundary.
     if boundary
     then bind_action (rc_checkpoint_block_with_txs rc (BlockHash block_hash)) (\<lambda>found.
          bind_action (expect ''could not get checkpoint block'' found) (\<lambda>block.
          return_action (Continue block)))
     else return_action (ProcessExit 1)))))"

definition latest_checkpoint_block :: "'s runner_calls \<Rightarrow> config \<Rightarrow> ('s, eth_block control) action" where
  "latest_checkpoint_block rc config =
     bind_action (rc_checkpoint_block_number rc) (\<lambda>block_number.
     bind_action (rc_checkpoint_block_with_txs rc (BlockNumber block_number)) (\<lambda>found.
     bind_action (lift_outcome (ok_or found ''could not find block'')) (\<lambda>l2_block.
     then_control (seek_boundary rc config l2_block (unat block_number)) (\<lambda>block_number.
     bind_action (rc_checkpoint_block rc (BlockNumber (of_nat block_number))) (\<lambda>found.
     bind_action (expect ''could not get block'' found) (\<lambda>block.
     bind_action (expect ''block hash is missing'' (blk_hash block)) (\<lambda>block_hash.
     bind_action (rc_checkpoint_block_with_txs rc (BlockHash block_hash)) (\<lambda>found.
     bind_action (expect ''could not get checkpoint block'' found) (\<lambda>block.
     return_action (Continue block))))))))))"

fun await_available :: "nat \<Rightarrow> 's runner_calls \<Rightarrow> ('s, bool) action \<Rightarrow> ('s, unit control) action" where
  "await_available 0 rc available = lift_outcome Diverge"
| "await_available (Suc fuel) rc available =
     bind_action available (\<lambda>up.
     if up then return_action (Continue ())
     else then_control (check_shutdown rc) (\<lambda>_.
          bind_action (rc_sleep rc) (\<lambda>_. await_available fuel rc available)))"

fun await_block :: "nat \<Rightarrow> 's runner_calls \<Rightarrow> u64 \<Rightarrow> ('s, unit control) action" where
  "await_block 0 rc block_number = lift_outcome Diverge"
| "await_block (Suc fuel) rc block_number =
     bind_action (rc_l2_block_number rc) (\<lambda>number.
     if number < block_number
     then then_control (check_shutdown rc) (\<lambda>_.
          bind_action (rc_sleep rc) (\<lambda>_. await_block fuel rc block_number))
     else return_action (Continue ()))"

definition refused :: "payload_status \<Rightarrow> bool" where
  "refused res \<longleftrightarrow> ps_status res = Invalid \<or> ps_status res = InvalidBlockHash"

text \<open>
  The part of \<open>checkpoint_sync\<close> after the checkpoint is chosen, and in it the part that makes the execution client
  sync; \<open>start\<close> is \<open>start_driver\<close>.
\<close>

definition request_sync ::
  "nat \<Rightarrow> 's runner_calls \<Rightarrow> 's retry_policies \<Rightarrow> 's api_externals \<Rightarrow> engine_api \<Rightarrow> ('s, unit control) action \<Rightarrow>
   eth_block \<Rightarrow> h256 \<Rightarrow> ('s, unit control) action" where
  "request_sync fuel rc rp ax engine_api start checkpoint_block checkpoint_hash =
     bind_action (rc_l2_add_peer rc TRUSTED_PEER_ENODE) (\<lambda>_.
     bind_action (lift_outcome (execution_payload_try_from checkpoint_block)) (\<lambda>checkpoint_payload.
     bind_action (api_new_payload (rp_status rp) ax engine_api checkpoint_payload) (\<lambda>payload_res.
     then_control (return_action (if refused payload_res then ProcessExit 1 else Continue ())) (\<lambda>_.
     bind_action (api_forkchoice_updated (rp_update rp) ax engine_api (from_single_head checkpoint_hash) None) (\<lambda>forkchoice_res.
     then_control (return_action (if refused (fcu_payload_status forkchoice_res) then ProcessExit 1 else Continue ())) (\<lambda>_.
     then_control (await_block fuel rc (pl_block_number checkpoint_payload)) (\<lambda>_.
     start)))))))"

definition sync_to_checkpoint ::
  "nat \<Rightarrow> 's runner_calls \<Rightarrow> 's retry_policies \<Rightarrow> 's api_externals \<Rightarrow> runner \<Rightarrow> ('s, unit control) action \<Rightarrow> eth_block \<Rightarrow>
   ('s, unit control) action" where
  "sync_to_checkpoint fuel rc rp ax self start checkpoint_block =
     bind_action (expect ''block hash is missing'' (blk_hash checkpoint_block)) (\<lambda>checkpoint_hash.
     bind_action (lift_outcome (engine_api_new (ax_hex_decode ax) (cfg_l2_engine_url (rn_config self))
         (cfg_jwt_secret (rn_config self)))) (\<lambda>engine_api.
     then_control (await_available fuel rc (is_available (rp_value rp) ax engine_api)) (\<lambda>_.
     bind_action (rc_l2_block rc (BlockHash checkpoint_hash)) (\<lambda>synced_block.
     if synced_block \<noteq> None then start
     else request_sync fuel rc rp ax engine_api start checkpoint_block checkpoint_hash))))"

definition checkpoint_sync ::
  "nat \<Rightarrow> 's runner_calls \<Rightarrow> 's retry_policies \<Rightarrow> 's api_externals \<Rightarrow> runner \<Rightarrow> ('s, unit control) action \<Rightarrow>
   ('s, unit control) action" where
  "checkpoint_sync fuel rc rp ax self start =
     bind_action (lift_outcome (rc_provider_try_from rc (cfg_l2_rpc_url (rn_config self)))) (\<lambda>_.
     bind_action (lift_outcome (ok_or (cfg_checkpoint_sync_url (rn_config self))
         ''a checkpoint sync rpc url is required for checkpoint sync'')) (\<lambda>checkpoint_sync_url.
     bind_action (lift_outcome (rc_provider_try_from rc checkpoint_sync_url)) (\<lambda>_.
     then_control
       (case rn_checkpoint_hash self of
          Some checkpoint \<Rightarrow> checkpoint_block_of_hash rc (rn_config self) checkpoint
        | None \<Rightarrow> latest_checkpoint_block rc (rn_config self)) (\<lambda>checkpoint_block.
     sync_to_checkpoint fuel rc rp ax self start checkpoint_block))))"

definition start_driver ::
  "'s runner_calls \<Rightarrow> externals \<Rightarrow> 's engine \<Rightarrow> ('s \<Rightarrow> block_id \<Rightarrow> eth_block option outcome) \<Rightarrow>
   ('s driver \<Rightarrow> 's driver) list \<Rightarrow> 's round list \<Rightarrow> runner \<Rightarrow> ('s, unit control) action" where
  "start_driver rc ex eng get_block waits rounds self = with_state (\<lambda>s.
     bind_action (lift_outcome (from_config (rc_keccak256 rc) (get_block s) s (rn_config self) (rc_shutdown_recv rc s))) (\<lambda>driver.
     \<lambda>_. case driver_run ex eng waits rounds driver of
        (Ok c, driver) \<Rightarrow> (Ok c, ed_engine (dr_engine_driver driver))
      | (Err _, driver) \<Rightarrow> (Ok (ProcessExit 1), ed_engine (dr_engine_driver driver))
      | (Panic p, driver) \<Rightarrow> (Panic p, ed_engine (dr_engine_driver driver))
      | (Diverge, driver) \<Rightarrow> (Diverge, ed_engine (dr_engine_driver driver))))"

definition fast_sync :: "('s, unit control) action" where
  "fast_sync = lift_outcome (Panic (Explicit ''not implemented''))"

definition challenge_sync :: "('s, unit control) action" where
  "challenge_sync = lift_outcome (Panic (Explicit ''not implemented''))"

definition full_sync :: "('s, unit control) action \<Rightarrow> ('s, unit control) action" where
  "full_sync start = start"

definition runner_run ::
  "nat \<Rightarrow> 's runner_calls \<Rightarrow> 's retry_policies \<Rightarrow> 's api_externals \<Rightarrow> runner \<Rightarrow> ('s, unit control) action \<Rightarrow>
   ('s, unit control) action" where
  "runner_run fuel rc rp ax self start =
     (case rn_sync_mode self of
        Fast \<Rightarrow> fast_sync
      | Challenge \<Rightarrow> challenge_sync
      | Full \<Rightarrow> full_sync start
      | Checkpoint \<Rightarrow> checkpoint_sync fuel rc rp ax self start)"

section \<open>The search for a checkpoint\<close>

lemma seek_boundary_here:
  "is_epoch_boundary (rc_keccak256 rc) b config = Ok True \<Longrightarrow> seek_boundary rc config b n s = (Ok (Continue n), s)"
  by (subst seek_boundary.simps) (simp add: lift_outcome_def bind_action_def)

lemma seek_boundary_nowhere:
  assumes "is_epoch_boundary (rc_keccak256 rc) b config = Ok False"
  shows "seek_boundary rc config b n s =
    (if rc_shutdown_recv rc s then Ok (ProcessExit 0) else Panic (Explicit ''arithmetic operation overflow''), s)"
  using assms
proof (induction n)
  case 0
  then show ?case
    by (subst seek_boundary.simps)
      (simp add: then_control_def check_shutdown_def with_state_def bind_action_def lift_outcome_def)
next
  case (Suc n)
  have "seek_boundary rc config b (Suc n) s = then_control (check_shutdown rc) (\<lambda>_. seek_boundary rc config b n) s"
    using Suc.prems by (subst seek_boundary.simps) simp
  then show ?case using Suc
    by (simp add: then_control_def check_shutdown_def with_state_def bind_action_def lift_outcome_def)
qed

text \<open>
  C39: Without a checkpoint hash, the runner looks at the newest block only. If that block does not
  begin an epoch, the search through the earlier ones ends the process: it keeps testing the newest block until
  its number underflows, however many epochs begin below.
\<close>

theorem earlier_boundaries_not_found:
  assumes "rc_checkpoint_block_number rc s = (Ok n, s1)"
    and "rc_checkpoint_block_with_txs rc (BlockNumber n) s1 = (Ok (Some b), s2)"
    and "is_epoch_boundary (rc_keccak256 rc) b config = Ok False"
  shows "latest_checkpoint_block rc config s =
    (if rc_shutdown_recv rc s2 then Ok (ProcessExit 0) else Panic (Explicit ''arithmetic operation overflow''), s2)"
  using assms seek_boundary_nowhere [OF assms(3)]
  by (simp add: latest_checkpoint_block_def then_control_def bind_action_def lift_outcome_def)

section \<open>When the driver starts\<close>

text \<open>
  The choice of the checkpoint, with which \<open>checkpoint_sync\<close> begins; and a world in which the execution client has just returned the
  block with the hash of \<open>block\<close>, or has just reported the number of \<open>block\<close> or a later one.
\<close>

definition checkpoint_choice :: "'s runner_calls \<Rightarrow> runner \<Rightarrow> ('s, eth_block control) action" where
  "checkpoint_choice rc self =
     (case rn_checkpoint_hash self of
        Some checkpoint \<Rightarrow> checkpoint_block_of_hash rc (rn_config self) checkpoint
      | None \<Rightarrow> latest_checkpoint_block rc (rn_config self))"

definition synced_to :: "'s runner_calls \<Rightarrow> eth_block \<Rightarrow> 's \<Rightarrow> bool" where
  "synced_to rc block s \<longleftrightarrow>
     (\<exists>hash s0 b. blk_hash block = Some hash \<and> rc_l2_block rc (BlockHash hash) s0 = (Ok (Some b), s)) \<or>
     (\<exists>n s0 number. blk_number block = Some n \<and> rc_l2_block_number rc s0 = (Ok number, s) \<and> n \<le> number)"

text \<open>What is run, given the driver's start, either starts the driver in a world with \<open>P\<close>, or ends without starting it.\<close>

definition starts_only :: "('s \<Rightarrow> bool) \<Rightarrow> (('s, unit control) action \<Rightarrow> ('s, unit control) action) \<Rightarrow> 's \<Rightarrow> bool" where
  "starts_only P run s \<longleftrightarrow> (\<exists>t. P t \<and> (\<forall>start. run start s = start t)) \<or> (\<exists>r t. \<forall>start. run start s = (r, t))"

lemma starts_only_bind:
  assumes "\<And>x t. m s = (Ok x, t) \<Longrightarrow> starts_only P (run x) t"
  shows "starts_only P (\<lambda>start. bind_action m (\<lambda>x. run x start)) s"
proof (cases "\<exists>x t. m s = (Ok x, t)")
  case True
  then obtain x t where "m s = (Ok x, t)" by blast
  then show ?thesis using assms [of x t] by (simp add: starts_only_def bind_action_def)
next
  case False
  then show ?thesis by (cases "m s"; cases "fst (m s)") (auto simp: starts_only_def bind_action_def)
qed

lemma starts_only_return: "starts_only P (\<lambda>start. return_action c) s"
  by (simp add: starts_only_def lift_outcome_def)

lemma starts_only_start: "P s \<Longrightarrow> starts_only P (\<lambda>start. start) s"
  by (auto simp: starts_only_def)

lemma starts_only_then:
  assumes "\<And>x t. m s = (Ok (Continue x), t) \<Longrightarrow> starts_only P (run x) t"
  shows "starts_only P (\<lambda>start. then_control m (\<lambda>x. run x start)) s"
  unfolding then_control_def
proof (rule starts_only_bind)
  fix c t
  assume "m s = (Ok c, t)"
  with assms show "starts_only P (\<lambda>start. case c of Continue x \<Rightarrow> run x start | ProcessExit n \<Rightarrow> return_action (ProcessExit n)) t"
    by (cases c) (simp_all add: starts_only_return)
qed

lemma await_block_reached:
  "await_block fuel rc n s = (Ok (Continue u), t) \<Longrightarrow> \<exists>s0 number. rc_l2_block_number rc s0 = (Ok number, t) \<and> n \<le> number"
proof (induction fuel arbitrary: s)
  case (Suc fuel)
  obtain r s1 where read: "rc_l2_block_number rc s = (r, s1)" by fastforce
  from Suc.prems obtain number where r: "r = Ok number"
    by (cases r) (auto simp: read bind_action_def)
  show ?case
  proof (cases "number < n")
    case True
    then have "\<exists>s'. await_block fuel rc n s' = (Ok (Continue u), t)"
      using Suc.prems
      by (auto simp: read r bind_action_def then_control_def check_shutdown_def with_state_def lift_outcome_def
          split: if_splits prod.splits outcome.splits)
    then show ?thesis using Suc.IH by blast
  next
    case False
    then have "t = s1" using Suc.prems by (simp add: read r bind_action_def lift_outcome_def)
    then show ?thesis using read r False by (auto simp: not_less)
  qed
qed (simp add: lift_outcome_def)

lemma payload_number: "execution_payload_try_from block = Ok payload \<Longrightarrow> blk_number block = Some (pl_block_number payload)"
  by (auto simp: execution_payload_try_from_def outcome_simps Let_def)

lemma request_sync_starts: "starts_only (synced_to rc block) (\<lambda>start. request_sync fuel rc rp ax api start block hash) s"
  unfolding request_sync_def
proof (intro starts_only_bind starts_only_then starts_only_start)
  fix payload t t' s5 s6 and u :: unit
  assume "lift_outcome (execution_payload_try_from block) s5 = (Ok payload, s6)"
    and "await_block fuel rc (pl_block_number payload) t = (Ok (Continue u), t')"
  then show "synced_to rc block t'"
    by (auto simp: synced_to_def lift_outcome_def dest!: await_block_reached payload_number)
qed

lemma sync_to_checkpoint_starts: "starts_only (synced_to rc block) (\<lambda>start. sync_to_checkpoint fuel rc rp ax self start block) s"
  unfolding sync_to_checkpoint_def
proof (intro starts_only_bind starts_only_then)
  fix hash api s1 s3 s4 and found :: "eth_block option"
  assume hash: "expect ''block hash is missing'' (blk_hash block) s = (Ok hash, s1)"
    and found: "rc_l2_block rc (BlockHash hash) s3 = (Ok found, s4)"
  have "blk_hash block = Some hash" using hash by (simp add: expect_def lift_outcome_def outcome_simps)
  then have "synced_to rc block s4" if "found \<noteq> None" using that found by (auto simp: synced_to_def)
  then show "starts_only (synced_to rc block)
      (\<lambda>start. if found \<noteq> None then start else request_sync fuel rc rp ax api start block hash) s4"
    by (cases "found = None") (simp_all add: request_sync_starts starts_only_start)
qed

lemma starts_only_mono: "starts_only P run s \<Longrightarrow> (\<And>t. P t \<Longrightarrow> Q t) \<Longrightarrow> starts_only Q run s"
  by (auto simp: starts_only_def)

text \<open>
  C26: In checkpoint mode the driver waits for the checkpoint. Either the run chooses a checkpoint and starts the driver in a world where the
  execution client has just returned the block with the hash of this checkpoint, or has just reported a block number at or above the
  checkpoint's; or the run ends without starting the driver, so that it is the same whatever \<open>start\<close> does.
\<close>

theorem driver_waits_for_checkpoint:
  assumes "rn_sync_mode self = Checkpoint"
  shows "(\<exists>block s1 t. checkpoint_choice rc self s = (Ok (Continue block), s1) \<and> synced_to rc block t \<and>
      (\<forall>start. runner_run fuel rc rp ax self start s = start t)) \<or>
    (\<exists>r t. \<forall>start. runner_run fuel rc rp ax self start s = (r, t))"
proof -
  let ?P = "\<lambda>t. \<exists>block s1. checkpoint_choice rc self s = (Ok (Continue block), s1) \<and> synced_to rc block t"
  have "starts_only ?P (\<lambda>start. checkpoint_sync fuel rc rp ax self start) s"
    unfolding checkpoint_sync_def checkpoint_choice_def [symmetric]
  proof (intro starts_only_bind starts_only_then)
    fix url s1 s2 s3 s4 block and u v :: unit
    assume "lift_outcome (rc_provider_try_from rc (cfg_l2_rpc_url (rn_config self))) s = (Ok u, s1)"
      and "lift_outcome (ok_or (cfg_checkpoint_sync_url (rn_config self))
        ''a checkpoint sync rpc url is required for checkpoint sync'') s1 = (Ok url, s2)"
      and "lift_outcome (rc_provider_try_from rc url) s2 = (Ok v, s3)" and "checkpoint_choice rc self s3 = (Ok (Continue block), s4)"
    then have "checkpoint_choice rc self s = (Ok (Continue block), s4)" by (simp add: lift_outcome_def)
    then show "starts_only ?P (\<lambda>start. sync_to_checkpoint fuel rc rp ax self start block) s4"
      by (intro starts_only_mono [OF sync_to_checkpoint_starts]) blast
  qed
  then show ?thesis using assms unfolding starts_only_def by (simp add: runner_run_def) blast
qed

section \<open>The main loop refines the machine of the heads\<close>

lemma keeps_then [keeps_intros]:
  "preorder_rel R \<Longrightarrow> keeps R m \<Longrightarrow> (\<And>x. keeps R (f x)) \<Longrightarrow> keeps R (then_control m f)"
  unfolding then_control_def by (intro keeps_bind) (auto intro: keeps_lift split: control.splits)

lemma keeps_check_shutdown [keeps_intros]: "keeps simulated driver_check_shutdown"
  unfolding driver_check_shutdown_def shutdown_def by (intro keeps_intros preorder_simulated)

lemma engine_ready_heads: "engine_ready eng ed = (r, ed') \<Longrightarrow> same_heads ed ed'"
  by (auto simp: engine_ready_def engine_call_def zoom_def same_heads_def split: prod.splits)

lemma keeps_engine_ready:
  "keeps simulated (zoom dr_engine_driver (\<lambda>ed d. d\<lparr>dr_engine_driver := ed\<rparr>)
     (\<lambda>ed. case engine_ready eng ed of (ready, ed') \<Rightarrow> (Ok ready, ed')))"
  unfolding keeps_def
proof
  fix d :: "'a driver"
  obtain r ed where ready: "engine_ready eng (dr_engine_driver d) = (r, ed)" by fastforce
  have "abs_heads ds (dr_engine_driver (d\<lparr>dr_engine_driver := ed\<rparr>)) = abs_heads ds (dr_engine_driver d)" for ds
    using abs_heads_same [OF engine_ready_heads [OF ready]] by simp
  moreover have "covers ds (d\<lparr>dr_engine_driver := ed\<rparr>) = covers ds d" for ds by (simp add: covers_def)
  ultimately have "simulated d (d\<lparr>dr_engine_driver := ed\<rparr>)"
    unfolding simulated_def using head_steps.none by metis
  then show "simulated d (snd (zoom dr_engine_driver (\<lambda>ed d. d\<lparr>dr_engine_driver := ed\<rparr>)
     (\<lambda>ed. case engine_ready eng ed of (ready, ed') \<Rightarrow> (Ok ready, ed')) d))"
    by (simp add: zoom_def ready)
qed

definition environment :: "externals \<Rightarrow> 'e engine \<Rightarrow> ('e driver \<Rightarrow> 'e driver) \<Rightarrow> bool" where
  "environment ex eng f \<longleftrightarrow> (\<forall>d. (driver_step ex eng)\<^sup>*\<^sup>* d (f d))"

lemma environment_simulated: "environment ex eng f \<Longrightarrow> simulated d (f d)"
  by (auto simp: environment_def intro: driver_run_simulated)

lemma await_engine_ready_simulated:
  assumes "\<forall>f \<in> set waits. environment ex eng f"
  shows "keeps simulated (await_engine_ready eng waits)"
  using assms
proof (induction waits)
  case (Cons f waits)
  then have "simulated d (f d)" for d by (auto intro: environment_simulated)
  then show ?case using Cons by (auto intro!: keeps_intros preorder_simulated keeps_engine_ready)
qed (simp add: keeps_lift)

lemma driver_loop_simulated:
  assumes "\<forall>rd \<in> set rounds. environment ex eng (rd_before rd)"
  shows "keeps simulated (driver_loop ex eng rounds)"
  using assms
proof (induction rounds)
  case (Cons rd rounds)
  then have before: "simulated d (rd_before rd d)" for d by (auto intro: environment_simulated)
  have IH: "keeps simulated (driver_loop ex eng rounds)" using Cons by simp
  then have rest: "keeps simulated (case advanced of Some _ \<Rightarrow> driver_loop ex eng rounds
      | None \<Rightarrow> then_control shutdown (\<lambda>_. driver_loop ex eng rounds))" for advanced :: "unit option"
    by (cases advanced) (auto simp: shutdown_def intro!: keeps_then keeps_lift preorder_simulated)
  show ?case unfolding driver_loop.simps
    by (intro keeps_bind keeps_then keeps_modify keeps_attempt keeps_check_shutdown preorder_simulated advance_simulated before rest)
qed (simp add: keeps_lift)

lemma driver_loop_exit: "driver_loop ex eng rounds d = (Ok c, d') \<Longrightarrow> c = ProcessExit 0"
proof (induction rounds arbitrary: d)
  case (Cons rd rounds)
  then show ?case
    by (auto simp: bind_action_def modify_def then_control_def driver_check_shutdown_def shutdown_def with_state_def lift_outcome_def
        split: if_splits prod.splits outcome.splits option.splits control.splits)
qed (simp add: lift_outcome_def)

lemma await_engine_ready_exit: "await_engine_ready eng waits d = (Ok c, d') \<Longrightarrow> c = Continue () \<or> c = ProcessExit 0"
proof (induction waits arbitrary: d)
  case (Cons f waits)
  then show ?case
    by (auto simp: bind_action_def modify_def then_control_def driver_check_shutdown_def shutdown_def with_state_def lift_outcome_def
        split: if_splits prod.splits outcome.splits option.splits control.splits)
qed (simp add: lift_outcome_def)

text \<open>
  C9: A node that is started on a configuration, with whatever arriving between the iterations of its main loop, moves its
  heads along the abstract machine for as long as it runs, with the safe head at or below the unsafe
  one; and if it stops without a panic, it does so with exit code 0, although its driver's error may be the reason.
\<close>

theorem main_loop_refines_heads:
  assumes start: "from_config k get_block e config shutdown_signal = Ok d"
    and waits: "\<forall>f \<in> set waits. environment ex eng f" and rounds: "\<forall>rd \<in> set rounds. environment ex eng (rd_before rd)"
    and run: "driver_run ex eng waits rounds d = (r, d')"
  shows "(\<exists>es ds. head_steps es (abs_heads [] (dr_engine_driver d)) (abs_heads ds (dr_engine_driver d')) \<and> covers ds d') \<and>
    bi_number (ed_safe_head (dr_engine_driver d')) \<le> bi_number (ed_unsafe_head (dr_engine_driver d')) \<and>
    (\<forall>c. r = Ok c \<longrightarrow> c = ProcessExit 0)"
proof -
  have "keeps simulated (driver_run ex eng waits rounds)"
    unfolding driver_run_def
    by (intro keeps_intros preorder_simulated await_engine_ready_simulated [OF waits] driver_loop_simulated [OF rounds])
      (simp add: driver_start_def simulated_same)
  then have "simulated d d'" using run by (rule keepsD)
  moreover have "covers [] d" using from_config_engine [OF start] by (simp add: covers_def)
  ultimately obtain es ds where steps: "head_steps es (abs_heads [] (dr_engine_driver d)) (abs_heads ds (dr_engine_driver d'))"
    and "covers ds d'" unfolding simulated_def by blast
  moreover have "heads_ordered (abs_heads ds (dr_engine_driver d'))"
    using from_config_engine [OF start] by (intro head_steps_ordered [OF steps]) (simp add: heads_ordered_def abs_heads_def)
  moreover have "c = ProcessExit 0" if "r = Ok c" for c
    using run that unfolding driver_run_def then_control_def
    by (auto simp: bind_action_def modify_def lift_outcome_def dest: driver_loop_exit await_engine_ready_exit
        split: prod.splits outcome.splits control.splits)
  ultimately show ?thesis by (auto simp: heads_ordered_def abs_heads_def)
qed

section \<open>Samples\<close>

definition mid_epoch_block :: eth_block where
  "mid_epoch_block = sample_l2_block 1720000000
     (ecotone_calldata (SET_L1_BLOCK_VALUES_ECOTONE_SELECTOR (\<lambda>_. 0)) 1 2 3 4 5 6 7 8 9)"

lemma mid_epoch_block_boundary: "is_epoch_boundary (\<lambda>_. 0) mid_epoch_block (sample_config optimism) = Ok False"
proof -
  have "is_ecotone_but_not_first_block (cfg_chain (sample_config optimism)) 1720000000"
    by (simp add: is_ecotone_but_not_first_block_def is_ecotone_activation_block_def optimism_def)
  moreover have "\<exists>info. try_from_ecotone_block (\<lambda>_. 0) mid_epoch_block = Ok info \<and> hi_sequence_number info = 3"
    using try_from_ecotone_block_Ok [OF _ _ block_info_sample_l2_block, of 1720000000]
    by (simp add: mid_epoch_block_def sample_l2_block_def try_from_ecotone_calldata)
  moreover have "as_u64 (blk_timestamp mid_epoch_block) = Ok 1720000000"
    by (simp add: mid_epoch_block_def sample_l2_block_def as_u64_def)
  ultimately show ?thesis by (auto simp: is_epoch_boundary_def try_from_l2_block_def)
qed

definition offline_calls :: "unit runner_calls" where
  "offline_calls = \<lparr>rc_shutdown_recv = (\<lambda>_. False), rc_provider_try_from = (\<lambda>u. Ok ()), rc_parse_hash = (\<lambda>h. Some 70), rc_keccak256 = (\<lambda>_. 0),
     rc_checkpoint_block_with_txs = (\<lambda>i. return_action (Some mid_epoch_block)), rc_checkpoint_block_number = return_action 7,
     rc_checkpoint_block = (\<lambda>i. return_action (Some mid_epoch_block)), rc_l2_block = (\<lambda>i. return_action None),
     rc_l2_block_number = bail ''offline'', rc_l2_add_peer = (\<lambda>p. return_action ()), rc_sleep = return_action ()\<rparr>"

theorem earlier_boundaries_not_found_witness:
  "latest_checkpoint_block offline_calls (sample_config optimism) () = (Panic (Explicit ''arithmetic operation overflow''), ())"
  using earlier_boundaries_not_found [of offline_calls "()" 7 "()" mid_epoch_block "()" "sample_config optimism"]
    mid_epoch_block_boundary
  by (simp add: offline_calls_def lift_outcome_def)

text \<open>A world that is the number of the newest block of the execution client, which sleeping moves on by five.\<close>

definition boundary_block :: eth_block where
  "boundary_block = (sample_l2_block 1720000000
     (ecotone_calldata (SET_L1_BLOCK_VALUES_ECOTONE_SELECTOR (\<lambda>_. 0)) 1 2 0 4 5 6 7 8 9))\<lparr>blk_logs_bloom := Some []\<rparr>"

definition syncing_calls :: "u64 runner_calls" where
  "syncing_calls = \<lparr>rc_shutdown_recv = (\<lambda>_. False), rc_provider_try_from = (\<lambda>u. Ok ()), rc_parse_hash = (\<lambda>h. Some 70), rc_keccak256 = (\<lambda>_. 0),
     rc_checkpoint_block_with_txs = (\<lambda>i. return_action (Some boundary_block)), rc_checkpoint_block_number = return_action 7,
     rc_checkpoint_block = (\<lambda>i. return_action (Some boundary_block)), rc_l2_block = (\<lambda>i. return_action None),
     rc_l2_block_number = (\<lambda>n. (Ok n, n)), rc_l2_add_peer = (\<lambda>p. return_action ()), rc_sleep = (\<lambda>n. (Ok (), n + 5))\<rparr>"

definition willing_world :: "u64 api_externals" where
  "willing_world =
     (let syncing = \<lparr>ps_status = Syncing, ps_latest_valid_hash = None, ps_validation_error = None\<rparr>
      in \<lparr>ax_hex_decode = hex_decode_simply, ax_hex_encode = hex_encode_simply, ax_jwt_encode = (\<lambda>k c. Ok ''jwt''),
          ax_now = (\<lambda>_. 0), ax_send = (\<lambda>rq. return_action []),
          ax_attributes_to_value = (\<lambda>a. Ok JNull), ax_forkchoice_to_value = (\<lambda>f. Ok JNull), ax_payload_to_value = (\<lambda>p. Ok JNull),
          ax_parse_forkchoice = (\<lambda>b. Ok \<lparr>ar_jsonrpc = ''2.0'', ar_id = 1,
            ar_result = Some \<lparr>fcu_payload_status = syncing, fcu_payload_id = None\<rparr>, ar_error = None\<rparr>),
          ax_parse_status = (\<lambda>b. Ok \<lparr>ar_jsonrpc = ''2.0'', ar_id = 1, ar_result = Some syncing, ar_error = None\<rparr>),
          ax_parse_payload = (\<lambda>b. Err (External ''json'')),
          ax_parse_value = (\<lambda>b. Ok \<lparr>ar_jsonrpc = ''2.0'', ar_id = 1, ar_result = Some JNull, ar_error = None\<rparr>)\<rparr>)"

definition simple_policies :: "'s retry_policies" where
  "simple_policies = \<lparr>rp_update = retry_simply, rp_status = retry_simply, rp_payload = retry_simply, rp_value = retry_simply\<rparr>"

definition checkpoint_runner :: runner where
  "checkpoint_runner = with_sync_mode Checkpoint (runner_from_config ((sample_config optimism)
     \<lparr>cfg_jwt_secret := sample_secret, cfg_l2_engine_url := ''http://localhost:8551'', cfg_checkpoint_sync_url := Some []\<rparr>))"

lemma boundary_block_begins: "is_epoch_boundary (\<lambda>_. 0) boundary_block (sample_config optimism) = Ok True"
proof -
  have "is_ecotone_but_not_first_block (cfg_chain (sample_config optimism)) 1720000000"
    by (simp add: is_ecotone_but_not_first_block_def is_ecotone_activation_block_def optimism_def)
  moreover have "\<exists>info. try_from_ecotone_block (\<lambda>_. 0) boundary_block = Ok info \<and> hi_sequence_number info = 0"
  proof -
    have "block_info_try_from boundary_block = Ok \<lparr>bi_hash = 70, bi_number = 7, bi_parent_hash = 60, bi_timestamp = 1720000000\<rparr>"
      by (simp add: block_info_try_from_Ok boundary_block_def sample_l2_block_def as_u64_def)
    then show ?thesis
      by (auto simp: try_from_ecotone_block_def) (simp add: boundary_block_def sample_l2_block_def try_from_ecotone_calldata)
  qed
  moreover have "as_u64 (blk_timestamp boundary_block) = Ok 1720000000"
    by (simp add: boundary_block_def sample_l2_block_def as_u64_def)
  ultimately show ?thesis by (auto simp: is_epoch_boundary_def try_from_l2_block_def)
qed

lemma is_epoch_boundary_chain: "cfg_chain c = cfg_chain c' \<Longrightarrow> is_epoch_boundary k b c = is_epoch_boundary k b c'"
  by (simp add: is_epoch_boundary_def try_from_l2_block_def)

lemma syncing_choice: "checkpoint_choice syncing_calls checkpoint_runner s = (Ok (Continue boundary_block), s)"
proof -
  have "is_epoch_boundary (\<lambda>_. 0) boundary_block (rn_config checkpoint_runner) = Ok True"
    using boundary_block_begins is_epoch_boundary_chain [of "rn_config checkpoint_runner" "sample_config optimism"]
    by (simp add: checkpoint_runner_def with_sync_mode_def runner_from_config_def)
  moreover have "blk_hash boundary_block = Some 70" by (simp add: boundary_block_def sample_l2_block_def)
  moreover have "rn_checkpoint_hash checkpoint_runner = None"
    by (simp add: checkpoint_runner_def with_sync_mode_def runner_from_config_def)
  ultimately show ?thesis
    by (simp add: checkpoint_choice_def latest_checkpoint_block_def seek_boundary_here syncing_calls_def then_control_def
        bind_action_def lift_outcome_def expect_def)
qed

lemma willing_posts:
  "parse [] = Ok \<lparr>ar_jsonrpc = v, ar_id = i, ar_result = Some r, ar_error = e\<rparr> \<Longrightarrow> api_client api = Some () \<Longrightarrow>
   post retry_simply willing_world parse api method params s = (Ok r, s)"
  by (simp add: post_def attempt_post_def willing_world_def with_state_def bind_action_def lift_outcome_def Let_def numeral_eq_Suc)

lemma syncing_run: "runner_run 3 syncing_calls simple_policies willing_world checkpoint_runner start 0 = start 10"
proof -
  obtain api where api: "engine_api_new hex_decode_simply ''http://localhost:8551'' sample_secret = Ok api" "api_client api = Some ()"
    using sample_secret_read by (simp add: engine_api_new_def Let_def index_def)
  obtain payload where payload: "execution_payload_try_from boundary_block = Ok payload" "pl_block_number payload = 7"
    by (simp add: boundary_block_def sample_l2_block_def execution_payload_try_from_def as_u64_def Let_def)
  let ?syncing = "\<lparr>ps_status = Syncing, ps_latest_valid_hash = None, ps_validation_error = None\<rparr>"
  have "is_available retry_simply willing_world api 0 = (Ok True, 0)"
    unfolding is_available_def by (subst willing_posts [where r = JNull]) (simp_all add: willing_world_def api Let_def)
  moreover have "ax_payload_to_value willing_world payload = Ok JNull" "ax_forkchoice_to_value willing_world f = Ok JNull"
    "ax_parse_status willing_world [] = Ok \<lparr>ar_jsonrpc = ''2.0'', ar_id = 1, ar_result = Some ?syncing, ar_error = None\<rparr>"
    "ax_parse_forkchoice willing_world [] = Ok \<lparr>ar_jsonrpc = ''2.0'', ar_id = 1,
       ar_result = Some \<lparr>fcu_payload_status = ?syncing, fcu_payload_id = None\<rparr>, ar_error = None\<rparr>" for f
    by (simp_all add: willing_world_def Let_def)
  then have "api_new_payload retry_simply willing_world api payload 0 = (Ok ?syncing, 0)"
    "api_forkchoice_updated retry_simply willing_world api (from_single_head 70) None 0 =
      (Ok \<lparr>fcu_payload_status = ?syncing, fcu_payload_id = None\<rparr>, 0)"
    using api(2) by (simp_all add: api_new_payload_def api_forkchoice_updated_def bind_action_def lift_outcome_def willing_posts)
  moreover have "\<not> refused ?syncing" by (simp add: refused_def)
  moreover have "await_block 3 syncing_calls 7 0 = (Ok (Continue ()), 10)"
    by (simp add: numeral_3_eq_3 syncing_calls_def bind_action_def then_control_def check_shutdown_def with_state_def lift_outcome_def)
  moreover have "blk_hash boundary_block = Some 70" by (simp add: boundary_block_def sample_l2_block_def)
  moreover have "rn_sync_mode checkpoint_runner = Checkpoint" "cfg_checkpoint_sync_url (rn_config checkpoint_runner) = Some []"
    "cfg_jwt_secret (rn_config checkpoint_runner) = sample_secret" "cfg_l2_engine_url (rn_config checkpoint_runner) = ''http://localhost:8551''"
    by (simp_all add: checkpoint_runner_def with_sync_mode_def runner_from_config_def)
  moreover have "rc_provider_try_from syncing_calls url = Ok ()" "rc_l2_block syncing_calls b 0 = (Ok None, 0)"
    "rc_l2_add_peer syncing_calls peer 0 = (Ok (), 0)" "ax_hex_decode willing_world = hex_decode_simply" for url b peer
    by (simp_all add: syncing_calls_def willing_world_def lift_outcome_def Let_def)
  moreover have "await_available 3 syncing_calls (is_available retry_simply willing_world api) 0 = (Ok (Continue ()), 0)"
    using calculation(1) by (simp add: numeral_3_eq_3 bind_action_def lift_outcome_def)
  ultimately show ?thesis
    using api payload syncing_choice [of 0]
    by (simp add: runner_run_def checkpoint_sync_def checkpoint_choice_def [symmetric] sync_to_checkpoint_def request_sync_def
        simple_policies_def then_control_def bind_action_def lift_outcome_def expect_def)
qed

theorem driver_waits_for_checkpoint_witness:
  "(\<forall>start. runner_run 3 syncing_calls simple_policies willing_world checkpoint_runner start 0 = start 10) \<and>
   synced_to syncing_calls boundary_block 10"
proof -
  let ?run = "\<lambda>start. runner_run 3 syncing_calls simple_policies willing_world checkpoint_runner start 0"
  have mode: "rn_sync_mode checkpoint_runner = Checkpoint" by (simp add: checkpoint_runner_def with_sync_mode_def)
  have "\<not> (\<exists>r t. \<forall>start. ?run start = (r, t))"
    unfolding syncing_run by (metis fst_conv lift_outcome_def outcome.distinct(1))
  then obtain block s1 t where t: "checkpoint_choice syncing_calls checkpoint_runner 0 = (Ok (Continue block), s1)"
    "synced_to syncing_calls block t" "\<forall>start. ?run start = start t"
    using driver_waits_for_checkpoint [OF mode, of syncing_calls 0 3 simple_policies willing_world] by blast
  have "t = 10" using t(3) [rule_format, of "\<lambda>s. (Ok (Continue ()), s)"] by (simp only: syncing_run) simp
  then show ?thesis using t(1,2) syncing_choice [of 0] by (simp add: syncing_run)
qed

definition closing_round :: "(forkchoice_state \<times> payload_attributes) option round" where
  "closing_round = \<lparr>rd_before = (\<lambda>d. d\<lparr>dr_shutdown_recv := True\<rparr>), rd_fuel = 1, rd_get_block = (\<lambda>_ _. Ok None),
     rd_service_start = Ok ()\<rparr>"

theorem main_loop_refines_heads_witness:
  "\<exists>d'. driver_run sample_externals builder [id] [closing_round] fresh_driver = (Ok (ProcessExit 0), d') \<and>
     bi_number (ed_safe_head (dr_engine_driver d')) \<le> bi_number (ed_unsafe_head (dr_engine_driver d'))"
proof -
  have "environment sample_externals builder (rd_before closing_round)" "environment sample_externals builder id"
    by (auto simp: environment_def closing_round_def intro: driver_step.shutdown)
  moreover obtain r d' where run: "driver_run sample_externals builder [id] [closing_round] fresh_driver = (r, d')" by fastforce
  moreover from run have "\<exists>c. r = Ok c"
    by (auto simp: driver_run_def then_control_def bind_action_def zoom_def engine_ready_def engine_call_def builder_def
        driver_check_shutdown_def with_state_def shutdown_def modify_def lift_outcome_def closing_round_def Let_def)
  ultimately show ?thesis
    using main_loop_refines_heads [OF fresh_driver_run, of "[id]" sample_externals builder "[closing_round]"] by auto
qed

end
