(* ===== verification/Command_Line.thy ===== *)
theory Command_Line
  imports Runner
begin

text \<open>
  \<^verbatim>\<open>src/bin/magi.rs\<close> and \<open>Config::new\<close> of \<^verbatim>\<open>src/src/config/mod.rs\<close>: from the command line, the configuration file and the
  defaults to a running node.

  What serializes to settings is the map of its settings. \<open>figment\<close>, which files them by profile and merges them, is the parameter of
  that name, with its documentation as \<open>figment_laws\<close>: of two merged providers the later one wins, in each profile, and in
  the end the profile \<open>global\<close> wins over \<open>default\<close>. The laws leave out \<open>chain\<close>, the one setting that is a table and is merged
  field by field. The file is read with \<open>nested\<close>, so its tables are profiles; \<open>None\<close> is a file that does not parse,
  which includes one with a setting outside of any table, while a file that is not there has no tables. Parsing the arguments, the files read and the setup of logging
  and metrics are arguments.
  Shown: what takes precedence over what, in which the file's table \<open>global\<close> wins over the command line.
\<close>

section \<open>Settings\<close>

datatype setting = Text string | Port u16 | Flag bool | Chain chain_config | OtherSetting

type_synonym provider = "string \<rightharpoonup> setting"

datatype profile = DefaultProfile | GlobalProfile | CustomProfile string

type_synonym profiles = "profile \<Rightarrow> provider"

text \<open>The library: an empty figment, \<open>Serialized::defaults\<close>, \<open>merge\<close>, and the settings that \<open>extract\<close> reads.\<close>

record figment_lib =
  fig_new :: profiles
  fig_defaults :: "provider \<Rightarrow> profiles"
  fig_merge :: "profiles \<Rightarrow> profiles \<Rightarrow> profiles"
  fig_merged :: "profiles \<Rightarrow> provider"

record cli_config =
  arg_l1_rpc_url :: "string option"
  arg_l1_beacon_url :: "string option"
  arg_l2_rpc_url :: "string option"
  arg_l2_engine_url :: "string option"
  arg_jwt_secret :: "string option"
  arg_checkpoint_sync_url :: "string option"
  arg_rpc_port :: "u16 option"
  arg_rpc_addr :: "string option"
  arg_devnet :: bool

text \<open>Serialization leaves out what is not given, except \<open>devnet\<close>, which is no option.\<close>

definition serialize_cli_config :: "cli_config \<Rightarrow> provider" where
  "serialize_cli_config c = (\<lambda>k.
     if k = ''l1_rpc_url'' then map_option Text (arg_l1_rpc_url c)
     else if k = ''l1_beacon_url'' then map_option Text (arg_l1_beacon_url c)
     else if k = ''l2_rpc_url'' then map_option Text (arg_l2_rpc_url c)
     else if k = ''l2_engine_url'' then map_option Text (arg_l2_engine_url c)
     else if k = ''jwt_secret'' then map_option Text (arg_jwt_secret c)
     else if k = ''checkpoint_sync_url'' then map_option Text (arg_checkpoint_sync_url c)
     else if k = ''rpc_port'' then map_option Port (arg_rpc_port c)
     else if k = ''rpc_addr'' then map_option Text (arg_rpc_addr c)
     else if k = ''devnet'' then Some (Flag (arg_devnet c))
     else None)"

record defaults_provider =
  dp_l2_rpc_url :: string
  dp_l2_engine_url :: string
  dp_rpc_port :: u16
  dp_rpc_addr :: string

definition defaults_provider_default :: defaults_provider where
  "defaults_provider_default =
     \<lparr>dp_l2_rpc_url = ''http://127.0.0.1:8545'', dp_l2_engine_url = ''http://127.0.0.1:8551'',
      dp_rpc_port = 9545, dp_rpc_addr = ''127.0.0.1''\<rparr>"

definition serialize_defaults :: "defaults_provider \<Rightarrow> provider" where
  "serialize_defaults d = [''l2_rpc_url'' \<mapsto> Text (dp_l2_rpc_url d), ''l2_engine_url'' \<mapsto> Text (dp_l2_engine_url d),
     ''rpc_port'' \<mapsto> Port (dp_rpc_port d), ''rpc_addr'' \<mapsto> Text (dp_rpc_addr d)]"

definition chain_provider :: "chain_config \<Rightarrow> provider" where
  "chain_provider value = [''chain'' \<mapsto> Chain value]"

section \<open>The configuration\<close>

fun get_text :: "setting option \<Rightarrow> string option" where
  "get_text (Some (Text s)) = Some s" | "get_text x = None"

fun get_port :: "setting option \<Rightarrow> u16 option" where
  "get_port (Some (Port p)) = Some p" | "get_port x = None"

fun get_flag :: "setting option \<Rightarrow> bool option" where
  "get_flag (Some (Flag b)) = Some b" | "get_flag x = None"

fun get_chain :: "setting option \<Rightarrow> chain_config option" where
  "get_chain (Some (Chain c)) = Some c" | "get_chain x = None"

text \<open>Every field of \<open>Config\<close> is required but \<open>checkpoint_sync_url\<close>, an \<open>Option\<close>, which must be text if it is there.\<close>

definition extract_config :: "provider \<Rightarrow> config option" where
  "extract_config p =
     Option.bind (get_text (p ''l1_rpc_url'')) (\<lambda>l1_rpc_url.
     Option.bind (get_text (p ''l1_beacon_url'')) (\<lambda>l1_beacon_url.
     Option.bind (get_text (p ''l2_rpc_url'')) (\<lambda>l2_rpc_url.
     Option.bind (get_text (p ''l2_engine_url'')) (\<lambda>l2_engine_url.
     Option.bind (get_chain (p ''chain'')) (\<lambda>chain.
     Option.bind (get_text (p ''jwt_secret'')) (\<lambda>jwt_secret.
     Option.bind (if p ''checkpoint_sync_url'' = None then Some None
                  else map_option Some (get_text (p ''checkpoint_sync_url''))) (\<lambda>checkpoint_sync_url.
     Option.bind (get_port (p ''rpc_port'')) (\<lambda>rpc_port.
     Option.bind (get_text (p ''rpc_addr'')) (\<lambda>rpc_addr.
     Option.bind (get_flag (p ''devnet'')) (\<lambda>devnet.
     Some \<lparr>cfg_l1_rpc_url = l1_rpc_url, cfg_l1_beacon_url = l1_beacon_url, cfg_l2_rpc_url = l2_rpc_url,
           cfg_l2_engine_url = l2_engine_url, cfg_chain = chain, cfg_jwt_secret = jwt_secret,
           cfg_checkpoint_sync_url = checkpoint_sync_url, cfg_rpc_port = rpc_port,
           cfg_rpc_addr = rpc_addr, cfg_devnet = devnet\<rparr>))))))))))"

definition config_new :: "figment_lib \<Rightarrow> profiles option \<Rightarrow> cli_config \<Rightarrow> chain_config \<Rightarrow> config control" where
  "config_new fig toml_file cli_config chain =
     (let defaults_provider = fig_defaults fig (serialize_defaults defaults_provider_default);
          chain_provider = fig_defaults fig (chain_provider chain);
          cli_provider = fig_defaults fig (serialize_cli_config cli_config);
          config_res =
            Option.bind toml_file (\<lambda>toml_provider.
            extract_config (fig_merged fig
              (fig_merge fig (fig_merge fig (fig_merge fig (fig_merge fig (fig_new fig) defaults_provider) chain_provider) toml_provider)
                 cli_provider)))
      in case config_res of
           Some config \<Rightarrow> Continue config
         | None \<Rightarrow> ProcessExit 1)"

section \<open>The command line\<close>

record cli =
  cli_network :: string
  cli_l1_rpc_url :: "string option"
  cli_l1_beacon_url :: "string option"
  cli_l2_rpc_url :: "string option"
  cli_sync_mode :: sync_mode
  cli_l2_engine_url :: "string option"
  cli_jwt_secret :: "string option"
  cli_jwt_file :: "string option"
  cli_verbose :: bool
  cli_rpc_port :: "u16 option"
  cli_rpc_addr :: "string option"
  cli_logs_dir :: "string option"
  cli_logs_rotation :: "string option"
  cli_checkpoint_hash :: "string option"
  cli_checkpoint_sync_url :: "string option"
  cli_devnet :: bool

text \<open>The files: contents by path, \<open>None\<close> when reading fails.\<close>

record files =
  fl_read :: "string \<Rightarrow> string option"
  fl_current_dir :: "string option"
  fl_home_dir :: "string option"
  fl_toml :: "string \<Rightarrow> profiles option"
  fl_from_json :: "string \<Rightarrow> chain_config outcome"

definition default_jwt_secret :: "files \<Rightarrow> string option" where
  "default_jwt_secret fl =
     (case fl_current_dir fl of
        None \<Rightarrow> None
      | Some cur_dir \<Rightarrow> fl_read fl (cur_dir @ ''/jwt.hex''))"

definition jwt_secret_from_file :: "files \<Rightarrow> cli \<Rightarrow> string option" where
  "jwt_secret_from_file fl self =
     (case cli_jwt_file self of
        None \<Rightarrow> None
      | Some jwt_file \<Rightarrow>
          (case fl_read fl jwt_file of
             Some content \<Rightarrow> Some content
           | None \<Rightarrow> default_jwt_secret fl))"

definition cli_jwt_secret_of :: "files \<Rightarrow> cli \<Rightarrow> string option" where
  "cli_jwt_secret_of fl self =
     (case cli_jwt_secret self of Some s \<Rightarrow> Some s | None \<Rightarrow> jwt_secret_from_file fl self)"

definition cli_config_from :: "files \<Rightarrow> cli \<Rightarrow> cli_config" where
  "cli_config_from fl value =
     \<lparr>arg_l1_rpc_url = cli_l1_rpc_url value, arg_l1_beacon_url = cli_l1_beacon_url value, arg_l2_rpc_url = cli_l2_rpc_url value,
      arg_l2_engine_url = cli_l2_engine_url value, arg_jwt_secret = cli_jwt_secret_of fl value,
      arg_checkpoint_sync_url = cli_checkpoint_sync_url value, arg_rpc_port = cli_rpc_port value,
      arg_rpc_addr = cli_rpc_addr value, arg_devnet = cli_devnet value\<rparr>"

definition to_config :: "figment_lib \<Rightarrow> files \<Rightarrow> cli \<Rightarrow> config control outcome" where
  "to_config fig fl self =
     and_then (from_network_name (fl_from_json fl) (cli_network self)) (\<lambda>chain.
     and_then (unwrap_opt (fl_home_dir fl) ''called unwrap on a None value'') (\<lambda>home.
     let config_path = home @ ''/.magi/magi.toml'';
         cli_config = cli_config_from fl self
     in Ok (config_new fig (fl_toml fl config_path) cli_config chain)))"

definition magi_main ::
  "figment_lib \<Rightarrow> files \<Rightarrow> unit outcome \<Rightarrow> cli \<Rightarrow> (runner \<Rightarrow> ('s, unit control) action) \<Rightarrow>
   ('s, unit control) action" where
  "magi_main fig fl metrics_init cli run =
     then_control (lift_outcome (to_config fig fl cli)) (\<lambda>config.
     bind_action (lift_outcome metrics_init) (\<lambda>_.
     let runner = with_checkpoint_hash (cli_checkpoint_hash cli) (with_sync_mode (cli_sync_mode cli) (runner_from_config config))
     in bind_action (attempt (run runner)) (\<lambda>res.
        case res of
          Some c \<Rightarrow> return_action c
        | None \<Rightarrow> return_action (ProcessExit 1))))"

section \<open>Precedence\<close>

definition later :: "'a option \<Rightarrow> 'a option \<Rightarrow> 'a option" where
  "later a b = (case b of Some v \<Rightarrow> Some v | None \<Rightarrow> a)"

lemma later_simps [simp]: "later a None = a" "later None b = b" "later a (Some v) = Some v"
  by (simp_all add: later_def split: option.split)

definition figment_laws :: "figment_lib \<Rightarrow> bool" where
  "figment_laws fig \<longleftrightarrow>
     (\<forall>p k. fig_new fig p k = None) \<and>
     (\<forall>d p k. fig_defaults fig d p k = (if p = DefaultProfile then d k else None)) \<and>
     (\<forall>a b p k. k \<noteq> ''chain'' \<longrightarrow> fig_merge fig a b p k = later (a p k) (b p k)) \<and>
     (\<forall>a k. k \<noteq> ''chain'' \<longrightarrow> fig_merged fig a k = later (a DefaultProfile k) (a GlobalProfile k))"

text \<open>A setting: of the file's \<open>global\<close> table, else \<open>cli\<close>, else of its \<open>default\<close> table, else \<open>fallback\<close>.\<close>

definition layered :: "(setting option \<Rightarrow> 'a option) \<Rightarrow> profiles \<Rightarrow> string \<Rightarrow> 'a option \<Rightarrow> 'a option \<Rightarrow> 'a option" where
  "layered get tables k cli fallback =
     (case tables GlobalProfile k of
        Some v \<Rightarrow> get (Some v)
      | None \<Rightarrow>
          (case cli of
             Some x \<Rightarrow> Some x
           | None \<Rightarrow> (case tables DefaultProfile k of Some v \<Rightarrow> get (Some v) | None \<Rightarrow> fallback)))"

lemma layered_setting:
  assumes "x = later (later (later d (tables DefaultProfile k)) c) (tables GlobalProfile k)"
    and "c = map_option f cli" "d = map_option f fallback" "\<And>y. get (Some (f y)) = Some y" "get None = None"
  shows "get x = layered get tables k cli fallback"
  using assms by (cases fallback) (simp_all add: layered_def split: option.split)

text \<open>The settings before extraction.\<close>

lemma merged_settings:
  assumes "figment_laws fig" "config_new fig toml cli chain = Continue config"
  obtains tables m where "toml = Some tables" "extract_config m = Some config"
    "\<And>k. k \<noteq> ''chain'' \<Longrightarrow> m k = later (later (later (serialize_defaults defaults_provider_default k) (tables DefaultProfile k))
       (serialize_cli_config cli k)) (tables GlobalProfile k)"
proof -
  obtain tables where toml: "toml = Some tables" using assms(2) by (cases toml) (simp_all add: config_new_def)
  define m where "m = fig_merged fig (fig_merge fig (fig_merge fig (fig_merge fig (fig_merge fig (fig_new fig)
    (fig_defaults fig (serialize_defaults defaults_provider_default))) (fig_defaults fig (chain_provider chain))) tables)
    (fig_defaults fig (serialize_cli_config cli)))"
  have "extract_config m = Some config"
    using assms(2) by (simp add: config_new_def toml m_def Let_def split: option.splits)
  moreover have "m k = later (later (later (serialize_defaults defaults_provider_default k) (tables DefaultProfile k))
       (serialize_cli_config cli k)) (tables GlobalProfile k)" if "k \<noteq> ''chain''" for k
    using assms(1) that by (simp add: m_def figment_laws_def chain_provider_def)
  ultimately show thesis using that [OF toml] by blast
qed

text \<open>
  C40: If there is a configuration, the file has parsed, and every setting outside \<open>chain\<close> is that of the file's table \<open>global\<close>, else that
  of the command line, else that of the file's table \<open>default\<close>, else the built-in default. So the command line yields to
  \<open>global\<close>; and \<open>devnet\<close>, which the command line always gives, is never that of the table \<open>default\<close>.
\<close>

theorem config_precedence:
  assumes "figment_laws fig" "config_new fig toml cli chain = Continue config"
  shows "\<exists>tables. toml = Some tables \<and>
    Some (cfg_l1_rpc_url config) = layered get_text tables ''l1_rpc_url'' (arg_l1_rpc_url cli) None \<and>
    Some (cfg_l1_beacon_url config) = layered get_text tables ''l1_beacon_url'' (arg_l1_beacon_url cli) None \<and>
    Some (cfg_l2_rpc_url config) = layered get_text tables ''l2_rpc_url'' (arg_l2_rpc_url cli) (Some ''http://127.0.0.1:8545'') \<and>
    Some (cfg_l2_engine_url config) = layered get_text tables ''l2_engine_url'' (arg_l2_engine_url cli) (Some ''http://127.0.0.1:8551'') \<and>
    Some (cfg_jwt_secret config) = layered get_text tables ''jwt_secret'' (arg_jwt_secret cli) None \<and>
    cfg_checkpoint_sync_url config = layered get_text tables ''checkpoint_sync_url'' (arg_checkpoint_sync_url cli) None \<and>
    Some (cfg_rpc_port config) = layered get_port tables ''rpc_port'' (arg_rpc_port cli) (Some 9545) \<and>
    Some (cfg_rpc_addr config) = layered get_text tables ''rpc_addr'' (arg_rpc_addr cli) (Some ''127.0.0.1'') \<and>
    Some (cfg_devnet config) = layered get_flag tables ''devnet'' (Some (arg_devnet cli)) None"
proof -
  obtain tables m where toml: "toml = Some tables" and ext: "extract_config m = Some config"
    and m: "\<And>k. k \<noteq> ''chain'' \<Longrightarrow> m k = later (later (later (serialize_defaults defaults_provider_default k) (tables DefaultProfile k))
       (serialize_cli_config cli k)) (tables GlobalProfile k)"
    using merged_settings [OF assms] by metis
  have fields: "get_text (m ''l1_rpc_url'') = Some (cfg_l1_rpc_url config)" "get_text (m ''l1_beacon_url'') = Some (cfg_l1_beacon_url config)"
    "get_text (m ''l2_rpc_url'') = Some (cfg_l2_rpc_url config)" "get_text (m ''l2_engine_url'') = Some (cfg_l2_engine_url config)"
    "get_text (m ''jwt_secret'') = Some (cfg_jwt_secret config)" "get_text (m ''checkpoint_sync_url'') = cfg_checkpoint_sync_url config"
    "get_port (m ''rpc_port'') = Some (cfg_rpc_port config)" "get_text (m ''rpc_addr'') = Some (cfg_rpc_addr config)"
    "get_flag (m ''devnet'') = Some (cfg_devnet config)"
    using ext by (auto simp: extract_config_def bind_eq_Some_conv split: if_splits)
  show ?thesis
    unfolding fields [symmetric]
    by (intro exI [of _ tables] conjI layered_setting [OF m, where f = Text] layered_setting [OF m, where f = Port] layered_setting [OF m, where f = Flag] toml)
      (simp_all add: serialize_cli_config_def serialize_defaults_def defaults_provider_default_def)
qed

text \<open>A file whose tables \<open>global\<close> and \<open>default\<close> each set some of what the command line sets.\<close>

definition sample_figment :: figment_lib where
  "sample_figment =
     \<lparr>fig_new = (\<lambda>_. Map.empty), fig_defaults = (\<lambda>d p. if p = DefaultProfile then d else Map.empty),
      fig_merge = (\<lambda>a b p. a p ++ b p), fig_merged = (\<lambda>a. a DefaultProfile ++ a GlobalProfile)\<rparr>"

definition sample_toml :: profiles where
  "sample_toml p =
     (case p of
        GlobalProfile \<Rightarrow> [''l1_rpc_url'' \<mapsto> Text ''global'']
      | DefaultProfile \<Rightarrow> [''l1_beacon_url'' \<mapsto> Text ''beacon'', ''jwt_secret'' \<mapsto> Text ''file'', ''devnet'' \<mapsto> Flag True]
      | CustomProfile _ \<Rightarrow> Map.empty)"

definition sample_args :: cli_config where
  "sample_args = \<lparr>arg_l1_rpc_url = Some ''cli'', arg_l1_beacon_url = None, arg_l2_rpc_url = None, arg_l2_engine_url = None,
     arg_jwt_secret = Some ''secret'', arg_checkpoint_sync_url = None, arg_rpc_port = None, arg_rpc_addr = None, arg_devnet = False\<rparr>"

theorem config_precedence_witness:
  "\<exists>config. config_new sample_figment (Some sample_toml) sample_args optimism = Continue config \<and> cfg_l1_rpc_url config = ''global'' \<and>
     cfg_l1_beacon_url config = ''beacon'' \<and> cfg_jwt_secret config = ''secret'' \<and> cfg_rpc_port config = 9545 \<and> \<not> cfg_devnet config"
proof -
  have laws: "figment_laws sample_figment"
    by (simp add: figment_laws_def sample_figment_def map_add_def later_def)
  obtain config where c: "config_new sample_figment (Some sample_toml) sample_args optimism = Continue config"
    by (simp add: config_new_def extract_config_def sample_figment_def map_add_def serialize_cli_config_def serialize_defaults_def
        chain_provider_def sample_toml_def sample_args_def)
  show ?thesis
    using config_precedence [OF laws c] c by (auto simp: layered_def sample_toml_def sample_args_def)
qed

end
