(* ===== verification/Rpc.thy ===== *)
theory Rpc
  imports Head_Info Text_Format
begin

text \<open>
  \<^verbatim>\<open>src/src/rpc/mod.rs\<close> and \<^verbatim>\<open>src/src/version/mod.rs\<close>: the methods of the node's own RPC interface.

  The provider of the execution client is the record \<open>rpc_calls\<close>, each call answered once. The errors of the JSON-RPC server
  are \<open>Eyre\<close> values with the text of \<open>Error::Custom\<close>. What Cargo puts into the binary, name and version of the package and
  whether assertions are on, are arguments. Shown: the output root commits to the fields returned with it.
\<close>

section \<open>The version\<close>

record version =
  vs_name :: string
  vs_version :: string
  vs_meta :: string

definition version_build :: "bool \<Rightarrow> string \<Rightarrow> string \<Rightarrow> version" where
  "version_build debug_assertions pkg_name pkg_version =
     (let meta = if debug_assertions then ''dev'' else ''release''
      in \<lparr>vs_name = pkg_name, vs_version = pkg_version, vs_meta = meta\<rparr>)"

definition version_fmt :: "version \<Rightarrow> string" where
  "version_fmt self = vs_name self @ vs_version self @ ''-'' @ vs_meta self"

section \<open>The methods\<close>

record rpc_calls =
  rl_provider_try_from :: "string \<Rightarrow> unit outcome"
  rl_get_block :: "u64 \<Rightarrow> eth_block option outcome"
  rl_get_proof :: "address \<Rightarrow> h256 list \<Rightarrow> h256 \<Rightarrow> h256 outcome"
  rl_keccak256 :: "bytes \<Rightarrow> h256"

record rpc_server =
  rs_version :: version
  rs_config :: config

record output_root_response =
  or_output_root :: h256
  or_version :: h256
  or_state_root :: h256
  or_withdrawal_storage_root :: h256

fun convert_err :: "'a outcome \<Rightarrow> 'a outcome" where
  "convert_err (Err (External e)) = Err (Eyre e)"
| "convert_err r = r"

definition compute_l2_output_root :: "(bytes \<Rightarrow> h256) \<Rightarrow> eth_block \<Rightarrow> h256 \<Rightarrow> h256 outcome" where
  "compute_l2_output_root keccak256 block storage_root =
     (let version = (0 :: h256)
      in and_then (unwrap_opt (blk_hash block) ''called unwrap on a None value'') (\<lambda>hash.
         Ok (keccak256 (to_be_bytes 32 version @ to_be_bytes 32 (blk_state_root block) @
               to_be_bytes 32 storage_root @ to_be_bytes 32 hash))))"

definition output_at_block :: "rpc_calls \<Rightarrow> rpc_server \<Rightarrow> u64 \<Rightarrow> output_root_response outcome" where
  "output_at_block rl self block_number =
     and_then (convert_err (rl_provider_try_from rl (cfg_l2_rpc_url (rs_config self)))) (\<lambda>_.
     and_then (convert_err (rl_get_block rl block_number)) (\<lambda>found.
     and_then (ok_or found ''unable to get block'') (\<lambda>block.
     let state_root = blk_state_root block
     in and_then (ok_or (blk_hash block) ''block hash not found'') (\<lambda>block_hash.
        and_then (convert_err (rl_get_proof rl (cc_l2_to_l1_message_passer (cfg_chain (rs_config self))) [] block_hash)) (\<lambda>storage_hash.
        and_then (compute_l2_output_root (rl_keccak256 rl) block storage_hash) (\<lambda>output_root.
        Ok \<lparr>or_output_root = output_root, or_version = 0, or_state_root = state_root,
            or_withdrawal_storage_root = storage_hash\<rparr>))))))"

definition rollup_config :: "rpc_server \<Rightarrow> external_chain_config outcome" where
  "rollup_config self = external_from_chain_config (cfg_chain (rs_config self))"

definition rpc_version :: "rpc_server \<Rightarrow> string outcome" where
  "rpc_version self = Ok (version_fmt (rs_version self))"

text \<open>
  The server is bound to its address and then runs on its own; binding, the address it got and the start are calls of
  \<open>jsonrpsee\<close>.
\<close>

record ('server, 'addr) server_calls =
  sr_build :: "string \<Rightarrow> 'server outcome"
  sr_local_addr :: "'server \<Rightarrow> 'addr outcome"
  sr_start :: "'server \<Rightarrow> rpc_server \<Rightarrow> unit outcome"

definition run_server :: "('server, 'addr) server_calls \<Rightarrow> version \<Rightarrow> config \<Rightarrow> 'addr outcome" where
  "run_server sr version config =
     (let port = cfg_rpc_port config;
          addr = cfg_rpc_addr config
      in and_then (sr_build sr (addr @ '':'' @ show_nat (unat port))) (\<lambda>server.
         and_then (sr_local_addr sr server) (\<lambda>addr.
         let rpc_impl = \<lparr>rs_version = version, rs_config = config\<rparr>
         in and_then (sr_start sr server rpc_impl) (\<lambda>_.
            Ok addr))))"

section \<open>Properties\<close>

lemma run_server_serves_config:
  "run_server sr v config = Ok addr \<Longrightarrow>
   \<exists>server. sr_build sr (cfg_rpc_addr config @ '':'' @ show_nat (unat (cfg_rpc_port config))) = Ok server \<and>
     sr_local_addr sr server = Ok addr \<and> sr_start sr server \<lparr>rs_version = v, rs_config = config\<rparr> = Ok ()"
  by (auto simp: run_server_def outcome_simps Let_def)

lemma output_at_block_Ok:
  "output_at_block rl self n = Ok r \<longleftrightarrow>
     (\<exists>block hash. rl_provider_try_from rl (cfg_l2_rpc_url (rs_config self)) = Ok () \<and>
        rl_get_block rl n = Ok (Some block) \<and> blk_hash block = Some hash \<and>
        rl_get_proof rl (cc_l2_to_l1_message_passer (cfg_chain (rs_config self))) [] hash = Ok (or_withdrawal_storage_root r) \<and>
        or_version r = 0 \<and> or_state_root r = blk_state_root block \<and>
        or_output_root r = rl_keccak256 rl (to_be_bytes 32 (or_version r) @ to_be_bytes 32 (or_state_root r) @
          to_be_bytes 32 (or_withdrawal_storage_root r) @ to_be_bytes 32 hash))"
proof -
  have conv: "convert_err m = Ok x \<longleftrightarrow> m = Ok x" for m :: "'x outcome" and x by (cases m rule: convert_err.cases) simp_all
  have rec: "\<lparr>or_output_root = a, or_version = b, or_state_root = c, or_withdrawal_storage_root = d\<rparr> = r \<longleftrightarrow>
      or_output_root r = a \<and> or_version r = b \<and> or_state_root r = c \<and> or_withdrawal_storage_root r = d" for a b c d
    by (cases r) auto
  show ?thesis
    by (auto simp: output_at_block_def compute_l2_output_root_def outcome_simps conv rec Let_def)
qed

text \<open>The preimage of the output root determines the reply and the block hash.\<close>

definition output_preimage :: "output_root_response \<Rightarrow> h256 \<Rightarrow> bytes" where
  "output_preimage r hash = to_be_bytes 32 (or_version r) @ to_be_bytes 32 (or_state_root r) @
     to_be_bytes 32 (or_withdrawal_storage_root r) @ to_be_bytes 32 hash"

lemma output_preimage_inject:
  "output_preimage r hash = output_preimage q hash' \<longleftrightarrow>
     or_version r = or_version q \<and> or_state_root r = or_state_root q \<and>
     or_withdrawal_storage_root r = or_withdrawal_storage_root q \<and> hash = hash'"
  by (simp add: output_preimage_def to_be_bytes_32_inject)

text \<open>
  \<open>outputAtBlock\<close> commits to what it reports: two replies with one output root are equal, or their preimages,
  which then differ, collide.
\<close>

lemma output_root_commits:
  assumes "output_at_block rl self n = Ok r" "output_at_block rl self m = Ok q" "or_output_root r = or_output_root q"
  shows "r = q \<or> (\<exists>hash hash'. output_preimage r hash \<noteq> output_preimage q hash' \<and>
    rl_keccak256 rl (output_preimage r hash) = rl_keccak256 rl (output_preimage q hash'))"
proof -
  obtain h where "or_version r = 0" "or_output_root r = rl_keccak256 rl (output_preimage r h)"
    using assms(1) by (auto simp: output_at_block_Ok output_preimage_def)
  moreover obtain h' where "or_version q = 0" "or_output_root q = rl_keccak256 rl (output_preimage q h')"
    using assms(2) by (auto simp: output_at_block_Ok output_preimage_def)
  ultimately show ?thesis using assms(3) output_preimage_inject [of r h q h']
    by (metis (full_types) output_root_response.equality unit.exhaust)
qed

end
