(* ===== verification/Beacon_Api.thy ===== *)
theory Beacon_Api
  imports Watcher_Task Engine_Api
begin

text \<open>
  The requests that \<^verbatim>\<open>src/src/l1/blob_fetcher.rs\<close> makes of the beacon node, and how their JSON answers are
  read. The HTTP exchange, the parser of JSON text and the hexadecimal codec are other crates: they are the
  fields of \<open>beacon_calls\<close>. Reading a number from text is the standard library's.

  Shown: which texts are read as a number; that the answers of a node that serves the API as documented are read
  exactly; and that the data a batcher puts into blobs reach the batcher data of the block.
\<close>

section \<open>Numbers from text\<close>

definition is_digit :: "char \<Rightarrow> bool" where
  "is_digit c \<longleftrightarrow> 48 \<le> (of_char c :: nat) \<and> (of_char c :: nat) < 58"

fun parse_digits :: "nat \<Rightarrow> string \<Rightarrow> u64 outcome" where
  "parse_digits acc [] = Ok (of_nat acc)"
| "parse_digits acc (c # cs) =
     (if \<not> is_digit c then Err (Eyre ''invalid digit found in string'')
      else if 2 ^ 64 \<le> acc * 10 + char_digit c then Err (Eyre ''number too large to fit in target type'')
      else parse_digits (acc * 10 + char_digit c) cs)"

definition parse_u64 :: "string \<Rightarrow> u64 outcome" where
  "parse_u64 s = (case s of
       [] \<Rightarrow> Err (Eyre ''cannot parse integer from empty string'')
     | c # cs \<Rightarrow> if c = CHR ''+'' \<and> cs \<noteq> [] then parse_digits 0 cs else parse_digits 0 s)"

section \<open>JSON values\<close>

text \<open>\<open>serde_json::Value\<close>; the entries of an object have distinct keys.\<close>

datatype json_value =
  VNull | VBool bool | VNumber string | VString string | VArray "json_value list" | VObject "(string \<times> json_value) list"

fun json_get :: "string \<Rightarrow> json_value \<Rightarrow> json_value option" where
  "json_get key (VObject entries) = map_of entries key"
| "json_get key v = None"

fun as_str :: "json_value \<Rightarrow> string option" where
  "as_str (VString s) = Some s"
| "as_str v = None"

fun deserialize_string :: "json_value \<Rightarrow> string outcome" where
  "deserialize_string (VString s) = Ok s"
| "deserialize_string v = Err (Eyre ''invalid type: expected a string'')"

definition deserialize_string_to_u64 :: "json_value \<Rightarrow> u64 outcome" where
  "deserialize_string_to_u64 v = and_then (deserialize_string v) parse_u64"

fun trim_start_0x :: "string \<Rightarrow> string" where
  "trim_start_0x (a # b # s) = (if a = CHR ''0'' \<and> b = CHR ''x'' then trim_start_0x s else a # b # s)"
| "trim_start_0x s = s"

definition deserialize_blob_bytes :: "(string \<Rightarrow> bytes outcome) \<Rightarrow> json_value \<Rightarrow> bytes outcome" where
  "deserialize_blob_bytes hex_decode v = and_then (deserialize_string v) (\<lambda>s. hex_decode (trim_start_0x s))"

text \<open>
  The derived reader of \<open>BlobSidecar\<close>. From an object it takes the two fields in the order they come in and ignores all
  others; from an array it takes the two elements.
\<close>

fun read_sidecar_fields ::
  "(string \<Rightarrow> bytes outcome) \<Rightarrow> (string \<times> json_value) list \<Rightarrow> u64 option \<Rightarrow> bytes option \<Rightarrow> blob_sidecar outcome" where
  "read_sidecar_fields hex_decode [] idx blob =
     and_then (ok_or idx ''missing field `index`'') (\<lambda>i.
     and_then (ok_or blob ''missing field `blob`'') (\<lambda>blob. Ok \<lparr>bsc_index = i, bsc_blob = blob\<rparr>))"
| "read_sidecar_fields hex_decode ((key, v) # entries) idx blob =
     (if key = ''index'' then
        and_then (deserialize_string_to_u64 v) (\<lambda>i. read_sidecar_fields hex_decode entries (Some i) blob)
      else if key = ''blob'' then
        and_then (deserialize_blob_bytes hex_decode v) (\<lambda>b. read_sidecar_fields hex_decode entries idx (Some b))
      else read_sidecar_fields hex_decode entries idx blob)"

fun deserialize_sidecar :: "(string \<Rightarrow> bytes outcome) \<Rightarrow> json_value \<Rightarrow> blob_sidecar outcome" where
  "deserialize_sidecar hex_decode (VObject entries) = read_sidecar_fields hex_decode entries None None"
| "deserialize_sidecar hex_decode (VArray [v, b]) =
     and_then (deserialize_string_to_u64 v) (\<lambda>i.
     and_then (deserialize_blob_bytes hex_decode b) (\<lambda>blob. Ok \<lparr>bsc_index = i, bsc_blob = blob\<rparr>))"
| "deserialize_sidecar hex_decode v = Err (Eyre ''expected struct BlobSidecar with 2 elements'')"

fun deserialize_sidecars :: "(string \<Rightarrow> bytes outcome) \<Rightarrow> json_value \<Rightarrow> blob_sidecar list outcome" where
  "deserialize_sidecars hex_decode (VArray vs) = map_outcome (deserialize_sidecar hex_decode) vs"
| "deserialize_sidecars hex_decode v = Err (Eyre ''invalid type: expected a sequence'')"

section \<open>Requests\<close>

record beacon_calls =
  bn_get :: "string \<Rightarrow> bytes outcome"
  bn_from_slice :: "bytes \<Rightarrow> json_value outcome"
  bn_hex_decode :: "string \<Rightarrow> bytes outcome"

definition beacon_data :: "beacon_calls \<Rightarrow> string \<Rightarrow> json_value outcome" where
  "beacon_data bn full_url =
     and_then (bn_get bn full_url) (\<lambda>body.
     and_then (bn_from_slice bn body) (\<lambda>res.
     ok_or (json_get ''data'' res) ''No data in response''))"

definition fetch_blob_sidecars :: "beacon_calls \<Rightarrow> string \<Rightarrow> u64 \<Rightarrow> blob_sidecar list outcome" where
  "fetch_blob_sidecars bn l1_beacon_url slot =
     (let base_url = l1_beacon_url @ ''/eth/v1/beacon/blob_sidecars'';
          full_url = base_url @ ''/'' @ show_nat (unat slot)
      in and_then (beacon_data bn full_url) (deserialize_sidecars (bn_hex_decode bn)))"

definition fetch_beacon_genesis_timestamp :: "beacon_calls \<Rightarrow> string \<Rightarrow> u64 outcome" where
  "fetch_beacon_genesis_timestamp bn l1_beacon_url =
     and_then (beacon_data bn (l1_beacon_url @ ''/eth/v1/beacon/genesis'')) (\<lambda>res.
     and_then (ok_or (json_get ''genesis_time'' res) ''No time'') (\<lambda>res.
     and_then (ok_or (as_str res) ''Expected string'') parse_u64))"

definition fetch_beacon_spec :: "beacon_calls \<Rightarrow> string \<Rightarrow> json_value outcome" where
  "fetch_beacon_spec bn l1_beacon_url = beacon_data bn (l1_beacon_url @ ''/eth/v1/config/spec'')"

text \<open>The reading of \<open>SECONDS_PER_SLOT\<close> in \<open>get_slot_from_time\<close>.\<close>

definition fetch_seconds_per_slot :: "beacon_calls \<Rightarrow> string \<Rightarrow> u64 outcome" where
  "fetch_seconds_per_slot bn l1_beacon_url =
     and_then (fetch_beacon_spec bn l1_beacon_url) (\<lambda>spec.
     and_then (ok_or (json_get ''SECONDS_PER_SLOT'' spec) ''No seconds per slot in beacon spec'') (\<lambda>v.
     and_then (ok_or (as_str v) ''Seconds per slot: expected string'') parse_u64))"

text \<open>The watcher's L1 with its beacon node reached through these requests.\<close>

definition with_beacon :: "beacon_calls \<Rightarrow> string \<Rightarrow> l1_calls \<Rightarrow> l1_calls" where
  "with_beacon bn l1_beacon_url lc =
     lc\<lparr>lc_genesis_timestamp := fetch_beacon_genesis_timestamp bn l1_beacon_url,
        lc_seconds_per_slot := fetch_seconds_per_slot bn l1_beacon_url,
        lc_fetch_blob_sidecars := fetch_blob_sidecars bn l1_beacon_url\<rparr>"

section \<open>Which texts are numbers\<close>

lemma foldl_digits_ge: "acc \<le> foldl (\<lambda>n c. n * 10 + char_digit c) acc cs"
proof (induction cs arbitrary: acc)
  case (Cons c cs)
  have "acc \<le> acc * 10 + char_digit c" by simp
  also have "\<dots> \<le> foldl (\<lambda>n c. n * 10 + char_digit c) (acc * 10 + char_digit c) cs" by (rule Cons.IH)
  finally show ?case by simp
qed simp

lemma parse_digits_Ok:
  "acc < 2 ^ 64 \<Longrightarrow> parse_digits acc cs = Ok n \<longleftrightarrow>
     list_all is_digit cs \<and> foldl (\<lambda>n c. n * 10 + char_digit c) acc cs = unat n"
proof (induction cs arbitrary: acc)
  case Nil
  then show ?case by (auto simp: unat_of_nat take_bit_nat_eq_self)
next
  case (Cons c cs)
  have "foldl (\<lambda>n c. n * 10 + char_digit c) (acc * 10 + char_digit c) cs \<noteq> unat n" if "2 ^ 64 \<le> acc * 10 + char_digit c"
  proof -
    have "unat n < 2 ^ 64" using unsigned_less [of n] by (simp del: unsigned_less)
    then show ?thesis using that foldl_digits_ge [of "acc * 10 + char_digit c" cs] by simp
  qed
  then show ?case using Cons by auto
qed

lemma plus_no_digit [simp]: "\<not> is_digit CHR ''+''"
  by (simp add: is_digit_def)

lemma parse_u64_iff:
  "parse_u64 s = Ok n \<longleftrightarrow>
     (\<exists>ds. (s = ds \<or> s = CHR ''+'' # ds) \<and> ds \<noteq> [] \<and> list_all is_digit ds \<and> read_base 10 ds = unat n)"
  by (cases s) (auto simp: parse_u64_def parse_digits_Ok read_base_def simp del: parse_digits.simps)

lemma is_digit_digit_char: "d < 10 \<Longrightarrow> is_digit (digit_char d)"
  by (simp add: is_digit_def digit_char_def)

lemma parse_show_u64 [simp]: "parse_u64 (show_nat (unat n)) = Ok n"
proof -
  have "list_all is_digit (show_nat (unat n))"
    using set_show_base [of 10] is_digit_digit_char by (auto simp: list_all_iff)
  moreover have "show_nat (unat n) \<noteq> []" by (subst show_base.simps) simp
  ultimately show ?thesis unfolding parse_u64_iff by auto
qed

section \<open>Answers of a beacon node\<close>

text \<open>
  A sidecar as the API documents it: an object with a decimal \<open>index\<close> and the blob in hexadecimal, next to fields that are
  not read here.
\<close>

definition describes_sidecar :: "(bytes \<Rightarrow> string) \<Rightarrow> json_value \<Rightarrow> blob_sidecar \<Rightarrow> bool" where
  "describes_sidecar hex_encode v sc \<longleftrightarrow> (\<exists>entries. v = VObject entries \<and> distinct (map fst entries) \<and>
     map_of entries ''index'' = Some (VString (show_nat (unat (bsc_index sc)))) \<and>
     map_of entries ''blob'' = Some (VString (''0x'' @ hex_encode (bsc_blob sc))))"

lemma trim_hex:
  assumes "\<forall>c \<in> set h. \<exists>d < 16. c = digit_char d"
  shows "trim_start_0x (''0x'' @ h) = h"
proof -
  have "trim_start_0x h = h"
    using assms digit_char_not(2) by (cases h rule: trim_start_0x.cases) auto
  then show ?thesis by simp
qed

lemma read_blob_bytes: "hex_codec hex_encode hex_decode \<Longrightarrow>
    deserialize_blob_bytes hex_decode (VString (''0x'' @ hex_encode bs)) = Ok bs"
  using trim_hex [of "hex_encode bs"] by (simp add: deserialize_blob_bytes_def hex_codec_def)

lemma read_index: "deserialize_string_to_u64 (VString (show_nat (unat n))) = Ok n"
  by (simp add: deserialize_string_to_u64_def)

lemma read_sidecar_entries:
  assumes "distinct (map fst entries)"
    and "case map_of entries ''index'' of None \<Rightarrow> idx = Some i | Some v \<Rightarrow> deserialize_string_to_u64 v = Ok i"
    and "case map_of entries ''blob'' of None \<Rightarrow> blob = Some b | Some v \<Rightarrow> deserialize_blob_bytes hex_decode v = Ok b"
  shows "read_sidecar_fields hex_decode entries idx blob = Ok \<lparr>bsc_index = i, bsc_blob = b\<rparr>"
  using assms
proof (induction entries arbitrary: idx blob)
  case (Cons e entries)
  obtain key v where e: "e = (key, v)" by fastforce
  have fresh: "map_of entries key = None" using Cons.prems(1) e by (simp add: map_of_eq_None_iff)
  show ?case
  proof (cases "key = ''index'' \<or> key = ''blob''")
    case True
    then show ?thesis using Cons.IH Cons.prems e fresh by (auto split: option.splits)
  next
    case False
    then show ?thesis using Cons.IH Cons.prems e by auto
  qed
qed auto

lemma read_sidecar:
  assumes "hex_codec hex_encode hex_decode" "describes_sidecar hex_encode v sc"
  shows "deserialize_sidecar hex_decode v = Ok sc"
proof -
  obtain entries where v: "v = VObject entries" "distinct (map fst entries)"
    and i: "map_of entries ''index'' = Some (VString (show_nat (unat (bsc_index sc))))"
    and b: "map_of entries ''blob'' = Some (VString (''0x'' @ hex_encode (bsc_blob sc)))"
    using assms(2) unfolding describes_sidecar_def by blast
  have "read_sidecar_fields hex_decode entries None None = Ok \<lparr>bsc_index = bsc_index sc, bsc_blob = bsc_blob sc\<rparr>"
    using v(2) by (rule read_sidecar_entries) (simp_all only: i b option.case read_index read_blob_bytes [OF assms(1)])
  then show ?thesis by (simp add: v(1))
qed

text \<open>A node that serves the API under a URL: its genesis time, its slot duration and the blobs of each slot, in order.\<close>

definition serves_data :: "beacon_calls \<Rightarrow> string \<Rightarrow> json_value \<Rightarrow> bool" where
  "serves_data bn url v \<longleftrightarrow> (\<exists>body entries. bn_get bn url = Ok body \<and>
     bn_from_slice bn body = Ok (VObject entries) \<and> map_of entries ''data'' = Some v)"

definition sidecars_of :: "bytes list \<Rightarrow> blob_sidecar list" where
  "sidecars_of blobs = map (\<lambda>(i, b). \<lparr>bsc_index = of_nat i, bsc_blob = b\<rparr>) (enumerate 0 blobs)"

definition serves_beacon :: "beacon_calls \<Rightarrow> string \<Rightarrow> (bytes \<Rightarrow> string) \<Rightarrow> u64 \<Rightarrow> u64 \<Rightarrow> (u64 \<Rightarrow> bytes list) \<Rightarrow> bool" where
  "serves_beacon bn url hex_encode genesis seconds blobs_at \<longleftrightarrow>
     (\<exists>entries. serves_data bn (url @ ''/eth/v1/beacon/genesis'') (VObject entries) \<and>
        map_of entries ''genesis_time'' = Some (VString (show_nat (unat genesis)))) \<and>
     (\<exists>entries. serves_data bn (url @ ''/eth/v1/config/spec'') (VObject entries) \<and>
        map_of entries ''SECONDS_PER_SLOT'' = Some (VString (show_nat (unat seconds)))) \<and>
     (\<forall>slot. \<exists>vs. serves_data bn (url @ ''/eth/v1/beacon/blob_sidecars/'' @ show_nat (unat slot)) (VArray vs) \<and>
        list_all2 (describes_sidecar hex_encode) vs (sidecars_of (blobs_at slot)))"

lemma beacon_data_served: "serves_data bn url v \<Longrightarrow> beacon_data bn url = Ok v"
  by (auto simp: serves_data_def beacon_data_def)

lemma beacon_answers_read:
  assumes "hex_codec hex_encode (bn_hex_decode bn)" "serves_beacon bn url hex_encode genesis seconds blobs_at"
  shows "fetch_beacon_genesis_timestamp bn url = Ok genesis" "fetch_seconds_per_slot bn url = Ok seconds"
    "fetch_blob_sidecars bn url slot = Ok (sidecars_of (blobs_at slot))"
proof -
  show "fetch_beacon_genesis_timestamp bn url = Ok genesis" "fetch_seconds_per_slot bn url = Ok seconds"
    using assms(2) by (auto simp: serves_beacon_def fetch_beacon_genesis_timestamp_def fetch_seconds_per_slot_def
        fetch_beacon_spec_def beacon_data_served)
  obtain vs where vs: "serves_data bn (url @ ''/eth/v1/beacon/blob_sidecars/'' @ show_nat (unat slot)) (VArray vs)"
    "list_all2 (describes_sidecar hex_encode) vs (sidecars_of (blobs_at slot))"
    using assms(2) unfolding serves_beacon_def by blast
  have "map_outcome (deserialize_sidecar (bn_hex_decode bn)) vs = Ok (sidecars_of (blobs_at slot))"
    unfolding map_outcome_eq_Ok using vs(2) read_sidecar [OF assms(1)] by (rule list_all2_mono)
  then show "fetch_blob_sidecars bn url slot = Ok (sidecars_of (blobs_at slot))"
    using beacon_data_served [OF vs(1)] by (simp add: fetch_blob_sidecars_def)
qed

section \<open>From blobs to batcher data\<close>

lemma slot_from_beacon:
  assumes "bf \<in> {blob_fetcher_new, \<lparr>bf_genesis_timestamp = genesis, bf_seconds_per_slot = seconds\<rparr>}"
    and "seconds \<noteq> 0" and "genesis \<le> time"
  shows "get_slot_from_time (Ok genesis) (Ok seconds) time bf =
    (Ok ((time - genesis) div seconds), \<lparr>bf_genesis_timestamp = genesis, bf_seconds_per_slot = seconds\<rparr>)"
  using assms by (auto simp: get_slot_from_time_def blob_fetcher_new_def slot_of_time_def with_state_def lift_outcome_def
      checked_div_def not_less bind_action_def modify_def)

lemma find_sidecar:
  assumes "i < length blobs" "length blobs < 2 ^ 64"
  shows "List.find (\<lambda>sc. bsc_index sc = of_nat i) (sidecars_of blobs) = Some \<lparr>bsc_index = of_nat i, bsc_blob = blobs ! i\<rparr>"
proof -
  have "(of_nat k :: u64) \<noteq> of_nat i" if "k < i" for k
    using that assms by (simp add: word_of_nat_eq_iff take_bit_nat_eq_self)
  then show ?thesis
    using assms by (auto simp: find_Some_iff sidecars_of_def nth_enumerate_eq intro!: exI [of _ i])
qed

lemma zip_enumerate: "length ys = length xs \<Longrightarrow> zip xs ys = map (\<lambda>(i, x). (x, ys ! i)) (enumerate 0 xs)"
  by (rule nth_equalityI) (simp_all add: nth_enumerate_eq)

lemma decode_served_blobs:
  assumes "length contents = length owners" "length contents < 2 ^ 64" "\<forall>d \<in> set contents. length d \<le> MAX_BLOB_DATA_SIZE"
  shows "decode_blobs (sidecars_of (map encode_blob_data contents))
      (map (\<lambda>(i, tx, h). (i, h)) (filter (\<lambda>(i, tx, h). own tx) (enumerate 0 owners))) =
    Ok (map snd (filter (\<lambda>((tx, h), d). own tx) (zip owners contents)))"
proof -
  let ?own = "filter (\<lambda>(i, tx, h). own tx) (enumerate 0 owners)"
  have served: "\<exists>sc. List.find (\<lambda>b. bsc_index b = of_nat i) (sidecars_of (map encode_blob_data contents)) = Some sc \<and>
      decode_blob_data (bsc_blob sc) = Ok (contents ! i)" if "i < length owners" for i
    using find_sidecar [of i "map encode_blob_data contents"] decode_encode_blob [of "contents ! i"] assms that by simp
  have "decode_blobs (sidecars_of (map encode_blob_data contents)) (map (\<lambda>(i, tx, h). (i, h)) ?own) =
      Ok (map (\<lambda>(i, x). contents ! i) ?own)"
    unfolding decode_blobs_Ok list_all2_map1 list_all2_map2 list_all2_same
    using served by (auto simp: in_set_enumerate_eq)
  also have "map (\<lambda>(i, x). contents ! i) ?own = map snd (filter (\<lambda>((tx, h), d). own tx) (zip owners contents))"
    unfolding zip_enumerate [OF assms(1)] filter_map by (auto simp: comp_def case_prod_unfold)
  finally show ?thesis .
qed

text \<open>
  C19: From the batcher to the pipeline: when the beacon node serves the blobs of the block's slot by the documented API, in the order of the block's
  transactions, the batcher data of the block are the calldata and then exactly the contents that were encoded into
  the blobs of the batcher's own transactions. The slot is the one of the block's time, and the beacon chain's parameters, fetched
  or remembered, are remembered afterwards.
\<close>

theorem blob_contents_reach_watcher:
  assumes "hex_codec hex_encode (bn_hex_decode bn)" "serves_beacon bn url hex_encode genesis seconds blobs_at"
    and "seconds \<noteq> 0" "as_u64 (blk_timestamp block) = Ok time" "genesis \<le> time"
    and "iw_blob_fetcher w \<in> {blob_fetcher_new, \<lparr>bf_genesis_timestamp = genesis, bf_seconds_per_slot = seconds\<rparr>}"
    and "list_all (\<lambda>tx. carries_calldata (iw_config w) tx \<longrightarrow> tx_blob_hashes tx = []) (blk_transactions block)"
    and "blobs_at ((time - genesis) div seconds) = map encode_blob_data contents"
    and "length contents = length (block_blobs (blk_transactions block))" "length contents < 2 ^ 64"
    and "\<forall>d \<in> set contents. length d \<le> MAX_BLOB_DATA_SIZE"
  shows "\<exists>bf \<in> {blob_fetcher_new, \<lparr>bf_genesis_timestamp = genesis, bf_seconds_per_slot = seconds\<rparr>}.
    get_batcher_transactions (with_beacon bn url lc) block w =
      (Ok (map tx_input (filter (carries_calldata (iw_config w)) (blk_transactions block)) @
           map snd (filter (\<lambda>((tx, h), d). carries_blobs (iw_config w) tx) (zip (block_blobs (blk_transactions block)) contents))),
       w\<lparr>iw_blob_fetcher := bf\<rparr>)"
proof -
  let ?txs = "blk_transactions block" and ?lc = "with_beacon bn url lc"
  let ?calldata = "map tx_input (filter (carries_calldata (iw_config w)) ?txs)"
  let ?blobs = "map (\<lambda>(i, tx, h). (i, h)) (filter (\<lambda>(i, tx, h). carries_blobs (iw_config w) tx) (enumerate 0 (block_blobs ?txs)))"
  let ?own = "map snd (filter (\<lambda>((tx, h), d). carries_blobs (iw_config w) tx) (zip (block_blobs ?txs) contents))"
  have col: "collect_batcher_data (iw_config w) 0 ?txs = (?calldata, ?blobs)"
    using collect_calldata [of "iw_config w" 0 ?txs] collect_blobs [OF assms(7), of 0] by (simp add: prod_eq_iff)
  have decoded: "decode_blobs (sidecars_of (map encode_blob_data contents)) ?blobs = Ok ?own"
    using decode_served_blobs [OF assms(9-11)] .
  have lc: "lc_genesis_timestamp ?lc = Ok genesis" "lc_seconds_per_slot ?lc = Ok seconds"
    "lc_fetch_blob_sidecars ?lc slot = Ok (sidecars_of (blobs_at slot))" for slot
    using beacon_answers_read [OF assms(1,2)] by (simp_all add: with_beacon_def)
  show ?thesis
  proof (cases "?blobs = []")
    case True
    then have "?own = []" using decoded by (simp del: map_is_Nil_conv)
    then have "get_batcher_transactions ?lc block w = (Ok (?calldata @ ?own), w\<lparr>iw_blob_fetcher := iw_blob_fetcher w\<rparr>)"
      using True by (simp add: get_batcher_transactions_def with_state_def col lift_outcome_def)
    then show ?thesis using assms(6) by blast
  next
    case False
    then have "get_batcher_transactions ?lc block w =
        (Ok (?calldata @ ?own), w\<lparr>iw_blob_fetcher := \<lparr>bf_genesis_timestamp = genesis, bf_seconds_per_slot = seconds\<rparr>\<rparr>)"
      unfolding get_batcher_transactions_def with_state_def col
      by (simp add: assms(4,8) lc bind_action_def lift_outcome_def zoom_def slot_from_beacon [OF assms(6,3,5)] decoded)
    then show ?thesis by blast
  qed
qed

text \<open>A beacon node with one blob in every slot, and a block whose one transaction is the batcher's with that blob.\<close>

definition sample_beacon :: beacon_calls where
  "sample_beacon =
     \<lparr>bn_get = (\<lambda>url. Ok (if url = ''b/eth/v1/beacon/genesis'' then [0] else if url = ''b/eth/v1/config/spec'' then [1] else [2])),
      bn_from_slice = (\<lambda>body. Ok (VObject [(''data'',
        if body = [0] then VObject [(''genesis_time'', VString (show_nat 10))]
        else if body = [1] then VObject [(''SECONDS_PER_SLOT'', VString (show_nat 12))]
        else VArray [VObject [(''blob'', VString (''0x'' @ hex_encode_simply (encode_blob_data [1, 2, 3]))),
          (''index'', VString (show_nat 0)), (''kzg_proof'', VNull)]])])),
      bn_hex_decode = hex_decode_simply\<rparr>"

lemma sample_beacon_serves:
  "serves_beacon sample_beacon ''b'' hex_encode_simply 10 12 (\<lambda>slot. map encode_blob_data [[1, 2, 3]])"
proof -
  let ?v = "VObject [(''blob'', VString (''0x'' @ hex_encode_simply (encode_blob_data [1, 2, 3]))),
    (''index'', VString (show_nat 0)), (''kzg_proof'', VNull)]"
  have "serves_data sample_beacon (''b'' @ ''/eth/v1/beacon/blob_sidecars/'' @ show_nat (unat slot)) (VArray [?v])" for slot :: u64
    by (simp add: serves_data_def sample_beacon_def)
  moreover have "list_all2 (describes_sidecar hex_encode_simply) [?v] (sidecars_of (map encode_blob_data [[1, 2, 3]]))"
    by (simp add: sidecars_of_def describes_sidecar_def)
  ultimately show ?thesis unfolding serves_beacon_def
    by (intro conjI allI; (blast | simp add: serves_data_def sample_beacon_def))
qed

definition sample_blob_tx :: eth_transaction where
  "sample_blob_tx = sample_batcher_tx\<lparr>tx_type := Some 3, tx_input := [], tx_blob_hashes := [''h'']\<rparr>"

theorem blob_contents_reach_watcher_witness:
  "fst (get_batcher_transactions (with_beacon sample_beacon ''b'' sample_l1) (sample_l1_block 100 7 [sample_blob_tx]) sample_watcher) =
     Ok [[1, 2, 3]]"
proof -
  let ?block = "sample_l1_block 100 7 [sample_blob_tx]"
  have txs: "blk_transactions ?block = [sample_blob_tx]" by (simp add: sample_l1_block_def)
  have own: "carries_blobs (iw_config sample_watcher) sample_blob_tx" "\<not> carries_calldata (iw_config sample_watcher) sample_blob_tx"
    by (simp_all add: carries_blobs_def carries_calldata_def is_valid_batcher_transaction_def sample_blob_tx_def
        sample_batcher_tx_def sample_watcher_def sample_config_def BLOB_CARRYING_TRANSACTION_TYPE_def)
  have blobs: "block_blobs [sample_blob_tx] = [(sample_blob_tx, ''h'')]"
    by (simp add: block_blobs_def sample_blob_tx_def)
  have time: "as_u64 (blk_timestamp ?block) = Ok 1000"
    by (simp add: sample_l1_block_def sample_l2_block_def as_u64_def)
  have "\<exists>bf \<in> {blob_fetcher_new, \<lparr>bf_genesis_timestamp = 10, bf_seconds_per_slot = 12\<rparr>}.
      get_batcher_transactions (with_beacon sample_beacon ''b'' sample_l1) ?block sample_watcher =
        (Ok (map tx_input (filter (carries_calldata (iw_config sample_watcher)) (blk_transactions ?block)) @
           map snd (filter (\<lambda>((tx, h), d). carries_blobs (iw_config sample_watcher) tx)
             (zip (block_blobs (blk_transactions ?block)) [[1, 2, 3]]))), sample_watcher\<lparr>iw_blob_fetcher := bf\<rparr>)"
    using _ sample_beacon_serves _ time
    by (rule blob_contents_reach_watcher)
      (simp_all add: sample_beacon_def hex_codec_simply txs own blobs MAX_BLOB_DATA_SIZE_def, simp add: sample_watcher_def)
  then show ?thesis by (auto simp: txs own blobs)
qed

end
