(* ===== verification/Telemetry.thy ===== *)
theory Telemetry
  imports Driver Engine_Api "HOL-Library.Sublist"
begin

text \<open>
  \<^verbatim>\<open>src/src/telemetry/logging.rs\<close> and \<^verbatim>\<open>src/src/telemetry/metrics.rs\<close>: where events are logged, what a line on the terminal says, and
  the gauges of the driver.

  The filters, file appenders and colours of the crates \<open>tracing\<close> and \<open>ansi_term\<close> are the fields of \<open>log_externals\<close>; the global
  subscriber is the state that \<open>init\<close> sets, the list of its layers. Standard output is the text printed. Paths are those of the
  standard library: text, compared by components.

  Shown: logging can be set up once, a second attempt panics; a file gets everything from debug level on; of the location of an event,
  the longest path it shares with the current directory is left out; the gauges show the heads as long as their numbers fit into 63 bits.
\<close>

section \<open>Setting up\<close>

datatype rotation = NEVER | DAILY | HOURLY | MINUTELY

datatype colour = Blue | Cyan | Purple | Red | Yellow

record ('filter, 'appender) log_externals =
  le_never :: "string \<Rightarrow> string \<Rightarrow> 'appender"
  le_daily :: "string \<Rightarrow> string \<Rightarrow> 'appender"
  le_hourly :: "string \<Rightarrow> string \<Rightarrow> 'appender"
  le_minutely :: "string \<Rightarrow> string \<Rightarrow> 'appender"
  le_default_env :: "'filter option"
  le_env_filter :: "string \<Rightarrow> 'filter"
  le_paint :: "colour \<Rightarrow> string \<Rightarrow> string"

definition LOG_FILE_NAME_PREFIX :: string where "LOG_FILE_NAME_PREFIX = ''magi.log''"

definition DEFAULT_ROTATION :: string where "DEFAULT_ROTATION = ''daily''"

text \<open>With the strategy, the lines printed on standard error.\<close>

definition get_rotation_strategy :: "string \<Rightarrow> rotation \<times> string list" where
  "get_rotation_strategy val =
     (if val = ''never'' then (NEVER, [])
      else if val = ''daily'' then (DAILY, [])
      else if val = ''hourly'' then (HOURLY, [])
      else if val = ''minutely'' then (MINUTELY, [])
      else (DAILY,
        [''Invalid log rotation strategy provided. Defaulting to rotating daily.'',
         ''Valid rotation options are: 'never', 'daily', 'hourly', 'minutely'.'']))"

definition get_rolling_file_appender ::
  "('f, 'a) log_externals \<Rightarrow> string \<Rightarrow> rotation \<Rightarrow> string \<Rightarrow> 'a" where
  "get_rolling_file_appender le directory rotation file_name_prefix =
     (case rotation of
        NEVER \<Rightarrow> le_never le directory file_name_prefix
      | DAILY \<Rightarrow> le_daily le directory file_name_prefix
      | HOURLY \<Rightarrow> le_hourly le directory file_name_prefix
      | MINUTELY \<Rightarrow> le_minutely le directory file_name_prefix)"

record ansi_term_layer =
  at_verbose :: bool

datatype ('filter, 'appender) layer =
    StdoutLayer ansi_term_layer 'filter
  | FileLayer 'appender 'filter

text \<open>The global subscriber can be set once: \<open>init\<close> of \<open>SubscriberInitExt\<close> panics if there is one.\<close>

definition set_global_default :: "('f, 'a) layer list \<Rightarrow> (('f, 'a) layer list option, unit) action" where
  "set_global_default layers = with_state (\<lambda>global.
     case global of
       None \<Rightarrow> modify (\<lambda>_. Some layers)
     | Some _ \<Rightarrow> lift_outcome (Panic (Explicit ''failed to set global default subscriber'')))"

text \<open>A guard keeps the writer of its appender alive.\<close>

definition build_subscriber ::
  "('f, 'a) log_externals \<Rightarrow> bool \<Rightarrow> 'a option \<Rightarrow> (('f, 'a) layer list option, 'a list) action" where
  "build_subscriber le verbose appender =
     (let stdout_env_filter = (case le_default_env le of
            Some f \<Rightarrow> f
          | None \<Rightarrow> le_env_filter le (if verbose then ''magi=debug,network=debug'' else ''magi=info,network=debug''));
          stdout_formatting_layer = StdoutLayer \<lparr>at_verbose = verbose\<rparr> stdout_env_filter
      in case appender of
           Some appender \<Rightarrow>
             let file_env_filter = le_env_filter le ''magi=debug,network=debug''
             in bind_action (set_global_default [stdout_formatting_layer, FileLayer appender file_env_filter]) (\<lambda>_.
                return_action [appender])
         | None \<Rightarrow>
             bind_action (set_global_default [stdout_formatting_layer]) (\<lambda>_. return_action []))"

definition telemetry_init ::
  "('f, 'a) log_externals \<Rightarrow> bool \<Rightarrow> string option \<Rightarrow> string option \<Rightarrow> (('f, 'a) layer list option, 'a list) action" where
  "telemetry_init le verbose logs_dir logs_rotation =
     (case logs_dir of
        Some dir \<Rightarrow>
          let rotation = fst (get_rotation_strategy (case logs_rotation of Some r \<Rightarrow> r | None \<Rightarrow> DEFAULT_ROTATION));
              appender = Some (get_rolling_file_appender le dir rotation LOG_FILE_NAME_PREFIX)
          in build_subscriber le verbose appender
      | None \<Rightarrow> build_subscriber le verbose None)"

section \<open>Paths\<close>

text \<open>
  \<open>std::path\<close>: a path is text, parsed into components; repeated separators and the name of the current directory are skipped, except
  for the latter in front of a relative path. A component comes with the range of the text it takes up.
\<close>

datatype component = RootDir | CurDir | ParentDir | Normal string

fun located_segments :: "nat \<Rightarrow> string list \<Rightarrow> (nat \<times> string) list" where
  "located_segments start [] = []"
| "located_segments start (w # ws) = (start, w) # located_segments (start + length w + 1) ws"

fun parse_segment :: "nat \<times> string \<Rightarrow> (component \<times> nat \<times> nat) list" where
  "parse_segment (start, w) =
     (if w = [] \<or> w = ''.'' then []
      else [(if w = ''..'' then ParentDir else Normal w, start, start + length w)])"

definition located_components :: "string \<Rightarrow> (component \<times> nat \<times> nat) list" where
  "located_components path =
     (let segments = located_segments 0 (split_at (CHR ''/'') path)
      in (if take 1 path = ''/'' then [(RootDir, 0, 1)] else if hd segments = (0, ''.'') then [(CurDir, 0, 1)] else []) @
         concat (map parse_segment segments))"

definition components :: "string \<Rightarrow> component list" where
  "components path = map fst (located_components path)"

text \<open>The text of what is left of a path after its first components.\<close>

definition path_after :: "nat \<Rightarrow> string \<Rightarrow> string" where
  "path_after n path =
     (case drop n (located_components path) of
        [] \<Rightarrow> []
      | c # cs \<Rightarrow> take (snd (snd (last (c # cs))) - fst (snd c)) (drop (fst (snd c)) path))"

text \<open>\<open>Path::ancestors\<close>, the path itself first; the root and the empty path have no parent.\<close>

function ancestors :: "component list \<Rightarrow> component list list" where
  "ancestors cs = cs # (if cs = [] \<or> last cs = RootDir then [] else ancestors (butlast cs))"
  by pat_completeness auto
termination by (relation "measure length") auto

declare ancestors.simps [simp del]

text \<open>\<open>Path::strip_prefix\<close>.\<close>

definition strip_path_prefix :: "string \<Rightarrow> component list \<Rightarrow> string option" where
  "strip_path_prefix path dir = (if prefix dir (components path) then Some (path_after (length dir) path) else None)"

section \<open>A line on the terminal\<close>

datatype level = ERROR | WARN | INFO | DEBUG | TRACE

text \<open>
  The value of a field, by the method of the visitor that records it. Numbers of floating point, errors and values of other
  types come with the text that their own formatting gives.
\<close>

datatype field_value =
    F64 string
  | I64 u64
  | U64 u64
  | Bool bool
  | Str string
  | Error string
  | Debug string

record log_event =
  ev_level :: level
  ev_target :: string
  ev_name :: string
  ev_fields :: "field_value list"

definition show_int :: "int \<Rightarrow> string" where
  "show_int i = (if i < 0 then ''-'' @ show_nat (nat (- i)) else show_nat (nat i))"

fun visit_field :: "field_value \<Rightarrow> string" where
  "visit_field (F64 s) = s @ [CHR 0x0A]"
| "visit_field (I64 n) = show_int (sint n) @ [CHR 0x0A]"
| "visit_field (U64 n) = show_nat (unat n) @ [CHR 0x0A]"
| "visit_field (Bool b) = (if b then ''true'' else ''false'') @ [CHR 0x0A]"
| "visit_field (Str s) = s @ [CHR 0x0A]"
| "visit_field (Error s) = s @ [CHR 0x0A]"
| "visit_field (Debug s) = s @ [CHR 0x0A]"

definition level_prefix :: "(colour \<Rightarrow> string \<Rightarrow> string) \<Rightarrow> level \<Rightarrow> string" where
  "level_prefix paint level =
     (case level of
        ERROR \<Rightarrow> paint Red ''ERROR'' @ '': ''
      | WARN \<Rightarrow> paint Yellow ''WARN'' @ '': ''
      | INFO \<Rightarrow> paint Blue ''INFO'' @ '': ''
      | DEBUG \<Rightarrow> ''DEBUG: ''
      | TRACE \<Rightarrow> paint Purple ''TRACE'' @ '': '')"

definition common_prefix :: "component list \<Rightarrow> component list \<Rightarrow> component list" where
  "common_prefix location_path relative_path_path =
     (let shared = takeWhile (\<lambda>(a, b). a = b) (zip (rev (ancestors location_path)) (rev (ancestors relative_path_path)))
      in if shared = [] then components [] else fst (last shared))"

definition event_location :: "string option \<Rightarrow> string \<Rightarrow> string" where
  "event_location current_dir name =
     (let original_location = last (split_at (CHR '' '') name);
          relative_path = (case current_dir of Some d \<Rightarrow> d | None \<Rightarrow> []);
          shared = common_prefix (components original_location) (components relative_path);
          location = (case strip_path_prefix original_location shared of Some l \<Rightarrow> l | None \<Rightarrow> original_location)
      in if take 1 location = ''/'' then drop 1 location else location)"

definition format_utc :: "string \<Rightarrow> string" where
  "format_utc utc = rev (dropWhile is_whitespace (rev (takeWhile (\<lambda>c. c \<noteq> CHR ''+'') utc)))"

definition on_event ::
  "(colour \<Rightarrow> string \<Rightarrow> string) \<Rightarrow> string \<Rightarrow> string option \<Rightarrow> ansi_term_layer \<Rightarrow> log_event \<Rightarrow> string" where
  "on_event paint utc current_dir self event =
     ''['' @ paint Cyan (format_utc utc) @ ''] '' @
     level_prefix paint (ev_level event) @
     (if at_verbose self
      then paint Purple (ev_target event) @ '' '' @ ''at '' @ paint Cyan (event_location current_dir (ev_name event)) @ '' ''
      else []) @
     concat (map visit_field (ev_fields event))"

section \<open>Metrics\<close>

text \<open>An \<open>IntGauge\<close> holds a signed number, the cast to which keeps the bits.\<close>

record gauges =
  FINALIZED_HEAD :: u64
  SAFE_HEAD :: u64
  SYNCED :: u64

definition metrics_init :: "(string \<Rightarrow> 'addr outcome) \<Rightarrow> ('addr \<Rightarrow> unit outcome) \<Rightarrow> unit outcome" where
  "metrics_init parse start =
     and_then (name_error ''Could not parse address'' (parse ''0.0.0.0:9200'')) (\<lambda>addr.
     and_then (start addr) (\<lambda>_. Ok ()))"

definition update_metrics :: "'e driver \<Rightarrow> gauges \<Rightarrow> gauges" where
  "update_metrics d g =
     g\<lparr>FINALIZED_HEAD := bi_number (ed_finalized_head (dr_engine_driver d)),
       SAFE_HEAD := bi_number (ed_safe_head (dr_engine_driver d)),
       SYNCED := (if synced d then 1 else 0)\<rparr>"

section \<open>Properties\<close>

text \<open>Set-up succeeds exactly once.\<close>

lemma telemetry_init_once:
  "is_panic (fst (telemetry_init le verbose dir rot (Some layers)))"
  "snd (telemetry_init le verbose dir rot (Some layers)) = Some layers"
  by (auto simp: telemetry_init_def build_subscriber_def set_global_default_def with_state_def bind_action_def
      lift_outcome_def Let_def split: option.splits)

text \<open>
  The terminal layer comes first and follows the environment, else the verbosity; a file, if a directory is given, gets
  everything from debug level on whatever the verbosity and the environment, and its guard is returned.
\<close>

lemma telemetry_init_layers:
  fixes le :: "('f, 'a) log_externals" and verbose dir rot
  defines "f \<equiv> (case le_default_env le of Some f \<Rightarrow> f
    | None \<Rightarrow> le_env_filter le (if verbose then ''magi=debug,network=debug'' else ''magi=info,network=debug''))"
  defines "a \<equiv> \<lambda>d. get_rolling_file_appender le d
    (fst (get_rotation_strategy (case rot of Some r \<Rightarrow> r | None \<Rightarrow> DEFAULT_ROTATION))) LOG_FILE_NAME_PREFIX"
  shows "telemetry_init le verbose dir rot None =
    (case dir of
       None \<Rightarrow> (Ok [], Some [StdoutLayer \<lparr>at_verbose = verbose\<rparr> f])
     | Some d \<Rightarrow> (Ok [a d], Some [StdoutLayer \<lparr>at_verbose = verbose\<rparr> f, FileLayer (a d) (le_env_filter le ''magi=debug,network=debug'')]))"
  by (auto simp: telemetry_init_def build_subscriber_def set_global_default_def with_state_def bind_action_def modify_def
      lift_outcome_def Let_def f_def a_def split: option.splits)

text \<open>Files are rotated daily unless another known strategy is named, and a warning is printed exactly for unknown names.\<close>

lemma rotation_daily_default: "fst (get_rotation_strategy DEFAULT_ROTATION) = DAILY"
  by (simp add: get_rotation_strategy_def DEFAULT_ROTATION_def)

lemma rotation_warns_iff:
  "snd (get_rotation_strategy r) \<noteq> [] \<longleftrightarrow> r \<notin> {''never'', ''daily'', ''hourly'', ''minutely''}"
  by (simp add: get_rotation_strategy_def)

lemma ancestors_relative: "RootDir \<notin> set cs \<Longrightarrow> rev (ancestors cs) = prefixes cs"
proof (induction cs rule: rev_induct)
  case (snoc c cs)
  then show ?case by (subst ancestors.simps) auto
qed (simp add: ancestors.simps)

lemma ancestors_absolute: "RootDir \<notin> set cs \<Longrightarrow> rev (ancestors (RootDir # cs)) = map ((#) RootDir) (prefixes cs)"
proof (induction cs rule: rev_induct)
  case (snoc c cs)
  then show ?case by (subst ancestors.simps) (auto simp: butlast_append)
qed (simp add: ancestors.simps)

lemma takeWhile_prefixes_Cons:
  "takeWhile (\<lambda>(a, b). a = b) (zip (map ((#) x) ps) (map ((#) x) qs)) =
     map (map_prod ((#) x) ((#) x)) (takeWhile (\<lambda>(a, b). a = b) (zip ps qs))"
  by (induction ps qs rule: list_induct2') auto

lemma takeWhile_prefixes:
  "takeWhile (\<lambda>(a, b). a = b) (zip (prefixes xs) (prefixes ys)) =
     map (\<lambda>p. (p, p)) (prefixes (longest_common_prefix xs ys))"
proof (induction xs arbitrary: ys)
  case Nil
  then show ?case by (cases ys) auto
next
  case (Cons x xs)
  show ?case
  proof (cases ys)
    case (Cons y zs)
    have "takeWhile (\<lambda>(a, b). a = b) (zip (map ((#) x) ps) (map ((#) y) qs)) = []" if "x \<noteq> y" for ps qs
      using that by (cases ps; cases qs) auto
    then show ?thesis using Cons Cons.IH [of zs] takeWhile_prefixes_Cons [of y "prefixes xs" "prefixes zs"] by (auto simp: o_def)
  qed simp
qed

text \<open>Only the first component of a path can be the root.\<close>

lemma root_first: "RootDir \<notin> set (tl (components path))" "take 1 path \<noteq> ''/'' \<Longrightarrow> RootDir \<notin> set (components path)"
proof -
  have seg: "RootDir \<notin> fst ` set (concat (map parse_segment ws))" for ws
    by (induction ws) (auto split: if_splits)
  then have "RootDir \<notin> set (tl (map fst (concat (map parse_segment ws))))" for ws
    by (metis list.set_map list.sel(2) list.set_sel(2))
  with seg show "RootDir \<notin> set (tl (components path))" "take 1 path \<noteq> ''/'' \<Longrightarrow> RootDir \<notin> set (components path)"
    by (auto simp: components_def located_components_def Let_def)
qed

lemma components_root: "take 1 path = ''/'' \<Longrightarrow> components path = RootDir # tl (components path)"
  by (simp add: components_def located_components_def Let_def)

text \<open>
  What the code computes from the ancestors is the longest common prefix if both paths are absolute or both relative, and nothing
  otherwise.
\<close>

lemma common_prefix_longest:
  "common_prefix (components l) (components r) =
     (if (take 1 l = ''/'') = (take 1 r = ''/'') then longest_common_prefix (components l) (components r) else [])"
proof -
  have empty: "components [] = []" by (simp add: components_def located_components_def)
  let ?L = "components l" and ?R = "components r"
  consider "take 1 l = ''/''" "take 1 r = ''/''" | "take 1 l \<noteq> ''/''" "take 1 r \<noteq> ''/''"
    | "take 1 l = ''/''" "take 1 r \<noteq> ''/''" | "take 1 l \<noteq> ''/''" "take 1 r = ''/''" by blast
  then show ?thesis
  proof cases
    case 1
    obtain ls rs where e: "?L = RootDir # ls" "?R = RootDir # rs" using components_root 1 by blast
    then have "RootDir \<notin> set ls" "RootDir \<notin> set rs" using root_first(1) [of l] root_first(1) [of r] by simp_all
    then show ?thesis using 1
      by (simp add: e common_prefix_def ancestors_absolute takeWhile_prefixes_Cons takeWhile_prefixes Let_def last_map)
  next
    case 2
    then show ?thesis using root_first(2)
      by (simp add: common_prefix_def ancestors_relative takeWhile_prefixes Let_def last_map)
  next
    case 3
    then obtain ls where e: "?L = RootDir # ls" using components_root by blast
    then have "RootDir \<notin> set ls" using root_first(1) [of l] by simp
    then show ?thesis using 3 root_first(2) [of r]
      by (cases ls rule: rev_cases; cases ?R rule: rev_cases)
        (auto simp: e common_prefix_def ancestors_absolute ancestors_relative empty Let_def takeWhile_eq_Nil_iff hd_zip hd_map)
  next
    case 4
    then obtain rs where e: "?R = RootDir # rs" using components_root by blast
    then have "RootDir \<notin> set rs" using root_first(1) [of r] by simp
    then show ?thesis using 4 root_first(2) [of l]
      by (auto simp: e common_prefix_def ancestors_absolute ancestors_relative empty Let_def takeWhile_eq_Nil_iff hd_zip hd_map)
  qed
qed

text \<open>
  The location printed is therefore that of the event without the directories it shares with the current one, and stripping them
  never fails.
\<close>

lemma event_location_relative:
  fixes name d
  defines "l \<equiv> last (split_at (CHR '' '') name)"
  assumes "(take 1 l = ''/'') = (take 1 d = ''/'')"
  shows "event_location (Some d) name =
    (let rest = path_after (length (longest_common_prefix (components l) (components d))) l
     in if take 1 rest = ''/'' then drop 1 rest else rest)"
  using assms(2) longest_common_prefix_prefix1 [of "components l" "components d"]
  by (simp add: event_location_def common_prefix_longest strip_path_prefix_def l_def Let_def)

lemma event_location_example:
  "event_location (Some ''/home/magi'') ''event /home/magi/src/driver/mod.rs:120'' = ''src/driver/mod.rs:120''"
  "event_location (Some ''/home/magi'') ''event src/driver/mod.rs:120'' = ''src/driver/mod.rs:120''"
  by code_simp+

text \<open>The gauges show the heads as long as their numbers fit, and not beyond.\<close>

lemma gauges_show_heads:
  "sint (SAFE_HEAD (update_metrics d g)) = uint (bi_number (ed_safe_head (dr_engine_driver d))) \<longleftrightarrow>
     uint (bi_number (ed_safe_head (dr_engine_driver d))) < 2 ^ 63"
  "sint (FINALIZED_HEAD (update_metrics d g)) = uint (bi_number (ed_finalized_head (dr_engine_driver d))) \<longleftrightarrow>
     uint (bi_number (ed_finalized_head (dr_engine_driver d))) < 2 ^ 63"
  "SYNCED (update_metrics d g) = 1 \<longleftrightarrow> dr_unfinalized_blocks d \<noteq> []"
proof -
  have "sint w = uint w \<longleftrightarrow> uint w < 2 ^ 63" for w :: u64
  proof
    assume "sint w = uint w"
    then show "uint w < 2 ^ 63" using sint_lt [of w] by simp
  next
    assume "uint w < 2 ^ 63"
    moreover have "- (2 ^ 63) \<le> uint w" by (rule order.trans [OF _ uint_ge_0]) simp
    ultimately show "sint w = uint w" by (simp add: sint_uint signed_take_bit_int_eq_self_iff)
  qed
  then show "sint (SAFE_HEAD (update_metrics d g)) = uint (bi_number (ed_safe_head (dr_engine_driver d))) \<longleftrightarrow>
     uint (bi_number (ed_safe_head (dr_engine_driver d))) < 2 ^ 63"
    "sint (FINALIZED_HEAD (update_metrics d g)) = uint (bi_number (ed_finalized_head (dr_engine_driver d))) \<longleftrightarrow>
     uint (bi_number (ed_finalized_head (dr_engine_driver d))) < 2 ^ 63"
    by (simp_all add: update_metrics_def)
qed (simp add: update_metrics_def synced_def)

end
