(* ===== verification/Network_Binary.thy ===== *)
theory Network_Binary
  imports Network_Service Telemetry
begin

text \<open>
  \<^verbatim>\<open>src/bin/network.rs\<close>: the program that only runs the network service, with a block handler for a fixed chain and signer, and logs the hashes of the
  blocks that arrive.

  The service's task and the main task share the channel of payloads: what the handler has sent is what the loop of \<open>main\<close> receives, and
  the loop ends when the task of the service is gone, with the sending end of the channel. Shown: only recent blocks signed by the fixed
  signer are logged; and any peer can end the program with one short message, on which the task of the service panics while \<open>main\<close> returns without an error.
\<close>

definition network_service :: "(block_handler, 'key) service" where
  "network_service =
     (let addr = SocketAddr (V4 0) 9876; chain_id = 420; recv = 0x715b7219d986641df9efd9c7ef01218d528e19ec;
          block_handler = block_handler_new chain_id recv
      in add_handler block_handler (service_new addr chain_id))"

text \<open>The loop of \<open>main\<close>: the hashes logged.\<close>

fun log_blocks :: "execution_payload list \<Rightarrow> h256 list" where
  "log_blocks [] = []"
| "log_blocks (payload # payloads) = pl_block_hash payload # log_blocks payloads"

text \<open>
  The program while the swarm has selected \<open>xs\<close>: the hashes logged, and whether \<open>main\<close> has returned, which it has not while the service's task
  goes on.
\<close>

definition network_main ::
  "('f, 'a) log_externals \<Rightarrow> 'key swarm_calls \<Rightarrow> 'sig gossip_externals \<Rightarrow> 'id selected list \<Rightarrow>
   (('f, 'a) layer list option, h256 list \<times> bool) action" where
  "network_main le sw ge xs =
     bind_action (telemetry_init le False None None) (\<lambda>guards.
     bind_action (lift_outcome (service_start handler_topics sw network_service)) (\<lambda>network.
     let (r, network') = service_loop handler_topics (block_handle ge) xs network;
         sent = concat (map bh_block_sender (nw_handlers network'))
     in return_action (log_blocks sent, r \<noteq> Ok ())))"

lemma log_blocks_map: "log_blocks ps = map pl_block_hash ps"
  by (induction ps) auto

lemma network_service_starts:
  fixes sw :: "unit swarm_calls"
  shows "service_start handler_topics sw network_service = Ok n \<Longrightarrow>
    starts_with_blocks 420 0x715b7219d986641df9efd9c7ef01218d528e19ec n"
  unfolding starts_with_blocks_def network_service_def Let_def by blast

lemma network_main_cases:
  assumes "network_main le sw ge xs layers = (Ok (hashes, ended), layers')"
  obtains n r n' where "service_start handler_topics sw network_service = Ok n"
    "service_loop handler_topics (block_handle ge) xs n = (r, n')"
    "hashes = map pl_block_hash (concat (map bh_block_sender (nw_handlers n')))" "ended \<longleftrightarrow> r \<noteq> Ok ()"
  using assms
  by (auto simp: network_main_def bind_action_def lift_outcome_def log_blocks_map
      split: prod.splits outcome.splits)

lemma network_binary_logs_signed_blocks:
  fixes sw :: "unit swarm_calls"
  assumes "network_main le sw ge xs layers = (Ok (hashes, ended), layers')" "hash \<in> set hashes"
    and "\<And>now e. Behaviour now e \<in> set xs \<Longrightarrow> clock_in_range now"
  shows "\<exists>payload. pl_block_hash payload = hash \<and>
    received_by_then xs ge 420 0x715b7219d986641df9efd9c7ef01218d528e19ec payload"
proof (rule network_main_cases [OF assms(1)])
  fix n r n'
  assume run: "service_start handler_topics sw network_service = Ok n" "service_loop handler_topics (block_handle ge) xs n = (r, n')"
    "hashes = map pl_block_hash (concat (map bh_block_sender (nw_handlers n')))"
  then obtain h payload where "h \<in> set (nw_handlers n')" "payload \<in> set (bh_block_sender h)" "pl_block_hash payload = hash"
    using assms(2) by auto
  moreover have "received_by_then xs ge 420 0x715b7219d986641df9efd9c7ef01218d528e19ec payload"
    by (rule network_forwards_signed_blocks [OF network_service_starts [OF run(1)] _ run(2) calculation(1,2)]) (rule assms(3))
  ultimately show ?thesis by blast
qed


text \<open>A message that is too short for a signature, from any peer, ends the program.\<close>

lemma short_message_ends_binary:
  fixes sw :: "unit swarm_calls"
  assumes "network_main le sw ge (Behaviour now (Gossipsub (GossipMessage source i msg)) # xs) layers = (Ok (hashes, ended), layers')"
    and "msg_topic msg = blocks_topic 420 ''0''" "ge_decompress_vec ge (msg_data msg) = Ok wire" "length wire < 65"
  shows "ended \<and> hashes = []"
proof (rule network_main_cases [OF assms(1)])
  let ?h = "block_handler_new 420 0x715b7219d986641df9efd9c7ef01218d528e19ec"
  fix n r n'
  assume run: "service_start handler_topics sw network_service = Ok n"
    "service_loop handler_topics (block_handle ge) (Behaviour now (Gossipsub (GossipMessage source i msg)) # xs) n = (r, n')"
    "hashes = map pl_block_hash (concat (map bh_block_sender (nw_handlers n')))" "ended \<longleftrightarrow> r \<noteq> Ok ()"
  have n: "nw_handlers n = [?h]" by (rule starts_with_blocks_network(1) [OF network_service_starts [OF run(1)]])
  have "\<exists>p. decode_message ge ?h msg = Some (Panic p)"
    using assms(2-4) by (simp add: decode_message_def block_handler_new_def decode_pre_ecotone_block_msg_def slice_def slice_from_def Let_def)
  then obtain p where "block_handle ge now msg ?h = (Panic p, ?h)" by (auto simp: block_handle_def with_state_def lift_outcome_def)
  moreover have "list_position (\<lambda>h. msg_topic msg \<in> set (handler_topics h)) [?h] = Some 0"
    using assms(2) by (simp add: handler_topics_def block_handler_new_def)
  ultimately have "service_iteration handler_topics (block_handle ge) (Behaviour now (Gossipsub (GossipMessage source i msg))) n = (Panic p, n)"
    using n by (simp add: service_iteration_def event_handle_def with_state_def zoom_def bind_action_def)
  with run(2) have "r = Panic p" "n' = n" by (auto simp: bind_action_def)
  with run(3,4) n show ?thesis by (simp add: block_handler_new_def)
qed

end
